(* ===== verification/Prelude.thy ===== *)
theory Prelude
  imports Complex_Main "HOL-Library.Multiset"
begin

section \<open>Prelude: JavaScript values, results, tables, runs and comparators\<close>

text \<open>
  What the component theories share.
  \<^item> \<open>jsnum\<close> and \<open>jsval\<close>: the values an \<open>unknown\<close> parameter of the source can hold. A finite
    JavaScript number is its exact rational value; the rounding of IEEE arithmetic is not
    modelled, and neither is the sign of zero. The component headers say where that matters.
  \<^item> \<open>err\<close>: what the code throws. An HTTP error keeps its status and code, the other error
    classes keep a tag; message texts are dropped.
  \<^item> \<open>and_then\<close>: sequencing of steps that may throw.
  \<^item> \<open>toFixed6\<close>: rounding a dollar amount to the six decimals of the database columns.
  \<^item> tables: a database table is the list of its rows; \<open>select_row\<close>, \<open>update_rows\<close> and
    \<open>insert_unless\<close> are SELECT by key, UPDATE .. WHERE key and INSERT .. ON CONFLICT DO NOTHING.
  \<^item> the locale \<open>invariant_run\<close>: an invariant kept by each well-formed operation is kept by a run.
  \<^item> the locale \<open>comparator\<close>: what \<open>Array.prototype.sort\<close> does with a comparator.
\<close>

named_theorems table_simps \<open>selection, update and insertion on tables\<close>

subsection \<open>JavaScript values\<close>

datatype jsnum = Fin rat | PosInf | NegInf | NaN

datatype jsval =
    JUndefined
  | JNull
  | JBool bool
  | JNumber jsnum
  | JString string
  | JArray "jsval list"
  | JObject "(string \<times> jsval) list"

fun js_is_finite :: "jsnum \<Rightarrow> bool" where
  "js_is_finite (Fin q) = True"
| "js_is_finite _ = False"

definition is_whole :: "rat \<Rightarrow> bool" where
  "is_whole q \<longleftrightarrow> of_int \<lfloor>q\<rfloor> = q"

fun js_is_integer :: "jsnum \<Rightarrow> bool" where
  "js_is_integer (Fin q) = is_whole q"
| "js_is_integer _ = False"

definition max_safe_integer :: int where
  "max_safe_integer = 9007199254740991"

fun js_is_safe_integer :: "jsnum \<Rightarrow> bool" where
  "js_is_safe_integer (Fin q) = (is_whole q \<and> \<bar>\<lfloor>q\<rfloor>\<bar> \<le> max_safe_integer)"
| "js_is_safe_integer _ = False"

definition js_epsilon :: rat where
  "js_epsilon = 1 / 2 ^ 52"

lemma is_whole_of_int [simp]: "is_whole (of_int i)"
  by (simp add: is_whole_def)

lemma is_wholeE: "is_whole q \<Longrightarrow> (\<And>i. q = of_int i \<Longrightarrow> P) \<Longrightarrow> P"
  by (metis is_whole_def)

subsection \<open>Errors and results\<close>

datatype err =
    App int string
  | MoneyError
  | CborError string
  | CapabilityError string
  | ConsumedLogError
  | EventLogError
  | AppComposeError
  | GatewayBindingError string
  | GatewayPolicyError
  | ProviderErr int string
  | RateLimitExceeded int
  | Thrown string

type_synonym 'a result = "err + 'a"

definition and_then :: "'e + 'a \<Rightarrow> ('a \<Rightarrow> 'e + 'b) \<Rightarrow> 'e + 'b" where
  "and_then m f = (case m of Inl e \<Rightarrow> Inl e | Inr x \<Rightarrow> f x)"

lemma and_then_simps [simp]:
  "and_then (Inl e) f = Inl e"
  "and_then (Inr x) f = f x"
  by (simp_all add: and_then_def)

lemma and_then_Inr_iff: "and_then m f = Inr y \<longleftrightarrow> (\<exists>x. m = Inr x \<and> f x = Inr y)"
  by (cases m) simp_all

lemma and_then_InrE:
  assumes "and_then m f = Inr y"
  obtains x where "m = Inr x" and "f x = Inr y"
  using assms by (auto simp: and_then_Inr_iff)

lemma and_then_cong [fundef_cong]:
  "m = m' \<Longrightarrow> (\<And>x. m' = Inr x \<Longrightarrow> f x = g x) \<Longrightarrow> and_then m f = and_then m' g"
  by (cases m') simp_all

text \<open>\<open>xs.map(f)\<close> where \<open>f\<close> may throw: the first error ends the loop.\<close>

fun map_result :: "('a \<Rightarrow> 'e + 'b) \<Rightarrow> 'a list \<Rightarrow> 'e + 'b list" where
  "map_result f [] = Inr []"
| "map_result f (x # xs) =
     and_then (f x) (\<lambda>y. and_then (map_result f xs) (\<lambda>ys. Inr (y # ys)))"

lemma map_result_cong [fundef_cong]:
  "xs = ys \<Longrightarrow> (\<And>x. x \<in> set ys \<Longrightarrow> f x = g x) \<Longrightarrow> map_result f xs = map_result g ys"
  by (induction ys arbitrary: xs) (auto intro!: and_then_cong)

lemma map_result_Inr: "map_result (\<lambda>x. Inr (f x)) xs = Inr (map f xs)"
  by (induction xs) simp_all

lemma map_result_Inr_iff:
  "map_result f xs = Inr ys \<longleftrightarrow> list_all2 (\<lambda>x y. f x = Inr y) xs ys"
  by (induction xs arbitrary: ys)
     (auto simp: and_then_Inr_iff list_all2_Cons1)

text \<open>\<open>s.includes(needle)\<close>\<close>

fun contains_text :: "string \<Rightarrow> string \<Rightarrow> bool" where
  "contains_text [] needle = (needle = [])"
| "contains_text (c # cs) needle = (take (length needle) (c # cs) = needle \<or> contains_text cs needle)"

subsection \<open>Six-decimal amounts\<close>

text \<open>
  \<open>Number(x.toFixed(6))\<close>: the nearest multiple of \<open>10^-6\<close>, of two the one larger in absolute
  value. \<open>is_micro\<close> says an amount is such a multiple.
\<close>

definition toFixed6 :: "rat \<Rightarrow> rat" where
  "toFixed6 q = (if q < 0 then - (of_int \<lfloor>- q * 1000000 + 1 / 2\<rfloor> / 1000000)
                 else of_int \<lfloor>q * 1000000 + 1 / 2\<rfloor> / 1000000)"

definition is_micro :: "rat \<Rightarrow> bool" where
  "is_micro q \<longleftrightarrow> is_whole (q * 1000000)"

lemma is_micro_iff: "is_micro q \<longleftrightarrow> (\<exists>i. q = of_int i / 1000000)"
proof
  assume "is_micro q"
  then obtain i where "q * 1000000 = of_int i" by (auto simp: is_micro_def elim: is_wholeE)
  then have "q = of_int i / 1000000" by (simp add: field_simps)
  then show "\<exists>i. q = of_int i / 1000000" by blast
qed (auto simp: is_micro_def)

lemma is_micro_0 [simp]: "is_micro 0"
  by (simp add: is_micro_def is_whole_def)

lemma is_micro_toFixed6 [simp]: "is_micro (toFixed6 q)"
  unfolding is_micro_iff toFixed6_def
  by (cases "q < 0") (auto intro: exI [of _ "- \<lfloor>- q * 1000000 + 1 / 2\<rfloor>"])

lemma toFixed6_micro:
  assumes "is_micro q"
  shows "toFixed6 q = q"
proof -
  obtain i where q: "q = of_int i / 1000000" using assms by (auto simp: is_micro_iff)
  have half: "\<lfloor>of_int j + 1 / 2 :: rat\<rfloor> = j" for j
    by (intro floor_unique) simp_all
  show ?thesis
    using half [of i] half [of "- i"] by (simp add: q toFixed6_def)
qed

lemma toFixed6_nonneg: "0 \<le> q \<Longrightarrow> 0 \<le> toFixed6 q"
  by (simp add: toFixed6_def)

lemma toFixed6_0 [simp]: "toFixed6 0 = 0"
  by (rule toFixed6_micro) simp

lemma is_micro_of_int [simp]: "is_micro (of_int i)"
  unfolding is_micro_iff by (rule exI [of _ "i * 1000000"]) simp

lemma toFixed6_numeral [simp]: "toFixed6 (numeral n) = numeral n" "toFixed6 1 = 1"
  using toFixed6_micro [OF is_micro_of_int, of "numeral n"] toFixed6_micro [OF is_micro_of_int, of 1]
  by simp_all

lemma is_micro_diff: "is_micro p \<Longrightarrow> is_micro q \<Longrightarrow> is_micro (p - q)"
  unfolding is_micro_iff by (metis diff_divide_distrib of_int_diff)

lemma is_micro_min: "is_micro p \<Longrightarrow> is_micro q \<Longrightarrow> is_micro (min p q)"
  by (simp add: min_def)

lemma is_micro_max: "is_micro p \<Longrightarrow> is_micro q \<Longrightarrow> is_micro (max p q)"
  by (simp add: max_def)

subsection \<open>Characters and decimal numerals\<close>

definition is_digit :: "char \<Rightarrow> bool" where
  "is_digit c \<longleftrightarrow> 48 \<le> (of_char c :: nat) \<and> (of_char c :: nat) \<le> 57"

definition digit_val :: "char \<Rightarrow> nat" where
  "digit_val c = of_char c - 48"

definition digit_char :: "nat \<Rightarrow> char" where
  "digit_char d = ''0123456789'' ! d"

fun show_nat :: "nat \<Rightarrow> string" where
  "show_nat n = (if n < 10 then [digit_char n] else show_nat (n div 10) @ [digit_char (n mod 10)])"

declare show_nat.simps [simp del]

lemma show_nat_eval:
  "n < 10 \<Longrightarrow> show_nat n = [digit_char n]"
  "\<not> n < 10 \<Longrightarrow> show_nat n = show_nat (n div 10) @ [digit_char (n mod 10)]"
  by (simp_all add: show_nat.simps [of n])

definition digits_val :: "string \<Rightarrow> nat" where
  "digits_val s = foldl (\<lambda>n c. 10 * n + digit_val c) 0 s"

lemma of_char_digit_char: "d < 10 \<Longrightarrow> of_char (digit_char d) = 48 + d"
proof -
  have "\<forall>d \<in> set [0..<10]. of_char (digit_char d) = 48 + d"
    by (simp add: digit_char_def upt_rec)
  then show "d < 10 \<Longrightarrow> of_char (digit_char d) = 48 + d" by simp
qed

lemma digit_char_props [simp]:
  "d < 10 \<Longrightarrow> is_digit (digit_char d)"
  "d < 10 \<Longrightarrow> digit_val (digit_char d) = d"
  by (simp_all add: is_digit_def digit_val_def of_char_digit_char)

lemma show_nat_digits: "list_all is_digit (show_nat n)"
proof (induction n rule: show_nat.induct)
  case (1 n)
  then show ?case by (subst show_nat.simps) auto
qed

lemma show_nat_nonempty: "show_nat n \<noteq> []"
  by (subst show_nat.simps) simp

lemma digits_val_show_nat [simp]: "digits_val (show_nat n) = n"
proof (induction n rule: show_nat.induct)
  case (1 n)
  then show ?case
    by (subst show_nat.simps) (auto simp: digits_val_def)
qed

lemma digits_val_append:
  "digits_val (s @ t) = digits_val s * 10 ^ length t + digits_val t"
proof (induction t rule: rev_induct)
  case Nil
  then show ?case by (simp add: digits_val_def)
next
  case (snoc c t)
  then show ?case
    by (simp add: digits_val_def algebra_simps flip: append_assoc)
qed

lemma digits_val_replicate0: "digits_val (replicate k (CHR ''0'')) = 0"
  by (induction k) (simp_all add: digits_val_def digit_val_def)

lemma show_nat_length: "n < 10 ^ k \<Longrightarrow> 0 < k \<Longrightarrow> length (show_nat n) \<le> k"
proof (induction n arbitrary: k rule: show_nat.induct)
  case (1 n)
  show ?case
  proof (cases "n < 10")
    case True
    with "1.prems" show ?thesis by (subst show_nat.simps) simp
  next
    case False
    with "1.prems" have "1 < k" by (cases "k = 1") auto
    then obtain j where j: "k = Suc j" "0 < j" by (cases k) auto
    with "1.prems" have "n div 10 < 10 ^ j" by (simp add: less_mult_imp_div_less mult.commute)
    with "1.IH" False j have "length (show_nat (n div 10)) \<le> j" by blast
    with False j show ?thesis by (subst show_nat.simps) simp
  qed
qed

subsection \<open>Accumulating loops\<close>

lemma fold_plus_sum [simp]:
  fixes a :: "'b :: comm_monoid_add"
  shows "fold (\<lambda>x acc. acc + f x) xs a = a + (\<Sum>x \<leftarrow> xs. f x)"
  by (induction xs arbitrary: a) (simp_all add: add.assoc)

lemma sum_list_map_mono:
  fixes f g :: "'a \<Rightarrow> 'b :: ordered_comm_monoid_add"
  shows "(\<And>x. x \<in> set xs \<Longrightarrow> f x \<le> g x) \<Longrightarrow> (\<Sum>x \<leftarrow> xs. f x) \<le> (\<Sum>x \<leftarrow> xs. g x)"
  by (induction xs) (simp_all add: add_mono)

lemma sum_list_map_nonneg:
  fixes f :: "'a \<Rightarrow> 'b :: ordered_comm_monoid_add"
  shows "(\<And>x. x \<in> set xs \<Longrightarrow> 0 \<le> f x) \<Longrightarrow> 0 \<le> (\<Sum>x \<leftarrow> xs. f x)"
  by (induction xs) simp_all

lemma sum_list_map_0:
  fixes f :: "'a \<Rightarrow> 'b :: comm_monoid_add"
  shows "(\<And>x. x \<in> set xs \<Longrightarrow> f x = 0) \<Longrightarrow> (\<Sum>x \<leftarrow> xs. f x) = 0"
  by (induction xs) simp_all

subsection \<open>Tables\<close>

definition select_row :: "('r \<Rightarrow> 'k) \<Rightarrow> 'k \<Rightarrow> 'r list \<Rightarrow> 'r option" where
  "select_row key k t = find (\<lambda>r. key r = k) t"

definition update_rows :: "('r \<Rightarrow> 'k) \<Rightarrow> 'k \<Rightarrow> ('r \<Rightarrow> 'r) \<Rightarrow> 'r list \<Rightarrow> 'r list" where
  "update_rows key k f t = map (\<lambda>r. if key r = k then f r else r) t"

definition insert_unless :: "('r \<Rightarrow> 'k) \<Rightarrow> 'r \<Rightarrow> 'r list \<Rightarrow> 'r list" where
  "insert_unless key r t = (if select_row key (key r) t = None then t @ [r] else t)"

definition keyed :: "('r \<Rightarrow> 'k) \<Rightarrow> 'r list \<Rightarrow> bool" where
  "keyed key t \<longleftrightarrow> distinct (map key t)"

lemma select_row_Nil [table_simps]: "select_row key k [] = None"
  by (simp add: select_row_def)

lemma select_row_Cons [table_simps]:
  "select_row key k (r # t) = (if key r = k then Some r else select_row key k t)"
  by (simp add: select_row_def)

lemma select_row_append [table_simps]:
  "select_row key k (t @ u) =
     (case select_row key k t of None \<Rightarrow> select_row key k u | Some r \<Rightarrow> Some r)"
  by (induction t) (simp_all add: table_simps)

lemma select_row_SomeD: "select_row key k t = Some r \<Longrightarrow> r \<in> set t \<and> key r = k"
  by (auto simp: select_row_def find_Some_iff)

lemma select_row_None_iff: "select_row key k t = None \<longleftrightarrow> k \<notin> key ` set t"
  by (auto simp: select_row_def find_None_iff)

lemma select_row_keyed:
  "keyed key t \<Longrightarrow> r \<in> set t \<Longrightarrow> select_row key (key r) t = Some r"
  by (induction t) (auto simp: keyed_def table_simps)

lemma select_update_rows [table_simps]:
  assumes "\<And>r. key (f r) = key r"
  shows "select_row key k' (update_rows key k f t) =
    (if k' = k then map_option f (select_row key k t) else select_row key k' t)"
  by (induction t) (auto simp: update_rows_def table_simps assms)

lemma keys_update_rows:
  "(\<And>r. key (f r) = key r) \<Longrightarrow> map key (update_rows key k f t) = map key t"
  by (induction t) (auto simp: update_rows_def)

lemma keyed_update_rows:
  "(\<And>r. key (f r) = key r) \<Longrightarrow> keyed key t \<Longrightarrow> keyed key (update_rows key k f t)"
  by (simp add: keyed_def keys_update_rows)

lemma keyed_insert_unless: "keyed key t \<Longrightarrow> keyed key (insert_unless key r t)"
  by (auto simp: keyed_def insert_unless_def select_row_None_iff)

lemma keyed_snoc: "keyed key t \<Longrightarrow> select_row key (key r) t = None \<Longrightarrow> keyed key (t @ [r])"
  by (auto simp: keyed_def select_row_None_iff)

lemma set_update_rows:
  "set (update_rows key k f t) = (\<lambda>r. if key r = k then f r else r) ` set t"
  by (simp add: update_rows_def)

lemma update_rowsE:
  assumes "r \<in> set (update_rows key k f t)"
  obtains (same) "r \<in> set t" "key r \<noteq> k" | (new) x where "x \<in> set t" "key x = k" "r = f x"
  using assms by (auto simp: set_update_rows split: if_splits)

lemma map_update_rows_same:
  "(\<And>r. g (f r) = g r) \<Longrightarrow> map g (update_rows key k f t) = map g t"
  by (simp add: update_rows_def)

lemma key_set_update_rows:
  "(\<And>r. key (f r) = key r) \<Longrightarrow> key ` set (update_rows key k f t) = key ` set t"
  using keys_update_rows [of key f k t] by (metis list.set_map)

lemma update_rows_absent: "select_row key k t = None \<Longrightarrow> update_rows key k f t = t"
  by (auto simp: update_rows_def select_row_None_iff intro!: map_idI)

text \<open>The sum of a quantity over a table, and how the three statements change it.\<close>

lemma sum_update_rows_at:
  fixes g h :: "'r \<Rightarrow> 'b :: ab_group_add"
  assumes "keyed key t" and "select_row key k t = Some r"
    and "\<And>x. x \<in> set t \<Longrightarrow> key x \<noteq> k \<Longrightarrow> h x = g x"
  shows "sum_list (map h (update_rows key k f t)) = sum_list (map g t) - g r + h (f r)"
  using assms
proof (induction t)
  case Nil
  then show ?case by (simp add: table_simps)
next
  case (Cons x t)
  show ?case
  proof (cases "key x = k")
    case True
    with Cons.prems have "k \<notin> key ` set t" by (auto simp: keyed_def)
    moreover from this have "map h t = map g t" using Cons.prems(3) by (auto simp: image_iff)
    ultimately have "map h (update_rows key k f t) = map g t"
      by (simp add: update_rows_absent select_row_None_iff)
    moreover have "update_rows key k f (x # t) = f x # update_rows key k f t"
      using True by (simp add: update_rows_def)
    ultimately show ?thesis using True Cons.prems by (simp add: table_simps)
  next
    case False
    then have "update_rows key k f (x # t) = x # update_rows key k f t"
      by (simp add: update_rows_def)
    with False Cons show ?thesis
      by (simp add: keyed_def table_simps algebra_simps)
  qed
qed

lemma sum_update_rows:
  fixes g :: "'r \<Rightarrow> 'b :: ab_group_add"
  shows "keyed key t \<Longrightarrow> select_row key k t = Some r \<Longrightarrow>
    sum_list (map g (update_rows key k f t)) = sum_list (map g t) - g r + g (f r)"
  by (rule sum_update_rows_at) simp_all

subsection \<open>Minimum and maximum of a list by a left fold\<close>

lemma foldl_min_le: "foldl min (x :: 'a :: linorder) xs \<le> x \<and> (\<forall>y \<in> set xs. foldl min x xs \<le> y)"
proof (induction xs arbitrary: x)
  case (Cons a xs)
  from Cons [of "min x a"] show ?case by auto
qed simp

lemma foldl_min_in: "foldl min (x :: 'a :: linorder) xs \<in> insert x (set xs)"
proof (induction xs arbitrary: x)
  case (Cons a xs)
  from Cons [of "min x a"] show ?case by (auto simp: min_def split: if_splits)
qed simp

lemma foldl_max_ge: "(x :: 'a :: linorder) \<le> foldl max x xs \<and> (\<forall>y \<in> set xs. y \<le> foldl max x xs)"
proof (induction xs arbitrary: x)
  case (Cons a xs)
  from Cons [of "max x a"] show ?case by auto
qed simp

lemma foldl_max_in: "foldl max (x :: 'a :: linorder) xs \<in> insert x (set xs)"
proof (induction xs arbitrary: x)
  case (Cons a xs)
  from Cons [of "max x a"] show ?case by (auto simp: max_def split: if_splits)
qed simp

subsection \<open>Runs of operations\<close>

locale invariant_run =
  fixes step :: "'op \<Rightarrow> 's \<Rightarrow> 's" and ok :: "'op \<Rightarrow> bool" and inv :: "'s \<Rightarrow> bool"
  assumes step_inv: "inv s \<Longrightarrow> ok op \<Longrightarrow> inv (step op s)"
begin

lemma run_inv: "inv s \<Longrightarrow> list_all ok ops \<Longrightarrow> inv (fold step ops s)"
  by (induction ops arbitrary: s) (auto intro: step_inv)

end

subsection \<open>Sorting with a comparator\<close>

text \<open>
  \<open>Array.prototype.sort\<close> is stable and, for a consistent comparator, determined by it:
  insertion behind every element that does not compare greater.
\<close>

fun sort_insert :: "('a \<Rightarrow> 'a \<Rightarrow> int) \<Rightarrow> 'a \<Rightarrow> 'a list \<Rightarrow> 'a list" where
  "sort_insert cmp x [] = [x]"
| "sort_insert cmp x (y # ys) =
     (if cmp x y \<le> 0 then x # y # ys else y # sort_insert cmp x ys)"

definition js_sort :: "('a \<Rightarrow> 'a \<Rightarrow> int) \<Rightarrow> 'a list \<Rightarrow> 'a list" where
  "js_sort cmp xs = foldr (sort_insert cmp) xs []"

lemma set_sort_insert [simp]: "set (sort_insert cmp x ys) = insert x (set ys)"
  by (induction ys) auto

lemma set_js_sort [simp]: "set (js_sort cmp xs) = set xs"
  by (induction xs) (simp_all add: js_sort_def)

lemma length_sort_insert [simp]: "length (sort_insert cmp x ys) = Suc (length ys)"
  by (induction ys) auto

lemma length_js_sort [simp]: "length (js_sort cmp xs) = length xs"
  by (induction xs) (simp_all add: js_sort_def)

lemma distinct_sort_insert: "x \<notin> set ys \<Longrightarrow> distinct ys \<Longrightarrow> distinct (sort_insert cmp x ys)"
  by (induction ys) auto

lemma distinct_js_sort: "distinct xs \<Longrightarrow> distinct (js_sort cmp xs)"
  unfolding js_sort_def
proof (induction xs)
  case (Cons x xs)
  then show ?case
    using set_js_sort [of cmp xs] by (simp add: distinct_sort_insert js_sort_def)
qed simp

locale comparator =
  fixes cmp :: "'a \<Rightarrow> 'a \<Rightarrow> int"
  assumes cmp_swap: "cmp x y \<le> 0 \<or> cmp y x \<le> 0"
    and cmp_trans: "cmp x y \<le> 0 \<Longrightarrow> cmp y z \<le> 0 \<Longrightarrow> cmp x z \<le> 0"
begin

lemma sorted_sort_insert:
  "sorted_wrt (\<lambda>a b. cmp a b \<le> 0) ys \<Longrightarrow> sorted_wrt (\<lambda>a b. cmp a b \<le> 0) (sort_insert cmp x ys)"
proof (induction ys)
  case (Cons y ys)
  then show ?case
    using cmp_swap cmp_trans by (auto; blast)
qed simp

lemma sorted_js_sort: "sorted_wrt (\<lambda>a b. cmp a b \<le> 0) (js_sort cmp xs)"
  by (induction xs) (simp_all add: js_sort_def sorted_sort_insert)

lemma hd_js_sort_le: "js_sort cmp xs = y # ys \<Longrightarrow> x \<in> set xs \<Longrightarrow> cmp y x \<le> 0"
  using sorted_js_sort [of xs] set_js_sort [of cmp xs] cmp_swap [of y y] by auto

lemma js_sort_sorted: "sorted_wrt (\<lambda>a b. cmp a b \<le> 0) xs \<Longrightarrow> js_sort cmp xs = xs"
proof (induction xs)
  case (Cons x xs)
  then have "js_sort cmp xs = xs" by simp
  with Cons.prems show ?case
    by (cases xs) (simp_all add: js_sort_def)
qed (simp add: js_sort_def)

lemma mset_js_sort: "mset (js_sort cmp xs) = mset xs"
proof (induction xs)
  case (Cons x xs)
  have "mset (sort_insert cmp x ys) = add_mset x (mset ys)" for ys
    by (induction ys) auto
  with Cons show ?case by (simp add: js_sort_def)
qed (simp add: js_sort_def)

lemma sorted_unique:
  assumes "sorted_wrt (\<lambda>a b. cmp a b \<le> 0) xs" and "sorted_wrt (\<lambda>a b. cmp a b \<le> 0) ys"
    and "mset xs = mset ys"
    and "\<And>a b. a \<in> set xs \<Longrightarrow> b \<in> set xs \<Longrightarrow> cmp a b \<le> 0 \<Longrightarrow> cmp b a \<le> 0 \<Longrightarrow> a = b"
  shows "xs = ys"
  using assms
proof (induction xs arbitrary: ys)
  case (Cons x xs)
  then obtain y ys' where ys: "ys = y # ys'" by (cases ys) auto
  have same: "set (x # xs) = set (y # ys')"
    using Cons.prems(3) ys by (metis set_mset_mset)
  have "x = y"
  proof (rule ccontr)
    assume ne: "x \<noteq> y"
    then have mem: "y \<in> set xs" "x \<in> set ys'" using same by auto
    then have "cmp x y \<le> 0" "cmp y x \<le> 0" using Cons.prems(1,2) ys by auto
    with Cons.prems(4) [of x y] mem ne show False by simp
  qed
  moreover have "xs = ys'"
    using Cons.prems ys \<open>x = y\<close> by (intro Cons.IH) auto
  ultimately show ?case using ys by simp
qed simp

lemma js_sort_unique:
  assumes "mset xs = mset ys"
    and "\<And>a b. a \<in> set xs \<Longrightarrow> b \<in> set xs \<Longrightarrow> cmp a b \<le> 0 \<Longrightarrow> cmp b a \<le> 0 \<Longrightarrow> a = b"
  shows "js_sort cmp xs = js_sort cmp ys"
  using assms by (intro sorted_unique) (simp_all add: sorted_js_sort mset_js_sort)

end

end
