(* ===== verification/Money.thy ===== *)
theory Money
  imports Prelude
begin

section \<open>Integer micro-USD money (metering/money.ts)\<close>

text \<open>
  Every function of \<open>src/src/metering/money.ts\<close>, in its order. An amount in micros is an
  \<open>int\<close> (the code admits only integers of absolute value at most \<open>MAX_POOL_MICROS\<close>, all exactly
  representable in a JavaScript number); a dollar amount is a \<open>jsnum\<close>, whose finite values are
  exact rationals. The error message argument \<open>what\<close> is dropped, since \<open>MoneyError\<close> keeps no text.
\<close>

definition MICROS_PER_USD :: int where
  "MICROS_PER_USD = 1000000"

definition MAX_POOL_MICROS :: int where
  "MAX_POOL_MICROS = 1000000 * MICROS_PER_USD"

definition assertMicros :: "jsval \<Rightarrow> int result" where
  "assertMicros value =
     (case value of
        JNumber (Fin q) \<Rightarrow>
          if \<not> js_is_integer (Fin q) then Inl MoneyError
          else if q < of_int (- MAX_POOL_MICROS) \<or> q > of_int MAX_POOL_MICROS then Inl MoneyError
          else Inr \<lfloor>q\<rfloor>
      | _ \<Rightarrow> Inl MoneyError)"

definition assertNonNegativeMicros :: "jsval \<Rightarrow> int result" where
  "assertNonNegativeMicros value =
     and_then (assertMicros value) (\<lambda>micros. if micros < 0 then Inl MoneyError else Inr micros)"

abbreviation js_int :: "int \<Rightarrow> jsval" where
  "js_int i \<equiv> JNumber (Fin (of_int i))"

text \<open>
  The database reader. \<open>trim\<close> removes the white space JavaScript knows below code unit 256;
  \<open>int_literal\<close> is the regular expression \<^verbatim>\<open>/^-?\d+$/\<close>. \<open>Number\<close> of such a literal is exact up to
  \<open>2^53\<close>, and beyond that the range check refuses the exact and the rounded value alike.
\<close>

definition is_js_space :: "char \<Rightarrow> bool" where
  "is_js_space c \<longleftrightarrow> (of_char c :: nat) \<in> {9, 10, 11, 12, 13, 32, 160}"

definition js_trim :: "string \<Rightarrow> string" where
  "js_trim s = rev (dropWhile is_js_space (rev (dropWhile is_js_space s)))"

definition int_literal :: "string \<Rightarrow> bool" where
  "int_literal s = (let d = (case s of [] \<Rightarrow> [] | c # cs \<Rightarrow> if c = CHR ''-'' then cs else s)
     in d \<noteq> [] \<and> list_all is_digit d)"

definition int_literal_val :: "string \<Rightarrow> int" where
  "int_literal_val s = (case s of [] \<Rightarrow> 0 | c # cs \<Rightarrow>
     if c = CHR ''-'' then - int (digits_val cs) else int (digits_val s))"

definition readMicros :: "jsval \<Rightarrow> int \<Rightarrow> int result" where
  "readMicros value fallback =
     (case value of
        JNull \<Rightarrow> assertMicros (js_int fallback)
      | JUndefined \<Rightarrow> assertMicros (js_int fallback)
      | JNumber q \<Rightarrow> assertMicros value
      | JString s \<Rightarrow>
          if \<not> int_literal (js_trim s) then Inl MoneyError
          else assertMicros (js_int (int_literal_val (js_trim s)))
      | _ \<Rightarrow> Inl MoneyError)"

definition usdToMicrosCeil :: "jsnum \<Rightarrow> int result" where
  "usdToMicrosCeil usd =
     (case usd of
        Fin q \<Rightarrow> assertMicros (js_int \<lceil>q * of_int MICROS_PER_USD - 1 / 10 ^ 9\<rceil>)
      | _ \<Rightarrow> Inl MoneyError)"

definition usdToMicrosFloor :: "jsnum \<Rightarrow> int result" where
  "usdToMicrosFloor usd =
     (case usd of
        Fin q \<Rightarrow> assertMicros (js_int \<lfloor>q * of_int MICROS_PER_USD + 1 / 10 ^ 9\<rfloor>)
      | _ \<Rightarrow> Inl MoneyError)"

definition microsToUsd :: "int \<Rightarrow> rat result" where
  "microsToUsd micros =
     and_then (assertMicros (js_int micros)) (\<lambda>m. Inr (of_int m / of_int MICROS_PER_USD))"

definition padStart6 :: "string \<Rightarrow> string" where
  "padStart6 s = replicate (6 - length s) (CHR ''0'') @ s"

definition microsToUsdString :: "int \<Rightarrow> string result" where
  "microsToUsdString micros =
     and_then (assertMicros (js_int micros)) (\<lambda>value.
       let sign = (if value < 0 then ''-'' else '''');
           abs_value = \<bar>value\<bar>;
           whole = abs_value div MICROS_PER_USD;
           fraction = abs_value - whole * MICROS_PER_USD
       in Inr (sign @ show_nat (nat whole) @ ''.'' @ padStart6 (show_nat (nat fraction))))"

definition applyRatioFloor :: "int \<Rightarrow> jsnum \<Rightarrow> jsnum \<Rightarrow> int result" where
  "applyRatioFloor micros numerator denominator =
     and_then (assertNonNegativeMicros (js_int micros)) (\<lambda>amount.
       case numerator of
         Fin n \<Rightarrow>
           if \<not> js_is_integer (Fin n) \<or> n < 0 then Inl MoneyError
           else (case denominator of
             Fin d \<Rightarrow>
               if \<not> js_is_integer (Fin d) \<or> d \<le> 0 then Inl MoneyError
               else if n > d then Inl MoneyError
               else Inr \<lfloor>(of_int amount * n) / d\<rfloor>
           | _ \<Rightarrow> Inl MoneyError)
       | _ \<Rightarrow> Inl MoneyError)"

definition clampMicros :: "int \<Rightarrow> int \<Rightarrow> int \<Rightarrow> int result" where
  "clampMicros micros minimum maximum =
     and_then (assertMicros (js_int micros)) (\<lambda>amount.
     and_then (assertNonNegativeMicros (js_int minimum)) (\<lambda>low.
     and_then (assertNonNegativeMicros (js_int maximum)) (\<lambda>high.
       if low > high then Inl MoneyError else Inr (min high (max low amount)))))"

subsection \<open>What the guards admit\<close>

definition in_pool_range :: "int \<Rightarrow> bool" where
  "in_pool_range i \<longleftrightarrow> \<bar>i\<bar> \<le> MAX_POOL_MICROS"

lemma assertMicros_js_int [simp]:
  "assertMicros (js_int i) = (if in_pool_range i then Inr i else Inl MoneyError)"
  by (auto simp: assertMicros_def in_pool_range_def simp flip: of_int_minus)

lemma assertMicros_Inr_iff:
  "assertMicros v = Inr i \<longleftrightarrow> v = js_int i \<and> in_pool_range i"
proof -
  have "v = js_int i \<and> in_pool_range i" if "assertMicros v = Inr i"
  proof -
    from that obtain q where v: "v = JNumber (Fin q)" and w: "is_whole q"
      by (auto simp: assertMicros_def split: jsval.splits jsnum.splits if_splits)
    then obtain j where "v = js_int j" by (auto elim: is_wholeE)
    with that show ?thesis by (auto split: if_splits)
  qed
  then show ?thesis by auto
qed

lemma assertNonNegativeMicros_js_int [simp]:
  "assertNonNegativeMicros (js_int i) =
     (if in_pool_range i \<and> 0 \<le> i then Inr i else Inl MoneyError)"
  by (simp add: assertNonNegativeMicros_def)

subsection \<open>Properties\<close>

text \<open>The reservation and the credit conversions on an exact micro amount.\<close>

lemma usdToMicrosCeil_Fin:
  "usdToMicrosCeil (Fin q) = Inr m \<longleftrightarrow>
     m = \<lceil>q * 1000000 - 1 / 10 ^ 9\<rceil> \<and> in_pool_range m"
  by (auto simp: usdToMicrosCeil_def MICROS_PER_USD_def)

lemma usdToMicrosFloor_Fin:
  "usdToMicrosFloor (Fin q) = Inr m \<longleftrightarrow>
     m = \<lfloor>q * 1000000 + 1 / 10 ^ 9\<rfloor> \<and> in_pool_range m"
  by (auto simp: usdToMicrosFloor_def MICROS_PER_USD_def)

lemma ceil_micro_exact: "\<lceil>(of_int m :: rat) - 1 / 10 ^ 9\<rceil> = m"
  by (intro ceiling_unique) simp_all

lemma floor_micro_exact: "\<lfloor>(of_int m :: rat) + 1 / 10 ^ 9\<rfloor> = m"
  by (intro floor_unique) simp_all

lemma micros_usd_roundtrip:
  "microsToUsd m = Inr q \<Longrightarrow> usdToMicrosCeil (Fin q) = Inr m \<and> usdToMicrosFloor (Fin q) = Inr m"
proof -
  assume "microsToUsd m = Inr q"
  then have q: "q = of_int m / 1000000" and m: "in_pool_range m"
    by (auto simp: microsToUsd_def MICROS_PER_USD_def split: if_splits)
  have "q * 1000000 = of_int m" using q by simp
  then show ?thesis
    using m ceil_micro_exact [of m] floor_micro_exact [of m]
    by (simp add: usdToMicrosCeil_Fin usdToMicrosFloor_Fin)
qed

text \<open>
  The reader of a database amount gives back what a decimal rendering of an integer says.
\<close>

definition show_int :: "int \<Rightarrow> string" where
  "show_int i = (if i < 0 then ''-'' @ show_nat (nat (- i)) else show_nat (nat i))"

lemma digit_not_space: "is_digit c \<Longrightarrow> \<not> is_js_space c"
  by (auto simp: is_digit_def is_js_space_def)

lemma digit_not_minus: "is_digit c \<Longrightarrow> c \<noteq> CHR ''-''"
  by (auto simp: is_digit_def)

lemma dropWhile_hd_False: "xs = [] \<or> \<not> P (hd xs) \<Longrightarrow> dropWhile P xs = xs"
  by (cases xs) auto

lemma show_nat_hd_last:
  "is_digit (hd (show_nat n))" "is_digit (last (show_nat n))"
  using show_nat_digits [of n] show_nat_nonempty [of n]
  by (auto simp: list_all_iff)

lemma js_trim_id:
  "s = [] \<or> \<not> is_js_space (hd s) \<and> \<not> is_js_space (last s) \<Longrightarrow> js_trim s = s"
  by (auto simp: js_trim_def dropWhile_hd_False hd_rev)

lemma js_trim_show_int: "js_trim (show_int i) = show_int i"
proof (rule js_trim_id, rule disjI2)
  have minus: "\<not> is_js_space (CHR ''-'')" by (simp add: is_js_space_def)
  show "\<not> is_js_space (hd (show_int i)) \<and> \<not> is_js_space (last (show_int i))"
    using show_nat_hd_last [THEN digit_not_space] minus
    by (simp add: show_int_def show_nat_nonempty)
qed

lemma int_literal_show_int:
  "int_literal (show_int i)" "int_literal_val (show_int i) = i"
proof -
  have nat_case: "int_literal (show_nat n)" "int_literal_val (show_nat n) = int n" for n
  proof -
    obtain c cs where c: "show_nat n = c # cs" using show_nat_nonempty [of n] by (cases "show_nat n") auto
    have "c \<noteq> CHR ''-''"
      using show_nat_hd_last(1) [of n] digit_not_minus c by simp
    moreover have "digits_val (c # cs) = n" using digits_val_show_nat [of n] c by simp
    ultimately show "int_literal (show_nat n)" "int_literal_val (show_nat n) = int n"
      using show_nat_digits [of n] c by (simp_all add: int_literal_def int_literal_val_def)
  qed
  show "int_literal (show_int i)" "int_literal_val (show_int i) = i"
    using nat_case [of "nat i"] show_nat_digits [of "nat (- i)"] show_nat_nonempty [of "nat (- i)"]
    by (simp_all add: show_int_def) (simp_all add: int_literal_def int_literal_val_def)
qed

lemma int_literal_chars: "int_literal s \<Longrightarrow> c \<in> set s \<Longrightarrow> c = CHR ''-'' \<or> is_digit c"
  by (cases s) (auto simp: int_literal_def list_all_iff split: if_splits)

lemma js_trim_inner:
  assumes "\<not> is_js_space c" and "s \<noteq> []" and "\<not> is_js_space (hd s)"
  shows "c \<in> set (js_trim (s @ c # t))"
proof -
  have "dropWhile is_js_space (s @ c # t) = s @ c # t"
    using assms by (intro dropWhile_hd_False) simp
  then have "js_trim (s @ c # t) = rev (dropWhile is_js_space (rev t @ c # rev s))"
    by (simp add: js_trim_def)
  then show ?thesis using assms(1) by (simp add: dropWhile_append)
qed

lemma readMicros_decimal_point:
  "readMicros (JString (show_int i @ CHR ''.'' # decimals)) f = Inl MoneyError"
proof -
  have "\<not> is_js_space (hd (show_int i))" "show_int i \<noteq> []"
    using show_nat_hd_last [THEN digit_not_space]
    by (auto simp: show_int_def show_nat_nonempty is_js_space_def)
  then have "CHR ''.'' \<in> set (js_trim (show_int i @ CHR ''.'' # decimals))"
    by (intro js_trim_inner) (simp_all add: is_js_space_def)
  moreover have "\<not> is_digit (CHR ''.'')" by (simp add: is_digit_def)
  ultimately have "\<not> int_literal (js_trim (show_int i @ CHR ''.'' # decimals))"
    using int_literal_chars [of "js_trim (show_int i @ CHR ''.'' # decimals)" "CHR ''.''"] by fastforce
  then show ?thesis by (simp add: readMicros_def)
qed

text \<open>What the code reads from a \<open>bigint\<close> column, which the driver delivers as a decimal string.\<close>

definition read_column :: "int \<Rightarrow> int result" where
  "read_column n = readMicros (JString (show_int n)) 0"

lemma readMicros_show_int:
  "readMicros (JString (show_int i)) fallback = (if in_pool_range i then Inr i else Inl MoneyError)"
  by (simp add: readMicros_def js_trim_show_int int_literal_show_int)

lemma read_column_eq [simp]: "read_column n = (if in_pool_range n then Inr n else Inl MoneyError)"
  by (simp add: read_column_def readMicros_show_int)

text \<open>
  Reading back a database integer: in all three accepted shapes (decimal string, number, absent
  with a fallback) \<open>readMicros\<close> returns the integer when it lies in the pool's range and refuses it
  when it does not; a string with a fractional part is always refused.
\<close>

theorem readMicros_decimal:
  "readMicros (JString (show_int i)) f = (if \<bar>i\<bar> \<le> MAX_POOL_MICROS then Inr i else Inl MoneyError)
   \<and> readMicros (js_int i) f = (if \<bar>i\<bar> \<le> MAX_POOL_MICROS then Inr i else Inl MoneyError)
   \<and> readMicros JNull i = (if \<bar>i\<bar> \<le> MAX_POOL_MICROS then Inr i else Inl MoneyError)
   \<and> readMicros (JString (show_int i @ CHR ''.'' # decimals)) f = Inl MoneyError"
proof -
  have "readMicros (JString (show_int i @ CHR ''.'' # decimals)) f = Inl MoneyError"
    by (rule readMicros_decimal_point)
  moreover have "readMicros (js_int i) f = assertMicros (js_int i)" "readMicros JNull i = assertMicros (js_int i)"
    by (simp_all add: readMicros_def del: assertMicros_js_int)
  ultimately show ?thesis
    by (simp only: readMicros_show_int assertMicros_js_int in_pool_range_def simp_thms)
qed

text \<open>
  The \<open>*_usd\<close> wire format. The specification reads a signed decimal with six places back as the
  number of micros it denotes.
\<close>

definition usd6_value :: "string \<Rightarrow> int" where
  "usd6_value s =
     (let neg = (s \<noteq> [] \<and> hd s = CHR ''-'');
          d = (if neg then tl s else s);
          whole = takeWhile (\<lambda>c. c \<noteq> CHR ''.'') d;
          frac = drop (Suc (length whole)) d;
          v = int (digits_val whole) * 10 ^ length frac + int (digits_val frac)
      in if neg then - v else v)"

lemma padStart6_props:
  assumes "n < 1000000"
  shows "length (padStart6 (show_nat n)) = 6" and "digits_val (padStart6 (show_nat n)) = n"
  using show_nat_length [of n 6] assms
  by (simp_all add: padStart6_def digits_val_append digits_val_replicate0)

lemma usd6_value_unsigned:
  assumes "list_all is_digit w" and "w \<noteq> []"
  shows "usd6_value (w @ ''.'' @ f) = int (digits_val w) * 10 ^ length f + int (digits_val f)"
    and "usd6_value (''-'' @ w @ ''.'' @ f) = - (int (digits_val w) * 10 ^ length f + int (digits_val f))"
proof -
  have no_dot: "\<forall>c \<in> set w. c \<noteq> CHR ''.''"
    using assms(1) by (auto simp: list_all_iff is_digit_def)
  have "hd w \<noteq> CHR ''-''"
    using assms by (cases w) (auto dest: digit_not_minus)
  moreover have "takeWhile (\<lambda>c. c \<noteq> CHR ''.'') (w @ ''.'' @ f) = w"
    using no_dot by (subst takeWhile_append2) auto
  ultimately show "usd6_value (w @ ''.'' @ f) = int (digits_val w) * 10 ^ length f + int (digits_val f)"
    and "usd6_value (''-'' @ w @ ''.'' @ f) = - (int (digits_val w) * 10 ^ length f + int (digits_val f))"
    using assms(2) by (auto simp: usd6_value_def Let_def)
qed

text \<open>
  The wire format is exact: whenever \<open>microsToUsdString\<close> returns a string, that string has six
  decimal places and denotes exactly the given number of micros, sign included.
\<close>

theorem microsToUsdString_exact:
  assumes "microsToUsdString m = Inr s"
  shows "usd6_value s = m \<and> (\<exists>w f. s = w @ ''.'' @ f \<and> length f = 6)"
proof -
  let ?w = "show_nat (nat (\<bar>m\<bar> div MICROS_PER_USD))"
  let ?frac = "\<bar>m\<bar> - (\<bar>m\<bar> div MICROS_PER_USD) * MICROS_PER_USD"
  let ?f = "padStart6 (show_nat (nat ?frac))"
  have s: "s = (if m < 0 then ''-'' else '''') @ ?w @ ''.'' @ ?f"
    using assms by (simp add: microsToUsdString_def Let_def split: if_splits)
  have "?frac = \<bar>m\<bar> mod 1000000" by (simp add: MICROS_PER_USD_def minus_div_mult_eq_mod)
  then have f: "length ?f = 6" "digits_val ?f = nat (\<bar>m\<bar> mod 1000000)"
    by (simp_all add: padStart6_props nat_less_iff)
  have "int (digits_val ?w) * 10 ^ length ?f + int (digits_val ?f) = \<bar>m\<bar>"
    unfolding f by (simp add: MICROS_PER_USD_def pos_imp_zdiv_nonneg_iff)
  then have "usd6_value s = m"
    using usd6_value_unsigned [OF show_nat_digits show_nat_nonempty, of "nat (\<bar>m\<bar> div MICROS_PER_USD)" ?f]
    unfolding s by (cases "m < 0") simp_all
  moreover have "s = ((if m < 0 then ''-'' else '''') @ ?w) @ ''.'' @ ?f"
    unfolding s by simp
  ultimately show ?thesis using f(1) by blast
qed

theorem microsToUsdString_exact_witness:
  "microsToUsdString (-1500007) = Inr ''-1.500007'' \<and> usd6_value ''-1.500007'' = -1500007"
proof -
  have h: "microsToUsdString (-1500007) = Inr ''-1.500007''"
    using assertMicros_js_int [of "-1500007"]
    by (simp add: microsToUsdString_def in_pool_range_def MAX_POOL_MICROS_def MICROS_PER_USD_def
        show_nat_eval digit_char_def padStart6_def)
  show ?thesis using h microsToUsdString_exact [OF h] by blast
qed

text \<open>
  The two conversions of a dollar amount bracket it within the epsilon: the credit conversion
  never exceeds the reservation conversion of the same amount, each is within one micro of the
  exact amount, and the reservation is never more than \<open>10^-9\<close> micro below it.
\<close>

theorem usd_conversions_bracket:
  assumes "usdToMicrosFloor (Fin q) = Inr lo" and "usdToMicrosCeil (Fin q) = Inr hi"
  shows "lo \<le> hi \<and> q * 1000000 - 1 / 10 ^ 9 \<le> of_int hi \<and> of_int hi < q * 1000000 + 1
    \<and> q * 1000000 - 1 < of_int lo \<and> of_int lo \<le> q * 1000000 + 1 / 10 ^ 9"
proof -
  have lo: "lo = \<lfloor>q * 1000000 + 1 / 10 ^ 9\<rfloor>" and hi: "hi = \<lceil>q * 1000000 - 1 / 10 ^ 9\<rceil>"
    using assms by (simp_all only: usdToMicrosFloor_Fin usdToMicrosCeil_Fin)
  have lo_le: "of_int lo \<le> q * 1000000 + 1 / 10 ^ 9" and hi_ge: "q * 1000000 - 1 / 10 ^ 9 \<le> of_int hi"
    unfolding lo hi by (rule of_int_floor_le, rule le_of_int_ceiling)
  have "of_int hi < q * 1000000 + 1"
    unfolding hi using ceiling_correct [of "q * 1000000 - 1 / 10 ^ 9"] by simp
  moreover have "q * 1000000 - 1 < of_int lo"
    unfolding lo using floor_correct [of "q * 1000000 + 1 / 10 ^ 9"] by simp
  moreover have "of_int lo < (of_int hi + 1 :: rat)" using lo_le hi_ge by simp
  then have "lo \<le> hi" by linarith
  ultimately show ?thesis using lo_le hi_ge by blast
qed

theorem usd_conversions_bracket_witness:
  "usdToMicrosFloor (Fin (1 / 3)) = Inr 333333 \<and> usdToMicrosCeil (Fin (1 / 3)) = Inr 333334
   \<and> (333333 :: int) \<le> 333334"
proof -
  have lo: "usdToMicrosFloor (Fin (1 / 3)) = Inr 333333"
    unfolding usdToMicrosFloor_Fin
    by (simp add: in_pool_range_def MAX_POOL_MICROS_def MICROS_PER_USD_def floor_divide_of_int_eq
        floor_eq_iff)
  have hi: "usdToMicrosCeil (Fin (1 / 3)) = Inr 333334"
    unfolding usdToMicrosCeil_Fin
    by (simp add: in_pool_range_def MAX_POOL_MICROS_def MICROS_PER_USD_def ceiling_eq_iff)
  show ?thesis using lo hi usd_conversions_bracket [OF lo hi] by blast
qed

text \<open>
  The operator's ratio is a fraction of the amount: \<open>applyRatioFloor\<close> accepts exactly a
  non-negative amount in range with integers \<open>0 \<le> n \<le> d\<close>, \<open>0 < d\<close>, and then returns the floor of
  \<open>amount * n / d\<close>, which lies between 0 and the amount.
\<close>

theorem applyRatioFloor_spec:
  "applyRatioFloor m (Fin (of_int n)) (Fin (of_int d)) =
     (if in_pool_range m \<and> 0 \<le> m \<and> 0 \<le> n \<and> n \<le> d \<and> 0 < d then Inr (m * n div d) else Inl MoneyError)
   \<and> (\<forall>r. applyRatioFloor m (Fin (of_int n)) (Fin (of_int d)) = Inr r \<longrightarrow> 0 \<le> r \<and> r \<le> m)"
proof -
  have eq: "applyRatioFloor m (Fin (of_int n)) (Fin (of_int d)) =
     (if in_pool_range m \<and> 0 \<le> m \<and> 0 \<le> n \<and> n \<le> d \<and> 0 < d then Inr (m * n div d) else Inl MoneyError)"
    using floor_divide_of_int_eq [of "m * n" d, where 'a = rat]
    by (auto simp: applyRatioFloor_def)
  have "m * n div d \<le> m" if "0 \<le> m" "0 \<le> n" "n \<le> d" "0 < d"
  proof -
    have "m * n div d \<le> m * d div d" using that by (intro zdiv_mono1 mult_left_mono) auto
    then show ?thesis using that by simp
  qed
  then show ?thesis by (auto simp: eq pos_imp_zdiv_nonneg_iff)
qed

theorem applyRatioFloor_spec_witness:
  "applyRatioFloor 1000001 (Fin (of_int 80)) (Fin (of_int 100)) = Inr 800000 \<and> (800000::int) \<le> 1000001"
  using applyRatioFloor_spec [of 1000001 80 100]
  by (simp add: in_pool_range_def MAX_POOL_MICROS_def MICROS_PER_USD_def)

lemma clampMicros_bounds:
  "clampMicros m lo hi = Inr r \<Longrightarrow> lo \<le> r \<and> r \<le> hi \<and> (lo \<le> m \<and> m \<le> hi \<longrightarrow> r = m)"
  by (auto simp: clampMicros_def split: if_splits)

end
