(* ===== verification/Metering.thy ===== *)
theory Metering
  imports Prelude "HOL-Library.Word"
begin

section \<open>Token estimates and ceilings (metering/tokens.ts, metering/e2ee.ts)\<close>

text \<open>
  A JavaScript string is its list of UTF-16 code units, because the estimators mix
  \<open>text.length\<close> (code units) with \<open>Buffer.byteLength(text, "utf8")\<close> (bytes). Message content is a
  value of unknown shape, so it is a string, an array of parts, or something else; a part is an
  object with an optional \<open>type\<close> and an optional string \<open>text\<close>, or not an object. Token counts are
  integers; a provider-reported count is any JavaScript number or absent.
  The sizes of tool definitions (\<open>JSON.stringify\<close> of a schema) are not modelled.
\<close>

type_synonym ustring = "16 word list"

definition ascii :: "string \<Rightarrow> ustring" where
  "ascii s = map (\<lambda>c. word_of_nat (of_char c)) s"

definition high_surrogate :: "16 word \<Rightarrow> bool" where
  "high_surrogate u \<longleftrightarrow> 0xD800 \<le> u \<and> u \<le> 0xDBFF"

definition low_surrogate :: "16 word \<Rightarrow> bool" where
  "low_surrogate u \<longleftrightarrow> 0xDC00 \<le> u \<and> u \<le> 0xDFFF"

text \<open>\<open>Buffer.byteLength\<close>: a surrogate pair is four bytes, a lone surrogate the three of U+FFFD.\<close>

fun utf8_length :: "ustring \<Rightarrow> nat" where
  "utf8_length [] = 0"
| "utf8_length [u] = (if u < 0x80 then 1 else if u < 0x800 then 2 else 3)"
| "utf8_length (u # v # us) =
     (if u < 0x80 then 1 + utf8_length (v # us)
      else if u < 0x800 then 2 + utf8_length (v # us)
      else if high_surrogate u \<and> low_surrogate v then 4 + utf8_length us
      else 3 + utf8_length (v # us))"

datatype part = PartObject "string option" "ustring option" | PartOther

datatype content = CString ustring | CArray "part list" | COther

datatype chat_role = RSystem | RUser | RAssistant | RTool

fun role_text :: "chat_role \<Rightarrow> string" where
  "role_text RSystem = ''system''"
| "role_text RUser = ''user''"
| "role_text RAssistant = ''assistant''"
| "role_text RTool = ''tool''"

record tool_call =
  call_id :: ustring
  call_name :: ustring
  call_arguments :: ustring

record chat_message =
  msg_role :: chat_role
  msg_content :: content
  msg_name :: "ustring option"
  msg_tool_call_id :: "ustring option"
  msg_tool_calls :: "tool_call list option"

record token_usage =
  inputTokens :: int
  outputTokens :: int
  cachedTokens :: int
  cacheWriteTokens :: "int option"

definition INPUT_CEILING_PER_MESSAGE_TOKENS :: int where
  "INPUT_CEILING_PER_MESSAGE_TOKENS = 128"

definition INPUT_CEILING_REQUEST_SAFETY_TOKENS :: int where
  "INPUT_CEILING_REQUEST_SAFETY_TOKENS = 512"

definition INPUT_CEILING_PER_IMAGE_TOKENS :: int where
  "INPUT_CEILING_PER_IMAGE_TOKENS = 2000"

definition utf8Bytes :: "ustring option \<Rightarrow> int" where
  "utf8Bytes value = (case value of None \<Rightarrow> 0 | Some s \<Rightarrow> if s = [] then 0 else int (utf8_length s))"

definition estimateTextTokens :: "ustring \<Rightarrow> int" where
  "estimateTextTokens text = (if text = [] then 0 else max 1 \<lceil>of_nat (length text) / (4 :: rat)\<rceil>)"

fun part_text :: "part \<Rightarrow> ustring" where
  "part_text (PartObject t (Some s)) = s"
| "part_text _ = []"

fun join_space :: "ustring list \<Rightarrow> ustring" where
  "join_space [] = []"
| "join_space [s] = s"
| "join_space (s # ss) = s @ 32 # join_space ss"

fun messageText :: "content \<Rightarrow> ustring" where
  "messageText (CString s) = s"
| "messageText (CArray parts) = join_space (map part_text parts)"
| "messageText COther = []"

fun countImageParts :: "content \<Rightarrow> int" where
  "countImageParts (CArray parts) =
     int (length (filter (\<lambda>p. case p of PartObject t s \<Rightarrow> t = Some ''image_url'' | PartOther \<Rightarrow> False) parts))"
| "countImageParts _ = 0"

definition toolCallBytes :: "tool_call list option \<Rightarrow> int" where
  "toolCallBytes calls = (case calls of None \<Rightarrow> 0
     | Some cs \<Rightarrow> (\<Sum>c \<leftarrow> cs. int (utf8_length (call_id c)) + int (utf8_length (call_name c))
                            + int (utf8_length (call_arguments c))))"

definition message_ceiling :: "chat_message \<Rightarrow> int" where
  "message_ceiling message =
     INPUT_CEILING_PER_MESSAGE_TOKENS
     + utf8Bytes (Some (ascii (role_text (msg_role message))))
     + utf8Bytes (Some (messageText (msg_content message)))
     + utf8Bytes (msg_name message)
     + utf8Bytes (msg_tool_call_id message)
     + toolCallBytes (msg_tool_calls message)
     + countImageParts (msg_content message) * INPUT_CEILING_PER_IMAGE_TOKENS"

definition estimateInputTokenCeiling :: "chat_message list \<Rightarrow> int" where
  "estimateInputTokenCeiling messages =
     fold (\<lambda>message ceiling. ceiling + message_ceiling message) messages INPUT_CEILING_REQUEST_SAFETY_TOKENS"

definition estimateInputTokens :: "chat_message list \<Rightarrow> int" where
  "estimateInputTokens messages =
     fold (\<lambda>message total. total + estimateTextTokens (messageText (msg_content message))) messages 0
     + int (length messages) * 4"

text \<open>
  One generated choice: its content when that is a string, and its tool calls when they are an
  array, each with the function name and the argument string when those are strings.
\<close>

record choice_output =
  choice_content :: "ustring option"
  choice_tool_calls :: "(ustring option \<times> ustring option) list option"

definition estimateChoiceOutputTokens :: "choice_output option \<Rightarrow> int" where
  "estimateChoiceOutputTokens source =
     (case source of None \<Rightarrow> 0
      | Some src \<Rightarrow>
          (case choice_content src of None \<Rightarrow> 0 | Some s \<Rightarrow> estimateTextTokens s)
          + (case choice_tool_calls src of None \<Rightarrow> 0
             | Some calls \<Rightarrow> (\<Sum>(n, a) \<leftarrow> calls.
                 (case n of None \<Rightarrow> 0 | Some s \<Rightarrow> estimateTextTokens s)
                 + (case a of None \<Rightarrow> 0 | Some s \<Rightarrow> estimateTextTokens s))))"

record partial_usage =
  rep_input :: "jsnum option"
  rep_output :: "jsnum option"
  rep_cached :: "jsnum option"
  rep_cache_write :: "jsnum option"

definition normalize_count :: "jsnum option \<Rightarrow> int \<Rightarrow> int" where
  "normalize_count reported fallback =
     (case reported of Some (Fin q) \<Rightarrow> max 0 \<lfloor>q\<rfloor> | _ \<Rightarrow> fallback)"

definition normalizeUsage :: "partial_usage option \<Rightarrow> token_usage \<Rightarrow> token_usage" where
  "normalizeUsage usage fallback =
     \<lparr> inputTokens = normalize_count (Option.bind usage rep_input) (inputTokens fallback),
       outputTokens = normalize_count (Option.bind usage rep_output) (outputTokens fallback),
       cachedTokens = normalize_count (Option.bind usage rep_cached) (cachedTokens fallback),
       cacheWriteTokens = Some (normalize_count (Option.bind usage rep_cache_write)
          (case cacheWriteTokens fallback of None \<Rightarrow> 0 | Some n \<Rightarrow> n)) \<rparr>"

subsection \<open>End-to-end encrypted requests\<close>

datatype e2ee_protocol = NearV2 | VeniceLegacy

definition NEAR_V2_E2EE_PROTOCOL_OVERHEAD_BYTES :: int where
  "NEAR_V2_E2EE_PROTOCOL_OVERHEAD_BYTES = 32 + 24 + 16"

definition VENICE_E2EE_PROTOCOL_OVERHEAD_BYTES :: int where
  "VENICE_E2EE_PROTOCOL_OVERHEAD_BYTES = 65 + 12 + 16"

definition E2EE_PER_MESSAGE_FRAMING_TOKENS :: int where
  "E2EE_PER_MESSAGE_FRAMING_TOKENS = 128"

definition E2EE_REQUEST_SAFETY_TOKENS :: int where
  "E2EE_REQUEST_SAFETY_TOKENS = 512"

definition protocolOverhead :: "e2ee_protocol \<Rightarrow> int" where
  "protocolOverhead protocol =
     (if protocol = NearV2 then NEAR_V2_E2EE_PROTOCOL_OVERHEAD_BYTES
      else VENICE_E2EE_PROTOCOL_OVERHEAD_BYTES)"

definition is_hex_unit :: "16 word \<Rightarrow> bool" where
  "is_hex_unit u \<longleftrightarrow> (0x30 \<le> u \<and> u \<le> 0x39) \<or> (0x61 \<le> u \<and> u \<le> 0x66) \<or> (0x41 \<le> u \<and> u \<le> 0x46)"

definition isHexString :: "ustring \<Rightarrow> bool" where
  "isHexString value \<longleftrightarrow> length value mod 2 = 0 \<and> value \<noteq> [] \<and> list_all is_hex_unit value"

definition decodedHexBytes :: "ustring \<Rightarrow> int" where
  "decodedHexBytes value = int (length value) div 2"

definition assert_e2ee_message :: "e2ee_protocol \<Rightarrow> chat_message \<Rightarrow> unit result" where
  "assert_e2ee_message protocol message =
     (if msg_role message \<noteq> RUser \<and> msg_role message \<noteq> RSystem \<and> msg_role message \<noteq> RAssistant
      then Inl (App 400 ''e2ee_unsupported_role'')
      else if msg_tool_call_id message \<noteq> None then Inl (App 400 ''e2ee_tools_unsupported'')
      else (case msg_content message of
          CString content \<Rightarrow>
            if \<not> isHexString content then Inl (App 400 ''e2ee_invalid_ciphertext'')
            else if int (length content) < (protocolOverhead protocol + 1) * 2
            then Inl (App 400 ''e2ee_invalid_ciphertext'')
            else Inr ()
        | _ \<Rightarrow> Inl (App 400 ''e2ee_invalid_ciphertext'')))"

definition assertE2EESupported ::
    "chat_message list \<Rightarrow> bool \<Rightarrow> jsnum \<Rightarrow> e2ee_protocol option \<Rightarrow> unit result" where
  "assertE2EESupported messages stream maxOutputTokens protocol =
     (if \<not> stream then Inl (App 400 ''e2ee_requires_streaming'')
      else if \<not> js_is_integer maxOutputTokens
              \<or> (case maxOutputTokens of Fin q \<Rightarrow> q \<le> 0 | _ \<Rightarrow> True)
      then Inl (App 400 ''e2ee_requires_max_tokens'')
      else and_then (map_result
             (assert_e2ee_message (case protocol of None \<Rightarrow> VeniceLegacy | Some p \<Rightarrow> p)) messages)
             (\<lambda>_. Inr ()))"

definition e2ee_payload :: "e2ee_protocol \<Rightarrow> chat_message \<Rightarrow> int" where
  "e2ee_payload protocol message =
     (let content = (case msg_content message of CString s \<Rightarrow> s | _ \<Rightarrow> [])
      in max 0 (decodedHexBytes content - protocolOverhead protocol))"

definition estimateE2EEInputCeiling :: "chat_message list \<Rightarrow> int \<Rightarrow> e2ee_protocol \<Rightarrow> int" where
  "estimateE2EEInputCeiling messages contextWindow protocol =
     min (fold (\<lambda>message ceiling. ceiling + (e2ee_payload protocol message + E2EE_PER_MESSAGE_FRAMING_TOKENS))
            messages E2EE_REQUEST_SAFETY_TOKENS)
         (max 1 contextWindow)"

subsection \<open>The estimates and the ceiling\<close>

lemma utf8_length_ge: "length s \<le> utf8_length s"
  by (induction s rule: utf8_length.induct) auto

lemma estimateTextTokens_le: "estimateTextTokens s \<le> int (length s)"
proof (cases s)
  case (Cons u us)
  have "\<lceil>of_nat (length s) / (4 :: rat)\<rceil> \<le> int (length s)"
    by (simp add: ceiling_le_iff)
  with Cons show ?thesis by (simp add: estimateTextTokens_def)
qed (simp add: estimateTextTokens_def)

lemma estimateTextTokens_nonneg: "0 \<le> estimateTextTokens s"
  by (simp add: estimateTextTokens_def)

lemma estimateTextTokens_utf8: "estimateTextTokens s \<le> utf8Bytes (Some s)"
  using estimateTextTokens_le [of s] utf8_length_ge [of s] 
  by (cases s) (simp_all add: utf8Bytes_def estimateTextTokens_def)

lemma utf8Bytes_nonneg: "0 \<le> utf8Bytes s"
  by (simp add: utf8Bytes_def split: option.splits)

lemma toolCallBytes_nonneg: "0 \<le> toolCallBytes calls"
  by (auto simp: toolCallBytes_def intro!: sum_list_map_nonneg split: option.splits)

lemma countImageParts_nonneg: "0 \<le> countImageParts c"
  by (cases c) auto

lemmas ceiling_parts_nonneg = utf8Bytes_nonneg toolCallBytes_nonneg countImageParts_nonneg

lemma message_ceiling_ge:
  "estimateTextTokens (messageText (msg_content m)) + 4 \<le> message_ceiling m"
  using estimateTextTokens_utf8 [of "messageText (msg_content m)"]
    utf8Bytes_nonneg [of "Some (ascii (role_text (msg_role m)))"] utf8Bytes_nonneg [of "msg_name m"]
    utf8Bytes_nonneg [of "msg_tool_call_id m"] toolCallBytes_nonneg [of "msg_tool_calls m"]
    countImageParts_nonneg [of "msg_content m"]
  by (simp add: message_ceiling_def INPUT_CEILING_PER_MESSAGE_TOKENS_def
      INPUT_CEILING_PER_IMAGE_TOKENS_def)

text \<open>
  Admission is safe against the ordinary estimate: for every list of messages, whatever their
  text, the token estimate the code uses elsewhere lies at least the request allowance of 512
  below the billing ceiling that was reserved.
\<close>

theorem estimate_below_ceiling:
  "estimateInputTokens ms + INPUT_CEILING_REQUEST_SAFETY_TOKENS \<le> estimateInputTokenCeiling ms"
proof -
  have "(\<Sum>m \<leftarrow> ms. estimateTextTokens (messageText (msg_content m)) + 4) \<le> (\<Sum>m \<leftarrow> ms. message_ceiling m)"
    by (rule sum_list_map_mono) (rule message_ceiling_ge)
  moreover have "(\<Sum>m \<leftarrow> ms. estimateTextTokens (messageText (msg_content m)) + 4)
      = (\<Sum>m \<leftarrow> ms. estimateTextTokens (messageText (msg_content m))) + int (length ms) * 4"
    by (induction ms) simp_all
  ultimately show ?thesis
    by (simp add: estimateInputTokens_def estimateInputTokenCeiling_def)
qed

lemma normalize_count_nonneg: "0 \<le> fallback \<Longrightarrow> 0 \<le> normalize_count r fallback"
  by (simp add: normalize_count_def split: option.splits jsnum.splits)

lemma normalizeUsage_nonneg:
  assumes "0 \<le> inputTokens fb" "0 \<le> outputTokens fb" "0 \<le> cachedTokens fb"
    and "\<And>n. cacheWriteTokens fb = Some n \<Longrightarrow> 0 \<le> n"
  shows "0 \<le> inputTokens (normalizeUsage u fb) \<and> 0 \<le> outputTokens (normalizeUsage u fb)
    \<and> 0 \<le> cachedTokens (normalizeUsage u fb)
    \<and> (\<exists>n. cacheWriteTokens (normalizeUsage u fb) = Some n \<and> 0 \<le> n)"
  using assms by (auto simp: normalizeUsage_def intro!: normalize_count_nonneg split: option.splits)

subsection \<open>The ciphertext ceiling\<close>

definition encrypts :: "e2ee_protocol \<Rightarrow> chat_message \<Rightarrow> nat \<Rightarrow> bool" where
  "encrypts protocol m n \<longleftrightarrow>
     (\<exists>c. msg_content m = CString c \<and> int (length c) = 2 * (protocolOverhead protocol + int n))"

lemma encrypts_payload: "encrypts p m n \<Longrightarrow> e2ee_payload p m = int n"
  by (auto simp: encrypts_def e2ee_payload_def decodedHexBytes_def)

lemma assert_e2ee_message_minimum:
  "assert_e2ee_message p m = Inr () \<Longrightarrow> encrypts p m n \<Longrightarrow> 1 \<le> n"
  by (auto simp: assert_e2ee_message_def encrypts_def split: if_splits)

lemma assert_e2ee_Inr:
  "assertE2EESupported ms stream mx (Some p) = Inr () \<Longrightarrow> m \<in> set ms \<Longrightarrow> assert_e2ee_message p m = Inr ()"
  by (auto simp: assertE2EESupported_def and_then_Inr_iff map_result_Inr_iff list_all2_iff
      in_set_conv_nth set_zip split: if_splits) (metis nth_mem)

text \<open>
  The ciphertext ceiling bounds the plaintext: when a request passes \<open>assertE2EESupported\<close> and
  message \<open>i\<close> encrypts \<open>ns ! i\<close> plaintext bytes, every plaintext is non-empty and the ceiling is
  the sum of the plaintext bytes plus 128 per message plus 512, cut at the context window. So a
  token of at least one byte can never exceed it below the window.
\<close>

theorem e2ee_ceiling_exact:
  assumes "assertE2EESupported ms stream mx (Some p) = Inr ()"
    and "list_all2 (encrypts p) ms ns"
  shows "estimateE2EEInputCeiling ms window p =
      min (512 + int (sum_list ns) + 128 * int (length ms)) (max 1 window)
    \<and> (\<forall>n \<in> set ns. 1 \<le> n)"
proof
  from assms(2) have "(\<Sum>m \<leftarrow> ms. e2ee_payload p m + 128) = int (sum_list ns) + 128 * int (length ms)"
    by (induction rule: list_all2_induct) (simp_all add: encrypts_payload)
  then show "estimateE2EEInputCeiling ms window p =
      min (512 + int (sum_list ns) + 128 * int (length ms)) (max 1 window)"
    by (simp add: estimateE2EEInputCeiling_def E2EE_PER_MESSAGE_FRAMING_TOKENS_def
        E2EE_REQUEST_SAFETY_TOKENS_def add.assoc)
  show "\<forall>n \<in> set ns. 1 \<le> n"
    using assms assert_e2ee_Inr assert_e2ee_message_minimum
    by (fastforce simp: list_all2_conv_all_nth in_set_conv_nth)
qed

definition sample_cipher :: "chat_message" where
  "sample_cipher = \<lparr> msg_role = RUser, msg_content = CString (replicate 150 0x61),
     msg_name = None, msg_tool_call_id = None, msg_tool_calls = None \<rparr>"

theorem e2ee_ceiling_exact_witness:
  "estimateE2EEInputCeiling [sample_cipher] 4096 NearV2 = 643"
proof -
  have ok: "assertE2EESupported [sample_cipher] True (Fin 16) (Some NearV2) = Inr ()"
    by (simp add: assertE2EESupported_def assert_e2ee_message_def sample_cipher_def isHexString_def
        is_hex_unit_def protocolOverhead_def NEAR_V2_E2EE_PROTOCOL_OVERHEAD_BYTES_def is_whole_def
        list_all_length)
  have enc: "list_all2 (encrypts NearV2) [sample_cipher] [3]"
    by (simp add: encrypts_def sample_cipher_def protocolOverhead_def
        NEAR_V2_E2EE_PROTOCOL_OVERHEAD_BYTES_def)
  show ?thesis using e2ee_ceiling_exact [OF ok enc, of 4096] by simp
qed

end
