(* ===== verification/OpaqueReceipt.thy ===== *)
theory OpaqueReceipt
  imports Prelude
begin

section \<open>Opaque receipt identifiers (inference/opaqueReceipt.ts)\<close>

text \<open>
  The encoding of \<open>src/src/inference/opaqueReceipt.ts\<close>: \<^verbatim>\<open>arcpt_\<close> and 52 Crockford base32 characters over
  32 random bytes, and the two shape tests. The random bytes are an argument of
  \<open>mintOpaqueReceiptId\<close>; the \<open>bigint\<close> accumulator is a natural number.
\<close>

definition ALPHABET :: string where
  "ALPHABET = ''0123456789abcdefghjkmnpqrstvwxyz''"

definition OPAQUE_RECEIPT_PREFIX :: string where
  "OPAQUE_RECEIPT_PREFIX = ''arcpt_''"

definition OPAQUE_RECEIPT_BODY_LENGTH :: nat where
  "OPAQUE_RECEIPT_BODY_LENGTH = 52"

definition receipt_acc :: "nat list \<Rightarrow> nat" where
  "receipt_acc raw = foldl (\<lambda>acc byte. acc * 256 + byte) 0 raw * 16"

definition mintOpaqueReceiptId :: "nat list \<Rightarrow> string" where
  "mintOpaqueReceiptId raw =
     (let acc = receipt_acc raw
      in OPAQUE_RECEIPT_PREFIX @
         map (\<lambda>i. ALPHABET ! (acc div 2 ^ ((OPAQUE_RECEIPT_BODY_LENGTH - 1 - i) * 5) mod 32))
           [0..<OPAQUE_RECEIPT_BODY_LENGTH])"

definition isOpaqueReceiptId :: "string \<Rightarrow> bool" where
  "isOpaqueReceiptId value \<longleftrightarrow>
     take 6 value = OPAQUE_RECEIPT_PREFIX
     \<and> length value = 6 + OPAQUE_RECEIPT_BODY_LENGTH
     \<and> list_all (\<lambda>c. c \<in> set ALPHABET) (drop 6 value)"

definition is_hex_char :: "char \<Rightarrow> bool" where
  "is_hex_char c \<longleftrightarrow> c \<in> set ''0123456789abcdefABCDEF''"

definition looksLikeExactContentHash :: "string \<Rightarrow> bool" where
  "looksLikeExactContentHash value \<longleftrightarrow> length value = 64 \<and> list_all is_hex_char value"

subsection \<open>The encoding is well formed, injective and never a digest\<close>

lemma length_ALPHABET [simp]: "length ALPHABET = 32"
  by (simp add: ALPHABET_def)

lemma distinct_ALPHABET: "distinct ALPHABET"
  by (simp add: ALPHABET_def)

text \<open>A number below \<open>32 ^ n\<close> is determined by its \<open>n\<close> base-32 digits.\<close>

lemma base32_digits_inj:
  assumes "a < 32 ^ n" and "b < 32 ^ n"
    and "\<forall>i < n. a div 32 ^ i mod 32 = (b div 32 ^ i mod 32 :: nat)"
  shows "a = b"
  using assms
proof (induction n arbitrary: a b)
  case (Suc n)
  have "a div 32 = b div 32"
  proof (rule Suc.IH)
    show "a div 32 < 32 ^ n" "b div 32 < 32 ^ n"
      using Suc.prems(1,2) by (simp_all add: less_mult_imp_div_less mult.commute)
    show "\<forall>i < n. a div 32 div 32 ^ i mod 32 = b div 32 div 32 ^ i mod 32"
    proof (intro allI impI)
      fix i assume "i < n"
      with Suc.prems(3) have "a div 32 ^ Suc i mod 32 = b div 32 ^ Suc i mod 32" by blast
      then show "a div 32 div 32 ^ i mod 32 = b div 32 div 32 ^ i mod 32"
        by (simp add: div_mult2_eq)
    qed
  qed
  moreover have "a mod 32 = b mod 32" using Suc.prems(3) by (auto dest: spec [of _ 0])
  ultimately show ?case by (metis div_mult_mod_eq)
qed simp

lemma foldl_bytes_bound:
  "list_all (\<lambda>b. b < 256) raw \<Longrightarrow>
     foldl (\<lambda>acc byte. acc * 256 + byte) (a :: nat) raw < (a + 1) * 256 ^ length raw"
proof (induction raw arbitrary: a)
  case (Cons b raw)
  then have "foldl (\<lambda>acc byte. acc * 256 + byte) (a * 256 + b) raw
      < (a * 256 + b + 1) * 256 ^ length raw" by simp
  also have "\<dots> \<le> ((a + 1) * 256) * 256 ^ length raw"
    using Cons.prems by (intro mult_right_mono) auto
  finally show ?case by (simp add: algebra_simps)
qed simp

lemma foldl_bytes_inj:
  assumes "list_all (\<lambda>b. b < 256) xs" and "list_all (\<lambda>b. b < 256) ys" and "length xs = length ys"
    and "foldl (\<lambda>acc byte. acc * 256 + byte) a xs = foldl (\<lambda>acc byte. acc * 256 + byte) a (ys :: nat list)"
  shows "xs = ys"
  using assms(3,1,2,4)
proof (induction xs ys rule: rev_induct2)
  case (4 x xs y ys)
  let ?f = "foldl (\<lambda>acc byte. acc * 256 + byte) a"
  from 4 have eq: "?f xs * 256 + x = ?f ys * 256 + y" and xy: "x < 256" "y < 256" by auto
  have "x = (?f xs * 256 + x) mod 256" "y = (?f ys * 256 + y) mod 256" using xy by simp_all
  then have "x = y" using eq by simp
  then show ?case using 4 eq by simp
qed simp_all

definition raw32 :: "nat list \<Rightarrow> bool" where
  "raw32 raw \<longleftrightarrow> length raw = 32 \<and> list_all (\<lambda>b. b < 256) raw"

lemma receipt_acc_bound: "raw32 raw \<Longrightarrow> receipt_acc raw < 32 ^ 52"
  using foldl_bytes_bound [of raw 0] by (simp add: raw32_def receipt_acc_def)

lemma receipt_acc_inj: "raw32 xs \<Longrightarrow> raw32 ys \<Longrightarrow> receipt_acc xs = receipt_acc ys \<Longrightarrow> xs = ys"
  by (auto simp: raw32_def receipt_acc_def intro: foldl_bytes_inj)

lemma mint_digit:
  assumes "mintOpaqueReceiptId xs = mintOpaqueReceiptId ys" and "i < 52"
  shows "receipt_acc xs div 32 ^ i mod 32 = receipt_acc ys div 32 ^ i mod 32"
proof -
  have "ALPHABET ! (receipt_acc xs div 2 ^ ((51 - (51 - i)) * 5) mod 32)
      = ALPHABET ! (receipt_acc ys div 2 ^ ((51 - (51 - i)) * 5) mod 32)"
  proof -
    have "\<forall>j \<in> {0..<52}. ALPHABET ! (receipt_acc xs div 2 ^ ((51 - j) * 5) mod 32)
        = ALPHABET ! (receipt_acc ys div 2 ^ ((51 - j) * 5) mod 32)"
      using assms(1) by (simp add: mintOpaqueReceiptId_def Let_def OPAQUE_RECEIPT_BODY_LENGTH_def)
    moreover have "51 - i \<in> {0..<52}" by simp
    ultimately show ?thesis by blast
  qed
  moreover have "(2 :: nat) ^ ((51 - (51 - i)) * 5) = 32 ^ i"
  proof -
    have "(51 - (51 - i)) * 5 = 5 * i" using assms(2) by simp
    then have "(2 :: nat) ^ ((51 - (51 - i)) * 5) = 2 ^ (5 * i)" by (rule arg_cong)
    also have "\<dots> = (2 ^ 5) ^ i" by (rule power_mult)
    finally show ?thesis by simp
  qed
  ultimately show ?thesis
    using distinct_ALPHABET by (simp add: nth_eq_iff_index_eq)
qed

text \<open>
  The receipt a settlement records cannot carry a content hash and loses no entropy: every
  minted identifier passes \<open>isOpaqueReceiptId\<close>, no string passes both that test and
  \<open>looksLikeExactContentHash\<close>, and two different draws of 32 random bytes mint different
  identifiers.
\<close>

theorem minted_receipts:
  assumes "raw32 raw"
  shows "isOpaqueReceiptId (mintOpaqueReceiptId raw)
    \<and> (\<forall>v. isOpaqueReceiptId v \<longrightarrow> \<not> looksLikeExactContentHash v)
    \<and> (\<forall>other. raw32 other \<longrightarrow> mintOpaqueReceiptId other = mintOpaqueReceiptId raw \<longrightarrow> other = raw)"
proof (intro conjI allI impI)
  show "isOpaqueReceiptId (mintOpaqueReceiptId raw)"
    by (simp add: isOpaqueReceiptId_def mintOpaqueReceiptId_def OPAQUE_RECEIPT_PREFIX_def Let_def
        OPAQUE_RECEIPT_BODY_LENGTH_def list_all_iff)
  show "\<not> looksLikeExactContentHash v" if "isOpaqueReceiptId v" for v
    using that by (simp add: isOpaqueReceiptId_def looksLikeExactContentHash_def
        OPAQUE_RECEIPT_BODY_LENGTH_def)
  show "other = raw" if "raw32 other" "mintOpaqueReceiptId other = mintOpaqueReceiptId raw" for other
  proof (rule receipt_acc_inj [OF that(1) assms])
    show "receipt_acc other = receipt_acc raw"
      using base32_digits_inj [OF receipt_acc_bound [OF that(1)] receipt_acc_bound [OF assms]]
        mint_digit [OF that(2)] by blast
  qed
qed

theorem minted_receipts_witness:
  "isOpaqueReceiptId (mintOpaqueReceiptId (replicate 32 7))"
proof -
  have "raw32 (replicate 32 7)" by (simp add: raw32_def list_all_length)
  from minted_receipts [OF this] show ?thesis by blast
qed

end
