(* ===== verification/Plans.thy ===== *)
theory Plans
  imports Prelude
begin

section \<open>Usage plans and the daily budget (rate-limit/plans.ts)\<close>

text \<open>
  The plan resolution and admission of \<open>src/src/rate-limit/plans.ts\<close>, and the daily-budget hold. The
  table \<open>billing.account_daily_budget_usage\<close> is a list of rows keyed by account and UTC day; a day
  is the number of days since the epoch, since the code only ever compares it and hands it back.
  \<open>reserveDailyBudget\<close> and \<open>reconcileDailyBudget\<close> are one transaction each: they take the table and
  the database clock and return the new table. The column defaults of the inserted row belong to
  the schema, which is not in the repository: they are the parameter \<open>(spent0, reserved0)\<close>.
  Amounts are exact rationals.
\<close>

datatype plan_code = PlanPayg | PlanCustom

datatype plan_source = PlanDefault | PlanAdmin

record usage_plan =
  plan_code :: plan_code
  plan_source :: plan_source
  plan_name :: string
  requestsPerMinute :: int
  tokensPerMinute :: int
  concurrentGenerations :: int
  dailyBudgetUsd :: "rat option"
  maxRequestCostUsd :: "rat option"
  modelAllowlist :: "string list option"

definition payg_plan :: usage_plan where
  "payg_plan = \<lparr> plan_code = PlanPayg, plan_source = PlanDefault, plan_name = ''Pay as you go'',
     requestsPerMinute = 120, tokensPerMinute = 2000000, concurrentGenerations = 8,
     dailyBudgetUsd = None, maxRequestCostUsd = None, modelAllowlist = None \<rparr>"

definition ticketIssuanceRequestsPerMinute :: "usage_plan \<Rightarrow> bool \<Rightarrow> int" where
  "ticketIssuanceRequestsPerMinute plan automatic =
     (if automatic then max 1 (min 60 (requestsPerMinute plan)) else 60)"

record plan_row =
  row_plan_name :: "string option"
  row_requests_per_minute :: "int option"
  row_tokens_per_minute :: "int option"
  row_concurrent_generations :: "int option"
  row_daily_budget_usd :: "rat option"
  row_max_request_cost_usd :: "rat option"
  row_model_allowlist :: "string list option"

text \<open>\<open>Number(null)\<close> is 0; an absent row, a null name and an empty name all mean the default plan.\<close>

definition number_or_null :: "int option \<Rightarrow> int" where
  "number_or_null v = (case v of None \<Rightarrow> 0 | Some n \<Rightarrow> n)"

definition resolveUsagePlan :: "(string \<Rightarrow> plan_row option) \<Rightarrow> string \<Rightarrow> usage_plan" where
  "resolveUsagePlan plans accountId =
     (case plans accountId of
        None \<Rightarrow> payg_plan
      | Some row \<Rightarrow> (case row_plan_name row of
          None \<Rightarrow> payg_plan
        | Some name \<Rightarrow>
            if name = [] then payg_plan
            else \<lparr> plan_code = PlanCustom, plan_source = PlanAdmin, plan_name = name,
                   requestsPerMinute = number_or_null (row_requests_per_minute row),
                   tokensPerMinute = number_or_null (row_tokens_per_minute row),
                   concurrentGenerations = number_or_null (row_concurrent_generations row),
                   dailyBudgetUsd = row_daily_budget_usd row,
                   maxRequestCostUsd = row_max_request_cost_usd row,
                   modelAllowlist = row_model_allowlist row \<rparr>))"

definition starts_with :: "string \<Rightarrow> string \<Rightarrow> bool" where
  "starts_with s p \<longleftrightarrow> take (length p) s = p"

definition patternMatches :: "string \<Rightarrow> string \<Rightarrow> bool" where
  "patternMatches pattern modelId =
     (if pattern = ''*'' then True
      else if pattern \<noteq> [] \<and> last pattern = CHR ''*'' then starts_with modelId (butlast pattern)
      else pattern = modelId)"

definition enforcePlanRequest :: "usage_plan \<Rightarrow> string \<Rightarrow> rat \<Rightarrow> unit result" where
  "enforcePlanRequest plan modelId estimatedCostUsd =
     (if (case modelAllowlist plan of None \<Rightarrow> False
          | Some patterns \<Rightarrow> patterns \<noteq> [] \<and> \<not> list_ex (\<lambda>p. patternMatches p modelId) patterns)
      then Inl (App 403 ''model_not_allowed_by_plan'')
      else if (case maxRequestCostUsd plan of None \<Rightarrow> False
               | Some limit \<Rightarrow> estimatedCostUsd > limit + js_epsilon)
      then Inl (App 402 ''request_cost_limit_exceeded'')
      else Inr ())"

subsection \<open>The daily budget table\<close>

type_synonym day = int

record daily_row =
  d_account :: string
  d_date :: day
  d_spent :: rat
  d_reserved :: rat

definition d_key :: "daily_row \<Rightarrow> string \<times> day" where
  "d_key r = (d_account r, d_date r)"

record daily_hold =
  reservedUsd :: rat
  usageDate :: "day option"

definition utc_day :: "int \<Rightarrow> day" where
  "utc_day now_ms = now_ms div 86400000"

definition reserveDailyBudget ::
    "rat \<times> rat \<Rightarrow> int \<Rightarrow> daily_row list \<Rightarrow> string \<Rightarrow> rat option \<Rightarrow> rat
     \<Rightarrow> daily_row list \<times> daily_hold result" where
  "reserveDailyBudget defaults now_ms t accountId budget estimatedCostUsd =
     (case budget of
        None \<Rightarrow> (t, Inr \<lparr> reservedUsd = 0, usageDate = None \<rparr>)
      | Some dailyBudget \<Rightarrow>
          if estimatedCostUsd \<le> 0 then (t, Inr \<lparr> reservedUsd = 0, usageDate = None \<rparr>)
          else
            let amount = toFixed6 estimatedCostUsd;
                today = utc_day now_ms;
                t1 = insert_unless d_key \<lparr> d_account = accountId, d_date = today,
                       d_spent = fst defaults, d_reserved = snd defaults \<rparr> t;
                used = (case select_row d_key (accountId, today) t1 of
                          None \<Rightarrow> 0 | Some r \<Rightarrow> d_spent r + d_reserved r)
            in if used + amount > dailyBudget + js_epsilon
               then (t, Inl (App 402 ''daily_budget_exhausted''))
               else (update_rows d_key (accountId, today)
                       (\<lambda>r. r\<lparr> d_reserved := d_reserved r + amount \<rparr>) t1,
                     Inr \<lparr> reservedUsd = amount, usageDate = Some today \<rparr>))"

definition reconcileDailyBudget ::
    "int \<Rightarrow> daily_row list \<Rightarrow> string \<Rightarrow> rat \<Rightarrow> rat \<Rightarrow> day option \<Rightarrow> daily_row list" where
  "reconcileDailyBudget now_ms t accountId reserved finalCostUsd date =
     (if reserved \<le> 0 \<and> finalCostUsd \<le> 0 then t
      else update_rows d_key
             (accountId, case date of None \<Rightarrow> utc_day now_ms | Some d \<Rightarrow> d)
             (\<lambda>r. r\<lparr> d_reserved := max 0 (d_reserved r - max 0 reserved),
                     d_spent := d_spent r + max 0 finalCostUsd \<rparr>) t)"

subsection \<open>Properties\<close>

lemma d_key_updates [simp]:
  "d_key (r\<lparr> d_reserved := x \<rparr>) = d_key r"
  "d_key (r\<lparr> d_reserved := x, d_spent := y \<rparr>) = d_key r"
  by (simp_all add: d_key_def)

lemma patternMatches_prefix:
  "patternMatches (p @ ''*'') m \<longleftrightarrow> p = [] \<or> starts_with m p"
  by (auto simp: patternMatches_def butlast_append)

text \<open>
  Plan admission: a request passes exactly when the model matches the allow-list (if there is a
  non-empty one) by an exact name, by \<open>*\<close> or by a prefix pattern, and its estimate does not exceed
  the plan's per-request limit by more than one rounding unit. The default plan refuses nothing.
\<close>

theorem enforcePlanRequest_iff:
  "enforcePlanRequest plan m cost = Inr () \<longleftrightarrow>
     (\<forall>ps. modelAllowlist plan = Some ps \<longrightarrow> ps = [] \<or>
        (\<exists>p \<in> set ps. p = m \<or> (\<exists>q. p = q @ ''*'' \<and> starts_with m q)))
     \<and> (\<forall>limit. maxRequestCostUsd plan = Some limit \<longrightarrow> cost \<le> limit + js_epsilon)"
proof -
  have match: "patternMatches p m \<longleftrightarrow> p = m \<or> (\<exists>q. p = q @ ''*'' \<and> starts_with m q)" for p
  proof (cases "p \<noteq> [] \<and> last p = CHR ''*''")
    case True
    then have p: "p = butlast p @ ''*''" by (metis append_butlast_last_id)
    have "patternMatches p m \<longleftrightarrow> starts_with m (butlast p)"
    proof (cases "p = ''*''")
      case True
      then show ?thesis by (simp add: patternMatches_def starts_with_def)
    next
      case False
      with True show ?thesis by (simp add: patternMatches_def)
    qed
    moreover have "starts_with m (butlast p)" if "p = m"
      using that by (simp add: starts_with_def butlast_conv_take)
    moreover have "(\<exists>q. p = q @ ''*'' \<and> starts_with m q) \<longleftrightarrow> starts_with m (butlast p)"
      using p by (metis butlast_snoc)
    ultimately show ?thesis by blast
  next
    case False
    then show ?thesis by (auto simp: patternMatches_def)
  qed
  show ?thesis
    by (auto simp: enforcePlanRequest_def match list_ex_iff not_less split: option.splits)
qed

theorem enforcePlanRequest_iff_witness:
  "enforcePlanRequest (payg_plan\<lparr> modelAllowlist := Some [''glm-*''], maxRequestCostUsd := Some 2 \<rparr>)
     ''glm-5'' 2 = Inr ()"
  unfolding enforcePlanRequest_iff
  by (simp add: payg_plan_def starts_with_def js_epsilon_def)

lemma select_insert_unless:
  "\<exists>r. select_row key (key n) (insert_unless key n t) = Some r \<and> (r = n \<or> r \<in> set t)"
  by (cases "select_row key (key n) t")
     (auto simp: insert_unless_def table_simps dest: select_row_SomeD)

text \<open>
  A granted hold never overdraws the day: after a successful \<open>reserveDailyBudget\<close> that took a
  hold, the row of the account and of the day it reports has spent plus reserved at most the
  budget (up to the comparison epsilon), its reserved amount grew by exactly the returned hold,
  and no row of another account or day changed. A refusal changes nothing.
\<close>

theorem reserveDailyBudget_bounded:
  assumes "reserveDailyBudget defaults now t a (Some budget) est = (t', res)" and "0 < est"
  shows "case res of
      Inl e \<Rightarrow> t' = t \<and> e = App 402 ''daily_budget_exhausted''
    | Inr hold \<Rightarrow>
        (\<exists>r. select_row d_key (a, utc_day now) t' = Some r
           \<and> d_spent r + d_reserved r \<le> budget + js_epsilon
           \<and> reservedUsd hold = toFixed6 est \<and> usageDate hold = Some (utc_day now)
           \<and> (case select_row d_key (a, utc_day now) t of
                None \<Rightarrow> d_reserved r = snd defaults + reservedUsd hold
              | Some r0 \<Rightarrow> d_reserved r = d_reserved r0 + reservedUsd hold))
        \<and> (\<forall>k. k \<noteq> (a, utc_day now) \<longrightarrow> select_row d_key k t' = select_row d_key k t)"
proof -
  let ?k = "(a, utc_day now)"
  let ?n = "\<lparr> d_account = a, d_date = utc_day now, d_spent = fst defaults, d_reserved = snd defaults \<rparr>"
  let ?t1 = "insert_unless d_key ?n t"
  have key: "d_key ?n = ?k" by (simp add: d_key_def)
  have sel: "select_row d_key ?k ?t1 =
      Some (case select_row d_key ?k t of None \<Rightarrow> ?n | Some r0 \<Rightarrow> r0)"
    using key by (auto simp: insert_unless_def table_simps split: option.splits)
  have other: "k \<noteq> ?k \<Longrightarrow> select_row d_key k ?t1 = select_row d_key k t" for k
    using key by (auto simp: insert_unless_def table_simps split: option.splits)
  show ?thesis
    using assms sel other
    by (auto simp: reserveDailyBudget_def Let_def table_simps not_less add.commute add.left_commute
        split: if_splits option.splits)
qed

definition day0_table :: "daily_row list" where
  "day0_table = [\<lparr> d_account = ''acc'', d_date = 0, d_spent = 1, d_reserved = 0 \<rparr>]"

theorem reserveDailyBudget_bounded_witness:
  "\<exists>t' hold. reserveDailyBudget (0, 0) 5 day0_table ''acc'' (Some 4) 2 = (t', Inr hold)
     \<and> reservedUsd hold = toFixed6 2"
proof -
  let ?x = "reserveDailyBudget (0, 0) 5 day0_table ''acc'' (Some 4) 2"
  obtain t' res where x: "?x = (t', res)" by fastforce
  have "toFixed6 2 = 2" by (rule toFixed6_micro) (simp add: is_micro_def is_whole_def)
  then obtain hold where "res = Inr hold"
    using x by (auto simp: reserveDailyBudget_def day0_table_def utc_day_def insert_unless_def
        table_simps d_key_def js_epsilon_def Let_def split: if_splits)
  then show ?thesis using reserveDailyBudget_bounded [OF x] x by auto
qed

text \<open>
  A hold whose row exists is returned in full by settling on the reported day, whatever the
  clock then says: releasing the reserved amount at zero cost restores the row the hold was
  written to, so a request that crosses midnight strands nothing.
\<close>

theorem daily_hold_released_on_its_day:
  assumes "reserveDailyBudget defaults now t a (Some budget) est = (t', Inr hold)"
    and "0 < est" and "select_row d_key (a, utc_day now) t = Some r" and "0 \<le> d_reserved r"
  shows "select_row d_key (a, utc_day now)
           (reconcileDailyBudget later t' a (reservedUsd hold) 0 (usageDate hold)) = Some r"
proof -
  let ?k = "(a, utc_day now)"
  have t1: "insert_unless d_key n t = t" if "d_key n = ?k" for n
    using assms(3) that by (simp add: insert_unless_def)
  have hold: "reservedUsd hold = toFixed6 est" "usageDate hold = Some (utc_day now)"
    and t': "t' = update_rows d_key ?k (\<lambda>r. r\<lparr> d_reserved := d_reserved r + toFixed6 est \<rparr>) t"
    using assms(1,2) t1 by (auto simp: reserveDailyBudget_def Let_def d_key_def split: if_splits)
  have "select_row d_key ?k t' = Some (r\<lparr> d_reserved := d_reserved r + toFixed6 est \<rparr>)"
    using assms(3) by (simp add: t' table_simps)
  moreover have "0 \<le> toFixed6 est" using assms(2) by (simp add: toFixed6_nonneg)
  ultimately show ?thesis
    using assms(4) by (auto simp: reconcileDailyBudget_def hold table_simps max_def)
qed

theorem daily_hold_released_on_its_day_witness:
  "\<exists>t' hold. reserveDailyBudget (0, 0) 5 day0_table ''acc'' (Some 4) 2 = (t', Inr hold)
   \<and> select_row d_key (''acc'', 0)
     (reconcileDailyBudget 86400005 t' ''acc'' (reservedUsd hold) 0 (usageDate hold))
       = Some \<lparr> d_account = ''acc'', d_date = 0, d_spent = 1, d_reserved = 0 \<rparr>"
proof -
  have two: "toFixed6 2 = 2" by (rule toFixed6_micro) (simp add: is_micro_def is_whole_def)
  obtain t' hold where x: "reserveDailyBudget (0, 0) 5 day0_table ''acc'' (Some 4) 2 = (t', Inr hold)"
    using two by (simp add: reserveDailyBudget_def day0_table_def utc_day_def insert_unless_def
        table_simps d_key_def js_epsilon_def Let_def)
  have "select_row d_key (''acc'', utc_day 5)
     (reconcileDailyBudget 86400005 t' ''acc'' (reservedUsd hold) 0 (usageDate hold))
       = Some \<lparr> d_account = ''acc'', d_date = 0, d_spent = 1, d_reserved = 0 \<rparr>"
    by (rule daily_hold_released_on_its_day [OF x])
       (simp_all add: day0_table_def utc_day_def table_simps d_key_def)
  then show ?thesis using x by (auto simp: utc_day_def)
qed

text \<open>
  A hold below half a micro is reported with a day although nothing is held: the interface
  comment says the reported day is null exactly when the held amount is 0, and the code reports
  the day, having inserted the row, for every positive estimate that rounds to 0.
\<close>

theorem tiny_hold_reports_a_day:
  assumes "0 < est" and "est < 1 / 2000000" and "0 \<le> budget"
    and "select_row d_key (a, utc_day now) t = None"
  shows "\<exists>t'. reserveDailyBudget (0, 0) now t a (Some budget) est =
      (t', Inr \<lparr> reservedUsd = 0, usageDate = Some (utc_day now) \<rparr>)"
proof -
  have "\<lfloor>est * 1000000 + 1 / 2\<rfloor> = 0"
    using assms(1,2) by (intro floor_unique) simp_all
  then have "toFixed6 est = 0" using assms(1) by (simp add: toFixed6_def)
  then show ?thesis
    using assms by (simp add: reserveDailyBudget_def insert_unless_def table_simps d_key_def
        js_epsilon_def Let_def)
qed

theorem tiny_hold_reports_a_day_witness:
  "\<exists>t'. reserveDailyBudget (0, 0) 5 [] ''acc'' (Some 1) (1 / 10000000) =
      (t', Inr \<lparr> reservedUsd = 0, usageDate = Some (utc_day 5) \<rparr>)"
  by (rule tiny_hold_reports_a_day) (simp_all add: table_simps)

end
