(* ===== verification/Ledger.thy ===== *)
theory Ledger
  imports Money Metering Plans OpaqueReceipt
begin

section \<open>The billing database and its environment (metering/billing.ts)\<close>

text \<open>
  The tables the statements of \<open>src/src/metering/billing.ts\<close> read and write, each a list of rows with
  the columns the code names; SELECT by key, UPDATE .. WHERE key and INSERT are the operations of
  the prelude. Dollar columns are exact rationals and micro columns integers. The random row ids
  (\<open>newId\<close>) and \<open>updated_at\<close> are left out, no statement reads them.

  What is not in the repository is the record \<open>env\<close>: the two clocks (the transaction's \<open>now()\<close> and
  the process's \<open>Date.now()\<close>), the schema's column defaults for a reservation row, the SQL functions
  \<open>security.lock_api_key\<close>, \<open>billing.trial_pool_admit\<close> and \<open>billing.trial_pool_release_unused\<close>, and the
  constraints of the schema (\<open>schema_accepts\<close>: whether a state satisfies every CHECK and FOREIGN
  KEY). A transaction is a function from the state to an error or a new state with a result;
  \<open>run_tx\<close> is BEGIN .. COMMIT with ROLLBACK on every error.
\<close>

datatype funding_source = Balance | Trial | TrialPool

datatype res_status = Reserved | Settled | Released

datatype operation = OpChat | OpEmbeddings | OpImage | OpSpeech

datatype event_type = EvCredit | EvAdjustment | EvReserve | EvRelease | EvCharge

datatype usage_status = UsageSucceeded | UsageFailed | UsageRateLimited | UsageInsufficient

record balance_row =
  b_account :: string
  b_available :: rat
  b_reserved :: rat

record balance_event =
  e_account :: string
  e_type :: event_type
  e_amount :: rat
  e_request :: "string option"

record reservation =
  r_request :: string
  r_account :: string
  r_api_key :: "string option"
  r_reserved :: rat
  r_charged :: rat
  r_status :: res_status
  r_provider :: "string option"
  r_model :: "string option"
  r_input_price :: rat
  r_output_price :: rat
  r_cache_read_price :: "rat option"
  r_cache_write_price :: "rat option"
  r_daily_reserved :: rat
  r_est_input :: int
  r_est_output :: int
  r_operation :: operation
  r_funding :: funding_source
  r_pool_date :: "day option"
  r_daily_date :: "day option"
  r_created_at :: int
  r_attempt_started :: "int option"
  r_delivery_started :: "int option"
  r_latency :: "rat option"
  r_first_token :: "int option"
  r_finalized_at :: "int option"

record usage_event =
  u_request :: string
  u_account :: string
  u_provider :: "string option"
  u_model :: "string option"
  u_api_key :: "string option"
  u_operation :: operation
  u_input :: int
  u_output :: int
  u_cached :: int
  u_cache_write :: int
  u_cost :: rat
  u_provider_cost :: rat
  u_status :: usage_status
  u_first_token :: "int option"
  u_latency :: rat

record entitlement =
  t_account :: string
  t_replies_total :: int
  t_replies_used :: int
  t_input_budget :: int
  t_input_used :: int
  t_spend_ceiling :: rat
  t_spend_used :: rat
  t_reserved :: rat
  t_expires_at :: int

record pool_day =
  p_date :: day
  p_committed :: int
  p_reserved :: int
  p_spent :: int

record pool_user_day =
  q_date :: day
  q_account :: string
  q_committed :: int
  q_reserved :: int
  q_spent :: int
  q_replies_total :: int
  q_replies_used :: int
  q_input_budget :: int
  q_input_used :: int

definition q_key :: "pool_user_day \<Rightarrow> day \<times> string" where
  "q_key r = (q_date r, q_account r)"

record settlement_receipt =
  s_request :: string
  s_receipt :: string
  s_expires :: int

text \<open>The connected-app grant joined with its client, account, workspace and key.\<close>

record grant_row =
  g_id :: string
  g_account :: string
  g_key :: string
  g_revoked :: bool
  g_expires_at :: "int option"
  g_client_status :: string
  g_account_status :: string
  g_workspace_deleted :: bool
  g_key_revoked :: bool
  g_key_kind :: string
  g_lifetime_cap :: "rat option"

record provider_row =
  v_id :: string
  v_name :: string
  v_status :: string
  v_emergency :: "bool option"

record db =
  balances :: "balance_row list"
  balance_events :: "balance_event list"
  reservations :: "reservation list"
  usage_events :: "usage_event list"
  entitlements :: "entitlement list"
  pool_days :: "pool_day list"
  pool_user_days :: "pool_user_day list"
  daily_usage :: "daily_row list"
  receipts :: "settlement_receipt list"
  grants :: "grant_row list"
  model_provider :: "(string \<times> string) list"
  providers :: "provider_row list"

record env =
  now_db :: int
  now_js :: int
  default_status :: res_status
  default_charged :: rat
  lock_api_key :: "string \<Rightarrow> string option \<Rightarrow> bool"
  trial_pool_admit :: "string \<Rightarrow> db \<Rightarrow> string \<times> db"
  trial_pool_release_unused :: "day \<Rightarrow> string \<Rightarrow> db \<Rightarrow> db"
  schema_accepts :: "db \<Rightarrow> bool"

definition run_tx :: "env \<Rightarrow> (db \<Rightarrow> err + (db \<times> 'a)) \<Rightarrow> db \<Rightarrow> db \<times> 'a result" where
  "run_tx env tx s =
     (case tx s of
        Inl e \<Rightarrow> (s, Inl e)
      | Inr (s', x) \<Rightarrow> if schema_accepts env s' then (s', Inr x) else (s, Inl (Thrown ''constraint'')))"

lemma run_tx_Inl: "run_tx env tx s = (s', Inl e) \<Longrightarrow> s' = s"
  by (auto simp: run_tx_def split: sum.splits if_splits)

lemma run_tx_Inr: "run_tx env tx s = (s', Inr x) \<Longrightarrow> tx s = Inr (s', x) \<and> schema_accepts env s'"
  by (auto simp: run_tx_def split: sum.splits if_splits)

lemma run_tx_preserves:
  assumes "P s" and "\<And>s' x. tx s = Inr (s', x) \<Longrightarrow> P s'"
  shows "P (fst (run_tx env tx s))"
  using assms by (auto simp: run_tx_def split: sum.splits if_splits)

subsection \<open>Costs\<close>

record model_pricing =
  inputPricePerMillion :: rat
  outputPricePerMillion :: rat
  cacheReadPricePerMillion :: "jsnum option"
  cacheWritePricePerMillion :: "jsnum option"

definition valid_price :: "jsnum option \<Rightarrow> rat option" where
  "valid_price value = (case value of Some (Fin q) \<Rightarrow> if 0 \<le> q then Some q else None | _ \<Rightarrow> None)"

definition maximumPromptPricePerMillion :: "model_pricing \<Rightarrow> rat" where
  "maximumPromptPricePerMillion pricing =
     (let optionalPrices = concat (map (\<lambda>value. case valid_price value of None \<Rightarrow> [] | Some q \<Rightarrow> [q])
            [cacheReadPricePerMillion pricing, cacheWritePricePerMillion pricing])
      in foldl max (inputPricePerMillion pricing) optionalPrices)"

definition moneyUsd :: "jsnum \<Rightarrow> rat result" where
  "moneyUsd value = (case value of Fin q \<Rightarrow> Inr (toFixed6 (max 0 q)) | _ \<Rightarrow> Inl (Thrown ''amount''))"

definition priceOrInput :: "model_pricing \<Rightarrow> jsnum option \<Rightarrow> rat" where
  "priceOrInput pricing value =
     (case valid_price value of None \<Rightarrow> inputPricePerMillion pricing | Some p \<Rightarrow> p)"

definition calculateCostUsd :: "token_usage \<Rightarrow> model_pricing \<Rightarrow> rat" where
  "calculateCostUsd usage pricing =
     (let inputToks = max 0 (inputTokens usage);
          writeToks = min inputToks (max 0 (case cacheWriteTokens usage of None \<Rightarrow> 0 | Some n \<Rightarrow> n));
          readToks = min (inputToks - writeToks) (max 0 (cachedTokens usage));
          uncached = inputToks - writeToks - readToks;
          inputCost = of_int uncached * inputPricePerMillion pricing / 1000000
            + of_int readToks * priceOrInput pricing (cacheReadPricePerMillion pricing) / 1000000
            + of_int writeToks * priceOrInput pricing (cacheWritePricePerMillion pricing) / 1000000;
          outputCost = of_int (outputTokens usage) * outputPricePerMillion pricing / 1000000
      in toFixed6 (inputCost + outputCost))"

lemma moneyUsd_Fin [simp]: "moneyUsd (Fin q) = Inr (toFixed6 (max 0 q))"
  by (simp add: moneyUsd_def)

lemma moneyUsd_micro: "moneyUsd x = Inr q \<Longrightarrow> is_micro q \<and> 0 \<le> q"
  by (auto simp: moneyUsd_def toFixed6_nonneg split: jsnum.splits)

lemma is_micro_cost: "is_micro (calculateCostUsd u p)"
  by (simp add: calculateCostUsd_def Let_def)

definition nonneg_pricing :: "model_pricing \<Rightarrow> bool" where
  "nonneg_pricing p \<longleftrightarrow> 0 \<le> inputPricePerMillion p \<and> 0 \<le> outputPricePerMillion p"

lemma priceOrInput_nonneg: "nonneg_pricing p \<Longrightarrow> 0 \<le> priceOrInput p v"
  by (auto simp: nonneg_pricing_def priceOrInput_def valid_price_def split: option.splits jsnum.splits)

lemma cost_split:
  obtains i w r where "i = max 0 (inputTokens u)" "0 \<le> w" "0 \<le> r" "w + r \<le> i"
    "calculateCostUsd u p = toFixed6
       ((of_int (i - w - r) * inputPricePerMillion p
         + of_int r * priceOrInput p (cacheReadPricePerMillion p)
         + of_int w * priceOrInput p (cacheWritePricePerMillion p)
         + of_int (outputTokens u) * outputPricePerMillion p) / 1000000)"
proof -
  define i where "i = max 0 (inputTokens u)"
  define w where "w = min i (max 0 (case cacheWriteTokens u of None \<Rightarrow> 0 | Some n \<Rightarrow> n))"
  define r where "r = min (i - w) (max 0 (cachedTokens u))"
  have "calculateCostUsd u p = toFixed6
       ((of_int (i - w - r) * inputPricePerMillion p
         + of_int r * priceOrInput p (cacheReadPricePerMillion p)
         + of_int w * priceOrInput p (cacheWritePricePerMillion p)
         + of_int (outputTokens u) * outputPricePerMillion p) / 1000000)"
    by (simp add: calculateCostUsd_def Let_def i_def w_def r_def add_divide_distrib)
  moreover have "0 \<le> w" "w \<le> i" unfolding i_def w_def by simp_all
  moreover from this have "0 \<le> r" "r \<le> i - w" unfolding r_def by simp_all
  ultimately show thesis using that [OF i_def, of w r] by simp
qed

lemma cost_terms_nonneg:
  assumes "nonneg_pricing p" "0 \<le> w" "0 \<le> r" "w + r \<le> i" "0 \<le> out"
  shows "0 \<le> of_int (i - w - r) * inputPricePerMillion p
         + of_int r * priceOrInput p (cacheReadPricePerMillion p)
         + of_int w * priceOrInput p (cacheWritePricePerMillion p)
         + of_int out * outputPricePerMillion p"
proof -
  have "(0 :: rat) \<le> of_int (i - w - r)" using assms(4) by simp
  then show ?thesis
    using assms priceOrInput_nonneg [OF assms(1)]
    by (intro add_nonneg_nonneg mult_nonneg_nonneg) (auto simp: nonneg_pricing_def)
qed

lemma cost_nonneg: "nonneg_pricing p \<Longrightarrow> 0 \<le> outputTokens u \<Longrightarrow> 0 \<le> calculateCostUsd u p"
  by (rule cost_split [of u p]) (simp only: toFixed6_nonneg cost_terms_nonneg divide_nonneg_nonneg zero_le_numeral)

lemma priceOrInput_le_max:
  "priceOrInput p (cacheReadPricePerMillion p) \<le> maximumPromptPricePerMillion p"
  "priceOrInput p (cacheWritePricePerMillion p) \<le> maximumPromptPricePerMillion p"
  "inputPricePerMillion p \<le> maximumPromptPricePerMillion p"
  by (auto simp: priceOrInput_def maximumPromptPricePerMillion_def split: option.splits)

lemma toFixed6_mono: "p \<le> q \<Longrightarrow> 0 \<le> p \<Longrightarrow> toFixed6 p \<le> toFixed6 q"
  by (simp add: toFixed6_def divide_right_mono floor_mono)

text \<open>
  The admission price is safe: for any usage report, however its cached, cache-write and input
  counts disagree, the cost the code computes is at most the rounded cost of charging every input
  token at \<open>maximumPromptPricePerMillion\<close> plus the output at its price.
\<close>

theorem cost_below_maximum_price:
  assumes "nonneg_pricing p" and "0 \<le> outputTokens u"
  shows "calculateCostUsd u p \<le>
    toFixed6 ((of_int (max 0 (inputTokens u)) * maximumPromptPricePerMillion p
               + of_int (outputTokens u) * outputPricePerMillion p) / 1000000)"
proof (rule cost_split [of u p])
  fix i w r
  assume i: "i = max 0 (inputTokens u)" and parts: "0 \<le> w" "0 \<le> r" "w + r \<le> i"
    and cost: "calculateCostUsd u p = toFixed6
       ((of_int (i - w - r) * inputPricePerMillion p
         + of_int r * priceOrInput p (cacheReadPricePerMillion p)
         + of_int w * priceOrInput p (cacheWritePricePerMillion p)
         + of_int (outputTokens u) * outputPricePerMillion p) / 1000000)"
  let ?m = "maximumPromptPricePerMillion p"
  have "(0 :: rat) \<le> of_int (i - w - r)" using parts by simp
  then have "of_int (i - w - r) * inputPricePerMillion p \<le> of_int (i - w - r) * ?m"
    "of_int r * priceOrInput p (cacheReadPricePerMillion p) \<le> of_int r * ?m"
    "of_int w * priceOrInput p (cacheWritePricePerMillion p) \<le> of_int w * ?m"
    using parts by (intro mult_left_mono priceOrInput_le_max; simp)+
  moreover have "of_int (i - w - r) * ?m + of_int r * ?m + of_int w * ?m = of_int i * ?m"
    by (simp add: algebra_simps)
  ultimately have "of_int (i - w - r) * inputPricePerMillion p
         + of_int r * priceOrInput p (cacheReadPricePerMillion p)
         + of_int w * priceOrInput p (cacheWritePricePerMillion p)
         + of_int (outputTokens u) * outputPricePerMillion p
       \<le> of_int i * ?m + of_int (outputTokens u) * outputPricePerMillion p"
    by linarith
  then show ?thesis
    unfolding cost i [symmetric] using cost_terms_nonneg [OF assms(1) parts assms(2)]
    by (intro toFixed6_mono divide_right_mono divide_nonneg_nonneg) simp_all
qed

definition sample_pricing :: model_pricing where
  "sample_pricing = \<lparr> inputPricePerMillion = 2, outputPricePerMillion = 10,
     cacheReadPricePerMillion = Some (Fin (1 / 2)), cacheWritePricePerMillion = Some (Fin 3) \<rparr>"

definition sample_usage :: token_usage where
  "sample_usage = \<lparr> inputTokens = 1000, outputTokens = 100, cachedTokens = 5000,
     cacheWriteTokens = Some 400 \<rparr>"

theorem cost_below_maximum_price_witness:
  "calculateCostUsd sample_usage sample_pricing \<le> toFixed6 (4 / 1000)"
proof -
  have "nonneg_pricing sample_pricing" "0 \<le> outputTokens sample_usage"
    by (simp_all add: nonneg_pricing_def sample_pricing_def sample_usage_def)
  from cost_below_maximum_price [OF this] show ?thesis
    by (simp add: sample_pricing_def sample_usage_def maximumPromptPricePerMillion_def
        valid_price_def)
qed

end
