(* ===== verification/Billing.thy ===== *)
theory Billing
  imports Ledger
begin

section \<open>Reserving, settling and sweeping (metering/billing.ts)\<close>

text \<open>
  The operations of \<open>src/src/metering/billing.ts\<close>, each returning the new database and its result.
  A long function is split along its branches: \<open>reserveBalance\<close> into the funding branches
  (\<open>reserve_trial\<close>, \<open>reserve_pool\<close>, \<open>reserve_wallet\<close>), the connected-grant check, the API-key limit
  and the inserts; \<open>finalizeInferenceReservation\<close> into the charge and the settlement of each
  funding source. The guards are in the order of the code, because the order decides which error
  is reported. Rows locked \<open>FOR UPDATE\<close> are simply read: a transaction is one step.
\<close>

definition truthy :: "string option \<Rightarrow> bool" where
  "truthy v = (case v of None \<Rightarrow> False | Some s \<Rightarrow> s \<noteq> [])"

subsection \<open>Wallet\<close>

definition ensureBalanceRow :: "string \<Rightarrow> db \<Rightarrow> db" where
  "ensureBalanceRow accountId s = s\<lparr> balances :=
     insert_unless b_account \<lparr> b_account = accountId, b_available = 0, b_reserved = 0 \<rparr> (balances s) \<rparr>"

definition assertPositiveAvailableBalance :: "string \<Rightarrow> db \<Rightarrow> unit result" where
  "assertPositiveAvailableBalance accountId s =
     (case select_row b_account accountId (balances s) of
        None \<Rightarrow> Inl (App 402 ''insufficient_balance'')
      | Some r \<Rightarrow> if b_available r > 0 then Inr () else Inl (App 402 ''insufficient_balance''))"

definition creditBalance :: "env \<Rightarrow> string \<Rightarrow> rat \<Rightarrow> event_type \<Rightarrow> db \<Rightarrow> db \<times> unit result" where
  "creditBalance env accountId amountUsd type s =
     (if amountUsd \<le> 0 then (ensureBalanceRow accountId s, Inr ())
      else run_tx env (\<lambda>s. Inr
        (s\<lparr> balances :=
              (if select_row b_account accountId (balances s) = None
               then balances s @ [\<lparr> b_account = accountId, b_available = amountUsd, b_reserved = 0 \<rparr>]
               else update_rows b_account accountId
                      (\<lambda>r. r\<lparr> b_available := b_available r + amountUsd \<rparr>) (balances s)),
            balance_events := balance_events s @
              [\<lparr> e_account = accountId, e_type = type, e_amount = amountUsd, e_request = None \<rparr>] \<rparr>,
         ())) s)"

record route =
  rt_provider :: string
  rt_model :: string
  rt_input_price :: rat
  rt_output_price :: rat
  rt_cache_read_price :: "rat option"
  rt_cache_write_price :: "rat option"
  rt_est_input :: int
  rt_est_output :: int

definition updateInferenceReservationRoute :: "string \<Rightarrow> route \<Rightarrow> db \<Rightarrow> db \<times> bool" where
  "updateInferenceReservationRoute requestId rt s =
     (case select_row r_request requestId (reservations s) of
        Some r \<Rightarrow>
          if r_status r = Reserved
          then (s\<lparr> reservations := update_rows r_request requestId
                   (\<lambda>r. r\<lparr> r_provider := Some (rt_provider rt), r_model := Some (rt_model rt),
                           r_input_price := rt_input_price rt, r_output_price := rt_output_price rt,
                           r_cache_read_price := rt_cache_read_price rt,
                           r_cache_write_price := rt_cache_write_price rt,
                           r_est_input := rt_est_input rt, r_est_output := rt_est_output rt \<rparr>)
                   (reservations s) \<rparr>, True)
          else (s, False)
      | None \<Rightarrow> (s, False))"

definition key_usage_sum :: "string \<Rightarrow> db \<Rightarrow> rat" where
  "key_usage_sum apiKeyId s =
     (\<Sum>u \<leftarrow> usage_events s.
        if u_api_key u = Some apiKeyId \<and> u_status u = UsageSucceeded then u_cost u else 0)"

definition apiKeySpentUsd :: "string \<Rightarrow> db \<Rightarrow> rat" where
  "apiKeySpentUsd apiKeyId s = key_usage_sum apiKeyId s"

subsection \<open>Reserving\<close>

record reserve_context =
  c_provider :: string
  c_model :: string
  c_input_price :: rat
  c_output_price :: rat
  c_cache_read_price :: "rat option"
  c_cache_write_price :: "rat option"
  c_daily_reserved :: rat
  c_daily_date :: "day option"
  c_est_input :: int
  c_est_output :: int
  c_operation :: "operation option"

record reserve_options =
  o_api_key :: "string option"
  o_limit :: "jsnum option"
  o_grant :: "string option"
  o_funding :: "funding_source option"
  o_context :: "reserve_context option"

definition o_est_input :: "reserve_options \<Rightarrow> int" where
  "o_est_input opts = (case o_context opts of None \<Rightarrow> 0 | Some c \<Rightarrow> c_est_input c)"

definition reserve_trial :: "env \<Rightarrow> string \<Rightarrow> rat \<Rightarrow> int \<Rightarrow> db \<Rightarrow> err + db" where
  "reserve_trial env accountId amount estInputTokens s =
     (case select_row t_account accountId (entitlements s) of
        None \<Rightarrow> Inl (App 402 ''trial_not_available'')
      | Some row \<Rightarrow>
          if t_expires_at row \<le> now_js env then Inl (App 402 ''trial_expired'')
          else if t_replies_used row \<ge> t_replies_total row then Inl (App 402 ''trial_exhausted'')
          else if t_input_used row + estInputTokens > t_input_budget row
          then Inl (App 402 ''trial_exhausted'')
          else and_then (moneyUsd (Fin (t_spend_ceiling row - t_spend_used row - t_reserved row)))
            (\<lambda>remainingUsd.
               if remainingUsd \<le> 0 then Inl (App 402 ''trial_exhausted'')
               else if amount > remainingUsd then Inl (App 402 ''trial_exhausted'')
               else Inr (s\<lparr> entitlements := update_rows t_account accountId
                          (\<lambda>r. r\<lparr> t_reserved := t_reserved r + amount \<rparr>) (entitlements s) \<rparr>)))"

definition reserve_pool_rows ::
    "day \<Rightarrow> string \<Rightarrow> rat \<Rightarrow> int \<Rightarrow> db \<Rightarrow> err + (db \<times> rat)" where
  "reserve_pool_rows today accountId amount estInputTokens s =
     (case select_row p_date today (pool_days s) of
        None \<Rightarrow> Inl (App 402 ''trial_not_available'')
      | Some poolDay \<Rightarrow>
     (case select_row q_key (today, accountId) (pool_user_days s) of
        None \<Rightarrow> Inl (App 402 ''trial_not_available'')
      | Some userDay \<Rightarrow>
          if q_replies_used userDay \<ge> q_replies_total userDay then Inl (App 402 ''trial_exhausted'')
          else if q_input_used userDay + estInputTokens > q_input_budget userDay
          then Inl (App 402 ''trial_exhausted'')
          else
            and_then (read_column (q_committed userDay)) (\<lambda>committed.
            and_then (read_column (q_reserved userDay)) (\<lambda>reserved.
            and_then (read_column (q_spent userDay)) (\<lambda>spent.
              let userRemaining = committed - reserved - spent in
              if userRemaining \<le> 0 then Inl (App 402 ''trial_exhausted'')
              else and_then (usdToMicrosCeil (Fin amount)) (\<lambda>requestedMicros.
                if requestedMicros > userRemaining then Inl (App 402 ''trial_exhausted'')
                else
                  and_then (microsToUsd requestedMicros) (\<lambda>usd.
                  and_then (moneyUsd (Fin usd)) (\<lambda>granted.
                    Inr (s\<lparr> pool_days := update_rows p_date today
                              (\<lambda>r. r\<lparr> p_reserved := p_reserved r + requestedMicros \<rparr>) (pool_days s),
                            pool_user_days := update_rows q_key (today, accountId)
                              (\<lambda>r. r\<lparr> q_reserved := q_reserved r + requestedMicros \<rparr>)
                              (pool_user_days s) \<rparr>,
                         granted)))))))))"

definition reserve_pool ::
    "env \<Rightarrow> string \<Rightarrow> rat \<Rightarrow> int \<Rightarrow> db \<Rightarrow> err + (db \<times> rat \<times> day)" where
  "reserve_pool env accountId amount estInputTokens s =
     (let (admitStatus, s1) = trial_pool_admit env accountId s in
      if admitStatus = ''pool_disabled'' then Inl (App 403 ''trial_pool_disabled'')
      else if admitStatus = ''exhausted'' then Inl (App 429 ''trial_pool_exhausted'')
      else if admitStatus \<noteq> ''ok'' \<and> admitStatus \<noteq> ''already'' then Inl (App 402 ''trial_not_available'')
      else let today = utc_day (now_db env) in
        and_then (reserve_pool_rows today accountId amount estInputTokens s1)
          (\<lambda>(s2, granted). Inr (s2, granted, today)))"

definition reserve_wallet :: "string \<Rightarrow> rat \<Rightarrow> db \<Rightarrow> err + db" where
  "reserve_wallet accountId amount s =
     (let available = (case select_row b_account accountId (balances s) of
                         None \<Rightarrow> 0 | Some r \<Rightarrow> b_available r)
      in if amount > 0 \<and> available < amount then Inl (App 402 ''insufficient_balance'') else Inr s)"

definition reserve_funding ::
    "env \<Rightarrow> string \<Rightarrow> rat \<Rightarrow> reserve_options \<Rightarrow> db \<Rightarrow> err + (db \<times> rat \<times> day option)" where
  "reserve_funding env accountId amount opts s =
     (case (case o_funding opts of None \<Rightarrow> Balance | Some f \<Rightarrow> f) of
        Trial \<Rightarrow> and_then (reserve_trial env accountId amount (o_est_input opts) s)
                   (\<lambda>s1. Inr (s1, amount, None))
      | TrialPool \<Rightarrow> and_then (reserve_pool env accountId amount (o_est_input opts) s)
                   (\<lambda>(s1, granted, today). Inr (s1, granted, Some today))
      | Balance \<Rightarrow> and_then (reserve_wallet accountId amount s) (\<lambda>s1. Inr (s1, amount, None)))"

definition grant_active :: "env \<Rightarrow> string \<Rightarrow> string \<Rightarrow> string \<Rightarrow> grant_row \<Rightarrow> bool" where
  "grant_active env grantId accountId apiKeyId g \<longleftrightarrow>
     g_id g = grantId \<and> g_account g = accountId \<and> g_key g = apiKeyId
     \<and> \<not> g_revoked g \<and> (case g_expires_at g of None \<Rightarrow> True | Some t \<Rightarrow> t > now_db env)
     \<and> g_client_status g = ''enabled'' \<and> g_account_status g = ''active''
     \<and> \<not> g_workspace_deleted g
     \<and> \<not> g_key_revoked g \<and> g_key_kind g = ''connected_app''"

definition key_limit ::
    "env \<Rightarrow> string \<Rightarrow> reserve_options \<Rightarrow> db \<Rightarrow> err + jsnum option" where
  "key_limit env accountId opts s =
     (if truthy (o_grant opts) then
        (if \<not> truthy (o_api_key opts) then Inl (Thrown ''missing_attribution_key'')
         else case find (grant_active env (the (o_grant opts)) accountId (the (o_api_key opts))) (grants s) of
                None \<Rightarrow> Inl (App 401 ''connected_grant_inactive'')
              | Some g \<Rightarrow> Inr (map_option Fin (g_lifetime_cap g)))
      else Inr (o_limit opts))"

definition key_unsettled_sum :: "string \<Rightarrow> db \<Rightarrow> rat" where
  "key_unsettled_sum apiKeyId s =
     (\<Sum>r \<leftarrow> reservations s.
        if r_api_key r = Some apiKeyId
           \<and> (r_status r = Reserved
              \<or> (r_status r = Settled \<and> select_row u_request (r_request r) (usage_events s) = None))
        then (if r_status r = Reserved then r_reserved r else r_charged r) else 0)"

definition key_gate ::
    "env \<Rightarrow> string \<Rightarrow> rat \<Rightarrow> jsnum option \<Rightarrow> reserve_options \<Rightarrow> db \<Rightarrow> unit result" where
  "key_gate env accountId amount limit opts s =
     (case limit of
        None \<Rightarrow> Inr ()
      | Some apiKeyLimit \<Rightarrow>
          if amount > 0 \<and> truthy (o_api_key opts) then
            (let apiKeyId = the (o_api_key opts) in
             if \<not> lock_api_key env apiKeyId (Some accountId) then Inl (Thrown ''api_key_disappeared'')
             else let alreadyAuthorized = key_usage_sum apiKeyId s + key_unsettled_sum apiKeyId s in
               and_then (moneyUsd apiKeyLimit) (\<lambda>cap.
                 if alreadyAuthorized + amount > cap
                 then Inl (App 402 (if truthy (o_grant opts) then ''connected_grant_cap_exceeded''
                                    else ''api_key_credit_limit_exceeded''))
                 else Inr ()))
          else Inr ())"

definition new_reservation ::
    "env \<Rightarrow> string \<Rightarrow> string \<Rightarrow> rat \<Rightarrow> reserve_options \<Rightarrow> day option \<Rightarrow> reservation" where
  "new_reservation env requestId accountId amount opts poolDate =
     (let context = o_context opts;
          held = (case context of None \<Rightarrow> 0 | Some c \<Rightarrow> c_daily_reserved c)
      in \<lparr> r_request = requestId, r_account = accountId, r_api_key = o_api_key opts,
           r_reserved = amount, r_charged = default_charged env, r_status = default_status env,
           r_provider = map_option c_provider context,
           r_model = map_option c_model context,
           r_input_price = (case context of None \<Rightarrow> 0 | Some c \<Rightarrow> c_input_price c),
           r_output_price = (case context of None \<Rightarrow> 0 | Some c \<Rightarrow> c_output_price c),
           r_cache_read_price = Option.bind context c_cache_read_price,
           r_cache_write_price = Option.bind context c_cache_write_price,
           r_daily_reserved = held,
           r_est_input = (case context of None \<Rightarrow> 0 | Some c \<Rightarrow> c_est_input c),
           r_est_output = (case context of None \<Rightarrow> 0 | Some c \<Rightarrow> c_est_output c),
           r_operation = (case Option.bind context c_operation of None \<Rightarrow> OpChat | Some op \<Rightarrow> op),
           r_funding = (case o_funding opts of None \<Rightarrow> Balance | Some f \<Rightarrow> f),
           r_pool_date = poolDate,
           r_daily_date = (if held > 0 then Option.bind context c_daily_date else None),
           r_created_at = now_db env, r_attempt_started = None, r_delivery_started = None,
           r_latency = None, r_first_token = None, r_finalized_at = None \<rparr>)"

definition reserve_wallet_move :: "string \<Rightarrow> string \<Rightarrow> rat \<Rightarrow> reserve_options \<Rightarrow> db \<Rightarrow> db" where
  "reserve_wallet_move requestId accountId amount opts s =
     (if amount > 0 \<and> (case o_funding opts of None \<Rightarrow> Balance | Some f \<Rightarrow> f) = Balance
      then s\<lparr> balances := update_rows b_account accountId
                 (\<lambda>r. r\<lparr> b_available := b_available r - amount, b_reserved := b_reserved r + amount \<rparr>)
                 (balances s),
              balance_events := balance_events s @
                 [\<lparr> e_account = accountId, e_type = EvReserve, e_amount = amount,
                    e_request = Some requestId \<rparr>] \<rparr>
      else s)"

definition reserve_tx ::
    "env \<Rightarrow> string \<Rightarrow> rat \<Rightarrow> string \<Rightarrow> reserve_options \<Rightarrow> db \<Rightarrow> err + (db \<times> rat)" where
  "reserve_tx env accountId amount requestId opts s =
     (case select_row r_request requestId (reservations s) of
        Some existing \<Rightarrow>
          if r_account existing \<noteq> accountId \<or> r_api_key existing \<noteq> o_api_key opts
          then Inl (Thrown ''reservation_id_reused'')
          else if r_status existing \<noteq> Reserved then Inl (App 409 ''request_already_finalized'')
          else Inr (s, r_reserved existing)
      | None \<Rightarrow>
          and_then (reserve_funding env accountId amount opts s) (\<lambda>(s1, amount1, poolDate).
          and_then (key_limit env accountId opts s1) (\<lambda>limit.
          and_then (key_gate env accountId amount1 limit opts s1) (\<lambda>_.
            let s2 = s1\<lparr> reservations := reservations s1 @
                       [new_reservation env requestId accountId amount1 opts poolDate] \<rparr>
            in Inr (reserve_wallet_move requestId accountId amount1 opts s2, amount1)))))"

definition reserveBalance ::
    "env \<Rightarrow> string \<Rightarrow> jsnum \<Rightarrow> string \<Rightarrow> reserve_options \<Rightarrow> db \<Rightarrow> db \<times> rat result" where
  "reserveBalance env accountId amountUsd requestId opts s =
     (let s0 = ensureBalanceRow accountId s in
      case moneyUsd amountUsd of
        Inl e \<Rightarrow> (s0, Inl e)
      | Inr amount \<Rightarrow> run_tx env (reserve_tx env accountId amount requestId opts) s0)"

end
