(* ===== verification/Settlement.thy ===== *)
theory Settlement
  imports Billing
begin

section \<open>Fences, finalization and the stale sweep (metering/billing.ts)\<close>

text \<open>
  The second half of \<open>billing.ts\<close>: the legacy wallet settlement, the two fences that record that
  provider work or delivery has begun, the receipt, the one transaction that settles, captures or
  aborts a reservation, and the sweep over stale reservations.
\<close>

record settlement =
  chargedUsd :: rat
  providerCostUsd :: rat
  overageUsd :: rat

definition overage :: "rat \<Rightarrow> rat \<Rightarrow> rat" where
  "overage cost charged = toFixed6 (max 0 (max 0 (cost - charged)))"

subsection \<open>The legacy settlement\<close>

definition reconcile_tx ::
    "env \<Rightarrow> string \<Rightarrow> rat \<Rightarrow> rat \<Rightarrow> string \<Rightarrow> db \<Rightarrow> err + (db \<times> settlement)" where
  "reconcile_tx env accountId expectedReservation cost requestId s =
     (case select_row r_request requestId (reservations s) of
        None \<Rightarrow>
          if expectedReservation \<le> 0 \<and> cost \<le> 0
          then Inr (s, \<lparr> chargedUsd = 0, providerCostUsd = 0, overageUsd = 0 \<rparr>)
          else Inl (Thrown ''no_durable_reservation'')
      | Some row \<Rightarrow>
          if r_funding row \<noteq> Balance then Inl (Thrown ''non_wallet_reservation'')
          else if r_account row \<noteq> accountId then Inl (Thrown ''account_mismatch'')
          else
            let releaseUsd = r_reserved row in
            if expectedReservation > 0 \<and> \<bar>releaseUsd - expectedReservation\<bar> \<ge> 1 / 1000000
            then Inl (Thrown ''amount_mismatch'')
            else if r_status row \<noteq> Reserved
            then Inr (s, \<lparr> chargedUsd = r_charged row, providerCostUsd = cost,
                          overageUsd = overage cost (r_charged row) \<rparr>)
            else
              let chargeUsd = min cost releaseUsd;
                  availableDelta = toFixed6 (max 0 (releaseUsd - chargeUsd));
                  s1 = s\<lparr> balances := update_rows b_account accountId
                        (\<lambda>r. r\<lparr> b_reserved := b_reserved r - releaseUsd,
                                b_available := b_available r + availableDelta \<rparr>) (balances s) \<rparr>;
                  release = (if releaseUsd > 0 then
                      [\<lparr> e_account = accountId, e_type = EvRelease, e_amount = releaseUsd,
                         e_request = Some requestId \<rparr>] else []);
                  charge = (if chargeUsd > 0 then
                      [\<lparr> e_account = accountId, e_type = EvCharge, e_amount = - chargeUsd,
                         e_request = Some requestId \<rparr>] else []);
                  s2 = s1\<lparr> balance_events := balance_events s1 @ release @ charge,
                           reservations := update_rows r_request requestId
                             (\<lambda>r. r\<lparr> r_charged := chargeUsd,
                                     r_status := (if chargeUsd > 0 then Settled else Released),
                                     r_finalized_at := Some (now_db env) \<rparr>) (reservations s1) \<rparr>
              in Inr (s2, \<lparr> chargedUsd = chargeUsd, providerCostUsd = cost,
                           overageUsd = overage cost chargeUsd \<rparr>))"

definition reconcileReservedBalance ::
    "env \<Rightarrow> string \<Rightarrow> jsnum \<Rightarrow> jsnum \<Rightarrow> string \<Rightarrow> db \<Rightarrow> db \<times> settlement result" where
  "reconcileReservedBalance env accountId reserved finalCostUsd requestId s =
     (case moneyUsd reserved of
        Inl e \<Rightarrow> (s, Inl e)
      | Inr expected \<Rightarrow> (case moneyUsd finalCostUsd of
          Inl e \<Rightarrow> (s, Inl e)
        | Inr cost \<Rightarrow> run_tx env (reconcile_tx env accountId expected cost requestId) s))"

subsection \<open>Fences\<close>

definition provider_of_reservation :: "db \<Rightarrow> reservation \<Rightarrow> provider_row option" where
  "provider_of_reservation s r =
     Option.bind (r_model r) (\<lambda>m.
     Option.bind (map_of (model_provider s) m) (\<lambda>p.
       select_row v_id p (providers s)))"

definition mark_attempt_tx ::
    "env \<Rightarrow> (string \<Rightarrow> bool) option \<Rightarrow> string \<Rightarrow> db \<Rightarrow> err + (db \<times> int)" where
  "mark_attempt_tx env runtimeProviderDisabled requestId s =
     (case select_row r_request requestId (reservations s) of
        None \<Rightarrow> Inl (App 409 ''reservation_not_found'')
      | Some row \<Rightarrow> (case provider_of_reservation s row of
          None \<Rightarrow> Inl (App 409 ''reservation_not_found'')
        | Some provider \<Rightarrow>
            if v_status provider \<noteq> ''active''
               \<or> (case v_emergency provider of None \<Rightarrow> False | Some d \<Rightarrow> d)
               \<or> (case runtimeProviderDisabled of None \<Rightarrow> False | Some f \<Rightarrow> f (v_name provider))
            then Inl (App 503 ''provider_unavailable'')
            else if r_status row \<noteq> Reserved
            then (case r_attempt_started row of
                    Some t \<Rightarrow> Inr (s, t)
                  | None \<Rightarrow> Inl (App 409 ''request_already_finalized''))
            else
              let t = (case r_attempt_started row of None \<Rightarrow> now_db env | Some t0 \<Rightarrow> t0)
              in Inr (s\<lparr> reservations := update_rows r_request requestId
                        (\<lambda>r. r\<lparr> r_attempt_started := Some t \<rparr>) (reservations s) \<rparr>, t)))"

definition markInferenceProviderAttemptStarted ::
    "env \<Rightarrow> (string \<Rightarrow> bool) option \<Rightarrow> string \<Rightarrow> db \<Rightarrow> db \<times> int result" where
  "markInferenceProviderAttemptStarted env disabled requestId s =
     run_tx env (mark_attempt_tx env disabled requestId) s"

definition or_now :: "env \<Rightarrow> int option \<Rightarrow> int option" where
  "or_now env t = Some (case t of None \<Rightarrow> now_db env | Some t0 \<Rightarrow> t0)"

definition markInferenceDeliveryStarted :: "env \<Rightarrow> string \<Rightarrow> db \<Rightarrow> db \<times> int result" where
  "markInferenceDeliveryStarted env requestId s =
     (case select_row r_request requestId (reservations s) of
        None \<Rightarrow> (s, Inl (App 409 ''reservation_not_found''))
      | Some row \<Rightarrow>
          if r_status row = Reserved
          then (s\<lparr> reservations := update_rows r_request requestId
                  (\<lambda>r. r\<lparr> r_attempt_started := or_now env (r_attempt_started r),
                          r_delivery_started := or_now env (r_delivery_started r) \<rparr>)
                  (reservations s) \<rparr>,
                Inr (the (or_now env (r_delivery_started row))))
          else (case r_delivery_started row of
                  Some t \<Rightarrow> (s, Inr t)
                | None \<Rightarrow> (s, Inl (App 409 ''request_already_finalized''))))"

definition recordSettlementReceipt :: "env \<Rightarrow> string \<Rightarrow> string \<Rightarrow> db \<Rightarrow> db \<times> bool" where
  "recordSettlementReceipt env requestId receipt s =
     (if \<not> isOpaqueReceiptId receipt then (s, False)
      else if select_row r_request requestId (reservations s) = None then (s, False)
      else
        let expires = now_db env + 15 * 60000 in
        case select_row s_request requestId (receipts s) of
          None \<Rightarrow>
            (let s' = s\<lparr> receipts := receipts s @
                     [\<lparr> s_request = requestId, s_receipt = receipt, s_expires = expires \<rparr>] \<rparr>
             in if schema_accepts env s' then (s', True) else (s, False))
        | Some old \<Rightarrow>
            if s_receipt old = receipt
            then (let s' = s\<lparr> receipts := update_rows s_request requestId
                    (\<lambda>r. r\<lparr> s_expires := max (s_expires r) expires \<rparr>) (receipts s) \<rparr>
                  in if schema_accepts env s' then (s', True) else (s, False))
            else (s, False))"

subsection \<open>Finalization\<close>

datatype outcome = Settle | Abort | Capture

record finalize_params =
  f_outcome :: outcome
  f_usage :: "token_usage option"
  f_abort_status :: "usage_status option"
  f_provider_rejected :: bool
  f_first_token :: "int option"
  f_latency :: "rat option"
  f_record_usage :: bool

definition capture_ceiling :: "finalize_params \<Rightarrow> reservation \<Rightarrow> bool" where
  "capture_ceiling p row \<longleftrightarrow>
     f_outcome p = Capture
     \<or> (f_outcome p = Abort
        \<and> (r_delivery_started row \<noteq> None
           \<or> (r_attempt_started row \<noteq> None \<and> \<not> f_provider_rejected p)))"

definition row_pricing :: "reservation \<Rightarrow> model_pricing" where
  "row_pricing row =
     \<lparr> inputPricePerMillion = r_input_price row, outputPricePerMillion = r_output_price row,
       cacheReadPricePerMillion = map_option Fin (r_cache_read_price row),
       cacheWritePricePerMillion = map_option Fin (r_cache_write_price row) \<rparr>"

definition provider_cost :: "finalize_params \<Rightarrow> reservation \<Rightarrow> rat" where
  "provider_cost p row =
     (case f_usage p of
        Some usage \<Rightarrow> calculateCostUsd usage (row_pricing row)
      | None \<Rightarrow> if capture_ceiling p row then r_reserved row else 0)"

definition final_charge :: "finalize_params \<Rightarrow> reservation \<Rightarrow> rat" where
  "final_charge p row =
     (if capture_ceiling p row then r_reserved row
      else if f_outcome p = Settle then min (provider_cost p row) (r_reserved row)
      else 0)"

definition final_usage :: "finalize_params \<Rightarrow> reservation \<Rightarrow> token_usage" where
  "final_usage p row =
     (case f_usage p of
        Some usage \<Rightarrow> usage
      | None \<Rightarrow> \<lparr> inputTokens = r_est_input row, outputTokens = r_est_output row, cachedTokens = 0,
                 cacheWriteTokens = Some 0 \<rparr>)"

definition billable :: "finalize_params \<Rightarrow> reservation \<Rightarrow> bool" where
  "billable p row \<longleftrightarrow> f_outcome p = Settle \<or> capture_ceiling p row"

definition consumed_reply :: "finalize_params \<Rightarrow> int" where
  "consumed_reply p = (if f_outcome p = Settle \<and> f_usage p \<noteq> None then 1 else 0)"

definition billed_input :: "finalize_params \<Rightarrow> reservation \<Rightarrow> int" where
  "billed_input p row = (if billable p row then max 0 (inputTokens (final_usage p row)) else 0)"

text \<open>The SQL cast \<open>(reserved_usd * 1000000)::bigint\<close>: to the nearest integer, halves away from zero.\<close>

definition to_bigint :: "rat \<Rightarrow> int" where
  "to_bigint q = (if q < 0 then - \<lfloor>- q + 1 / 2\<rfloor> else \<lfloor>q + 1 / 2\<rfloor>)"

definition settle_pool_rows ::
    "day \<Rightarrow> int \<Rightarrow> int \<Rightarrow> finalize_params \<Rightarrow> reservation \<Rightarrow> db \<Rightarrow> db" where
  "settle_pool_rows poolDate releaseMicros chargeMicros p row s =
     s\<lparr> pool_days := update_rows p_date poolDate
          (\<lambda>r. r\<lparr> p_reserved := max 0 (p_reserved r - releaseMicros),
                  p_spent := p_spent r + chargeMicros \<rparr>) (pool_days s),
        pool_user_days := update_rows q_key (poolDate, r_account row)
          (\<lambda>r. r\<lparr> q_reserved := max 0 (q_reserved r - releaseMicros),
                  q_spent := q_spent r + chargeMicros,
                  q_input_used := q_input_used r + billed_input p row,
                  q_replies_used := min (q_replies_total r)
                    (q_replies_used r + consumed_reply p) \<rparr>) (pool_user_days s) \<rparr>"

definition release_exhausted_allocation :: "env \<Rightarrow> day \<Rightarrow> reservation \<Rightarrow> db \<Rightarrow> db" where
  "release_exhausted_allocation env poolDate row s =
     (case select_row q_key (poolDate, r_account row) (pool_user_days s) of
        None \<Rightarrow> s
      | Some r \<Rightarrow> if q_replies_used r \<ge> q_replies_total r
                  then trial_pool_release_unused env poolDate (r_account row) s else s)"

definition settle_pool :: "env \<Rightarrow> finalize_params \<Rightarrow> reservation \<Rightarrow> db \<Rightarrow> err + db" where
  "settle_pool env p row s =
     and_then (read_column (to_bigint (r_reserved row * 1000000))) (\<lambda>releaseMicros.
     and_then (usdToMicrosCeil (Fin (final_charge p row))) (\<lambda>charged.
       let chargeMicros = min releaseMicros charged in
       case r_pool_date row of
         None \<Rightarrow> Inl (Thrown ''missing_pool_date'')
       | Some poolDate \<Rightarrow>
           Inr (release_exhausted_allocation env poolDate row
             (settle_pool_rows poolDate releaseMicros chargeMicros p row s))))"

definition settle_trial :: "finalize_params \<Rightarrow> reservation \<Rightarrow> db \<Rightarrow> db" where
  "settle_trial p row s = s\<lparr> entitlements := update_rows t_account (r_account row)
     (\<lambda>r. r\<lparr> t_reserved := max 0 (t_reserved r - r_reserved row),
             t_spend_used := t_spend_used r + final_charge p row,
             t_input_used := t_input_used r + billed_input p row,
             t_replies_used := min (t_replies_total r) (t_replies_used r + consumed_reply p) \<rparr>)
     (entitlements s) \<rparr>"

definition settle_wallet :: "finalize_params \<Rightarrow> reservation \<Rightarrow> db \<Rightarrow> db" where
  "settle_wallet p row s = s\<lparr> balances := update_rows b_account (r_account row)
     (\<lambda>r. r\<lparr> b_reserved := b_reserved r - r_reserved row,
             b_available := b_available r
               + toFixed6 (max 0 (r_reserved row - final_charge p row)) \<rparr>) (balances s) \<rparr>"

definition settle_funding :: "env \<Rightarrow> finalize_params \<Rightarrow> reservation \<Rightarrow> db \<Rightarrow> err + db" where
  "settle_funding env p row s =
     (case r_funding row of
        TrialPool \<Rightarrow> settle_pool env p row s
      | Trial \<Rightarrow> Inr (settle_trial p row s)
      | Balance \<Rightarrow> Inr (settle_wallet p row s))"

definition daily_budget_day :: "reservation \<Rightarrow> day" where
  "daily_budget_day row =
     (case r_daily_date row of None \<Rightarrow> utc_day (r_created_at row) | Some d \<Rightarrow> d)"

definition settle_daily :: "finalize_params \<Rightarrow> reservation \<Rightarrow> db \<Rightarrow> db" where
  "settle_daily p row s =
     (if r_daily_reserved row > 0 \<or> final_charge p row > 0
      then s\<lparr> daily_usage := update_rows d_key (r_account row, daily_budget_day row)
             (\<lambda>r. r\<lparr> d_reserved := max 0 (d_reserved r - max 0 (r_daily_reserved row)),
                     d_spent := d_spent r + max 0 (final_charge p row) \<rparr>) (daily_usage s) \<rparr>
      else s)"

definition settle_events :: "finalize_params \<Rightarrow> reservation \<Rightarrow> db \<Rightarrow> db" where
  "settle_events p row s = s\<lparr> balance_events := balance_events s
     @ (if r_reserved row > 0 \<and> r_funding row = Balance
        then [\<lparr> e_account = r_account row, e_type = EvRelease, e_amount = r_reserved row,
                e_request = Some (r_request row) \<rparr>] else [])
     @ (if final_charge p row > 0 \<and> r_funding row = Balance
        then [\<lparr> e_account = r_account row, e_type = EvCharge, e_amount = - final_charge p row,
                e_request = Some (r_request row) \<rparr>] else []) \<rparr>"

definition finalize_row :: "env \<Rightarrow> finalize_params \<Rightarrow> reservation \<Rightarrow> db \<Rightarrow> db" where
  "finalize_row env p row s = s\<lparr> reservations := update_rows r_request (r_request row)
     (\<lambda>r. r\<lparr> r_charged := final_charge p row,
             r_status := (if final_charge p row > 0 then Settled else Released),
             r_latency := Some (case f_latency p of None \<Rightarrow> 0 | Some l \<Rightarrow> l),
             r_first_token := f_first_token p,
             r_finalized_at := Some (now_db env) \<rparr>) (reservations s) \<rparr>"

definition insertUsageEventTx :: "finalize_params \<Rightarrow> reservation \<Rightarrow> db \<Rightarrow> db" where
  "insertUsageEventTx p row s =
     (let usage = final_usage p row in
      s\<lparr> usage_events := insert_unless u_request
          \<lparr> u_request = r_request row, u_account = r_account row, u_provider = r_provider row,
            u_model = r_model row, u_api_key = r_api_key row, u_operation = r_operation row,
            u_input = inputTokens usage, u_output = outputTokens usage,
            u_cached = cachedTokens usage,
            u_cache_write = (case cacheWriteTokens usage of None \<Rightarrow> 0 | Some n \<Rightarrow> n),
            u_cost = (if r_funding row = Balance then final_charge p row else 0),
            u_provider_cost = provider_cost p row,
            u_status = (if billable p row then UsageSucceeded
                        else case f_abort_status p of None \<Rightarrow> UsageFailed | Some st \<Rightarrow> st),
            u_first_token = f_first_token p,
            u_latency = (case f_latency p of None \<Rightarrow> 0 | Some l \<Rightarrow> l) \<rparr> (usage_events s) \<rparr>)"

text \<open>The writes of a finalization after the funding source is settled.\<close>

definition finalize_writes :: "env \<Rightarrow> finalize_params \<Rightarrow> reservation \<Rightarrow> db \<Rightarrow> db" where
  "finalize_writes env p row s =
     (let s1 = settle_daily p row s;
          s2 = settle_events p row s1;
          s3 = finalize_row env p row s2
      in if f_record_usage p then insertUsageEventTx p row s3 else s3)"

definition finalize_tx ::
    "env \<Rightarrow> string \<Rightarrow> finalize_params \<Rightarrow> db \<Rightarrow> err + (db \<times> settlement)" where
  "finalize_tx env requestId p s =
     (case select_row r_request requestId (reservations s) of
        None \<Rightarrow> Inr (s, \<lparr> chargedUsd = 0, providerCostUsd = 0, overageUsd = 0 \<rparr>)
      | Some row \<Rightarrow>
          if r_status row \<noteq> Reserved
          then Inr (s, \<lparr> chargedUsd = r_charged row, providerCostUsd = provider_cost p row,
                        overageUsd = overage (provider_cost p row) (r_charged row) \<rparr>)
          else
            and_then (settle_funding env p row s) (\<lambda>s1.
              Inr (finalize_writes env p row s1,
                   \<lparr> chargedUsd = final_charge p row, providerCostUsd = provider_cost p row,
                     overageUsd = overage (provider_cost p row) (final_charge p row) \<rparr>)))"

definition finalizeInferenceReservation ::
    "env \<Rightarrow> string \<Rightarrow> finalize_params \<Rightarrow> db \<Rightarrow> db \<times> settlement result" where
  "finalizeInferenceReservation env requestId p s = run_tx env (finalize_tx env requestId p) s"

subsection \<open>The stale sweep\<close>

definition stale_rows :: "env \<Rightarrow> rat \<Rightarrow> db \<Rightarrow> reservation list" where
  "stale_rows env olderThanMinutes s =
     take 100 (sort_key r_created_at
       (filter (\<lambda>r. r_status r = Reserved
                  \<and> r_created_at r < now_db env - max 1 \<lfloor>olderThanMinutes\<rfloor> * 60000)
         (reservations s)))"

definition sweep_params :: "reservation \<Rightarrow> finalize_params" where
  "sweep_params row =
     \<lparr> f_outcome = (if r_attempt_started row \<noteq> None \<or> r_delivery_started row \<noteq> None
                    then Capture else Abort),
       f_usage = None, f_abort_status = Some UsageFailed, f_provider_rejected = False,
       f_first_token = None, f_latency = None,
       f_record_usage = truthy (r_provider row) \<and> truthy (r_model row) \<rparr>"

text \<open>The loop of the sweep: the database, the rows that finalized, those at zero charge, the failures.\<close>

fun sweep_loop ::
    "env \<Rightarrow> reservation list \<Rightarrow> db \<times> nat \<times> nat \<times> string list \<Rightarrow> db \<times> nat \<times> nat \<times> string list" where
  "sweep_loop env [] acc = acc"
| "sweep_loop env (row # rows) (s, finalized, released, failures) =
     (case finalizeInferenceReservation env (r_request row) (sweep_params row) s of
        (s', Inr result) \<Rightarrow>
          sweep_loop env rows (s', finalized + 1,
            released + (if chargedUsd result = 0 then 1 else 0), failures)
      | (s', Inl e) \<Rightarrow> sweep_loop env rows (s', finalized, released, failures @ [r_request row]))"

definition releaseStaleBalanceReservations :: "env \<Rightarrow> rat \<Rightarrow> db \<Rightarrow> db \<times> nat result" where
  "releaseStaleBalanceReservations env olderThanMinutes s =
     (case sweep_loop env (stale_rows env olderThanMinutes s) (s, 0, 0, []) of
        (s', finalized, released, failures) \<Rightarrow>
          if failures \<noteq> [] \<and> finalized = 0 then (s', Inl (Thrown ''sweep_no_progress''))
          else (s', Inr released))"

end
