(* ===== verification/Wallet.thy ===== *)
theory Wallet
  imports Settlement
begin

section \<open>The prepaid wallet: an abstract ledger and its refinement\<close>

text \<open>
  What the wallet promises a customer, over the three tables that carry prepaid money. For every
  account, the reserved column is the sum of its open wallet reservations, the available column is
  never negative, and available plus reserved is what was credited less what was charged. The
  lemmas \<open>wallet_ensure\<close>, \<open>wallet_credit\<close>, \<open>wallet_reserve\<close>, \<open>wallet_close\<close> and \<open>wallet_touch\<close> are the five
  kinds of change the operations make to these tables; each operation is shown to be one of them.
  \<open>env_ok\<close> states what the code relies on of the schema and the SQL functions: a reservation is
  inserted with status \<open>reserved\<close>, and the trial-pool functions do not touch the wallet tables.
\<close>

definition open_amount :: "string \<Rightarrow> reservation \<Rightarrow> rat" where
  "open_amount a r =
     (if r_status r = Reserved \<and> r_funding r = Balance \<and> r_account r = a then r_reserved r else 0)"

definition open_wallet :: "string \<Rightarrow> reservation list \<Rightarrow> rat" where
  "open_wallet a rs = (\<Sum>r \<leftarrow> rs. open_amount a r)"

definition event_amount :: "string \<Rightarrow> balance_event \<Rightarrow> rat" where
  "event_amount a e =
     (if e_account e = a \<and> e_type e \<in> {EvCredit, EvAdjustment, EvCharge} then e_amount e else 0)"

definition wallet_net :: "string \<Rightarrow> balance_event list \<Rightarrow> rat" where
  "wallet_net a es = (\<Sum>e \<leftarrow> es. event_amount a e)"

definition reservation_ok :: "reservation \<Rightarrow> bool" where
  "reservation_ok r \<longleftrightarrow> 0 \<le> r_reserved r \<and> is_micro (r_reserved r)
     \<and> 0 \<le> r_input_price r \<and> 0 \<le> r_output_price r
     \<and> (r_status r \<noteq> Reserved \<longrightarrow> 0 \<le> r_charged r \<and> r_charged r \<le> r_reserved r)"

definition balance_ok :: "balance_event list \<Rightarrow> reservation list \<Rightarrow> balance_row \<Rightarrow> bool" where
  "balance_ok es rs b \<longleftrightarrow> 0 \<le> b_available b
     \<and> b_reserved b = open_wallet (b_account b) rs
     \<and> b_available b + open_wallet (b_account b) rs = wallet_net (b_account b) es"

definition wallet_inv :: "balance_row list \<Rightarrow> balance_event list \<Rightarrow> reservation list \<Rightarrow> bool" where
  "wallet_inv bs es rs \<longleftrightarrow>
     keyed b_account bs \<and> keyed r_request rs
     \<and> (\<forall>r \<in> set rs. reservation_ok r)
     \<and> (\<forall>b \<in> set bs. balance_ok es rs b)
     \<and> (\<forall>r \<in> set rs. r_funding r = Balance \<longrightarrow> r_account r \<in> b_account ` set bs)
     \<and> (\<forall>e \<in> set es. e_account e \<in> b_account ` set bs)"

definition wallet_ok :: "db \<Rightarrow> bool" where
  "wallet_ok s \<longleftrightarrow> wallet_inv (balances s) (balance_events s) (reservations s)"

named_theorems wallet_simps

lemma open_wallet_append [wallet_simps]:
  "open_wallet a (rs @ [r]) = open_wallet a rs + open_amount a r"
  by (simp add: open_wallet_def)

lemma wallet_net_append [wallet_simps]:
  "wallet_net a (es @ fs) = wallet_net a es + wallet_net a fs"
  "wallet_net a (e # es) = event_amount a e + wallet_net a es"
  "wallet_net a [] = 0"
  by (simp_all add: wallet_net_def)

lemma open_wallet_update:
  "keyed r_request rs \<Longrightarrow> select_row r_request k rs = Some row \<Longrightarrow>
     open_wallet a (update_rows r_request k f rs)
       = open_wallet a rs - open_amount a row + open_amount a (f row)"
  unfolding open_wallet_def by (rule sum_update_rows)

lemma balance_ok_move:
  assumes "balance_ok es rs b" and "b_account b' = b_account b" and "0 \<le> b_available b'"
    and "open_wallet (b_account b) rs' = open_wallet (b_account b) rs + (b_reserved b' - b_reserved b)"
    and "wallet_net (b_account b) es' = wallet_net (b_account b) es
      + (b_available b' - b_available b) + (b_reserved b' - b_reserved b)"
  shows "balance_ok es' rs' b'"
  using assms by (simp add: balance_ok_def algebra_simps)

subsection \<open>The five kinds of change\<close>

lemma open_wallet_no_row:
  assumes "wallet_inv bs es rs" and "a \<notin> b_account ` set bs"
  shows "open_wallet a rs = 0" and "wallet_net a es = 0"
  unfolding open_wallet_def wallet_net_def using assms
  by (auto simp: wallet_inv_def open_amount_def event_amount_def intro!: sum_list_map_0)

lemma wallet_invI:
  assumes "keyed b_account bs" and "keyed r_request rs"
    and "\<And>r. r \<in> set rs \<Longrightarrow> reservation_ok r"
    and "\<And>b. b \<in> set bs \<Longrightarrow> balance_ok es rs b"
    and "\<And>r. r \<in> set rs \<Longrightarrow> r_funding r = Balance \<Longrightarrow> r_account r \<in> b_account ` set bs"
    and "\<And>e. e \<in> set es \<Longrightarrow> e_account e \<in> b_account ` set bs"
  shows "wallet_inv bs es rs"
  using assms by (simp add: wallet_inv_def)

lemma wallet_invD:
  assumes "wallet_inv bs es rs"
  shows "keyed b_account bs" and "keyed r_request rs"
    and "r \<in> set rs \<Longrightarrow> reservation_ok r"
    and "b \<in> set bs \<Longrightarrow> balance_ok es rs b"
    and "r \<in> set rs \<Longrightarrow> r_funding r = Balance \<Longrightarrow> r_account r \<in> b_account ` set bs"
    and "e \<in> set es \<Longrightarrow> e_account e \<in> b_account ` set bs"
  using assms by (simp_all add: wallet_inv_def)

lemma wallet_ensure:
  assumes inv: "wallet_inv bs es rs"
  shows "wallet_inv (insert_unless b_account \<lparr> b_account = a, b_available = 0, b_reserved = 0 \<rparr> bs) es rs"
proof (cases "select_row b_account a bs = None")
  case True
  then have fresh: "a \<notin> b_account ` set bs" by (simp add: select_row_None_iff)
  show ?thesis
    using True wallet_invD [OF inv] open_wallet_no_row [OF inv fresh]
    by (intro wallet_invI) (auto simp: insert_unless_def balance_ok_def intro: keyed_snoc)
next
  case False
  with inv show ?thesis by (auto simp: insert_unless_def)
qed

lemma wallet_credit:
  assumes inv: "wallet_inv bs es rs" and amt: "0 < amt" and ty: "ty = EvCredit \<or> ty = EvAdjustment"
  shows "wallet_inv
    (if select_row b_account a bs = None
     then bs @ [\<lparr> b_account = a, b_available = amt, b_reserved = 0 \<rparr>]
     else update_rows b_account a (\<lambda>r. r\<lparr> b_available := b_available r + amt \<rparr>) bs)
    (es @ [\<lparr> e_account = a, e_type = ty, e_amount = amt, e_request = None \<rparr>]) rs"
proof (cases "select_row b_account a bs = None")
  case True
  then have fresh: "a \<notin> b_account ` set bs" by (simp add: select_row_None_iff)
  have "b_account b \<noteq> a" if "b \<in> set bs" for b using fresh that by auto
  then show ?thesis
    using True amt ty wallet_invD [OF inv] open_wallet_no_row [OF inv fresh]
    by (intro wallet_invI)
       (auto simp: balance_ok_def wallet_simps event_amount_def intro: keyed_snoc)
next
  case False
  let ?bs = "update_rows b_account a (\<lambda>r. r\<lparr> b_available := b_available r + amt \<rparr>) bs"
  have keys: "b_account ` set ?bs = b_account ` set bs" by (rule key_set_update_rows) simp
  moreover have "a \<in> b_account ` set bs" using False by (simp add: select_row_None_iff)
  moreover have "keyed b_account ?bs" by (simp add: keyed_update_rows wallet_invD(1) [OF inv])
  moreover have "balance_ok (es @ [\<lparr> e_account = a, e_type = ty, e_amount = amt, e_request = None \<rparr>]) rs b"
    if "b \<in> set ?bs" for b
    using that
  proof (cases rule: update_rowsE)
    case same
    then show ?thesis
      by (intro balance_ok_move [OF wallet_invD(4) [OF inv same(1)]])
         (use wallet_invD(4) [OF inv same(1)] in
           \<open>simp_all add: balance_ok_def wallet_simps event_amount_def\<close>)
  next
    case (new x)
    then show ?thesis
      by (intro balance_ok_move [OF wallet_invD(4) [OF inv new(1)]])
         (use amt ty wallet_invD(4) [OF inv new(1)] in
           \<open>auto simp: balance_ok_def wallet_simps event_amount_def\<close>)
  qed
  ultimately have "wallet_inv ?bs
      (es @ [\<lparr> e_account = a, e_type = ty, e_amount = amt, e_request = None \<rparr>]) rs"
    using wallet_invD [OF inv] by (intro wallet_invI) auto
  with False show ?thesis by auto
qed

text \<open>
  A reservation: the row is appended and, for a wallet reservation of a positive amount, the
  amount moves from available to reserved of an account that has it.
\<close>

lemma wallet_reserve:
  assumes inv: "wallet_inv bs es rs" and fresh: "select_row r_request (r_request row) rs = None"
    and ok: "reservation_ok row" and st: "r_status row = Reserved"
    and funds: "r_funding row = Balance \<Longrightarrow> \<exists>b. select_row b_account (r_account row) bs = Some b
        \<and> (0 < r_reserved row \<longrightarrow> r_reserved row \<le> b_available b)"
  shows "wallet_inv
    (if 0 < r_reserved row \<and> r_funding row = Balance
     then update_rows b_account (r_account row)
            (\<lambda>r. r\<lparr> b_available := b_available r - r_reserved row,
                    b_reserved := b_reserved r + r_reserved row \<rparr>) bs else bs)
    (if 0 < r_reserved row \<and> r_funding row = Balance
     then es @ [\<lparr> e_account = r_account row, e_type = EvReserve, e_amount = r_reserved row,
                  e_request = Some (r_request row) \<rparr>] else es)
    (rs @ [row])"
proof (cases "0 < r_reserved row \<and> r_funding row = Balance")
  case False
  have zero: "open_amount a row = 0" for a
    using False ok by (auto simp: open_amount_def reservation_ok_def)
  have own: "r_funding row = Balance \<Longrightarrow> r_account row \<in> b_account ` set bs"
    using funds select_row_SomeD by (metis imageI)
  have "wallet_inv bs es (rs @ [row])"
    using wallet_invD [OF inv] fresh ok zero own
    by (intro wallet_invI) (auto simp: balance_ok_def wallet_simps intro: keyed_snoc)
  with False show ?thesis by auto
next
  case True
  let ?a = "r_account row"
  let ?f = "\<lambda>r. r\<lparr> b_available := b_available r - r_reserved row, b_reserved := b_reserved r + r_reserved row \<rparr>"
  let ?bs = "update_rows b_account ?a ?f bs"
  let ?es = "es @ [\<lparr> e_account = ?a, e_type = EvReserve, e_amount = r_reserved row,
                  e_request = Some (r_request row) \<rparr>]"
  obtain b0 where b0: "select_row b_account ?a bs = Some b0" "r_reserved row \<le> b_available b0"
    using funds True by auto
  have keys: "b_account ` set ?bs = b_account ` set bs" by (rule key_set_update_rows) simp
  have own: "?a \<in> b_account ` set bs" using select_row_SomeD [OF b0(1)] by (metis imageI)
  have open_row: "open_amount a row = (if a = ?a then r_reserved row else 0)" for a
    using True st by (simp add: open_amount_def)
  have bal: "balance_ok ?es (rs @ [row]) b" if "b \<in> set ?bs" for b
    using that
  proof (cases rule: update_rowsE)
    case same
    then show ?thesis
      by (intro balance_ok_move [OF wallet_invD(4) [OF inv same(1)]])
         (use wallet_invD(4) [OF inv same(1)] open_row in
           \<open>simp_all add: balance_ok_def wallet_simps event_amount_def\<close>)
  next
    case (new x)
    then have "x = b0" using select_row_keyed [OF wallet_invD(1) [OF inv] new(1)] b0(1) by simp
    with new show ?thesis
      by (intro balance_ok_move [OF wallet_invD(4) [OF inv new(1)]])
         (use b0(2) open_row in \<open>simp_all add: wallet_simps event_amount_def\<close>)
  qed
  have "wallet_inv ?bs ?es (rs @ [row])"
    using wallet_invD [OF inv] fresh ok own bal
    by (intro wallet_invI) (auto simp: keys keyed_update_rows intro: keyed_snoc)
  with True show ?thesis by simp
qed

text \<open>
  Closing a reservation with a charge: for a wallet reservation the hold leaves the reserved
  column, what is not charged returns to available, and the charge is an event.
\<close>

lemma wallet_close:
  assumes inv: "wallet_inv bs es rs" and sel: "select_row r_request k rs = Some row"
    and st: "r_status row = Reserved" and charge: "0 \<le> c" "c \<le> r_reserved row"
    and f: "\<And>r. r_request (f r) = r_request r" "r_status (f row) \<noteq> Reserved"
      "r_charged (f row) = c" "r_account (f row) = r_account row" "r_funding (f row) = r_funding row"
      "r_reserved (f row) = r_reserved row" "r_input_price (f row) = r_input_price row"
      "r_output_price (f row) = r_output_price row"
    and bs': "bs' = (if r_funding row = Balance
      then update_rows b_account (r_account row)
        (\<lambda>b. b\<lparr> b_reserved := b_reserved b - r_reserved row,
                b_available := b_available b + (r_reserved row - c) \<rparr>) bs else bs)"
    and es': "es' = es @ es1"
      "\<And>e. e \<in> set es1 \<Longrightarrow> r_funding row = Balance \<and> e_account e = r_account row"
      "\<And>a. wallet_net a es1 = (if r_funding row = Balance \<and> a = r_account row then - c else 0)"
  shows "wallet_inv bs' es' (update_rows r_request k f rs)"
proof -
  let ?rs = "update_rows r_request k f rs"
  note D = wallet_invD [OF inv]
  have row: "row \<in> set rs" "r_request row = k" using select_row_SomeD [OF sel] by auto
  have rs_mem: "r \<in> set rs \<or> r = f row" if "r \<in> set ?rs" for r
    using that select_row_keyed [OF D(2)] sel by (fastforce simp: set_update_rows)
  have opens: "open_wallet a ?rs = open_wallet a rs
      - (if r_funding row = Balance \<and> a = r_account row then r_reserved row else 0)" for a
    using open_wallet_update [OF D(2) sel] f(2) st by (simp add: open_amount_def)
  have keys: "b_account ` set bs' = b_account ` set bs"
    unfolding bs' by (simp add: key_set_update_rows)
  have bal: "balance_ok es' ?rs b" if "b \<in> set bs'" for b
  proof (cases "r_funding row = Balance")
    case False
    with that show ?thesis
      by (intro balance_ok_move [OF D(4)]) (use D(4) in \<open>auto simp: bs' es'(1,3) opens wallet_simps balance_ok_def\<close>)
  next
    case True
    with that have "b \<in> set (update_rows b_account (r_account row)
        (\<lambda>b. b\<lparr> b_reserved := b_reserved b - r_reserved row,
                b_available := b_available b + (r_reserved row - c) \<rparr>) bs)"
      by (simp add: bs')
    then show ?thesis
    proof (cases rule: update_rowsE)
      case same
      then show ?thesis
        by (intro balance_ok_move [OF D(4) [OF same(1)]])
           (use D(4) [OF same(1)] in \<open>simp_all add: es'(1,3) opens wallet_simps balance_ok_def\<close>)
    next
      case (new x)
      then show ?thesis
        by (intro balance_ok_move [OF D(4) [OF new(1)]])
           (use True charge D(4) [OF new(1)] in \<open>simp_all add: es'(1,3) opens wallet_simps balance_ok_def\<close>)
    qed
  qed
  show ?thesis
  proof (rule wallet_invI)
    show "keyed b_account bs'" "keyed r_request ?rs"
      using D(1,2) by (simp_all add: bs' keyed_update_rows f(1))
    show "reservation_ok r" if "r \<in> set ?rs" for r
      using rs_mem [OF that] D(3) row(1) charge f by (auto simp: reservation_ok_def)
    show "balance_ok es' ?rs b" if "b \<in> set bs'" for b using that by (rule bal)
    show "r_account r \<in> b_account ` set bs'" if "r \<in> set ?rs" "r_funding r = Balance" for r
      using rs_mem [OF that(1)] that(2) D(5) row(1) f unfolding keys by auto
    show "e_account e \<in> b_account ` set bs'" if "e \<in> set es'" for e
      using that D(5) [OF row(1)] D(6) es'(2) unfolding keys by (auto simp: es'(1))
  qed
qed

text \<open>An update of a reservation's other columns: route, prices and fences.\<close>

lemma wallet_touch:
  assumes inv: "wallet_inv bs es rs"
    and f: "\<And>r. r_request (f r) = r_request r" "\<And>r. r_status (f r) = r_status r"
      "\<And>r. r_charged (f r) = r_charged r" "\<And>r. r_account (f r) = r_account r"
      "\<And>r. r_funding (f r) = r_funding r" "\<And>r. r_reserved (f r) = r_reserved r"
      "\<And>r. reservation_ok r \<Longrightarrow> reservation_ok (f r)"
  shows "wallet_inv bs es (update_rows r_request k f rs)"
proof -
  note D = wallet_invD [OF inv]
  have "open_amount a (f r) = open_amount a r" for a r
    by (simp add: open_amount_def f)
  then have opens: "open_wallet a (update_rows r_request k f rs) = open_wallet a rs" for a
    unfolding open_wallet_def update_rows_def
    by (simp add: comp_def if_distrib cong: if_cong)
  show ?thesis
    using D f by (intro wallet_invI)
      (auto simp: opens balance_ok_def set_update_rows keyed_update_rows)
qed

end
