(* ===== verification/WalletRun.thy ===== *)
theory WalletRun
  imports Wallet
begin

section \<open>Every operation keeps the wallet, and so does every run\<close>

text \<open>
  Each operation of \<open>metering/billing.ts\<close> is shown to be one of the changes of \<open>Wallet\<close>, with
  \<open>env_ok\<close> the behaviour of the schema and the SQL functions the code relies on: a reservation row is
  inserted with status \<open>reserved\<close>, and the two trial-pool functions leave the wallet tables and the
  reservations alone. \<open>billing_op\<close> lists the operations with the arguments a caller passes;
  \<open>billing_step\<close> runs one of them in the environment of its moment, and a run is a fold of steps.
\<close>

definition wallet_view :: "db \<Rightarrow> balance_row list \<times> balance_event list \<times> reservation list" where
  "wallet_view s = (balances s, balance_events s, reservations s)"

definition env_ok :: "env \<Rightarrow> bool" where
  "env_ok env \<longleftrightarrow> default_status env = Reserved
     \<and> (\<forall>a s. wallet_view (snd (trial_pool_admit env a s)) = wallet_view s)
     \<and> (\<forall>d a s. wallet_view (trial_pool_release_unused env d a s) = wallet_view s)"

lemma wallet_ok_view: "wallet_view s' = wallet_view s \<Longrightarrow> wallet_ok s' = wallet_ok s"
  by (simp add: wallet_view_def wallet_ok_def)

lemma env_okD:
  assumes "env_ok env"
  shows "default_status env = Reserved"
    and "trial_pool_admit env a s = (x, s1) \<Longrightarrow> wallet_view s1 = wallet_view s"
    and "wallet_view (trial_pool_release_unused env d a s) = wallet_view s"
  using assms by (auto simp: env_ok_def) (metis snd_conv)+

subsection \<open>Credits\<close>

lemma ensureBalanceRow_ok: "wallet_ok s \<Longrightarrow> wallet_ok (ensureBalanceRow a s)"
  using wallet_ensure by (simp add: wallet_ok_def ensureBalanceRow_def)

lemma ensureBalanceRow_row:
  "\<exists>b. select_row b_account a (balances (ensureBalanceRow a s)) = Some b"
  by (auto simp: ensureBalanceRow_def insert_unless_def table_simps)

lemma creditBalance_ok:
  assumes "wallet_ok s" and "ty = EvCredit \<or> ty = EvAdjustment"
  shows "wallet_ok (fst (creditBalance env a amt ty s))"
proof (cases "amt \<le> 0")
  case True
  with assms show ?thesis by (simp add: creditBalance_def ensureBalanceRow_ok)
next
  case False
  then have "0 < amt" by simp
  then show ?thesis
    using False wallet_credit [OF assms(1) [unfolded wallet_ok_def] _ assms(2), of amt a] assms(1)
    by (simp add: creditBalance_def) (rule run_tx_preserves; auto simp: wallet_ok_def)
qed

subsection \<open>Reserving\<close>

lemma reserve_trial_view:
  "reserve_trial env a amt n s = Inr s1 \<Longrightarrow> wallet_view s1 = wallet_view s"
  by (auto simp: reserve_trial_def wallet_view_def and_then_Inr_iff split: option.splits if_splits)

lemma reserve_pool_rows_view:
  assumes "reserve_pool_rows d a amt n s = Inr (s1, g)"
  shows "wallet_view s1 = wallet_view s \<and> is_micro g \<and> 0 \<le> g"
  using assms
  by (auto simp: reserve_pool_rows_def wallet_view_def and_then_Inr_iff Let_def toFixed6_nonneg
      split: option.splits if_splits dest!: moneyUsd_micro)

lemma reserve_pool_view:
  assumes "env_ok env" and "reserve_pool env a amt n s = Inr (s1, g, d)"
  shows "wallet_view s1 = wallet_view s \<and> is_micro g \<and> 0 \<le> g"
  using assms(2)
  by (auto simp: reserve_pool_def and_then_Inr_iff Let_def split: prod.splits if_splits
      dest!: reserve_pool_rows_view env_okD(2) [OF assms(1)])

lemma reserve_wallet_Inr:
  "reserve_wallet a amt s = Inr s1 \<longleftrightarrow> s1 = s \<and> (0 < amt \<longrightarrow>
     amt \<le> (case select_row b_account a (balances s) of None \<Rightarrow> 0 | Some b \<Rightarrow> b_available b))"
  by (auto simp: reserve_wallet_def Let_def)

definition funding_of :: "reserve_options \<Rightarrow> funding_source" where
  "funding_of opts = (case o_funding opts of None \<Rightarrow> Balance | Some f \<Rightarrow> f)"

lemma reserve_funding_Inr:
  assumes "env_ok env" and "reserve_funding env a amt opts s = Inr (s1, amt1, d)"
    and "is_micro amt" and "0 \<le> amt"
  shows "wallet_view s1 = wallet_view s" and "is_micro amt1" and "0 \<le> amt1"
    and "funding_of opts = Balance \<Longrightarrow> amt1 = amt \<and> (0 < amt \<longrightarrow>
      amt \<le> (case select_row b_account a (balances s) of None \<Rightarrow> 0 | Some b \<Rightarrow> b_available b))"
  using assms(2-)
  by (auto simp: reserve_funding_def and_then_Inr_iff funding_of_def reserve_wallet_Inr
      split: funding_source.splits
      dest!: reserve_trial_view reserve_pool_view [OF assms(1)])

definition options_ok :: "reserve_options \<Rightarrow> bool" where
  "options_ok opts \<longleftrightarrow>
     (case o_context opts of None \<Rightarrow> True | Some c \<Rightarrow> 0 \<le> c_input_price c \<and> 0 \<le> c_output_price c)"

lemma new_reservation_sel [simp]:
  "r_request (new_reservation env k a amt opts d) = k"
  "r_account (new_reservation env k a amt opts d) = a"
  "r_api_key (new_reservation env k a amt opts d) = o_api_key opts"
  "r_reserved (new_reservation env k a amt opts d) = amt"
  "r_status (new_reservation env k a amt opts d) = default_status env"
  "r_funding (new_reservation env k a amt opts d) = funding_of opts"
  by (simp_all add: new_reservation_def Let_def funding_of_def)

lemma new_reservation_ok:
  "env_ok env \<Longrightarrow> options_ok opts \<Longrightarrow> is_micro amt \<Longrightarrow> 0 \<le> amt \<Longrightarrow>
     reservation_ok (new_reservation env k a amt opts d)"
  by (auto simp: reservation_ok_def env_okD(1) options_ok_def)
     (auto simp: new_reservation_def Let_def split: option.splits)

text \<open>A successful reservation either found the live row again or is the wallet change \<open>wallet_reserve\<close>.\<close>

lemma reserve_tx_cases:
  assumes "reserve_tx env a amt k opts s = Inr (s', g)"
  obtains (again) row where "select_row r_request k (reservations s) = Some row" "s' = s"
      "r_status row = Reserved" "g = r_reserved row" "r_account row = a" "r_api_key row = o_api_key opts"
  | (fresh) s1 d limit where "select_row r_request k (reservations s) = None"
      "reserve_funding env a amt opts s = Inr (s1, g, d)"
      "key_limit env a opts s1 = Inr limit" "key_gate env a g limit opts s1 = Inr ()"
      "s' = reserve_wallet_move k a g opts
         (s1\<lparr> reservations := reservations s1 @ [new_reservation env k a g opts d] \<rparr>)"
  using assms
  by (auto simp: reserve_tx_def and_then_Inr_iff Let_def split: option.splits if_splits)

lemma reserve_tx_ok:
  assumes tx: "reserve_tx env a amt k opts s = Inr (s', g)" and ok: "wallet_ok s"
    and env: "env_ok env" and opts: "options_ok opts" and amt: "is_micro amt" "0 \<le> amt"
    and row: "\<exists>b. select_row b_account a (balances s) = Some b"
  shows "wallet_ok s'"
  using tx
proof (cases rule: reserve_tx_cases)
  case again
  with ok show ?thesis by simp
next
  case (fresh s1 d limit)
  let ?r = "new_reservation env k a g opts d"
  note R = reserve_funding_Inr [OF env fresh(2) amt]
  have inv: "wallet_inv (balances s) (balance_events s) (reservations s)"
    using ok by (simp add: wallet_ok_def)
  have funds: "r_funding ?r = Balance \<Longrightarrow> \<exists>b. select_row b_account (r_account ?r) (balances s) = Some b
      \<and> (0 < r_reserved ?r \<longrightarrow> r_reserved ?r \<le> b_available b)"
    using R(4) row by auto
  have sel: "select_row r_request (r_request ?r) (reservations s) = None" using fresh(1) by simp
  have st: "r_status ?r = Reserved" by (simp add: env_okD(1) [OF env])
  have "wallet_ok s' = wallet_inv
    (if 0 < r_reserved ?r \<and> r_funding ?r = Balance
     then update_rows b_account (r_account ?r)
            (\<lambda>r. r\<lparr> b_available := b_available r - r_reserved ?r,
                    b_reserved := b_reserved r + r_reserved ?r \<rparr>) (balances s) else balances s)
    (if 0 < r_reserved ?r \<and> r_funding ?r = Balance
     then balance_events s @ [\<lparr> e_account = r_account ?r, e_type = EvReserve,
            e_amount = r_reserved ?r, e_request = Some (r_request ?r) \<rparr>] else balance_events s)
    (reservations s @ [?r])"
    using R(1) fresh(5)
    by (simp add: wallet_ok_def wallet_view_def reserve_wallet_move_def flip: funding_of_def)
  then show ?thesis
    using wallet_reserve [OF inv sel new_reservation_ok [OF env opts R(2,3)] st funds] by blast
qed

lemma reserveBalance_ok:
  assumes "wallet_ok s" and "env_ok env" and "options_ok opts"
  shows "wallet_ok (fst (reserveBalance env a amt k opts s))"
proof -
  have s0: "wallet_ok (ensureBalanceRow a s)" using assms(1) by (rule ensureBalanceRow_ok)
  show ?thesis
  proof (cases "moneyUsd amt")
    case (Inl e)
    with s0 show ?thesis by (simp add: reserveBalance_def Let_def)
  next
    case (Inr q)
    have "wallet_ok (fst (run_tx env (reserve_tx env a q k opts) (ensureBalanceRow a s)))"
    proof (rule run_tx_preserves)
      fix s' x assume "reserve_tx env a q k opts (ensureBalanceRow a s) = Inr (s', x)"
      from reserve_tx_ok [OF this s0 assms(2,3)] moneyUsd_micro [OF Inr] ensureBalanceRow_row [of a s]
      show "wallet_ok s'" by blast
    qed (rule s0)
    with Inr show ?thesis by (simp add: reserveBalance_def Let_def)
  qed
qed

subsection \<open>Routes, fences and receipts\<close>

definition route_ok :: "route \<Rightarrow> bool" where
  "route_ok rt \<longleftrightarrow> 0 \<le> rt_input_price rt \<and> 0 \<le> rt_output_price rt"

lemma updateInferenceReservationRoute_ok:
  assumes "wallet_ok s" and "route_ok rt"
  shows "wallet_ok (fst (updateInferenceReservationRoute k rt s))"
  using assms
  by (auto simp: updateInferenceReservationRoute_def wallet_ok_def route_ok_def reservation_ok_def
      split: option.splits intro!: wallet_touch)

lemma mark_attempt_tx_ok:
  assumes "mark_attempt_tx env off k s = Inr (s', t)" and "wallet_ok s"
  shows "wallet_ok s'"
  using assms
  by (auto simp: mark_attempt_tx_def wallet_ok_def Let_def reservation_ok_def
      split: option.splits if_splits intro!: wallet_touch)

lemma markInferenceProviderAttemptStarted_ok:
  "wallet_ok s \<Longrightarrow> wallet_ok (fst (markInferenceProviderAttemptStarted env off k s))"
  unfolding markInferenceProviderAttemptStarted_def
  by (rule run_tx_preserves) (auto dest: mark_attempt_tx_ok)

lemma markInferenceDeliveryStarted_ok:
  "wallet_ok s \<Longrightarrow> wallet_ok (fst (markInferenceDeliveryStarted env k s))"
  by (auto simp: markInferenceDeliveryStarted_def wallet_ok_def reservation_ok_def
      split: option.splits intro!: wallet_touch)

lemma recordSettlementReceipt_view:
  "wallet_view (fst (recordSettlementReceipt env k receipt s)) = wallet_view s"
  by (auto simp: recordSettlementReceipt_def wallet_view_def Let_def split: option.splits)

subsection \<open>Settlement\<close>

definition usage_ok :: "finalize_params \<Rightarrow> bool" where
  "usage_ok p \<longleftrightarrow> (case f_usage p of None \<Rightarrow> True | Some u \<Rightarrow> 0 \<le> outputTokens u)"

lemma provider_cost_bounds:
  "reservation_ok row \<Longrightarrow> usage_ok p \<Longrightarrow> 0 \<le> provider_cost p row \<and> is_micro (provider_cost p row)"
  by (auto simp: provider_cost_def reservation_ok_def usage_ok_def row_pricing_def nonneg_pricing_def
      is_micro_cost intro!: cost_nonneg split: option.splits)

lemma final_charge_bounds:
  assumes "reservation_ok row" and "usage_ok p"
  shows "0 \<le> final_charge p row" and "final_charge p row \<le> r_reserved row"
    and "is_micro (final_charge p row)"
  using provider_cost_bounds [OF assms] assms(1)
  by (auto simp: final_charge_def reservation_ok_def is_micro_min)

lemma release_exact:
  assumes "is_micro r" and "is_micro c" and "c \<le> r"
  shows "toFixed6 (max 0 (r - c)) = r - c"
  using assms by (simp add: toFixed6_micro is_micro_diff max_def)

text \<open>The money statements of a close: what the two settlements do to the balances and events.\<close>

definition close_balances :: "reservation \<Rightarrow> rat \<Rightarrow> balance_row list \<Rightarrow> balance_row list" where
  "close_balances row c bs =
     (if r_funding row = Balance
      then update_rows b_account (r_account row)
        (\<lambda>b. b\<lparr> b_reserved := b_reserved b - r_reserved row,
                b_available := b_available b + (r_reserved row - c) \<rparr>) bs else bs)"

definition close_events :: "reservation \<Rightarrow> rat \<Rightarrow> balance_event list" where
  "close_events row c =
     (if r_reserved row > 0 \<and> r_funding row = Balance
      then [\<lparr> e_account = r_account row, e_type = EvRelease, e_amount = r_reserved row,
              e_request = Some (r_request row) \<rparr>] else [])
     @ (if c > 0 \<and> r_funding row = Balance
        then [\<lparr> e_account = r_account row, e_type = EvCharge, e_amount = - c,
                e_request = Some (r_request row) \<rparr>] else [])"

lemma wallet_closing:
  assumes inv: "wallet_inv bs es rs" and sel: "select_row r_request k rs = Some row"
    and st: "r_status row = Reserved" and charge: "0 \<le> c" "c \<le> r_reserved row"
    and f: "\<And>r. r_request (f r) = r_request r" "r_status (f row) \<noteq> Reserved"
      "r_charged (f row) = c" "r_account (f row) = r_account row" "r_funding (f row) = r_funding row"
      "r_reserved (f row) = r_reserved row" "r_input_price (f row) = r_input_price row"
      "r_output_price (f row) = r_output_price row"
  shows "wallet_inv (close_balances row c bs) (es @ close_events row c) (update_rows r_request k f rs)"
  by (rule wallet_close [OF inv sel st charge f close_balances_def refl])
     (use charge in \<open>auto simp: close_events_def wallet_simps event_amount_def split: if_splits\<close>)

lemma reconcile_tx_ok:
  assumes tx: "reconcile_tx env a ex cost k s = Inr (s', x)" and ok: "wallet_ok s"
    and cost: "is_micro cost" "0 \<le> cost"
  shows "wallet_ok s'"
proof (cases "select_row r_request k (reservations s)")
  case None
  with tx ok show ?thesis by (simp add: reconcile_tx_def split: if_splits)
next
  case (Some row)
  note D = wallet_invD [OF ok [unfolded wallet_ok_def]]
  have row: "row \<in> set (reservations s)" "r_request row = k" using select_row_SomeD [OF Some] by auto
  let ?c = "min cost (r_reserved row)"
  have c: "0 \<le> ?c" "?c \<le> r_reserved row" "toFixed6 (max 0 (r_reserved row - ?c)) = r_reserved row - ?c"
    using D(3) [OF row(1)] cost release_exact [OF _ is_micro_min, of "r_reserved row" cost]
    by (simp_all add: reservation_ok_def)
  show ?thesis
  proof (cases "r_status row = Reserved")
    case False
    with tx Some ok show ?thesis by (simp add: reconcile_tx_def Let_def split: if_splits)
  next
    case True
    let ?f = "\<lambda>r. r\<lparr> r_charged := ?c, r_status := (if ?c > 0 then Settled else Released),
                      r_finalized_at := Some (now_db env) \<rparr>"
    have "balances s' = close_balances row ?c (balances s)"
      "balance_events s' = balance_events s @ close_events row ?c"
      "reservations s' = update_rows r_request k ?f (reservations s)"
      using tx Some True c row(2)
      by (auto simp: reconcile_tx_def Let_def close_balances_def close_events_def split: if_splits)
    moreover have "wallet_inv (close_balances row ?c (balances s)) (balance_events s @ close_events row ?c)
        (update_rows r_request k ?f (reservations s))"
      by (rule wallet_closing [OF ok [unfolded wallet_ok_def] Some True c(1,2)]) simp_all
    ultimately show ?thesis by (simp add: wallet_ok_def)
  qed
qed

lemma reconcileReservedBalance_ok:
  assumes "wallet_ok s"
  shows "wallet_ok (fst (reconcileReservedBalance env a r c k s))"
proof (cases "moneyUsd r")
  case (Inr ex)
  show ?thesis
  proof (cases "moneyUsd c")
    case cost: (Inr cost)
    have "wallet_ok (fst (run_tx env (reconcile_tx env a ex cost k) s))"
    proof (rule run_tx_preserves)
      fix s' x assume "reconcile_tx env a ex cost k s = Inr (s', x)"
      from reconcile_tx_ok [OF this assms] moneyUsd_micro [OF cost] show "wallet_ok s'" by blast
    qed (rule assms)
    with Inr cost show ?thesis by (simp add: reconcileReservedBalance_def)
  qed (use Inr assms in \<open>simp add: reconcileReservedBalance_def\<close>)
qed (use assms in \<open>simp add: reconcileReservedBalance_def\<close>)

lemma settle_pool_Inr:
  assumes "settle_pool env p row s = Inr s1"
  obtains d rel ch where "r_pool_date row = Some d"
    "read_column (to_bigint (r_reserved row * 1000000)) = Inr rel"
    "usdToMicrosCeil (Fin (final_charge p row)) = Inr ch"
    "s1 = release_exhausted_allocation env d row (settle_pool_rows d rel (min rel ch) p row s)"
  using assms
  by (auto simp: settle_pool_def and_then_Inr_iff Let_def simp del: read_column_eq split: option.splits)

lemma settle_pool_view:
  assumes "env_ok env" and "settle_pool env p row s = Inr s1"
  shows "wallet_view s1 = wallet_view s"
proof -
  have rel: "wallet_view (release_exhausted_allocation env d row t) = wallet_view t" for d t
    using env_okD(3) [OF assms(1)]
    by (simp add: release_exhausted_allocation_def split: option.split)
  have rows: "wallet_view (settle_pool_rows d rel ch p row t) = wallet_view t" for d rel ch t
    by (simp add: settle_pool_rows_def wallet_view_def)
  show ?thesis by (rule settle_pool_Inr [OF assms(2)]) (simp add: rel rows)
qed

lemma settle_funding_view:
  assumes "env_ok env" and "settle_funding env p row s = Inr s1"
    and "toFixed6 (max 0 (r_reserved row - final_charge p row)) = r_reserved row - final_charge p row"
  shows "wallet_view s1 =
    (close_balances row (final_charge p row) (balances s), balance_events s, reservations s)"
proof (cases "r_funding row")
  case Balance
  with assms(2,3) show ?thesis
    by (auto simp: settle_funding_def settle_wallet_def wallet_view_def close_balances_def)
next
  case Trial
  with assms(2) show ?thesis
    by (auto simp: settle_funding_def settle_trial_def wallet_view_def close_balances_def)
next
  case TrialPool
  with assms(2) settle_pool_view [OF assms(1)] show ?thesis
    by (simp add: settle_funding_def wallet_view_def close_balances_def)
qed

lemma finalize_tx_ok:
  assumes tx: "finalize_tx env k p s = Inr (s', x)" and ok: "wallet_ok s"
    and env: "env_ok env" and p: "usage_ok p"
  shows "wallet_ok s'"
proof (cases "select_row r_request k (reservations s)")
  case None
  with tx ok show ?thesis by (simp add: finalize_tx_def)
next
  case (Some row)
  note D = wallet_invD [OF ok [unfolded wallet_ok_def]]
  have row: "row \<in> set (reservations s)" "r_request row = k" using select_row_SomeD [OF Some] by auto
  let ?c = "final_charge p row"
  note C = final_charge_bounds [OF D(3) [OF row(1)] p]
  have exact: "toFixed6 (max 0 (r_reserved row - ?c)) = r_reserved row - ?c"
    using D(3) [OF row(1)] release_exact [OF _ C(3,2)] by (simp add: reservation_ok_def)
  show ?thesis
  proof (cases "r_status row = Reserved")
    case False
    with tx Some ok show ?thesis by (simp add: finalize_tx_def)
  next
    case True
    let ?f = "\<lambda>r. r\<lparr> r_charged := ?c, r_status := (if ?c > 0 then Settled else Released),
        r_latency := Some (case f_latency p of None \<Rightarrow> 0 | Some l \<Rightarrow> l),
        r_first_token := f_first_token p, r_finalized_at := Some (now_db env) \<rparr>"
    obtain s1 where s1: "settle_funding env p row s = Inr s1"
      "s' = finalize_writes env p row s1"
      using tx Some True by (auto simp: finalize_tx_def and_then_Inr_iff Let_def)
    have "wallet_view s' = (close_balances row ?c (balances s), balance_events s @ close_events row ?c,
        update_rows r_request k ?f (reservations s))"
      using settle_funding_view [OF env s1(1) exact] row(2)
      by (simp add: s1(2) Let_def wallet_view_def finalize_writes_def finalize_row_def settle_events_def settle_daily_def
          insertUsageEventTx_def close_events_def)
    moreover have "wallet_inv (close_balances row ?c (balances s)) (balance_events s @ close_events row ?c)
        (update_rows r_request k ?f (reservations s))"
      by (rule wallet_closing [OF ok [unfolded wallet_ok_def] Some True C(1,2)]) simp_all
    ultimately show ?thesis by (simp add: wallet_ok_def wallet_view_def)
  qed
qed

lemma finalizeInferenceReservation_ok:
  "wallet_ok s \<Longrightarrow> env_ok env \<Longrightarrow> usage_ok p \<Longrightarrow>
     wallet_ok (fst (finalizeInferenceReservation env k p s))"
  unfolding finalizeInferenceReservation_def
  by (rule run_tx_preserves) (auto dest: finalize_tx_ok)

lemma sweep_loop_ok:
  "wallet_ok (fst acc) \<Longrightarrow> env_ok env \<Longrightarrow> wallet_ok (fst (sweep_loop env rows acc))"
proof (induction env rows acc rule: sweep_loop.induct)
  case (2 env row rows s finalized released failures)
  have "usage_ok (sweep_params row)" by (simp add: usage_ok_def sweep_params_def)
  from finalizeInferenceReservation_ok [OF _ "2.prems"(2) this, of s "r_request row"] 2
  show ?case by (fastforce split: prod.splits sum.splits)
qed simp

lemma releaseStaleBalanceReservations_ok:
  "wallet_ok s \<Longrightarrow> env_ok env \<Longrightarrow> wallet_ok (fst (releaseStaleBalanceReservations env m s))"
  using sweep_loop_ok [of "(s, 0, 0, [])" env "stale_rows env m s"]
  by (cases "sweep_loop env (stale_rows env m s) (s, 0, 0, [])")
     (simp add: releaseStaleBalanceReservations_def)

subsection \<open>Runs\<close>

datatype billing_op =
    Credit env string rat event_type
  | Reserve env string jsnum string reserve_options
  | Route string route
  | Reconcile env string jsnum jsnum string
  | Attempt env "(string \<Rightarrow> bool) option" string
  | Deliver env string
  | Receipt env string string
  | Finalize env string finalize_params
  | Sweep env rat

fun billing_step :: "billing_op \<Rightarrow> db \<Rightarrow> db" where
  "billing_step (Credit env a amt ty) s = fst (creditBalance env a amt ty s)"
| "billing_step (Reserve env a amt k opts) s = fst (reserveBalance env a amt k opts s)"
| "billing_step (Route k rt) s = fst (updateInferenceReservationRoute k rt s)"
| "billing_step (Reconcile env a r c k) s = fst (reconcileReservedBalance env a r c k s)"
| "billing_step (Attempt env off k) s = fst (markInferenceProviderAttemptStarted env off k s)"
| "billing_step (Deliver env k) s = fst (markInferenceDeliveryStarted env k s)"
| "billing_step (Receipt env k receipt) s = fst (recordSettlementReceipt env k receipt s)"
| "billing_step (Finalize env k p) s = fst (finalizeInferenceReservation env k p s)"
| "billing_step (Sweep env m) s = fst (releaseStaleBalanceReservations env m s)"

fun op_ok :: "billing_op \<Rightarrow> bool" where
  "op_ok (Credit env a amt ty) = (ty = EvCredit \<or> ty = EvAdjustment)"
| "op_ok (Reserve env a amt k opts) = (env_ok env \<and> options_ok opts)"
| "op_ok (Route k rt) = route_ok rt"
| "op_ok (Finalize env k p) = (env_ok env \<and> usage_ok p)"
| "op_ok (Sweep env m) = env_ok env"
| "op_ok _ = True"

lemma billing_step_ok: "wallet_ok s \<Longrightarrow> op_ok op \<Longrightarrow> wallet_ok (billing_step op s)"
  by (cases op)
     (simp_all add: creditBalance_ok reserveBalance_ok updateInferenceReservationRoute_ok
       reconcileReservedBalance_ok markInferenceProviderAttemptStarted_ok
       markInferenceDeliveryStarted_ok finalizeInferenceReservation_ok
       releaseStaleBalanceReservations_ok
       wallet_ok_view [OF recordSettlementReceipt_view])

interpretation billing: invariant_run billing_step op_ok wallet_ok
  by unfold_locales (rule billing_step_ok)

text \<open>
  C1. Prepaid money is conserved. After any sequence of billing operations (credits, reservations,
  route changes, fences, receipts, both settlements, stale sweeps, each with the clocks and the SQL
  functions of its moment, successful or refused) an account's available balance is not negative,
  its reserved balance is the sum of its open wallet reservations, and the two together are what
  was credited less what was charged; no closed reservation was charged more than it held.
\<close>

theorem wallet_conserved:
  assumes "wallet_ok s" and "list_all op_ok ops" and "s' = fold billing_step ops s"
    and "select_row b_account a (balances s') = Some b"
  shows "0 \<le> b_available b \<and> b_reserved b = open_wallet a (reservations s')
    \<and> b_available b + b_reserved b = wallet_net a (balance_events s')
    \<and> (\<forall>r \<in> set (reservations s'). r_status r \<noteq> Reserved \<longrightarrow>
         0 \<le> r_charged r \<and> r_charged r \<le> r_reserved r)"
proof -
  have inv: "wallet_inv (balances s') (balance_events s') (reservations s')"
    using billing.run_inv [OF assms(1,2)] by (simp add: wallet_ok_def assms(3))
  have b: "b \<in> set (balances s')" "b_account b = a"
    using select_row_SomeD [OF assms(4)] by auto
  show ?thesis
    using wallet_invD(4) [OF inv b(1)] wallet_invD(3) [OF inv] b(2)
    by (simp add: balance_ok_def reservation_ok_def)
qed

definition empty_db :: db where
  "empty_db = \<lparr> balances = [], balance_events = [], reservations = [], usage_events = [],
     entitlements = [], pool_days = [], pool_user_days = [], daily_usage = [], receipts = [],
     grants = [], model_provider = [], providers = [] \<rparr>"

definition sample_env :: env where
  "sample_env = \<lparr> now_db = 1700000000000, now_js = 1700000000000, default_status = Reserved,
     default_charged = 0, lock_api_key = (\<lambda>k a. True), trial_pool_admit = (\<lambda>a s. (''ok'', s)),
     trial_pool_release_unused = (\<lambda>d a s. s), schema_accepts = (\<lambda>s. True) \<rparr>"

definition sample_options :: reserve_options where
  "sample_options = \<lparr> o_api_key = None, o_limit = None, o_grant = None, o_funding = None,
     o_context = None \<rparr>"

definition sample_finalize :: finalize_params where
  "sample_finalize = \<lparr> f_outcome = Capture, f_usage = None, f_abort_status = None,
     f_provider_rejected = False, f_first_token = None, f_latency = None, f_record_usage = True \<rparr>"

definition sample_run :: "billing_op list" where
  "sample_run = [Credit sample_env ''a'' 10 EvCredit,
     Reserve sample_env ''a'' (Fin 4) ''r1'' sample_options,
     Finalize sample_env ''r1'' sample_finalize]"

lemma env_ok_sample: "env_ok sample_env"
  by (simp add: env_ok_def sample_env_def)

lemma wallet_ok_empty: "wallet_ok empty_db"
  by (simp add: wallet_ok_def wallet_inv_def empty_db_def keyed_def)

lemma sample_run_ok: "list_all op_ok sample_run"
  by (simp add: sample_run_def env_ok_sample options_ok_def sample_options_def usage_ok_def
      sample_finalize_def)

lemmas tx_eval = run_tx_def table_simps update_rows_def insert_unless_def Let_def
lemmas reserve_eval = reserveBalance_def ensureBalanceRow_def reserve_tx_def reserve_funding_def
  reserve_wallet_def key_limit_def key_gate_def truthy_def new_reservation_def reserve_wallet_move_def
lemmas finalize_eval = finalizeInferenceReservation_def finalize_tx_def finalize_writes_def settle_funding_def
  settle_wallet_def settle_daily_def final_charge_def capture_ceiling_def settle_events_def
  finalize_row_def insertUsageEventTx_def
lemmas sample_defs = empty_db_def sample_env_def sample_options_def sample_finalize_def sample_run_def

theorem wallet_conserved_witness:
  "wallet_net ''a'' (balance_events (fold billing_step sample_run empty_db)) = 6"
proof -
  have "select_row b_account ''a'' (balances (fold billing_step sample_run empty_db))
      = Some \<lparr> b_account = ''a'', b_available = 6, b_reserved = 0 \<rparr>"
    by (simp add: sample_defs tx_eval creditBalance_def reserve_eval finalize_eval)
  from wallet_conserved [OF wallet_ok_empty sample_run_ok refl this] show ?thesis by simp
qed

end
