(* ===== verification/Fences.thy ===== *)
theory Fences
  imports WalletRun
begin

section \<open>Fences, idempotence and the sweep: properties of the settlement\<close>

text \<open>
  The delivery fence decides what an interrupted request costs. \<open>fenced\<close> is the state of a
  reservation whose fence is written: live, or closed at its full amount. Every operation but a
  settlement with a usage report keeps it (\<open>fence_op\<close>), so aborting, capturing, sweeping or replaying
  a fenced stream can never release it for free. The theory also holds that a finalization happens
  once, and what a sweep does with each of its rows.
\<close>

subsection \<open>What the operations do to one reservation\<close>

definition live :: "string \<Rightarrow> reservation \<Rightarrow> db \<Rightarrow> bool" where
  "live k row s \<longleftrightarrow> select_row r_request k (reservations s) = Some row \<and> r_status row = Reserved"

definition closed_row :: "env \<Rightarrow> finalize_params \<Rightarrow> rat \<Rightarrow> reservation \<Rightarrow> reservation" where
  "closed_row env p c r = r\<lparr> r_charged := c, r_status := (if c > 0 then Settled else Released),
     r_latency := Some (case f_latency p of None \<Rightarrow> 0 | Some l \<Rightarrow> l),
     r_first_token := f_first_token p, r_finalized_at := Some (now_db env) \<rparr>"

lemma closed_row_sel [simp]:
  "r_request (closed_row env p c r) = r_request r"
  "r_charged (closed_row env p c r) = c"
  "r_reserved (closed_row env p c r) = r_reserved r"
  "r_account (closed_row env p c r) = r_account r"
  "r_api_key (closed_row env p c r) = r_api_key r"
  "r_funding (closed_row env p c r) = r_funding r"
  "r_status (closed_row env p c r) = (if c > 0 then Settled else Released)"
  "r_attempt_started (closed_row env p c r) = r_attempt_started r"
  "r_delivery_started (closed_row env p c r) = r_delivery_started r"
  by (simp_all add: closed_row_def)

lemma settle_funding_reservations:
  assumes "env_ok env" and "settle_funding env p row s = Inr s1"
  shows "reservations s1 = reservations s"
proof (cases "r_funding row")
  case TrialPool
  with assms(2) settle_pool_view [OF assms(1)] show ?thesis
    by (simp add: settle_funding_def wallet_view_def)
qed (use assms(2) in \<open>auto simp: settle_funding_def settle_trial_def settle_wallet_def\<close>)

text \<open>The three ways a finalization transaction succeeds: no row, a closed row, a live row.\<close>

lemma finalize_tx_cases:
  assumes "finalize_tx env k p s = Inr (s', res)" and "env_ok env"
  obtains (absent) "select_row r_request k (reservations s) = None" "s' = s" "chargedUsd res = 0"
  | (closed) row where "select_row r_request k (reservations s) = Some row"
      "r_status row \<noteq> Reserved" "s' = s" "chargedUsd res = r_charged row"
  | (live) row s1 where "live k row s" "chargedUsd res = final_charge p row"
      "settle_funding env p row s = Inr s1"
      "s' = finalize_writes env p row s1"
      "reservations s' = update_rows r_request k (closed_row env p (final_charge p row)) (reservations s)"
proof (cases "select_row r_request k (reservations s)")
  case None
  with assms(1) show thesis by (intro absent) (auto simp: finalize_tx_def)
next
  case (Some row)
  show thesis
  proof (cases "r_status row = Reserved")
    case False
    with assms(1) Some show thesis by (intro closed [of row]) (auto simp: finalize_tx_def)
  next
    case True
    obtain s1 where s1: "settle_funding env p row s = Inr s1" "chargedUsd res = final_charge p row"
      "s' = finalize_writes env p row s1"
      using assms(1) Some True by (auto simp: finalize_tx_def and_then_Inr_iff Let_def)
    have "r_request row = k" using select_row_SomeD [OF Some] by simp
    then have "reservations s' =
        update_rows r_request k (closed_row env p (final_charge p row)) (reservations s)"
      using settle_funding_reservations [OF assms(2) s1(1)]
      by (simp add: s1(3) Let_def finalize_writes_def finalize_row_def settle_events_def settle_daily_def
          insertUsageEventTx_def closed_row_def [abs_def])
    then show thesis by (intro live [of row s1]) (use s1 Some True in \<open>simp_all add: live_def\<close>)
  qed
qed

lemma finalize_cases:
  assumes "finalizeInferenceReservation env k p s = (s', out)" and "env_ok env"
  obtains (refused) e where "out = Inl e" "s' = s"
  | (committed) res where "out = Inr res" "finalize_tx env k p s = Inr (s', res)" "schema_accepts env s'"
proof (cases out)
  case (Inl e)
  then show thesis using assms(1) refused
    by (auto simp: finalizeInferenceReservation_def dest: run_tx_Inl)
next
  case (Inr res)
  then show thesis using assms(1) committed
    by (auto simp: finalizeInferenceReservation_def dest: run_tx_Inr)
qed

text \<open>The reservation of \<open>k\<close> after a finalization of any key.\<close>

lemma finalize_select:
  assumes "finalizeInferenceReservation env k' p s = (s', out)" and "env_ok env"
    and "select_row r_request k (reservations s) = Some row"
  obtains "select_row r_request k (reservations s') = Some row"
  | "k' = k" "r_status row = Reserved"
    "select_row r_request k (reservations s') = Some (closed_row env p (final_charge p row) row)"
  using assms(1,2)
proof (cases rule: finalize_cases)
  case (committed res)
  from committed(2) assms(2) show thesis
  proof (cases rule: finalize_tx_cases)
    case (live row' s1)
    show thesis
    proof (cases "k' = k")
      case True
      with live(1) assms(3) have "row' = row" by (simp add: live_def)
      with True live assms(3) show thesis
        by (intro that(2)) (simp_all add: live_def select_update_rows)
    next
      case False
      with live(5) assms(3) show thesis by (intro that(1)) (simp add: select_update_rows)
    qed
  qed (use assms(3) that in auto)
qed (use assms(3) that in auto)

lemma reserve_reservations:
  assumes "reserveBalance env a amt k' opts s = (s', out)" and "env_ok env"
    and "select_row r_request k (reservations s) = Some row"
  shows "select_row r_request k (reservations s') = Some row"
proof (cases "moneyUsd amt")
  case (Inl e)
  with assms(1,3) show ?thesis by (auto simp: reserveBalance_def ensureBalanceRow_def Let_def)
next
  case (Inr q)
  let ?s0 = "ensureBalanceRow a s"
  have s0: "select_row r_request k (reservations ?s0) = Some row"
    using assms(3) by (simp add: ensureBalanceRow_def)
  have run: "run_tx env (reserve_tx env a q k' opts) ?s0 = (s', out)"
    using assms(1) Inr by (simp add: reserveBalance_def Let_def)
  show ?thesis
  proof (cases out)
    case (Inl e)
    with run_tx_Inl run have "s' = ?s0" by blast
    with s0 show ?thesis by simp
  next
    case out: (Inr g)
    with run have "reserve_tx env a q k' opts ?s0 = Inr (s', g)" by (auto dest: run_tx_Inr)
    then show ?thesis
    proof (cases rule: reserve_tx_cases)
      case (fresh s1 d limit)
      have "wallet_view s1 = wallet_view ?s0"
        using reserve_funding_Inr(1) [OF assms(2) fresh(2)] moneyUsd_micro [OF Inr] by blast
      with s0 fresh(5) show ?thesis
        by (simp add: wallet_view_def reserve_wallet_move_def table_simps)
    qed (use s0 in simp)
  qed
qed

subsection \<open>A fenced stream is never free\<close>

definition fenced :: "string \<Rightarrow> rat \<Rightarrow> db \<Rightarrow> bool" where
  "fenced k amt s \<longleftrightarrow> (\<exists>row. select_row r_request k (reservations s) = Some row
     \<and> r_delivery_started row \<noteq> None \<and> r_reserved row = amt
     \<and> (r_status row = Reserved \<or> r_charged row = amt))"

fun fence_op :: "string \<Rightarrow> billing_op \<Rightarrow> bool" where
  "fence_op k (Reconcile env a r c k') = (k' \<noteq> k)"
| "fence_op k (Reserve env a amt k' opts) = env_ok env"
| "fence_op k (Finalize env k' p) = (env_ok env \<and> (k' = k \<longrightarrow> f_outcome p \<noteq> Settle))"
| "fence_op k (Sweep env m) = env_ok env"
| "fence_op k _ = True"

lemma fenced_update:
  assumes "fenced k amt s" and "reservations s' = update_rows r_request k' f (reservations s)"
    and "\<And>r. r_request (f r) = r_request r"
    and "\<And>r. r_delivery_started r \<noteq> None \<Longrightarrow> r_delivery_started (f r) \<noteq> None"
    and "\<And>r. r_reserved (f r) = r_reserved r" and "\<And>r. r_status (f r) = r_status r"
    and "\<And>r. r_charged (f r) = r_charged r"
  shows "fenced k amt s'"
  using assms by (auto simp: fenced_def select_update_rows)

lemma fenced_same: "reservations s' = reservations s \<Longrightarrow> fenced k amt s' = fenced k amt s"
  by (simp add: fenced_def)

lemma fenced_charge:
  "r_delivery_started row \<noteq> None \<Longrightarrow> f_outcome p \<noteq> Settle \<Longrightarrow> final_charge p row = r_reserved row"
  by (cases "f_outcome p") (auto simp: final_charge_def capture_ceiling_def)

lemma fenced_finalize:
  assumes "fenced k amt s" and "env_ok env" and "k' = k \<Longrightarrow> f_outcome p \<noteq> Settle"
  shows "fenced k amt (fst (finalizeInferenceReservation env k' p s))"
proof -
  obtain s' out where f: "finalizeInferenceReservation env k' p s = (s', out)" by fastforce
  obtain row where row: "select_row r_request k (reservations s) = Some row"
    "r_delivery_started row \<noteq> None" "r_reserved row = amt" "r_status row = Reserved \<or> r_charged row = amt"
    using assms(1) by (auto simp: fenced_def)
  show ?thesis
    using f assms(2) row(1)
  proof (cases rule: finalize_select)
    case 1
    with f row show ?thesis by (simp add: fenced_def)
  next
    case 2
    with f row assms(3) fenced_charge [OF row(2)] show ?thesis by (simp add: fenced_def)
  qed
qed

lemma fenced_sweep_loop:
  "fenced k amt (fst acc) \<Longrightarrow> env_ok env \<Longrightarrow> fenced k amt (fst (sweep_loop env rows acc))"
proof (induction env rows acc rule: sweep_loop.induct)
  case (2 env row rows s finalized released failures)
  obtain s' out where f: "finalizeInferenceReservation env (r_request row) (sweep_params row) s = (s', out)"
    by fastforce
  have "fenced k amt s'"
  proof (cases "f_outcome (sweep_params row) = Settle \<and> r_request row = k")
    case True
    then show ?thesis by (simp add: sweep_params_def split: if_splits)
  next
    case False
    with fenced_finalize [of k amt s env "r_request row" "sweep_params row"] 2 f show ?thesis by auto
  qed
  with 2 f show ?case by (auto split: sum.splits)
qed simp

lemma reconcile_tx_select:
  "reconcile_tx env a ex cost k' s = Inr (s', x) \<Longrightarrow> k \<noteq> k' \<Longrightarrow>
     select_row r_request k (reservations s') = select_row r_request k (reservations s)"
  by (auto simp: reconcile_tx_def Let_def select_update_rows split: option.splits if_splits)

lemma fence_kept:
  assumes F: "fenced k amt s" and ok: "fence_op k op"
  shows "fenced k amt (billing_step op s)"
proof (cases op)
  case (Credit env a amt' ty)
  have "reservations (fst (creditBalance env a amt' ty s)) = reservations s"
    by (simp add: creditBalance_def ensureBalanceRow_def run_tx_def)
  from fenced_same [OF this] F Credit show ?thesis by simp
next
  case (Reserve env a amt' k' opts)
  obtain s' out where r: "reserveBalance env a amt' k' opts s = (s', out)" by fastforce
  obtain row where row: "select_row r_request k (reservations s) = Some row"
    using F by (auto simp: fenced_def)
  with reserve_reservations [OF r _ row] ok F Reserve r show ?thesis by (simp add: fenced_def)
next
  case (Route k' rt)
  then show ?thesis using F
    by (auto simp: updateInferenceReservationRoute_def split: option.splits
        intro!: fenced_update [OF F])
next
  case (Reconcile env a r c k')
  have "select_row r_request k (reservations (fst (reconcileReservedBalance env a r c k' s)))
      = select_row r_request k (reservations s)"
  proof (cases "fst (reconcileReservedBalance env a r c k' s) = s")
    case False
    then obtain ex cost where run: "fst (reconcileReservedBalance env a r c k' s)
        = fst (run_tx env (reconcile_tx env a ex cost k') s)"
      by (cases "moneyUsd r"; cases "moneyUsd c") (simp_all add: reconcileReservedBalance_def)
    obtain s' out where out: "run_tx env (reconcile_tx env a ex cost k') s = (s', out)" by fastforce
    with False run run_tx_Inl [of env _ s s'] obtain x where "out = Inr x" by (cases out) auto
    with out run have "reconcile_tx env a ex cost k' s = Inr (s', x)"
      "fst (reconcileReservedBalance env a r c k' s) = s'"
      by (auto dest: run_tx_Inr)
    with reconcile_tx_select ok Reconcile show ?thesis by fastforce
  qed simp
  with F Reconcile show ?thesis by (simp add: fenced_def)
next
  case (Attempt env off k')
  have "fenced k amt s'" if "mark_attempt_tx env off k' s = Inr (s', t)" for s' t
    using that F
    by (auto simp: mark_attempt_tx_def Let_def split: option.splits if_splits
        intro!: fenced_update [OF F])
  then show ?thesis unfolding Attempt billing_step.simps markInferenceProviderAttemptStarted_def
    by (rule run_tx_preserves [where P = "fenced k amt", OF F])
next
  case (Deliver env k')
  then show ?thesis using F
    by (auto simp: markInferenceDeliveryStarted_def or_now_def split: option.splits
        intro!: fenced_update [OF F])
next
  case (Receipt env k' receipt)
  then show ?thesis
    using F recordSettlementReceipt_view [of env k' receipt s]
    by (simp add: wallet_view_def fenced_def)
next
  case (Finalize env k' p)
  with F ok fenced_finalize show ?thesis by simp
next
  case (Sweep env m)
  with ok fenced_sweep_loop [of k amt "(s, 0, 0, [])" env "stale_rows env m s"] F show ?thesis
    by (cases "sweep_loop env (stale_rows env m s) (s, 0, 0, [])")
       (simp add: releaseStaleBalanceReservations_def)
qed

interpretation fence: invariant_run billing_step "fence_op k" "fenced k amt" for k amt
  by unfold_locales (rule fence_kept)


definition sample_abort :: finalize_params where
  "sample_abort = sample_finalize\<lparr> f_outcome := Abort, f_provider_rejected := True \<rparr>"

definition sample_reserved :: db where
  "sample_reserved = fold billing_step [Credit sample_env ''a'' 10 EvCredit,
     Reserve sample_env ''a'' (Fin 4) ''r1'' sample_options] empty_db"

definition sample_row :: reservation where
  "sample_row = new_reservation sample_env ''r1'' ''a'' 4 sample_options None"

lemma sample_reserved_eval:
  "reservations sample_reserved = [sample_row]"
  by (simp add: sample_reserved_def sample_row_def sample_defs tx_eval creditBalance_def reserve_eval)


subsection \<open>A reservation is settled once\<close>

lemma finalize_closed:
  assumes "select_row r_request k (reservations s) = Some row" and "r_status row \<noteq> Reserved"
    and "schema_accepts env s"
  shows "finalizeInferenceReservation env k p s = (s, Inr \<lparr> chargedUsd = r_charged row,
    providerCostUsd = provider_cost p row, overageUsd = overage (provider_cost p row) (r_charged row) \<rparr>)"
  using assms by (simp add: finalizeInferenceReservation_def finalize_tx_def run_tx_def)

lemma finalize_absent:
  "select_row r_request k (reservations s) = None \<Longrightarrow> schema_accepts env s \<Longrightarrow>
    finalizeInferenceReservation env k p s
      = (s, Inr \<lparr> chargedUsd = 0, providerCostUsd = 0, overageUsd = 0 \<rparr>)"
  by (simp add: finalizeInferenceReservation_def finalize_tx_def run_tx_def)

text \<open>
  C4. Finalization happens once. After \<open>finalizeInferenceReservation\<close> has returned, a second call
  for the same request, at any later time and with any outcome, usage report or retry of the
  client, changes no table and reports the amount the first call charged.
\<close>

theorem finalize_once:
  assumes "finalizeInferenceReservation env k p s = (s1, Inr r1)" and "env_ok env"
    and "schema_accepts env' = schema_accepts env"
  shows "\<exists>r2. finalizeInferenceReservation env' k p' s1 = (s1, Inr r2) \<and> chargedUsd r2 = chargedUsd r1"
  using assms(1,2)
proof (cases rule: finalize_cases)
  case (committed res)
  then have res: "res = r1" and acc: "schema_accepts env' s1" using assms(3) by auto
  from committed(2) assms(2) show ?thesis
  proof (cases rule: finalize_tx_cases)
    case absent
    with finalize_absent acc res show ?thesis by simp
  next
    case (closed row)
    with finalize_closed [OF _ _ acc] res show ?thesis by simp
  next
    case (live row s2)
    then have "select_row r_request k (reservations s1)
        = Some (closed_row env p (final_charge p row) row)"
      by (simp add: live_def select_update_rows)
    from finalize_closed [OF this _ acc] live(2) res show ?thesis by simp
  qed
qed simp

theorem finalize_once_witness:
  "\<exists>r2. finalizeInferenceReservation sample_env ''r1'' sample_abort
      (fst (finalizeInferenceReservation sample_env ''r1'' sample_finalize sample_reserved))
    = (fst (finalizeInferenceReservation sample_env ''r1'' sample_finalize sample_reserved), Inr r2)
    \<and> chargedUsd r2 = 4"
proof -
  have row: "select_row r_request ''r1'' (reservations sample_reserved) = Some sample_row"
    "r_status sample_row = Reserved" "r_reserved sample_row = 4" "r_funding sample_row = Balance"
    by (simp_all add: sample_reserved_eval table_simps) (simp_all add: sample_row_def sample_env_def
        sample_options_def funding_of_def)
  then obtain s1 r1 where f: "finalizeInferenceReservation sample_env ''r1'' sample_finalize sample_reserved
      = (s1, Inr r1)" "chargedUsd r1 = 4"
    by (simp add: finalizeInferenceReservation_def finalize_tx_def settle_funding_def run_tx_def
        sample_env_def final_charge_def capture_ceiling_def sample_finalize_def)
  from finalize_once [OF f(1) env_ok_sample refl, of sample_abort] f show ?thesis by auto
qed

subsection \<open>The sweep\<close>

lemma sweep_charge:
  "final_charge (sweep_params row) row =
     (if r_attempt_started row \<noteq> None \<or> r_delivery_started row \<noteq> None then r_reserved row else 0)"
  by (simp add: final_charge_def capture_ceiling_def sweep_params_def)

lemma sweep_loop_frame:
  assumes "sweep_loop env rows (s, n, z, fs) = (s', n', z', fs')" and "env_ok env"
    and "select_row r_request k (reservations s) = Some row" and "k \<notin> r_request ` set rows"
  shows "select_row r_request k (reservations s') = Some row \<and> set fs \<subseteq> set fs'"
  using assms(1,3,4)
proof (induction rows arbitrary: s n z fs)
  case (Cons r rows)
  obtain s1 out where f: "finalizeInferenceReservation env (r_request r) (sweep_params r) s = (s1, out)"
    by fastforce
  have "select_row r_request k (reservations s1) = Some row"
    by (rule finalize_select [OF f assms(2) Cons.prems(2)]) (use Cons.prems(3) in auto)
  with Cons f show ?case by (cases out) (fastforce+)
qed simp

lemma sweep_loop_closes:
  assumes "sweep_loop env rows (s, n, z, fs) = (s', n', z', fs')" and "env_ok env"
    and "keyed r_request rows" and "r \<in> set rows" and "r_request r \<notin> set fs'"
    and "\<And>r. r \<in> set rows \<Longrightarrow> live (r_request r) r s"
  shows "\<exists>r'. select_row r_request (r_request r) (reservations s') = Some r'
    \<and> r_status r' \<noteq> Reserved \<and> r_charged r' = final_charge (sweep_params r) r"
  using assms(1,3-)
proof (induction rows arbitrary: s n z fs)
  case (Cons x rows)
  obtain s1 out where f: "finalizeInferenceReservation env (r_request x) (sweep_params x) s = (s1, out)"
    by fastforce
  have live_x: "live (r_request x) x s" using Cons.prems(5) by simp
  have fresh: "r_request x \<notin> r_request ` set rows"
    using Cons.prems(2) by (simp add: keyed_def)
  obtain n1 z1 fs1 where rest: "sweep_loop env rows (s1, n1, z1, fs1) = (s', n', z', fs')"
    and fs1: "fs1 = (case out of Inl _ \<Rightarrow> fs @ [r_request x] | Inr _ \<Rightarrow> fs)"
    using Cons.prems(1) f by (cases out) auto
  have live1: "live (r_request r) r s1" if "r \<in> set rows" for r
  proof -
    have r: "live (r_request r) r s" "r_request r \<noteq> r_request x"
      using Cons.prems(5) that fresh imageI [OF that, of r_request] by (simp_all, metis)
    show ?thesis
      by (rule finalize_select [OF f assms(2), of "r_request r" r]) (use r in \<open>auto simp: live_def\<close>)
  qed
  show ?case
  proof (cases "r = x")
    case False
    with Cons.prems Cons.IH [OF rest _ _ _ live1] show ?thesis by (simp add: keyed_def)
  next
    case True
    show ?thesis
      using f assms(2)
    proof (cases rule: finalize_cases)
      case (refused e)
      with sweep_loop_frame [OF rest assms(2) _ fresh] fs1 live_x Cons.prems(4) True
      show ?thesis by (auto simp: live_def)
    next
      case (committed res)
      from committed(2) assms(2)
      have "select_row r_request (r_request x) (reservations s1)
          = Some (closed_row env (sweep_params x) (final_charge (sweep_params x) x) x)"
        by (cases rule: finalize_tx_cases) (use live_x in \<open>auto simp: live_def select_update_rows\<close>)
      from sweep_loop_frame [OF rest assms(2) this fresh] True show ?thesis by auto
    qed
  qed
qed simp

lemma stale_rows_props:
  assumes "wallet_ok s"
  shows "keyed r_request (stale_rows env m s)" and "r \<in> set (stale_rows env m s) \<Longrightarrow> live (r_request r) r s"
proof -
  have keyed: "keyed r_request (reservations s)"
    using assms by (simp add: wallet_ok_def wallet_inv_def)
  have "distinct (map r_request (sort_key r_created_at (filter P (reservations s))))" for P
    using keyed by (simp add: keyed_def distinct_map inj_on_def)
  then show "keyed r_request (stale_rows env m s)"
    by (simp add: keyed_def stale_rows_def take_map [symmetric])
  show "r \<in> set (stale_rows env m s) \<Longrightarrow> live (r_request r) r s"
    using select_row_keyed [OF keyed]
    by (auto simp: stale_rows_def live_def dest!: in_set_takeD)
qed

text \<open>
  The stale sweep settles every row it selected, whatever fails beside it: each of the (at most
  100, oldest first) stale reservations is afterwards closed, at its full hold when provider work
  or delivery had begun and at zero when it had not, unless its own transaction failed, and then it
  is among the reported failures.
\<close>

theorem sweep_settles_each_row:
  assumes "wallet_ok s" and "env_ok env" and "r \<in> set (stale_rows env m s)"
    and "sweep_loop env (stale_rows env m s) (s, 0, 0, []) = (s', finalized, released, failures)"
    and "r_request r \<notin> set failures"
  shows "\<exists>r'. select_row r_request (r_request r) (reservations s') = Some r' \<and> r_status r' \<noteq> Reserved
    \<and> r_charged r' = (if r_attempt_started r \<noteq> None \<or> r_delivery_started r \<noteq> None
                     then r_reserved r else 0)"
  using sweep_loop_closes [OF assms(4,2) stale_rows_props(1) [OF assms(1)] assms(3,5)
      stale_rows_props(2) [OF assms(1)]]
  by (simp add: sweep_charge)

definition sample_stale_env :: env where
  "sample_stale_env = sample_env\<lparr> now_db := 1800000000000 \<rparr>"

theorem sweep_settles_each_row_witness:
  "\<exists>r'. select_row r_request ''r1'' (reservations (fst (sweep_loop sample_stale_env
      (stale_rows sample_stale_env 30 sample_reserved) (sample_reserved, 0, 0, [])))) = Some r'
    \<and> r_status r' \<noteq> Reserved \<and> r_charged r' = 0"
proof -
  have env: "env_ok sample_stale_env"
    using env_ok_sample by (simp add: sample_stale_env_def env_ok_def)
  have ok: "wallet_ok sample_reserved" unfolding sample_reserved_def
    by (intro billing.run_inv wallet_ok_empty)
       (simp add: env_ok_sample options_ok_def sample_options_def)
  have row: "r_request sample_row = ''r1''" "r_status sample_row = Reserved"
    "r_created_at sample_row = 1700000000000" "r_attempt_started sample_row = None"
    "r_delivery_started sample_row = None" "r_funding sample_row = Balance"
    "r_daily_reserved sample_row = 0" "r_reserved sample_row = 4"
    by (simp_all add: sample_row_def new_reservation_def sample_env_def sample_options_def)
  have stale: "stale_rows sample_stale_env 30 sample_reserved = [sample_row]"
    by (simp add: stale_rows_def sample_reserved_eval row sample_stale_env_def)
  obtain s' n z fs where loop: "sweep_loop sample_stale_env (stale_rows sample_stale_env 30 sample_reserved)
      (sample_reserved, 0, 0, []) = (s', n, z, fs)"
    by (cases "sweep_loop sample_stale_env (stale_rows sample_stale_env 30 sample_reserved)
      (sample_reserved, 0, 0, [])")
  have "fs = []"
    using loop [unfolded stale] row
    by (simp add: finalize_eval run_tx_def sample_reserved_eval table_simps sweep_params_def
        sample_stale_env_def sample_env_def)
  then show ?thesis
    using sweep_settles_each_row [OF ok env _ loop, of sample_row] row loop by (simp add: stale)
qed

end
