(* ===== verification/KeyCap.thy ===== *)
theory KeyCap
  imports Fences
begin

section \<open>An API key never authorizes more than its cap\<close>

text \<open>
  What a key has authorized is its exposure: the recorded cost of its successful requests, the holds
  of its live ones and the charges that have no usage event yet. A reservation with a limit checks
  it under the key's lock; no other operation increases it. Over any run in which every reservation
  of the key carries the cap, the exposure stays within it.
\<close>

definition unsettled_amount :: "string \<Rightarrow> usage_event list \<Rightarrow> reservation \<Rightarrow> rat" where
  "unsettled_amount apiKeyId us r =
     (if r_api_key r = Some apiKeyId
         \<and> (r_status r = Reserved
            \<or> (r_status r = Settled \<and> select_row u_request (r_request r) us = None))
      then (if r_status r = Reserved then r_reserved r else r_charged r) else 0)"

definition usage_amount :: "string \<Rightarrow> usage_event \<Rightarrow> rat" where
  "usage_amount apiKeyId u =
     (if u_api_key u = Some apiKeyId \<and> u_status u = UsageSucceeded then u_cost u else 0)"

definition exposure :: "string \<Rightarrow> db \<Rightarrow> rat" where
  "exposure apiKeyId s = key_usage_sum apiKeyId s + key_unsettled_sum apiKeyId s"

definition exposure_of :: "string \<Rightarrow> usage_event list \<Rightarrow> reservation list \<Rightarrow> rat" where
  "exposure_of K us rs = (\<Sum>u \<leftarrow> us. usage_amount K u) + (\<Sum>r \<leftarrow> rs. unsettled_amount K us r)"

lemma exposure_eq: "exposure K s = exposure_of K (usage_events s) (reservations s)"
  by (simp add: exposure_def exposure_of_def key_usage_sum_def key_unsettled_sum_def
      usage_amount_def unsettled_amount_def)

text \<open>An update that keeps a row's key, status and amounts keeps the exposure.\<close>

lemma exposure_touch:
  assumes "\<And>r. r_request (f r) = r_request r" "\<And>r. r_api_key (f r) = r_api_key r"
    "\<And>r. r_status (f r) = r_status r" "\<And>r. r_charged (f r) = r_charged r"
    "\<And>r. r_reserved (f r) = r_reserved r"
  shows "exposure_of K us (update_rows r_request k f rs) = exposure_of K us rs"
proof -
  have "unsettled_amount K us (f r) = unsettled_amount K us r" for r
    by (simp add: unsettled_amount_def assms)
  then show ?thesis
    unfolding exposure_of_def by (subst map_update_rows_same) simp_all
qed

lemma exposure_append:
  "exposure_of K us (rs @ [r]) = exposure_of K us rs + unsettled_amount K us r"
  by (simp add: exposure_of_def)

text \<open>Closing a live row, with or without its usage event, does not increase it.\<close>

lemma exposure_close:
  assumes "keyed r_request rs" and "select_row r_request k rs = Some row"
    and "r_status row = Reserved" and "0 \<le> c" "c \<le> r_reserved row"
    and f: "r_request (f row) = k" "r_api_key (f row) = r_api_key row"
      "r_status (f row) = Settled \<or> r_status (f row) = Released" "r_charged (f row) = c"
  shows "exposure_of K us (update_rows r_request k f rs) \<le> exposure_of K us rs"
    and "u_request ev = k \<Longrightarrow> u_api_key ev = r_api_key row \<Longrightarrow> u_cost ev \<le> c \<Longrightarrow>
      exposure_of K (insert_unless u_request ev us) (update_rows r_request k f rs)
        \<le> exposure_of K us rs"
proof -
  have "unsettled_amount K us (f row) \<le> unsettled_amount K us row"
    using assms by (auto simp: unsettled_amount_def)
  then show "exposure_of K us (update_rows r_request k f rs) \<le> exposure_of K us rs"
    using sum_update_rows [OF assms(1,2), of "unsettled_amount K us" f]
    by (simp add: exposure_of_def)
  assume ev: "u_request ev = k" "u_api_key ev = r_api_key row" "u_cost ev \<le> c"
  let ?us = "insert_unless u_request ev us"
  have same: "unsettled_amount K ?us x = unsettled_amount K us x" if "r_request x \<noteq> k" for x
    using that ev(1) by (auto simp: unsettled_amount_def insert_unless_def table_simps split: option.splits)
  have now: "select_row u_request k ?us \<noteq> None"
    using ev(1) by (auto simp: insert_unless_def table_simps split: option.splits)
  have "(\<Sum>r \<leftarrow> update_rows r_request k f rs. unsettled_amount K ?us r)
      = (\<Sum>r \<leftarrow> rs. unsettled_amount K us r) - unsettled_amount K us row + unsettled_amount K ?us (f row)"
    by (rule sum_update_rows_at [OF assms(1,2) same])
  moreover have "unsettled_amount K ?us (f row) = 0"
    using now f by (auto simp: unsettled_amount_def)
  moreover have "unsettled_amount K us row = (if r_api_key row = Some K then r_reserved row else 0)"
    using assms(3) by (simp add: unsettled_amount_def)
  moreover have "(\<Sum>u \<leftarrow> ?us. usage_amount K u) \<le> (\<Sum>u \<leftarrow> us. usage_amount K u)
      + (if r_api_key row = Some K then r_reserved row else 0)"
    using ev assms(4,5) by (auto simp: insert_unless_def usage_amount_def)
  ultimately show "exposure_of K ?us (update_rows r_request k f rs) \<le> exposure_of K us rs"
    by (simp add: exposure_of_def)
qed

subsection \<open>The operations\<close>

definition keeps_usage :: "env \<Rightarrow> bool" where
  "keeps_usage env \<longleftrightarrow>
     (\<forall>a s. usage_events (snd (trial_pool_admit env a s)) = usage_events s)
     \<and> (\<forall>d a s. usage_events (trial_pool_release_unused env d a s) = usage_events s)"

lemma keeps_usageD:
  assumes "keeps_usage env"
  shows "trial_pool_admit env a s = (x, s1) \<Longrightarrow> usage_events s1 = usage_events s"
    and "usage_events (trial_pool_release_unused env d a s) = usage_events s"
  using assms by (auto simp: keeps_usage_def) (metis snd_conv)

lemma reserve_pool_rows_usage:
  "reserve_pool_rows d a amt n s = Inr (s1, g) \<Longrightarrow> usage_events s1 = usage_events s"
  by (auto simp: reserve_pool_rows_def and_then_Inr_iff Let_def split: option.splits if_splits)

lemma reserve_funding_usage:
  assumes "keeps_usage env" and "reserve_funding env a amt opts s = Inr (s1, g, d)"
  shows "usage_events s1 = usage_events s"
proof -
  have "usage_events s2 = usage_events s" if "reserve_pool env a amt n s = Inr (s2, x)" for n s2 x
    using that keeps_usageD(1) [OF assms(1)]
    by (cases x) (auto simp: reserve_pool_def and_then_Inr_iff Let_def split: prod.splits if_splits
        dest!: reserve_pool_rows_usage)
  then show ?thesis using assms(2)
    by (auto simp: reserve_funding_def reserve_trial_def and_then_Inr_iff reserve_wallet_Inr
        split: funding_source.splits option.splits if_splits)
qed

lemma settle_funding_usage:
  assumes "keeps_usage env" and "settle_funding env p row s = Inr s1"
  shows "usage_events s1 = usage_events s"
proof (cases "r_funding row")
  case TrialPool
  with assms(2) have "settle_pool env p row s = Inr s1" by (simp add: settle_funding_def)
  then show ?thesis
    by (rule settle_pool_Inr)
       (simp add: release_exhausted_allocation_def keeps_usageD(2) [OF assms(1)] settle_pool_rows_def
         split: option.split)
qed (use assms(2) in \<open>auto simp: settle_funding_def settle_trial_def settle_wallet_def\<close>)

text \<open>A reservation with a limit checks the exposure it leaves behind.\<close>

lemma reserve_exposure:
  assumes tx: "reserve_tx env a amt k opts s = Inr (s', g)" and env: "env_ok env" "keeps_usage env"
    and amt: "is_micro amt" "0 \<le> amt"
    and key: "o_api_key opts = Some K \<Longrightarrow> K \<noteq> [] \<and> \<not> truthy (o_grant opts)
      \<and> (\<exists>l c. o_limit opts = Some l \<and> moneyUsd l = Inr c \<and> c \<le> cap)"
    and old: "exposure K s \<le> cap"
  shows "exposure K s' \<le> cap"
  using tx
proof (cases rule: reserve_tx_cases)
  case again
  with old show ?thesis by simp
next
  case (fresh s1 d limit)
  let ?r = "new_reservation env k a g opts d"
  note R = reserve_funding_Inr [OF env(1) fresh(2) amt]
  have s1: "usage_events s1 = usage_events s" "reservations s1 = reservations s"
    using reserve_funding_usage [OF env(2) fresh(2)] R(1) by (simp_all add: wallet_view_def)
  have new: "exposure K s' = exposure K s + (if o_api_key opts = Some K then g else 0)"
    using s1 env_okD(1) [OF env(1)]
    by (simp add: exposure_eq fresh(5) reserve_wallet_move_def exposure_append unsettled_amount_def)
  show ?thesis
  proof (cases "o_api_key opts = Some K \<and> 0 < g")
    case False
    with new old R(3) show ?thesis by auto
  next
    case True
    then obtain l c where l: "o_limit opts = Some l" "moneyUsd l = Inr c" "c \<le> cap"
      "K \<noteq> []" "\<not> truthy (o_grant opts)"
      using key by blast
    have "limit = Some l" using fresh(3) l by (simp add: key_limit_def)
    moreover have "exposure K s1 = exposure K s" using s1 by (simp add: exposure_eq)
    ultimately have "exposure K s + g \<le> c"
      using fresh(4) True l by (auto simp: key_gate_def truthy_def exposure_def Let_def split: if_splits)
    with new True l show ?thesis by simp
  qed
qed

lemma finalize_exposure:
  assumes ok: "wallet_ok s" and env: "env_ok env" "keeps_usage env" and p: "usage_ok p"
  shows "exposure K (fst (finalizeInferenceReservation env k p s)) \<le> exposure K s"
proof -
  obtain s' out where f: "finalizeInferenceReservation env k p s = (s', out)" by fastforce
  have "exposure K s' \<le> exposure K s"
    using f env(1)
  proof (cases rule: finalize_cases)
    case (committed res)
    from committed(2) env(1) show ?thesis
    proof (cases rule: finalize_tx_cases)
      case (live row s1)
      note D = wallet_invD [OF ok [unfolded wallet_ok_def]]
      have row: "row \<in> set (reservations s)" "r_request row = k"
        "select_row r_request k (reservations s) = Some row" "r_status row = Reserved"
        using live(1) select_row_SomeD [of r_request k "reservations s" row] by (auto simp: live_def)
      note C = final_charge_bounds [OF D(3) [OF row(1)] p]
      let ?f = "closed_row env p (final_charge p row)"
      note closing = exposure_close [OF D(2) row(3,4) C(1,2), where f = ?f and K = K and us = "usage_events s"]
      have f: "r_request (?f row) = k" "r_api_key (?f row) = r_api_key row"
        "r_status (?f row) = Settled \<or> r_status (?f row) = Released" "r_charged (?f row) = final_charge p row"
        using row by auto
      have us: "usage_events (finalize_row env p row (settle_events p row (settle_daily p row s1)))
          = usage_events s"
        using settle_funding_usage [OF env(2) live(3)]
        by (simp add: finalize_row_def settle_events_def settle_daily_def)
      show ?thesis
        using closing(1) [OF f] closing(2) [OF f] us live(5) row(2) C(1)
        by (auto simp: exposure_eq live(4) finalize_writes_def insertUsageEventTx_def Let_def)
    qed auto
  qed simp
  with f show ?thesis by simp
qed

lemma reconcile_exposure:
  assumes tx: "reconcile_tx env a ex cost k s = Inr (s', x)" and ok: "wallet_ok s" and "0 \<le> cost"
  shows "exposure K s' \<le> exposure K s"
proof (cases "\<exists>row. select_row r_request k (reservations s) = Some row \<and> r_status row = Reserved")
  case False
  with tx show ?thesis by (auto simp: reconcile_tx_def Let_def split: option.splits if_splits)
next
  case True
  then obtain row where row: "select_row r_request k (reservations s) = Some row" "r_status row = Reserved"
    by blast
  note D = wallet_invD [OF ok [unfolded wallet_ok_def]]
  have in_row: "row \<in> set (reservations s)" "r_request row = k"
    using select_row_SomeD [OF row(1)] by auto
  let ?c = "min cost (r_reserved row)"
  let ?f = "\<lambda>r. r\<lparr> r_charged := ?c, r_status := (if ?c > 0 then Settled else Released),
                    r_finalized_at := Some (now_db env) \<rparr>"
  have "usage_events s' = usage_events s"
    "reservations s' = update_rows r_request k ?f (reservations s)"
    using tx row by (auto simp: reconcile_tx_def Let_def split: if_splits)
  moreover have "0 \<le> ?c" "?c \<le> r_reserved row"
    using D(3) [OF in_row(1)] assms(3) by (auto simp: reservation_ok_def)
  then have "exposure_of K (usage_events s) (update_rows r_request k ?f (reservations s))
      \<le> exposure_of K (usage_events s) (reservations s)"
    by (intro exposure_close(1) [OF D(2) row]) (auto simp: in_row)
  ultimately show ?thesis by (simp add: exposure_eq)
qed

lemma sweep_exposure:
  "wallet_ok (fst acc) \<Longrightarrow> env_ok env \<Longrightarrow> keeps_usage env \<Longrightarrow>
     exposure K (fst (sweep_loop env rows acc)) \<le> exposure K (fst acc)"
proof (induction env rows acc rule: sweep_loop.induct)
  case (2 env row rows s finalized released failures)
  have p: "usage_ok (sweep_params row)" by (simp add: usage_ok_def sweep_params_def)
  obtain s' out where f: "finalizeInferenceReservation env (r_request row) (sweep_params row) s = (s', out)"
    by fastforce
  have "wallet_ok s'" "exposure K s' \<le> exposure K s"
    using finalizeInferenceReservation_ok [OF _ "2.prems"(2) p, of s "r_request row"]
      finalize_exposure [OF _ "2.prems"(2,3) p, of s K "r_request row"] f "2.prems"(1) by auto
  with 2 f show ?case by (cases out) fastforce+
qed simp

subsection \<open>Runs\<close>

definition cap_ok :: "string \<Rightarrow> rat \<Rightarrow> db \<Rightarrow> bool" where
  "cap_ok K cap s \<longleftrightarrow> wallet_ok s \<and> exposure K s \<le> cap"

fun capped_op :: "string \<Rightarrow> rat \<Rightarrow> billing_op \<Rightarrow> bool" where
  "capped_op K cap (Reserve env a amt k opts) =
     (env_ok env \<and> options_ok opts \<and> keeps_usage env
      \<and> (o_api_key opts = Some K \<longrightarrow> K \<noteq> [] \<and> \<not> truthy (o_grant opts)
          \<and> (case o_limit opts of None \<Rightarrow> False
             | Some l \<Rightarrow> (case moneyUsd l of Inl e \<Rightarrow> False | Inr c \<Rightarrow> c \<le> cap))))"
| "capped_op K cap (Finalize env k p) = (env_ok env \<and> usage_ok p \<and> keeps_usage env)"
| "capped_op K cap (Sweep env m) = (env_ok env \<and> keeps_usage env)"
| "capped_op K cap op = op_ok op"

lemma capped_op_ok: "capped_op K cap op \<Longrightarrow> op_ok op"
  by (cases op) auto

lemma exposure_same: "reservations s' = reservations s \<Longrightarrow> usage_events s' = usage_events s \<Longrightarrow>
    exposure K s' \<le> cap = (exposure K s \<le> cap)"
  by (simp add: exposure_eq)

lemma exposure_update:
  assumes "exposure K s \<le> cap" and "usage_events s' = usage_events s"
    and "reservations s' = update_rows r_request k f (reservations s)"
    and "\<And>r. r_request (f r) = r_request r" "\<And>r. r_api_key (f r) = r_api_key r"
    "\<And>r. r_status (f r) = r_status r" "\<And>r. r_charged (f r) = r_charged r"
    "\<And>r. r_reserved (f r) = r_reserved r"
  shows "exposure K s' \<le> cap"
  using assms exposure_touch [of f, OF assms(4-8)] by (simp add: exposure_eq)

lemma reserve_capped:
  assumes E: "exposure K s \<le> cap" and env: "env_ok env" "keeps_usage env"
    and key: "o_api_key opts = Some K \<Longrightarrow> K \<noteq> [] \<and> \<not> truthy (o_grant opts)
      \<and> (\<exists>l c. o_limit opts = Some l \<and> moneyUsd l = Inr c \<and> c \<le> cap)"
  shows "exposure K (fst (reserveBalance env a amt k opts s)) \<le> cap"
proof -
  have E0: "exposure K (ensureBalanceRow a s) \<le> cap"
    using E by (simp add: exposure_eq ensureBalanceRow_def)
  show ?thesis
  proof (cases "moneyUsd amt")
    case (Inr q)
    have "exposure K (fst (run_tx env (reserve_tx env a q k opts) (ensureBalanceRow a s))) \<le> cap"
    proof (rule run_tx_preserves [where P = "\<lambda>s. exposure K s \<le> cap", OF E0])
      fix s' x assume "reserve_tx env a q k opts (ensureBalanceRow a s) = Inr (s', x)"
      from reserve_exposure [OF this env _ _ key E0] moneyUsd_micro [OF Inr]
      show "exposure K s' \<le> cap" by blast
    qed
    with Inr show ?thesis by (simp add: reserveBalance_def Let_def)
  qed (use E0 in \<open>simp add: reserveBalance_def Let_def\<close>)
qed

lemma reconcile_capped:
  assumes E: "exposure K s \<le> cap" and ok: "wallet_ok s"
  shows "exposure K (fst (reconcileReservedBalance env a r c k s)) \<le> cap"
proof (cases "moneyUsd r")
  case (Inr ex)
  show ?thesis
  proof (cases "moneyUsd c")
    case cost: (Inr cost)
    have "exposure K (fst (run_tx env (reconcile_tx env a ex cost k) s)) \<le> cap"
    proof (rule run_tx_preserves [where P = "\<lambda>s. exposure K s \<le> cap", OF E])
      fix s' x assume "reconcile_tx env a ex cost k s = Inr (s', x)"
      from reconcile_exposure [OF this ok, of K] moneyUsd_micro [OF cost] E
      show "exposure K s' \<le> cap" by simp
    qed
    with Inr cost show ?thesis by (simp add: reconcileReservedBalance_def)
  qed (use Inr E in \<open>simp add: reconcileReservedBalance_def\<close>)
qed (use E in \<open>simp add: reconcileReservedBalance_def\<close>)

lemma attempt_capped:
  assumes E: "exposure K s \<le> cap"
  shows "exposure K (fst (markInferenceProviderAttemptStarted env off k s)) \<le> cap"
  unfolding markInferenceProviderAttemptStarted_def
proof (rule run_tx_preserves [where P = "\<lambda>s. exposure K s \<le> cap", OF E])
  fix s' t assume "mark_attempt_tx env off k s = Inr (s', t)"
  then show "exposure K s' \<le> cap" using E
    by (auto simp: mark_attempt_tx_def Let_def split: option.splits if_splits
        intro!: exposure_update [OF E])
qed

lemma deliver_capped:
  assumes E: "exposure K s \<le> cap"
  shows "exposure K (fst (markInferenceDeliveryStarted env k s)) \<le> cap"
  using E by (auto simp: markInferenceDeliveryStarted_def split: option.splits
      intro!: exposure_update [OF E])

lemma cap_kept:
  assumes "cap_ok K cap s" and ok: "capped_op K cap op"
  shows "cap_ok K cap (billing_step op s)"
proof -
  have W: "wallet_ok s" and E: "exposure K s \<le> cap" using assms(1) by (simp_all add: cap_ok_def)
  have "exposure K (billing_step op s) \<le> cap"
  proof (cases op)
    case (Credit env a amt ty)
    have "exposure K (billing_step op s) = exposure K s"
      by (simp add: Credit creditBalance_def ensureBalanceRow_def run_tx_def exposure_eq)
    with E show ?thesis by simp
  next
    case (Reserve env a amt k opts)
    with ok have "o_api_key opts = Some K \<Longrightarrow> K \<noteq> [] \<and> \<not> truthy (o_grant opts)
      \<and> (\<exists>l c. o_limit opts = Some l \<and> moneyUsd l = Inr c \<and> c \<le> cap)"
      by (auto split: option.splits sum.splits)
    with reserve_capped [OF E, of env opts a amt k] ok Reserve show ?thesis by simp
  next
    case (Route k rt)
    then show ?thesis using E
      by (auto simp: updateInferenceReservationRoute_def split: option.splits
          intro!: exposure_update [OF E])
  next
    case (Receipt env k receipt)
    have "exposure K (billing_step op s) = exposure K s"
      by (auto simp: Receipt recordSettlementReceipt_def exposure_eq Let_def split: option.splits)
    with E show ?thesis by simp
  next
    case (Finalize env k p)
    with finalize_exposure [OF W, of env p K k] ok E show ?thesis by simp
  next
    case (Sweep env m)
    with sweep_exposure [of "(s, 0, 0, [])" env K "stale_rows env m s"] ok E W show ?thesis
      by (cases "sweep_loop env (stale_rows env m s) (s, 0, 0, [])")
         (simp add: releaseStaleBalanceReservations_def)
  qed (simp_all add: reconcile_capped attempt_capped deliver_capped E W)
  with billing_step_ok [OF W capped_op_ok [OF ok]] show ?thesis by (simp add: cap_ok_def)
qed

interpretation cap: invariant_run billing_step "capped_op K cap" "cap_ok K cap" for K cap
  by unfold_locales (rule cap_kept)

text \<open>
  C3. An API key never authorizes more than its cap. If every reservation of the key carries a limit
  of at most \<open>cap\<close>, then after any sequence of billing operations, of this and of every other key,
  the cost of its recorded requests, its open holds and its charges without a usage event together
  are at most \<open>cap\<close>.
\<close>

theorem key_cap_never_exceeded:
  assumes "wallet_ok s" and "exposure K s \<le> cap" and "list_all (capped_op K cap) ops"
  shows "exposure K (fold billing_step ops s) \<le> cap"
  using cap.run_inv [of K cap s ops] assms by (simp add: cap_ok_def)

definition keyed_options :: reserve_options where
  "keyed_options = sample_options\<lparr> o_api_key := Some ''key'', o_limit := Some (Fin 5) \<rparr>"

theorem key_cap_never_exceeded_witness:
  "exposure ''key'' (fold billing_step [Credit sample_env ''a'' 10 EvCredit,
      Reserve sample_env ''a'' (Fin 4) ''r1'' keyed_options,
      Reserve sample_env ''a'' (Fin 4) ''r2'' keyed_options,
      Finalize sample_env ''r1'' sample_finalize] empty_db) \<le> 5"
proof -
  have "list_all (capped_op ''key'' 5) [Credit sample_env ''a'' 10 EvCredit,
      Reserve sample_env ''a'' (Fin 4) ''r1'' keyed_options,
      Reserve sample_env ''a'' (Fin 4) ''r2'' keyed_options,
      Finalize sample_env ''r1'' sample_finalize]"
    using env_ok_sample
    by (simp add: options_ok_def keyed_options_def sample_options_def keeps_usage_def usage_ok_def
        truthy_def sample_finalize_def) (simp add: sample_env_def)
  moreover have "exposure ''key'' empty_db \<le> 5" by (simp add: exposure_eq exposure_of_def empty_db_def)
  ultimately show ?thesis by (rule key_cap_never_exceeded [OF wallet_ok_empty, rotated])
qed

end
