(* ===== verification/Valkey.thy ===== *)
theory Valkey
  imports Prelude
begin

section \<open>The protection state in Valkey and its scripts (rate-limit/limiter.ts)\<close>

text \<open>
  The store keeps, per kind of key, a map from the full key to its value and its expiry; a key whose
  expiry has passed on the server's clock is gone. The Lua scripts of \<open>src/src/rate-limit/limiter.ts\<close>
  run atomically: each is one function of the server's state \<open>vk_env\<close> (clock and memory counters),
  its arguments and the store. Times are integer milliseconds, token counts exact rationals (the
  source keeps doubles). A script starts by asking \<open>valkey_has_write_capacity\<close>, of
  \<open>src/src/observability/valkey.ts\<close>.
\<close>

record vk_env =
  clock :: int
  used_memory :: "int option"
  max_memory :: "int option"

definition valkey_has_write_capacity :: "vk_env \<Rightarrow> bool" where
  "valkey_has_write_capacity env =
     (case max_memory env of
        None \<Rightarrow> False
      | Some maximum \<Rightarrow>
          if maximum = 0 then True
          else (case used_memory env of
                  None \<Rightarrow> False
                | Some used \<Rightarrow> used < \<lfloor>of_int maximum * (98 / 100 :: rat)\<rfloor>))"

type_synonym 'v keyspace = "string \<Rightarrow> ('v \<times> int option) option"

definition vk_get :: "vk_env \<Rightarrow> 'v keyspace \<Rightarrow> string \<Rightarrow> 'v option" where
  "vk_get env ks key =
     (case ks key of
        None \<Rightarrow> None
      | Some (v, None) \<Rightarrow> Some v
      | Some (v, Some t) \<Rightarrow> if clock env < t then Some v else None)"

definition vk_put :: "vk_env \<Rightarrow> string \<Rightarrow> 'v \<Rightarrow> int \<Rightarrow> 'v keyspace \<Rightarrow> 'v keyspace" where
  "vk_put env key v ttl ks =
     (if ttl \<le> 0 then ks(key := None) else ks(key \<mapsto> (v, Some (clock env + ttl))))"

record bucket =
  k_tokens :: rat
  k_updated :: int

type_synonym lease = "string \<times> int"

record store =
  buckets :: "bucket keyspace"
  leases :: "(lease list) keyspace"
  request_leases :: "((string \<times> string) list) keyspace"
  counters :: "int keyspace"
  flags :: "string keyspace"

definition empty_store :: store where
  "empty_store = \<lparr> buckets = (\<lambda>_. None), leases = (\<lambda>_. None), request_leases = (\<lambda>_. None),
     counters = (\<lambda>_. None), flags = (\<lambda>_. None) \<rparr>"

subsection \<open>Token buckets\<close>

text \<open>The refilled level of a bucket: an absent one is full.\<close>

definition bucket_level :: "rat \<Rightarrow> rat \<Rightarrow> int \<Rightarrow> bucket option \<Rightarrow> rat" where
  "bucket_level capacity refill_per_ms now_ms data =
     (let (tokens, updated_at) = (case data of None \<Rightarrow> (capacity, now_ms)
                                   | Some b \<Rightarrow> (k_tokens b, k_updated b));
          elapsed = max 0 (now_ms - updated_at)
      in min capacity (tokens + of_int elapsed * refill_per_ms))"

record bucket_args =
  a_key :: string
  a_capacity :: rat
  a_refill :: rat
  a_cost :: rat
  a_ttl :: int

text \<open>
  \<open>bucketScript\<close>: the allowed flag, the remaining tokens and the wait in milliseconds. The division
  is by the refill rate, which is positive in every bucket the repository checks this way.
\<close>

definition bucket_script :: "vk_env \<Rightarrow> int \<Rightarrow> bucket_args \<Rightarrow> store \<Rightarrow> store \<times> (int \<times> rat \<times> int)" where
  "bucket_script env now_ms a s =
     (if \<not> valkey_has_write_capacity env then (s, (-1, 0, 0))
      else
        let tokens = bucket_level (a_capacity a) (a_refill a) now_ms (vk_get env (buckets s) (a_key a));
            (tokens', allowed, retry) =
              (if tokens \<ge> a_cost a then (tokens - a_cost a, 1, 0)
               else (tokens, 0, \<lceil>(a_cost a - tokens) / a_refill a\<rceil>))
        in (s\<lparr> buckets := vk_put env (a_key a) \<lparr> k_tokens = tokens', k_updated = now_ms \<rparr>
                 (a_ttl a) (buckets s) \<rparr>,
            (allowed, tokens', retry)))"

definition bucket_retry :: "bucket_args \<Rightarrow> rat \<Rightarrow> int" where
  "bucket_retry a tokens =
     (if a_refill a > 0 then \<lceil>(a_cost a - tokens) / a_refill a\<rceil> else a_ttl a)"

text \<open>\<open>multiBucketScript\<close>: the levels of all buckets are read before any is written.\<close>

definition bucket_states :: "vk_env \<Rightarrow> int \<Rightarrow> bucket_args list \<Rightarrow> store \<Rightarrow> (bucket_args \<times> rat) list" where
  "bucket_states env now_ms args s =
     map (\<lambda>a. (a, bucket_level (a_capacity a) (a_refill a) now_ms (vk_get env (buckets s) (a_key a)))) args"

definition write_bucket :: "vk_env \<Rightarrow> int \<Rightarrow> bucket_args \<times> rat \<Rightarrow> store \<Rightarrow> store" where
  "write_bucket env now_ms st s =
     (case st of (a, tokens) \<Rightarrow>
        s\<lparr> buckets := vk_put env (a_key a) \<lparr> k_tokens = tokens - a_cost a, k_updated = now_ms \<rparr>
             (a_ttl a) (buckets s) \<rparr>)"

definition multi_bucket_script ::
    "vk_env \<Rightarrow> int \<Rightarrow> bucket_args list \<Rightarrow> store \<Rightarrow> store \<times> (int \<times> int \<times> int \<times> int list)" where
  "multi_bucket_script env now_ms args s =
     (if \<not> valkey_has_write_capacity env then (s, (-1, 0, 0, []))
      else
        let states = bucket_states env now_ms args s;
            short = filter (\<lambda>(a, tokens). tokens < a_cost a) states
        in if short \<noteq> []
           then (s, (0, 0, foldl max 0 (map (\<lambda>(a, tokens). bucket_retry a tokens) short), []))
           else
             let remaining = map (\<lambda>(a, tokens). \<lfloor>tokens - a_cost a\<rfloor>) states
             in (fold (write_bucket env now_ms) states s,
                 (1, (case remaining of [] \<Rightarrow> 0 | r # rs \<Rightarrow> foldl min r rs), 0, remaining)))"

subsection \<open>Concurrency leases\<close>

definition get_leases :: "vk_env \<Rightarrow> store \<Rightarrow> string \<Rightarrow> lease list" where
  "get_leases env s key = (case vk_get env (leases s) key of None \<Rightarrow> [] | Some ls \<Rightarrow> ls)"

text \<open>\<open>expire_with_latest_lease\<close>: an empty set is deleted, another lives until its last lease ends.\<close>

definition put_leases :: "vk_env \<Rightarrow> int \<Rightarrow> string \<Rightarrow> lease list \<Rightarrow> store \<Rightarrow> store" where
  "put_leases env now_ms key ls s =
     s\<lparr> leases := (case ls of
          [] \<Rightarrow> (leases s)(key := None)
        | l # rest \<Rightarrow>
            let latest = foldl max (snd l) (map snd rest)
            in vk_put env key ls (max 1 (latest - now_ms)) (leases s)) \<rparr>"

definition z_add :: "lease \<Rightarrow> lease list \<Rightarrow> lease list" where
  "z_add l ls = filter (\<lambda>l'. fst l' \<noteq> fst l) ls @ [l]"

definition associate :: "vk_env \<Rightarrow> int \<Rightarrow> int \<Rightarrow> string \<Rightarrow> string \<Rightarrow> string \<Rightarrow> store \<Rightarrow> store" where
  "associate env now_ms expires_at_ms rkey lease_id key s =
     (let old = (case vk_get env (request_leases s) rkey of None \<Rightarrow> [] | Some h \<Rightarrow> h);
          pttl = (case (vk_get env (request_leases s) rkey, request_leases s rkey) of
                    (Some _, Some (_, Some t)) \<Rightarrow> t - clock env
                  | _ \<Rightarrow> -1)
      in s\<lparr> request_leases := vk_put env rkey
              (filter (\<lambda>(l, k). l \<noteq> lease_id) old @ [(lease_id, key)])
              (max 1 (max (expires_at_ms - now_ms) pttl)) (request_leases s) \<rparr>)"

definition concurrency_acquire_script ::
    "vk_env \<Rightarrow> string \<Rightarrow> string option \<Rightarrow> string \<Rightarrow> int \<Rightarrow> int \<Rightarrow> int \<Rightarrow> store \<Rightarrow> store \<times> int" where
  "concurrency_acquire_script env key rkey lease_id now_ms expires_at_ms limit s =
     (if \<not> valkey_has_write_capacity env then (s, -1)
      else
        let active = filter (\<lambda>l. snd l > now_ms) (get_leases env s key) in
        if int (length active) \<ge> limit then (put_leases env now_ms key active s, 0)
        else
          let s1 = put_leases env now_ms key (z_add (lease_id, expires_at_ms) active) s
          in (case rkey of
                None \<Rightarrow> s1
              | Some rk \<Rightarrow> associate env now_ms expires_at_ms rk lease_id key s1, 1))"

definition concurrency_release_script :: "vk_env \<Rightarrow> string \<Rightarrow> string \<Rightarrow> int \<Rightarrow> store \<Rightarrow> store" where
  "concurrency_release_script env key lease_id now_ms s =
     put_leases env now_ms key
       (filter (\<lambda>l. snd l > now_ms \<and> fst l \<noteq> lease_id) (get_leases env s key)) s"

text \<open>ZREM on one set, keeping its expiry; the set is gone when it is empty.\<close>

definition z_rem :: "vk_env \<Rightarrow> string \<times> string \<Rightarrow> store \<Rightarrow> store" where
  "z_rem env p s =
     (case p of (lease_id, key) \<Rightarrow>
        (case (vk_get env (leases s) key, leases s key) of
           (Some ls, Some (_, t)) \<Rightarrow>
             let rest = filter (\<lambda>l. fst l \<noteq> lease_id) ls
             in s\<lparr> leases := (leases s)(key := if rest = [] then None else Some (rest, t)) \<rparr>
         | _ \<Rightarrow> s))"

definition request_concurrency_release_script :: "vk_env \<Rightarrow> string \<Rightarrow> store \<Rightarrow> store \<times> nat" where
  "request_concurrency_release_script env rkey s =
     (let ls = (case vk_get env (request_leases s) rkey of None \<Rightarrow> [] | Some h \<Rightarrow> h);
          s1 = fold (z_rem env) ls s
      in (s1\<lparr> request_leases := (request_leases s1)(rkey := None) \<rparr>, length ls))"

subsection \<open>Counters\<close>

definition incr_by :: "vk_env \<Rightarrow> string \<Rightarrow> int \<Rightarrow> store \<Rightarrow> store \<times> int" where
  "incr_by env key n s =
     (let used = (case vk_get env (counters s) key of None \<Rightarrow> 0 | Some c \<Rightarrow> c) + n;
          expiry = (case (vk_get env (counters s) key, counters s key) of
                      (Some _, Some (_, t)) \<Rightarrow> t | _ \<Rightarrow> None)
      in (s\<lparr> counters := (counters s)(key \<mapsto> (used, expiry)) \<rparr>, used))"

definition expire_counter :: "vk_env \<Rightarrow> string \<Rightarrow> int \<Rightarrow> store \<Rightarrow> store" where
  "expire_counter env key ttl s =
     (case vk_get env (counters s) key of
        None \<Rightarrow> s
      | Some c \<Rightarrow> s\<lparr> counters := vk_put env key c ttl (counters s) \<rparr>)"

definition free_tier_script :: "vk_env \<Rightarrow> string \<Rightarrow> int \<Rightarrow> int \<Rightarrow> store \<Rightarrow> store \<times> (int \<times> int)" where
  "free_tier_script env key amount ttl_ms s =
     (if \<not> valkey_has_write_capacity env then (s, (-1, 0))
      else
        let (s1, used) = incr_by env key amount s;
            s2 = (if used = amount then expire_counter env key ttl_ms s1 else s1)
        in (s2, (1, used)))"

end
