(* ===== verification/Limiter.thy ===== *)
theory Limiter
  imports Valkey Plans
begin

section \<open>The rate limiter (rate-limit/limiter.ts)\<close>

text \<open>
  The class \<open>RateLimiter\<close> over the scripts of \<open>Valkey\<close>: the bucket checks, the concurrency leases with
  their release handles, the kill switch, the free tier, the bucket hierarchies of every limited
  action, the Venice limits and the capacities derived from them. Each function takes the server's
  state \<open>env\<close>, the process clock \<open>now\<close> (\<open>Date.now()\<close>) where the code reads it, and the store. The key
  strings are the ones of the code. What a fetch or a published snapshot yields is an argument of
  \<open>refreshVeniceLimits\<close>.
\<close>

record bucket_options =
  o_key :: string
  o_capacity :: rat
  o_per_minute :: rat
  o_cost :: "rat option"
  o_ttl :: "int option"

record window =
  w_limit :: rat
  w_remaining :: rat
  w_reset :: jsnum

definition unavailable :: err where
  "unavailable = App 503 ''protection_state_unavailable''"

definition RateLimitExceededError :: "int \<Rightarrow> err" where
  "RateLimitExceededError retryAfterMs = RateLimitExceeded (max 1 \<lceil>of_int retryAfterMs / 1000 :: rat\<rceil>)"

definition script_args :: "bucket_options \<Rightarrow> bucket_args" where
  "script_args opt =
     \<lparr> a_key = ''rl:'' @ o_key opt, a_capacity = o_capacity opt, a_refill = o_per_minute opt / 60000,
       a_cost = (case o_cost opt of None \<Rightarrow> 1 | Some c \<Rightarrow> c),
       a_ttl = (case o_ttl opt of None \<Rightarrow> 120000 | Some t \<Rightarrow> t) \<rparr>"

text \<open>\<open>Math.ceil(((capacity - remaining) / refillPerMinute) * 60_000)\<close>, a rate of zero included.\<close>

definition reset_ms :: "bucket_options \<Rightarrow> rat \<Rightarrow> jsnum" where
  "reset_ms opt remaining =
     (let missing = o_capacity opt - remaining in
      if o_per_minute opt = 0
      then (if missing = 0 then NaN else if missing > 0 then PosInf else NegInf)
      else Fin (of_int \<lceil>missing / o_per_minute opt * 60000\<rceil>))"

definition window_of :: "bucket_options \<Rightarrow> rat \<Rightarrow> window" where
  "window_of opt tokens =
     (let remaining = max 0 (of_int \<lfloor>tokens\<rfloor>) in
      \<lparr> w_limit = o_capacity opt, w_remaining = remaining, w_reset = reset_ms opt remaining \<rparr>)"

definition checkBucket :: "vk_env \<Rightarrow> int \<Rightarrow> bucket_options \<Rightarrow> store \<Rightarrow> store \<times> window result" where
  "checkBucket env now opt s =
     (case bucket_script env now (script_args opt) s of
        (s', (allowed, tokens, retry)) \<Rightarrow>
          if allowed = -1 then (s', Inl unavailable)
          else if allowed \<noteq> 1 then (s', Inl (RateLimitExceededError (max 0 retry)))
          else (s', Inr (window_of opt tokens)))"

definition evaluateBuckets ::
    "vk_env \<Rightarrow> int \<Rightarrow> bucket_options list \<Rightarrow> store \<Rightarrow> store \<times> (int list) result" where
  "evaluateBuckets env now opts s =
     (if opts = [] then (s, Inr [])
      else case multi_bucket_script env now (map script_args opts) s of
        (s', (allowed, least, retry, remaining)) \<Rightarrow>
          if allowed = -1 then (s', Inl unavailable)
          else if allowed \<noteq> 1 then (s', Inl (RateLimitExceededError (max 0 retry)))
          else (s', Inr remaining))"

definition checkBuckets :: "vk_env \<Rightarrow> int \<Rightarrow> bucket_options list \<Rightarrow> store \<Rightarrow> store \<times> unit result" where
  "checkBuckets env now opts s =
     (case evaluateBuckets env now opts s of
        (s', Inl e) \<Rightarrow> (s', Inl e) | (s', Inr remaining) \<Rightarrow> (s', Inr ()))"

definition checkBucketsWithWindows ::
    "vk_env \<Rightarrow> int \<Rightarrow> bucket_options list \<Rightarrow> store \<Rightarrow> store \<times> (window list) result" where
  "checkBucketsWithWindows env now opts s =
     (case evaluateBuckets env now opts s of
        (s', Inl e) \<Rightarrow> (s', Inl e)
      | (s', Inr remaining) \<Rightarrow>
          (s', Inr (map2 (\<lambda>opt r. window_of opt (of_int r)) opts remaining)))"

subsection \<open>Concurrency\<close>

text \<open>The release closure: the key, the lease and the \<open>released\<close> flag it captures.\<close>

record lease_handle =
  h_key :: string
  h_lease :: string
  h_released :: bool

definition acquireConcurrency ::
    "vk_env \<Rightarrow> int \<Rightarrow> string \<Rightarrow> string \<Rightarrow> int \<Rightarrow> int \<Rightarrow> int \<Rightarrow> string option \<Rightarrow> store
      \<Rightarrow> store \<times> lease_handle result" where
  "acquireConcurrency env now leaseId key limit ttlSeconds absoluteMaxSeconds requestId s =
     (let redisKey = ''conc:'' @ key;
          absoluteDeadlineMs = now + max ttlSeconds absoluteMaxSeconds * 1000;
          rkey = (case requestId of
                    None \<Rightarrow> None
                  | Some r \<Rightarrow> if r = [] then None else Some (''conc-request:'' @ r))
      in case concurrency_acquire_script env redisKey rkey leaseId now absoluteDeadlineMs limit s of
           (s', acquired) \<Rightarrow>
             if acquired = -1 then (s', Inl unavailable)
             else if acquired \<noteq> 1 then (s', Inl (App 429 ''concurrency_limited''))
             else (s', Inr \<lparr> h_key = redisKey, h_lease = leaseId, h_released = False \<rparr>))"

definition release_handle :: "vk_env \<Rightarrow> int \<Rightarrow> lease_handle \<Rightarrow> store \<Rightarrow> store \<times> lease_handle" where
  "release_handle env now h s =
     (if h_released h then (s, h)
      else (concurrency_release_script env (h_key h) (h_lease h) now s, h\<lparr> h_released := True \<rparr>))"

definition releaseRequestConcurrency :: "vk_env \<Rightarrow> string \<Rightarrow> store \<Rightarrow> store" where
  "releaseRequestConcurrency env requestId s =
     fst (request_concurrency_release_script env (''conc-request:'' @ requestId) s)"

subsection \<open>The kill switch and the free tier\<close>

definition checkProviderKillSwitch :: "vk_env \<Rightarrow> string \<Rightarrow> string \<Rightarrow> store \<Rightarrow> unit result" where
  "checkProviderKillSwitch env providerName modelId s =
     (let providerKilled = vk_get env (flags s) (''kill:provider:'' @ providerName);
          modelKilled = vk_get env (flags s) (''kill:model:'' @ providerName @ '':'' @ modelId)
      in if providerKilled = Some ''1'' \<or> modelKilled = Some ''1''
         then Inl (App 503 ''provider_unavailable'') else Inr ())"

definition providerKillSwitchEngaged :: "vk_env \<Rightarrow> string \<Rightarrow> store \<Rightarrow> bool" where
  "providerKillSwitchEngaged env providerName s \<longleftrightarrow>
     vk_get env (flags s) (''kill:provider:'' @ providerName) = Some ''1''"

definition engageProviderKillSwitch :: "string \<Rightarrow> store \<Rightarrow> store" where
  "engageProviderKillSwitch providerName s =
     s\<lparr> flags := (flags s)(''kill:provider:'' @ providerName \<mapsto> (''1'', None)) \<rparr>"

definition releaseProviderKillSwitch :: "string \<Rightarrow> store \<Rightarrow> store" where
  "releaseProviderKillSwitch providerName s =
     s\<lparr> flags := (flags s)(''kill:provider:'' @ providerName := None) \<rparr>"

definition consumeDailyFreeTokens ::
    "vk_env \<Rightarrow> string \<Rightarrow> int \<Rightarrow> string \<Rightarrow> int \<Rightarrow> store \<Rightarrow> store \<times> unit result" where
  "consumeDailyFreeTokens env day freeTierDailyTokens accountId estimatedTokens s =
     (if freeTierDailyTokens \<le> 0 \<or> estimatedTokens \<le> 0 then (s, Inr ())
      else case free_tier_script env (''free:'' @ day @ '':'' @ accountId) estimatedTokens
                  (60 * 60 * 48 * 1000) s of
        (s', (ok, used)) \<Rightarrow>
          if ok \<noteq> 1 then (s', Inl unavailable)
          else if used > freeTierDailyTokens then (s', Inl (App 402 ''free_tier_exhausted''))
          else (s', Inr ()))"

definition recordAuthFailure :: "vk_env \<Rightarrow> string \<Rightarrow> store \<Rightarrow> store \<times> int" where
  "recordAuthFailure env subjectHash s =
     (let key = ''authfail:'' @ subjectHash;
          (s1, count) = incr_by env key 1 s
      in (if count = 1 then expire_counter env key (15 * 60 * 1000) s1 else s1, count))"

definition clearAuthFailures :: "string \<Rightarrow> store \<Rightarrow> store" where
  "clearAuthFailures subjectHash s =
     s\<lparr> counters := (counters s)(''authfail:'' @ subjectHash := None) \<rparr>"

end
