(* ===== verification/LimitPolicies.thy ===== *)
theory LimitPolicies
  imports Limiter
begin

section \<open>The bucket hierarchies of every limited action (rate-limit/limiter.ts)\<close>

text \<open>
  Each \<open>limit...\<close> method is a list of buckets handed to \<open>checkBuckets\<close>; the lists are the
  definitions here, and \<open>limit_action\<close> runs one. \<open>refreshVeniceLimits\<close> and what is derived from the
  limits (\<open>providerModelLimits\<close>, \<open>inferenceTokenCapacity\<close>, \<open>providerConcurrencyLimits\<close>) follow.
\<close>

record scopes =
  n_exact :: string
  n_subnet :: string

record allowance =
  al_capacity :: rat
  al_per_minute :: rat

definition allow :: "rat \<Rightarrow> rat \<Rightarrow> allowance" where
  "allow c r = \<lparr> al_capacity = c, al_per_minute = r \<rparr>"

definition abuse_bucket :: "string \<Rightarrow> allowance \<Rightarrow> int \<Rightarrow> bucket_options" where
  "abuse_bucket key a ttlMs =
     \<lparr> o_key = key, o_capacity = al_capacity a, o_per_minute = al_per_minute a, o_cost = None,
       o_ttl = Some ttlMs \<rparr>"

definition networkBuckets ::
    "string \<Rightarrow> scopes \<Rightarrow> allowance \<Rightarrow> allowance \<Rightarrow> allowance option \<Rightarrow> int option \<Rightarrow> bucket_options list" where
  "networkBuckets purpose network exact subnet global ttl =
     (let ttlMs = (case ttl of None \<Rightarrow> 60 * 60 * 1000 | Some t \<Rightarrow> t) in
      [abuse_bucket (''abuse:'' @ purpose @ '':exact:'' @ n_exact network) exact ttlMs,
       abuse_bucket (''abuse:'' @ purpose @ '':subnet:'' @ n_subnet network) subnet ttlMs]
      @ (case global of None \<Rightarrow> []
         | Some g \<Rightarrow> [abuse_bucket (''abuse:'' @ purpose @ '':global'') g ttlMs]))"

datatype ingress_class = IngressApi | IngressAuth | IngressWebhook

definition ingress_name :: "ingress_class \<Rightarrow> string" where
  "ingress_name c = (case c of IngressApi \<Rightarrow> ''api'' | IngressAuth \<Rightarrow> ''auth'' | IngressWebhook \<Rightarrow> ''webhook'')"

definition ingressBuckets :: "scopes \<Rightarrow> ingress_class \<Rightarrow> bucket_options list" where
  "ingressBuckets network c =
     (case c of
        IngressWebhook \<Rightarrow> networkBuckets (''ingress:'' @ ingress_name c) network (allow 1000 1000)
          (allow 5000 5000) (Some (allow 20000 20000)) (Some (5 * 60000))
      | IngressAuth \<Rightarrow> networkBuckets (''ingress:'' @ ingress_name c) network (allow 120 120)
          (allow 600 600) (Some (allow 10000 10000)) (Some (5 * 60000))
      | IngressApi \<Rightarrow> networkBuckets (''ingress:'' @ ingress_name c) network (allow 600 600)
          (allow 3000 3000) (Some (allow 20000 20000)) (Some (5 * 60000)))"

definition day_ms :: int where
  "day_ms = 24 * 60 * 60 * 1000"

definition signupBuckets :: "scopes \<Rightarrow> bucket_options list" where
  "signupBuckets network = networkBuckets ''signup'' network (allow 5 (1 / 2)) (allow 30 3)
     (Some (allow 300 30)) (Some day_ms)"

definition usernameSuggestionBuckets :: "scopes \<Rightarrow> bucket_options list" where
  "usernameSuggestionBuckets network = networkBuckets ''private-username-suggestion'' network
     (allow 20 5) (allow 100 20) (Some (allow 1000 200)) (Some (60 * 60 * 1000))"

definition credentialLookupBuckets :: "scopes \<Rightarrow> bucket_options list" where
  "credentialLookupBuckets network = networkBuckets ''credential-lookup'' network
     (allow 120 120) (allow 600 600) (Some (allow 5000 5000)) (Some (5 * 60000))"

definition adminLoginBuckets :: "scopes \<Rightarrow> bucket_options list" where
  "adminLoginBuckets network = networkBuckets ''admin-login'' network
     (allow 30 10) (allow 90 30) (Some (allow 180 60)) (Some (15 * 60000))"

definition captchaChallengeBuckets :: "scopes \<Rightarrow> bucket_options list" where
  "captchaChallengeBuckets network = networkBuckets ''captcha-challenge'' network
     (allow 60 60) (allow 300 300) (Some (allow 5000 5000)) (Some (60 * 60 * 1000))"

definition loginBuckets :: "string \<Rightarrow> scopes \<Rightarrow> bucket_options list" where
  "loginBuckets subjectHash network =
     networkBuckets ''login'' network (allow 30 5) (allow 150 25) (Some (allow 2000 300))
       (Some (60 * 60 * 1000))
     @ [abuse_bucket (''abuse:login:subject:'' @ subjectHash) (allow 10 2) (60 * 60 * 1000)]"

definition recoveryBuckets :: "string \<Rightarrow> scopes \<Rightarrow> bucket_options list" where
  "recoveryBuckets usernameHash network =
     networkBuckets ''recover'' network (allow 10 1) (allow 50 5) (Some (allow 500 50)) (Some day_ms)
     @ [abuse_bucket (''abuse:recover:subject:'' @ usernameHash) (allow 4 (1 / 4)) day_ms]"

definition recoveryManagementBuckets :: "string \<Rightarrow> scopes \<Rightarrow> bucket_options list" where
  "recoveryManagementBuckets accountHash network =
     networkBuckets ''recover-manage'' network (allow 20 4) (allow 100 20) (Some (allow 1000 200))
       (Some (60 * 60 * 1000))
     @ [abuse_bucket (''abuse:recover-manage:account:'' @ accountHash) (allow 10 2) (60 * 60 * 1000)]"

datatype auth_action = SignIn | SignUp | PasswordReset | VerificationEmail | Social | OtherAuth

definition action_name :: "auth_action \<Rightarrow> string" where
  "action_name a = (case a of SignIn \<Rightarrow> ''sign-in'' | SignUp \<Rightarrow> ''sign-up''
     | PasswordReset \<Rightarrow> ''password-reset'' | VerificationEmail \<Rightarrow> ''verification-email''
     | Social \<Rightarrow> ''social'' | OtherAuth \<Rightarrow> ''other'')"

record auth_policy =
  ap_subject :: "allowance option"
  ap_exact :: allowance
  ap_subnet :: allowance
  ap_global :: allowance

definition auth_policy_of :: "auth_action \<Rightarrow> auth_policy" where
  "auth_policy_of a =
     (let email = \<lparr> ap_subject = Some (allow 3 (1 / 5)), ap_exact = allow 10 1, ap_subnet = allow 50 5,
                    ap_global = allow 500 50 \<rparr>
      in case a of
        SignIn \<Rightarrow> \<lparr> ap_subject = Some (allow 10 2), ap_exact = allow 30 5, ap_subnet = allow 150 25,
                   ap_global = allow 2000 300 \<rparr>
      | SignUp \<Rightarrow> \<lparr> ap_subject = Some (allow 3 (1 / 4)), ap_exact = allow 5 (1 / 2),
                   ap_subnet = allow 30 3, ap_global = allow 300 30 \<rparr>
      | PasswordReset \<Rightarrow> email
      | VerificationEmail \<Rightarrow> email
      | Social \<Rightarrow> \<lparr> ap_subject = None, ap_exact = allow 30 5, ap_subnet = allow 150 25,
                   ap_global = allow 2000 300 \<rparr>
      | OtherAuth \<Rightarrow> \<lparr> ap_subject = None, ap_exact = allow 60 30, ap_subnet = allow 300 150,
                   ap_global = allow 5000 2500 \<rparr>)"

definition standardAuthBuckets :: "auth_action \<Rightarrow> scopes \<Rightarrow> string option \<Rightarrow> bucket_options list" where
  "standardAuthBuckets action network subjectHash =
     (let policy = auth_policy_of action;
          ttlMs = (if action = OtherAuth then 5 * 60000 else day_ms)
      in networkBuckets (''standard-auth:'' @ action_name action) network (ap_exact policy)
           (ap_subnet policy) (Some (ap_global policy)) (Some ttlMs)
         @ (case (subjectHash, ap_subject policy) of
              (Some h, Some subject) \<Rightarrow>
                if h = [] then []
                else [abuse_bucket (''abuse:standard-auth:'' @ action_name action @ '':subject:'' @ h)
                        subject ttlMs]
            | _ \<Rightarrow> []))"

datatype payment_rail = Stripe | Crypto

definition rail_name :: "payment_rail \<Rightarrow> string" where
  "rail_name rail = (case rail of Stripe \<Rightarrow> ''stripe'' | Crypto \<Rightarrow> ''crypto'')"

definition purchaseCreationBuckets :: "string \<Rightarrow> scopes \<Rightarrow> payment_rail \<Rightarrow> bucket_options list" where
  "purchaseCreationBuckets accountId network rail =
     networkBuckets (''purchase-create:'' @ rail_name rail) network (allow 12 2) (allow 60 10)
       (Some (allow 300 60)) (Some day_ms)
     @ [abuse_bucket (''abuse:purchase-create:account:'' @ accountId) (allow 6 1) day_ms,
        abuse_bucket (''abuse:purchase-create:account-daily:'' @ accountId)
          (allow 30 (30 / (24 * 60))) (2 * day_ms)]"

definition paymentSetupBuckets :: "string \<Rightarrow> scopes \<Rightarrow> bucket_options list" where
  "paymentSetupBuckets accountId network =
     networkBuckets ''payment-setup'' network (allow 10 1) (allow 50 5) (Some (allow 200 20)) (Some day_ms)
     @ [abuse_bucket (''abuse:payment-setup:account:'' @ accountId) (allow 3 (1 / 5)) day_ms]"

definition promotionRedemptionBuckets :: "string \<Rightarrow> string \<Rightarrow> scopes \<Rightarrow> bucket_options list" where
  "promotionRedemptionBuckets accountId codeSubjectHash network =
     networkBuckets ''promotion-redeem'' network (allow 20 4) (allow 100 20) (Some (allow 2000 400))
       (Some day_ms)
     @ [abuse_bucket (''abuse:promotion-redeem:account:'' @ accountId) (allow 5 1) day_ms,
        abuse_bucket (''abuse:promotion-redeem:account-daily:'' @ accountId)
          (allow 20 (20 / (24 * 60))) (2 * day_ms),
        abuse_bucket (''abuse:promotion-redeem:account-subject:'' @ accountId @ '':'' @ codeSubjectHash)
          (allow 5 (1 / 2)) day_ms]"

definition apiKeyCreationBucket :: "string \<Rightarrow> bool \<Rightarrow> bucket_options" where
  "apiKeyCreationBucket accountId management =
     abuse_bucket (''abuse:key-create:'' @ (if management then ''management'' else ''api'')
         @ '':account:'' @ accountId)
       (if management then allow 5 (1 / 2) else allow 10 2) day_ms"

datatype limited_action =
    Ingress scopes ingress_class
  | Signup scopes
  | UsernameSuggestion scopes
  | CredentialLookup scopes
  | AdminLogin scopes
  | CaptchaChallenge scopes
  | Login string scopes
  | Recovery string scopes
  | RecoveryManagement string scopes
  | StandardAuth auth_action scopes "string option"
  | PurchaseCreation string scopes payment_rail
  | PaymentSetup string scopes
  | PromotionRedemption string string scopes

fun action_buckets :: "limited_action \<Rightarrow> bucket_options list" where
  "action_buckets (Ingress network c) = ingressBuckets network c"
| "action_buckets (Signup network) = signupBuckets network"
| "action_buckets (UsernameSuggestion network) = usernameSuggestionBuckets network"
| "action_buckets (CredentialLookup network) = credentialLookupBuckets network"
| "action_buckets (AdminLogin network) = adminLoginBuckets network"
| "action_buckets (CaptchaChallenge network) = captchaChallengeBuckets network"
| "action_buckets (Login subject network) = loginBuckets subject network"
| "action_buckets (Recovery subject network) = recoveryBuckets subject network"
| "action_buckets (RecoveryManagement subject network) = recoveryManagementBuckets subject network"
| "action_buckets (StandardAuth a network subject) = standardAuthBuckets a network subject"
| "action_buckets (PurchaseCreation a network rail) = purchaseCreationBuckets a network rail"
| "action_buckets (PaymentSetup a network) = paymentSetupBuckets a network"
| "action_buckets (PromotionRedemption a h network) = promotionRedemptionBuckets a h network"

definition limit_action :: "vk_env \<Rightarrow> int \<Rightarrow> limited_action \<Rightarrow> store \<Rightarrow> store \<times> unit result" where
  "limit_action env now a s = checkBuckets env now (action_buckets a) s"

definition limitApiKeyCreation :: "vk_env \<Rightarrow> int \<Rightarrow> string \<Rightarrow> bool \<Rightarrow> store \<Rightarrow> store \<times> window result" where
  "limitApiKeyCreation env now accountId management s =
     checkBucket env now (apiKeyCreationBucket accountId management) s"

subsection \<open>Inference\<close>

record model_limits =
  m_rpm :: "rat option"
  m_tpm :: "rat option"

record venice_state =
  vn_limits :: "(string \<times> model_limits) list"
  vn_expires :: int
  vn_observed :: int

datatype venice_source =
    Published "(int option \<times> (string \<times> model_limits) list option) option"
  | Fetched "(string option \<times> (string option \<times> jsnum option) list) list"
  | FetchFailed

definition veniceLimit :: "string \<Rightarrow> (string option \<times> jsnum option) list \<Rightarrow> rat option" where
  "veniceLimit type limits =
     fold (\<lambda>(t, amount) acc. case amount of Some (Fin q) \<Rightarrow> if t = Some type then Some q else acc
                                | _ \<Rightarrow> acc) limits None"

text \<open>\<open>next.set(model, limits)\<close> over the response: a later entry of the same model replaces an earlier.\<close>

definition venice_snapshot ::
    "(string option \<times> (string option \<times> jsnum option) list) list \<Rightarrow> (string \<times> model_limits) list" where
  "venice_snapshot models =
     fold (\<lambda>(m, limits) acc. case m of
              None \<Rightarrow> acc
            | Some i \<Rightarrow> if i = [] then acc
                else filter (\<lambda>p. fst p \<noteq> i) acc
                  @ [(i, \<lparr> m_rpm = veniceLimit ''RPM'' limits, m_tpm = veniceLimit ''TPM'' limits \<rparr>)])
       models []"

definition expire_snapshot :: "int \<Rightarrow> venice_state \<Rightarrow> venice_state" where
  "expire_snapshot now st = (if now - vn_observed st > 10 * 60000 then st\<lparr> vn_limits := [] \<rparr> else st)"

definition refreshVeniceLimits :: "int \<Rightarrow> venice_source \<Rightarrow> venice_state \<Rightarrow> venice_state" where
  "refreshVeniceLimits now source st =
     (if now < vn_expires st then st
      else case source of
        Published raw \<Rightarrow>
          let st1 = (case raw of
                Some (Some observedAt, Some limits) \<Rightarrow>
                  if observedAt \<noteq> 0 \<and> now - observedAt \<le> 10 * 60000
                  then st\<lparr> vn_limits := limits, vn_observed := observedAt \<rparr> else st
              | _ \<Rightarrow> st)
          in (expire_snapshot now st1)\<lparr> vn_expires := now + 60000 \<rparr>
      | Fetched models \<Rightarrow>
          let snapshot = venice_snapshot models;
              st1 = (if snapshot \<noteq> [] then st\<lparr> vn_limits := snapshot, vn_observed := now \<rparr> else st)
          in st1\<lparr> vn_expires := now + 60000 \<rparr>
      | FetchFailed \<Rightarrow> (expire_snapshot now st)\<lparr> vn_expires := now + 10000 \<rparr>)"

text \<open>\<open>providerModelLimits\<close> reads the Venice limits after they were refreshed.\<close>

definition providerModelLimits :: "venice_state \<Rightarrow> string \<Rightarrow> string \<Rightarrow> rat \<times> rat" where
  "providerModelLimits st providerName externalModelId =
     (if providerName = ''mock'' then (600, 1000000)
      else if providerName = ''venice'' then
        (let published = map_of (vn_limits st) externalModelId in
         ((case Option.bind published m_rpm of
             None \<Rightarrow> 300 | Some rpm \<Rightarrow> max 1 (of_int \<lfloor>rpm * (8 / 10)\<rfloor>)),
          (case Option.bind published m_tpm of
             None \<Rightarrow> 3000000 | Some tpm \<Rightarrow> max 1000 (of_int \<lfloor>tpm * (8 / 10)\<rfloor>))))
      else (60, 200000))"

definition account_model_share :: rat where
  "account_model_share = 1"

definition accountModelTpm :: "usage_plan \<Rightarrow> rat \<Rightarrow> rat" where
  "accountModelTpm plan tpm =
     min (of_int (tokensPerMinute plan)) (max 20000 (of_int \<lfloor>tpm * account_model_share\<rfloor>))"

definition accountModelRpm :: "usage_plan \<Rightarrow> rat \<Rightarrow> rat" where
  "accountModelRpm plan rpm =
     min (of_int (requestsPerMinute plan)) (max 2 (of_int \<lfloor>rpm * account_model_share\<rfloor>))"

definition inferenceTokenCapacity :: "venice_state \<Rightarrow> usage_plan \<Rightarrow> string \<Rightarrow> string \<Rightarrow> rat" where
  "inferenceTokenCapacity st plan providerName externalModelId =
     (let (rpm, tpm) = providerModelLimits st providerName externalModelId
      in min (of_int (tokensPerMinute plan)) (min (accountModelTpm plan tpm) tpm))"

definition providerConcurrencyLimits :: "venice_state \<Rightarrow> string \<Rightarrow> string \<Rightarrow> rat \<times> rat" where
  "providerConcurrencyLimits st providerName externalModelId =
     (let (rpm, tpm) = providerModelLimits st providerName externalModelId in
      if providerName = ''mock'' then (100, 50)
      else (24, max 2 (min 12 (of_int \<lceil>rpm / 6\<rceil>))))"

definition rate_bucket :: "string \<Rightarrow> rat \<Rightarrow> rat option \<Rightarrow> bucket_options" where
  "rate_bucket key rate cost =
     \<lparr> o_key = key, o_capacity = rate, o_per_minute = rate, o_cost = cost, o_ttl = Some 120000 \<rparr>"

definition accountInferenceBuckets :: "string \<Rightarrow> string option \<Rightarrow> usage_plan \<Rightarrow> rat \<Rightarrow> bucket_options list" where
  "accountInferenceBuckets accountId apiKeyId plan estimatedTokens =
     (let rpm = of_int (requestsPerMinute plan);
          tpm = of_int (tokensPerMinute plan);
          cost = Some (max 1 estimatedTokens)
      in [rate_bucket (''inference:account:'' @ accountId @ '':rpm'') rpm None,
          rate_bucket (''inference:account:'' @ accountId @ '':tpm'') tpm cost]
         @ (case apiKeyId of
              None \<Rightarrow> []
            | Some k \<Rightarrow> if k = [] then [] else
                [rate_bucket (''inference:key:'' @ k @ '':rpm'') rpm None,
                 rate_bucket (''inference:key:'' @ k @ '':tpm'') tpm cost]))"

definition limitAccountInference ::
    "vk_env \<Rightarrow> int \<Rightarrow> string \<Rightarrow> string option \<Rightarrow> usage_plan \<Rightarrow> rat \<Rightarrow> store
      \<Rightarrow> store \<times> (window \<times> window) result" where
  "limitAccountInference env now accountId apiKeyId plan estimatedTokens s =
     (case checkBucketsWithWindows env now
             (accountInferenceBuckets accountId apiKeyId plan estimatedTokens) s of
        (s', Inl e) \<Rightarrow> (s', Inl e)
      | (s', Inr windows) \<Rightarrow> (s', Inr (windows ! 0, windows ! 1)))"

definition accountModelBuckets ::
    "venice_state \<Rightarrow> string \<Rightarrow> usage_plan \<Rightarrow> string \<Rightarrow> string \<Rightarrow> rat \<Rightarrow> bucket_options list" where
  "accountModelBuckets st accountId plan providerName externalModelId estimatedTokens =
     (let (rpm, tpm) = providerModelLimits st providerName externalModelId;
          key = ''inference:account:'' @ accountId @ '':provider:'' @ providerName @ '':model:''
            @ externalModelId
      in [rate_bucket (key @ '':rpm'') (accountModelRpm plan rpm) None,
          rate_bucket (key @ '':tpm'') (accountModelTpm plan tpm) (Some (max 1 estimatedTokens))])"

definition limitAccountModelInference ::
    "vk_env \<Rightarrow> int \<Rightarrow> venice_state \<Rightarrow> string \<Rightarrow> usage_plan \<Rightarrow> string \<Rightarrow> string \<Rightarrow> rat \<Rightarrow> store
      \<Rightarrow> store \<times> unit result" where
  "limitAccountModelInference env now st accountId plan providerName externalModelId estimatedTokens s =
     checkBuckets env now
       (accountModelBuckets st accountId plan providerName externalModelId estimatedTokens) s"

definition providerBuckets :: "venice_state \<Rightarrow> string \<Rightarrow> string \<Rightarrow> rat \<Rightarrow> bucket_options list" where
  "providerBuckets st providerName externalModelId estimatedTokens =
     (let (rpm, tpm) = providerModelLimits st providerName externalModelId;
          key = ''provider:'' @ providerName @ '':model:'' @ externalModelId
      in [rate_bucket (key @ '':rpm'') rpm None,
          rate_bucket (key @ '':tpm'') tpm (Some (max 1 estimatedTokens))])"

definition limitProviderInference ::
    "vk_env \<Rightarrow> int \<Rightarrow> venice_state \<Rightarrow> string \<Rightarrow> string \<Rightarrow> rat \<Rightarrow> store \<Rightarrow> store \<times> unit result" where
  "limitProviderInference env now st providerName externalModelId estimatedTokens s =
     checkBuckets env now (providerBuckets st providerName externalModelId estimatedTokens) s"

end
