(* ===== verification/BucketSpec.thy ===== *)
theory BucketSpec
  imports LimitPolicies
begin

section \<open>Token buckets: atomic admission and the rate bound\<close>

text \<open>
  A hierarchy of buckets admits all or nothing, and over any run at most \<open>capacity + rate * time\<close> is
  admitted against one bucket. The bound needs that losing a bucket to its TTL grants nothing
  (\<open>covers\<close>: within its TTL the bucket would have refilled anyway); the configured buckets of every
  limited action satisfy it. The run is one server and one clock: \<open>Date.now()\<close> is the server's clock.
\<close>

definition option_cost :: "bucket_options \<Rightarrow> rat" where
  "option_cost opt = (case o_cost opt of None \<Rightarrow> 1 | Some c \<Rightarrow> c)"

definition option_ttl :: "bucket_options \<Rightarrow> int" where
  "option_ttl opt = (case o_ttl opt of None \<Rightarrow> 120000 | Some t \<Rightarrow> t)"

definition option_rate :: "bucket_options \<Rightarrow> rat" where
  "option_rate opt = o_per_minute opt / 60000"

definition option_level :: "vk_env \<Rightarrow> bucket_options \<Rightarrow> store \<Rightarrow> rat" where
  "option_level env opt s = bucket_level (o_capacity opt) (option_rate opt) (clock env)
     (vk_get env (buckets s) (''rl:'' @ o_key opt))"

lemma script_args_sel [simp]:
  "a_key (script_args opt) = ''rl:'' @ o_key opt"
  "a_capacity (script_args opt) = o_capacity opt"
  "a_refill (script_args opt) = option_rate opt"
  "a_cost (script_args opt) = option_cost opt"
  "a_ttl (script_args opt) = option_ttl opt"
  by (simp_all add: script_args_def option_rate_def option_cost_def option_ttl_def)

subsection \<open>All or nothing\<close>

lemma fold_write_buckets:
  assumes "distinct (map (\<lambda>(a, t). a_key a) sts)"
  shows "buckets (fold (write_bucket env now) sts s) key =
    (case find (\<lambda>(a, t). a_key a = key) sts of
       None \<Rightarrow> buckets s key
     | Some (a, t) \<Rightarrow> vk_put env key \<lparr> k_tokens = t - a_cost a, k_updated = now \<rparr> (a_ttl a) (\<lambda>_. None) key)"
  using assms
proof (induction sts arbitrary: s)
  case (Cons st sts)
  obtain a t where st: "st = (a, t)" by (cases st)
  have IH: "buckets (fold (write_bucket env now) sts (write_bucket env now st s)) key =
    (case find (\<lambda>(a, t). a_key a = key) sts of
       None \<Rightarrow> buckets (write_bucket env now st s) key
     | Some (a, t) \<Rightarrow> vk_put env key \<lparr> k_tokens = t - a_cost a, k_updated = now \<rparr> (a_ttl a) (\<lambda>_. None) key)"
    by (rule Cons.IH) (use Cons.prems in simp)
  have fresh: "find (\<lambda>(a, t). a_key a = key) sts = None" if "a_key a = key"
    using Cons.prems that by (auto simp: st find_None_iff image_iff)
  have now: "buckets (write_bucket env now st s) key =
    (if a_key a = key then vk_put env key \<lparr> k_tokens = t - a_cost a, k_updated = now \<rparr> (a_ttl a) (\<lambda>_. None) key
     else buckets s key)"
    by (simp add: st write_bucket_def vk_put_def)
  show ?case
    using IH [unfolded st] fresh by (simp add: now [unfolded st] st split: option.split)
qed simp

lemma evaluate_refused: "evaluateBuckets env now opts s = (s', Inl e) \<Longrightarrow> s' = s"
  by (auto simp: evaluateBuckets_def multi_bucket_script_def Let_def split: prod.splits if_splits)

lemma evaluate_admitted:
  assumes "evaluateBuckets env (clock env) opts s = (s', Inr remaining)"
  shows "\<forall>opt \<in> set opts. option_cost opt \<le> option_level env opt s"
    and "s' = fold (write_bucket env (clock env)) (bucket_states env (clock env) (map script_args opts) s) s"
    and "remaining = map (\<lambda>opt. \<lfloor>option_level env opt s - option_cost opt\<rfloor>) opts"
  using assms
  by (auto simp: evaluateBuckets_def multi_bucket_script_def Let_def bucket_states_def option_level_def
      filter_empty_conv split: if_splits)

lemma admitted_bucket:
  assumes "evaluateBuckets env (clock env) opts s = (s', Inr remaining)"
    and "distinct (map o_key opts)"
  shows "buckets s' (''rl:'' @ key) =
    (case find (\<lambda>opt. o_key opt = key) opts of
       None \<Rightarrow> buckets s (''rl:'' @ key)
     | Some opt \<Rightarrow> vk_put env (''rl:'' @ key)
         \<lparr> k_tokens = option_level env opt s - option_cost opt, k_updated = clock env \<rparr>
         (option_ttl opt) (\<lambda>_. None) (''rl:'' @ key))"
proof -
  let ?st = "\<lambda>opt. (script_args opt, option_level env opt s)"
  have sts: "bucket_states env (clock env) (map script_args opts) s = map ?st opts"
    by (simp add: bucket_states_def option_level_def)
  have "find (\<lambda>(a, t). a_key a = ''rl:'' @ key) (map ?st opts) = map_option ?st (find (\<lambda>opt. o_key opt = key) opts)"
    by (induction opts) auto
  moreover have "distinct (map (\<lambda>(a, t). a_key a) (map ?st opts))"
    using assms(2) by (simp add: distinct_map inj_on_def comp_def)
  ultimately show ?thesis
    unfolding evaluate_admitted(2) [OF assms(1)] sts
    by (simp add: fold_write_buckets split: option.split)
qed

text \<open>
  A hierarchy of token buckets is one decision. When \<open>evaluateBuckets\<close> refuses (one bucket is
  short, or Valkey has no write capacity) no bucket is created, refilled or debited; when it admits,
  every bucket could pay, each is debited its cost from its refilled level, and no other key changes.
\<close>

theorem multi_bucket_atomic:
  assumes "evaluateBuckets env (clock env) opts s = (s', out)"
    and "distinct (map o_key opts)" and "\<forall>opt \<in> set opts. 0 < option_ttl opt"
  shows "case out of
      Inl e \<Rightarrow> s' = s
    | Inr remaining \<Rightarrow>
        (\<forall>opt \<in> set opts. option_cost opt \<le> option_level env opt s
           \<and> vk_get env (buckets s') (''rl:'' @ o_key opt)
               = Some \<lparr> k_tokens = option_level env opt s - option_cost opt, k_updated = clock env \<rparr>)
        \<and> (\<forall>key. key \<notin> o_key ` set opts \<longrightarrow> buckets s' (''rl:'' @ key) = buckets s (''rl:'' @ key))"
proof (cases out)
  case (Inl e)
  with assms(1) evaluate_refused show ?thesis by fastforce
next
  case (Inr remaining)
  note eval = assms(1) [unfolded Inr]
  have "find (\<lambda>o'. o_key o' = o_key opt) opts = Some opt" if "opt \<in> set opts" for opt
    using that assms(2) select_row_keyed [of o_key opts opt] by (simp add: keyed_def select_row_def)
  then have "buckets s' (''rl:'' @ o_key opt) = Some (\<lparr> k_tokens = option_level env opt s - option_cost opt,
      k_updated = clock env \<rparr>, Some (clock env + option_ttl opt))" if "opt \<in> set opts" for opt
    using that bspec [OF assms(3) that] admitted_bucket [OF eval assms(2), of "o_key opt"]
    by (simp add: vk_put_def)
  moreover have "find (\<lambda>opt. o_key opt = key) opts = None" if "key \<notin> o_key ` set opts" for key
    using that by (auto simp: find_None_iff)
  ultimately show ?thesis
    using Inr evaluate_admitted(1) [OF eval] admitted_bucket [OF eval assms(2)] assms(3)
    by (auto simp: vk_get_def)
qed

subsection \<open>The rate bound\<close>

text \<open>What the calls of a run that were admitted cost one bucket; each call is made at the server's time.\<close>

fun admitted_cost :: "string \<Rightarrow> store \<Rightarrow> (vk_env \<times> bucket_options list) list \<Rightarrow> rat" where
  "admitted_cost key s [] = 0"
| "admitted_cost key s ((env, opts) # calls) =
     (case evaluateBuckets env (clock env) opts s of
        (s', out) \<Rightarrow>
          (case out of Inl e \<Rightarrow> 0
           | Inr _ \<Rightarrow> (\<Sum>opt \<leftarrow> opts. if o_key opt = key then option_cost opt else 0))
          + admitted_cost key s' calls)"

definition covers :: "rat \<Rightarrow> rat \<Rightarrow> int \<Rightarrow> bool" where
  "covers capacity rate ttl \<longleftrightarrow> 0 \<le> capacity \<and> 0 \<le> rate \<and> 0 < ttl \<and> capacity \<le> rate * of_int ttl"

definition bucket_inv :: "string \<Rightarrow> rat \<Rightarrow> int \<Rightarrow> int \<Rightarrow> store \<Rightarrow> bool" where
  "bucket_inv key capacity ttl t s \<longleftrightarrow>
     (case buckets s (''rl:'' @ key) of
        None \<Rightarrow> True
      | Some (b, e) \<Rightarrow> 0 \<le> k_tokens b \<and> k_tokens b \<le> capacity \<and> k_updated b \<le> t
          \<and> e = Some (k_updated b + ttl))"

definition level_at :: "string \<Rightarrow> rat \<Rightarrow> rat \<Rightarrow> int \<Rightarrow> store \<Rightarrow> rat" where
  "level_at key capacity rate t s =
     (case buckets s (''rl:'' @ key) of
        None \<Rightarrow> capacity
      | Some (b, e) \<Rightarrow> min capacity (k_tokens b + of_int (t - k_updated b) * rate))"

lemma level_at_eq:
  assumes "bucket_inv key capacity ttl (clock env) s" and "covers capacity rate ttl"
  shows "bucket_level capacity rate (clock env) (vk_get env (buckets s) (''rl:'' @ key))
    = level_at key capacity rate (clock env) s"
proof (cases "buckets s (''rl:'' @ key)")
  case None
  then show ?thesis by (simp add: level_at_def vk_get_def bucket_level_def)
next
  case (Some p)
  then obtain b where p: "p = (b, Some (k_updated b + ttl))" and b: "0 \<le> k_tokens b" "k_updated b \<le> clock env"
    using assms(1) by (cases p) (auto simp: bucket_inv_def)
  show ?thesis
  proof (cases "clock env < k_updated b + ttl")
    case True
    then show ?thesis using Some p b by (simp add: level_at_def vk_get_def bucket_level_def Let_def)
  next
    case False
    then have "rate * of_int ttl \<le> rate * of_int (clock env - k_updated b)"
      using assms(2) by (intro mult_left_mono) (auto simp: covers_def simp flip: of_int_diff)
    then have "capacity \<le> k_tokens b + of_int (clock env - k_updated b) * rate"
      using assms(2) b(1) by (simp add: covers_def mult.commute)
    then show ?thesis using Some p False
      by (simp add: level_at_def vk_get_def bucket_level_def Let_def covers_def)
  qed
qed

lemma level_at_later:
  assumes "bucket_inv key capacity ttl t s" and "covers capacity rate ttl" and "t \<le> t'"
  shows "level_at key capacity rate t' s \<le> level_at key capacity rate t s + rate * of_int (t' - t)"
    and "bucket_inv key capacity ttl t' s"
    and "0 \<le> level_at key capacity rate t s"
proof -
  have r: "0 \<le> rate * of_int (t' - t)" using assms by (simp add: covers_def)
  then show "level_at key capacity rate t' s \<le> level_at key capacity rate t s + rate * of_int (t' - t)"
    by (auto simp: level_at_def algebra_simps min_def split: option.split)
  show "bucket_inv key capacity ttl t' s"
    using assms by (auto simp: bucket_inv_def split: option.splits)
  show "0 \<le> level_at key capacity rate t s"
    using assms by (auto simp: bucket_inv_def level_at_def covers_def split: option.splits)
qed

text \<open>A call of the run: distinct keys, and the bucket of \<open>key\<close> always has the same size, rate and TTL.\<close>

definition call_ok :: "string \<Rightarrow> rat \<Rightarrow> rat \<Rightarrow> int \<Rightarrow> bucket_options list \<Rightarrow> bool" where
  "call_ok key capacity rate ttl opts \<longleftrightarrow> distinct (map o_key opts)
     \<and> (\<forall>opt \<in> set opts. o_key opt = key \<longrightarrow> o_capacity opt = capacity \<and> option_rate opt = rate
          \<and> option_ttl opt = ttl \<and> 0 \<le> option_cost opt)"

lemma sum_key_cost:
  assumes "distinct (map o_key opts)"
  shows "(\<Sum>opt \<leftarrow> opts. if o_key opt = key then option_cost opt else 0)
    = (case find (\<lambda>opt. o_key opt = key) opts of None \<Rightarrow> 0 | Some opt \<Rightarrow> option_cost opt)"
  using assms
proof (induction opts)
  case (Cons opt opts)
  have "find (\<lambda>opt. o_key opt = key) opts = None" if "o_key opt = key"
    using that Cons.prems by (auto simp: find_None_iff) (metis imageI)
  with Cons show ?case by auto
qed simp

lemma step_level:
  assumes eval: "evaluateBuckets env (clock env) opts s = (s', out)"
    and inv: "bucket_inv key capacity ttl (clock env) s" and cov: "covers capacity rate ttl"
    and ok: "call_ok key capacity rate ttl opts"
  shows "bucket_inv key capacity ttl (clock env) s'"
    and "(case out of Inl e \<Rightarrow> 0 | Inr _ \<Rightarrow> (\<Sum>opt \<leftarrow> opts. if o_key opt = key then option_cost opt else 0))
        + level_at key capacity rate (clock env) s' = level_at key capacity rate (clock env) s"
proof -
  let ?t = "clock env" and ?l = "level_at key capacity rate (clock env) s"
  have d: "distinct (map o_key opts)" using ok by (simp add: call_ok_def)
  have "bucket_inv key capacity ttl ?t s' \<and>
      (case out of Inl e \<Rightarrow> 0 | Inr _ \<Rightarrow> (\<Sum>opt \<leftarrow> opts. if o_key opt = key then option_cost opt else 0))
        + level_at key capacity rate ?t s' = ?l"
  proof (cases out)
    case (Inl e)
    with eval evaluate_refused inv show ?thesis by fastforce
  next
    case (Inr remaining)
    note E = eval [unfolded Inr]
    show ?thesis
    proof (cases "find (\<lambda>opt. o_key opt = key) opts")
      case None
      have "buckets s' (''rl:'' @ key) = buckets s (''rl:'' @ key)"
        using admitted_bucket [OF E d, of key] None by simp
      then have "bucket_inv key capacity ttl ?t s' = bucket_inv key capacity ttl ?t s"
        "level_at key capacity rate ?t s' = ?l"
        by (simp_all add: bucket_inv_def level_at_def)
      with inv Inr None show ?thesis by (simp add: sum_key_cost [OF d])
    next
      case (Some opt)
      then have opt: "opt \<in> set opts" "o_key opt = key" by (auto simp: find_Some_iff)
      with ok have o: "o_capacity opt = capacity" "option_rate opt = rate" "option_ttl opt = ttl"
        "0 \<le> option_cost opt" by (auto simp: call_ok_def)
      have lvl: "option_level env opt s = ?l"
        using level_at_eq [OF inv cov] opt(2) o by (simp add: option_level_def)
      have "option_cost opt \<le> ?l" using evaluate_admitted(1) [OF E] opt(1) lvl by auto
      moreover have "?l \<le> capacity" by (auto simp: level_at_def split: option.split)
      moreover have "buckets s' (''rl:'' @ key) = Some (\<lparr> k_tokens = ?l - option_cost opt, k_updated = ?t \<rparr>,
          Some (?t + ttl))"
        using admitted_bucket [OF E d, of key] Some o(3) lvl cov by (simp add: vk_put_def covers_def)
      ultimately show ?thesis
        using Inr Some o(4) by (simp add: sum_key_cost [OF d] bucket_inv_def level_at_def)
    qed
  qed
  then show "bucket_inv key capacity ttl (clock env) s'"
    and "(case out of Inl e \<Rightarrow> 0 | Inr _ \<Rightarrow> (\<Sum>opt \<leftarrow> opts. if o_key opt = key then option_cost opt else 0))
        + level_at key capacity rate (clock env) s' = ?l"
    by simp_all
qed

lemma admitted_cost_bound:
  assumes "covers capacity rate ttl" and "bucket_inv key capacity ttl t s"
    and "sorted (t # map (clock \<circ> fst) calls)"
    and "\<forall>(env, opts) \<in> set calls. call_ok key capacity rate ttl opts"
  shows "admitted_cost key s calls
    \<le> level_at key capacity rate t s + rate * of_int (last (t # map (clock \<circ> fst) calls) - t)"
  using assms(2-)
proof (induction calls arbitrary: t s)
  case Nil
  then show ?case using level_at_later(3) [OF Nil(1) assms(1) order.refl] by simp
next
  case (Cons call calls)
  obtain env opts where call: "call = (env, opts)" by (cases call)
  obtain s' out where eval: "evaluateBuckets env (clock env) opts s = (s', out)" by fastforce
  have t: "t \<le> clock env" using Cons.prems(2) call by simp
  note later = level_at_later [OF Cons.prems(1) assms(1) t]
  have ok: "call_ok key capacity rate ttl opts" using Cons.prems(3) call by simp
  note step = step_level [OF eval later(2) assms(1) ok]
  let ?last = "last (clock env # map (clock \<circ> fst) calls)"
  have "admitted_cost key s' calls
      \<le> level_at key capacity rate (clock env) s' + rate * of_int (?last - clock env)"
    using Cons.prems call by (intro Cons.IH step(1)) auto
  then have "admitted_cost key s (call # calls)
      \<le> level_at key capacity rate (clock env) s + rate * of_int (?last - clock env)"
    using step(2) by (simp add: call eval)
  also have "\<dots> \<le> level_at key capacity rate t s + rate * of_int (?last - t)"
    using later(1) by (simp add: algebra_simps)
  finally have "admitted_cost key s (call # calls)
      \<le> level_at key capacity rate t s + rate * of_int (?last - t)" .
  moreover have "last (t # map (clock \<circ> fst) (call # calls)) = ?last" by (simp add: call)
  ultimately show ?case by (simp only:)
qed


subsection \<open>The configured buckets\<close>

definition option_ok :: "bucket_options \<Rightarrow> bool" where
  "option_ok opt \<longleftrightarrow> covers (o_capacity opt) (option_rate opt) (option_ttl opt)
     \<and> 1 \<le> o_capacity opt \<and> 0 < option_rate opt \<and> option_cost opt = 1"

lemmas policy_defs = networkBuckets_def abuse_bucket_def allow_def ingressBuckets_def signupBuckets_def
  usernameSuggestionBuckets_def credentialLookupBuckets_def adminLoginBuckets_def
  captchaChallengeBuckets_def loginBuckets_def recoveryBuckets_def recoveryManagementBuckets_def
  standardAuthBuckets_def purchaseCreationBuckets_def paymentSetupBuckets_def
  promotionRedemptionBuckets_def auth_policy_of_def ingress_name_def rail_name_def action_name_def

lemmas option_defs = option_ok_def covers_def option_rate_def option_ttl_def option_cost_def day_ms_def

lemma standardAuth_ok: "\<forall>opt \<in> set (standardAuthBuckets a network subject). option_ok opt"
  "distinct (map o_key (standardAuthBuckets a network subject))"
  by (cases a; cases subject; simp add: policy_defs option_defs Let_def)+

lemma ingress_ok: "\<forall>opt \<in> set (ingressBuckets network c). option_ok opt"
  "distinct (map o_key (ingressBuckets network c))"
  by (cases c; simp add: policy_defs option_defs Let_def)+

lemma purchase_ok: "\<forall>opt \<in> set (purchaseCreationBuckets a network rail). option_ok opt"
  "distinct (map o_key (purchaseCreationBuckets a network rail))"
  by (cases rail; simp add: policy_defs option_defs Let_def)+

text \<open>
  Every configured hierarchy is sound. For every limited action and every network, subject,
  account and code: the keys of its buckets are distinct (so no bucket is read before another write
  of the same call), each bucket admits at least one request when full, refills at a positive rate,
  and outlives the time it needs to refill, so an expired key grants no more than a kept one.
\<close>

theorem action_buckets_sound:
  "distinct (map o_key (action_buckets a)) \<and> (\<forall>opt \<in> set (action_buckets a). option_ok opt)"
  by (cases a)
     (simp_all add: standardAuth_ok ingress_ok purchase_ok, simp_all add: policy_defs option_defs Let_def)

definition sample_server :: "int \<Rightarrow> vk_env" where
  "sample_server t = \<lparr> clock = t, used_memory = Some 10, max_memory = Some 0 \<rparr>"

definition sample_scopes :: scopes where
  "sample_scopes = \<lparr> n_exact = ''1.2.3.4'', n_subnet = ''1.2.3'' \<rparr>"

theorem action_buckets_sound_witness:
  "distinct (map o_key (action_buckets (Login ''u'' sample_scopes)))
    \<and> option_ok (hd (action_buckets (Login ''u'' sample_scopes)))"
proof -
  have "hd (action_buckets (Login ''u'' sample_scopes)) \<in> set (action_buckets (Login ''u'' sample_scopes))"
    by (rule hd_in_set) (simp add: loginBuckets_def)
  with action_buckets_sound [of "Login ''u'' sample_scopes"] show ?thesis by blast
qed

theorem multi_bucket_atomic_witness:
  "\<exists>s' out. evaluateBuckets (sample_server 5) 5 (loginBuckets ''u'' sample_scopes) empty_store = (s', out)
    \<and> (case out of Inl e \<Rightarrow> s' = empty_store
       | Inr _ \<Rightarrow> buckets s' ''rl:other'' = None)"
proof -
  obtain s' out where eval: "evaluateBuckets (sample_server 5) (clock (sample_server 5))
      (loginBuckets ''u'' sample_scopes) empty_store = (s', out)"
    by fastforce
  have "distinct (map o_key (loginBuckets ''u'' sample_scopes))"
    "\<forall>opt \<in> set (loginBuckets ''u'' sample_scopes). 0 < option_ttl opt"
    "''other'' \<notin> o_key ` set (loginBuckets ''u'' sample_scopes)"
    by (simp_all add: policy_defs option_defs)
  with multi_bucket_atomic [OF eval] eval show ?thesis
    by (force simp: sample_server_def empty_store_def split: sum.splits)
qed


end
