(* ===== verification/LeaseSpec.thy ===== *)
theory LeaseSpec
  imports BucketSpec
begin

section \<open>Concurrency leases: the limit, releases and request ownership\<close>

text \<open>
  \<open>lease_run\<close> is the history of one concurrency key: time passes, leases are granted, refused and
  released, other keys and other protection state change. Its last argument is the set of leases
  granted and not released. The theory shows that at most \<open>limit\<close> of them are within their deadline
  at any time, whatever expires in Valkey, and that releasing a request frees exactly its leases.
\<close>

definition request_assoc :: "vk_env \<Rightarrow> string \<Rightarrow> store \<Rightarrow> (string \<times> string) list" where
  "request_assoc env requestId s =
     (case vk_get env (request_leases s) (''conc-request:'' @ requestId) of None \<Rightarrow> [] | Some h \<Rightarrow> h)"

inductive lease_run :: "string \<Rightarrow> int \<Rightarrow> int \<Rightarrow> store \<Rightarrow> lease set \<Rightarrow> bool" for key limit where
  start: "lease_run key limit t empty_store {}"
| tick: "lease_run key limit t s G \<Longrightarrow> t \<le> t' \<Longrightarrow> lease_run key limit t' s G"
| acquire: "lease_run key limit t s G \<Longrightarrow> clock env = t \<Longrightarrow> leaseId \<notin> fst ` G \<Longrightarrow>
    acquireConcurrency env t leaseId key limit ttl absolute request s = (s', Inr h) \<Longrightarrow>
    lease_run key limit t s' (insert (leaseId, t + max ttl absolute * 1000) G)"
| refused: "lease_run key limit t s G \<Longrightarrow> clock env = t \<Longrightarrow>
    acquireConcurrency env t leaseId key limit ttl absolute request s = (s', Inl e) \<Longrightarrow>
    lease_run key limit t s' G"
| other_key: "lease_run key limit t s G \<Longrightarrow> clock env = t \<Longrightarrow> key' \<noteq> key \<Longrightarrow>
    acquireConcurrency env t leaseId key' limit' ttl absolute request s = (s', out) \<Longrightarrow>
    lease_run key limit t s' G"
| release: "lease_run key limit t s G \<Longrightarrow> clock env = t \<Longrightarrow>
    release_handle env t h s = (s', h') \<Longrightarrow>
    lease_run key limit t s'
      (if \<not> h_released h \<and> h_key h = ''conc:'' @ key then {g \<in> G. fst g \<noteq> h_lease h} else G)"
| release_request: "lease_run key limit t s G \<Longrightarrow> clock env = t \<Longrightarrow>
    s' = releaseRequestConcurrency env requestId s \<Longrightarrow>
    lease_run key limit t s' {g \<in> G. (fst g, ''conc:'' @ key) \<notin> set (request_assoc env requestId s)}"
| other_state: "lease_run key limit t s G \<Longrightarrow> leases s' = leases s \<Longrightarrow> lease_run key limit t s' G"

subsection \<open>The invariant of the stored set\<close>

definition lease_inv :: "string \<Rightarrow> int \<Rightarrow> int \<Rightarrow> store \<Rightarrow> lease set \<Rightarrow> bool" where
  "lease_inv key limit t s G \<longleftrightarrow>
     (case leases s (''conc:'' @ key) of
        None \<Rightarrow> (\<forall>g \<in> G. snd g \<le> t)
      | Some (ls, e) \<Rightarrow> int (length ls) \<le> limit
          \<and> (\<exists>d. e = Some d \<and> (\<forall>l \<in> set ls. snd l \<le> d))
          \<and> (\<forall>g \<in> G. t < snd g \<longrightarrow> g \<in> set ls))"

lemma get_leases_inv:
  assumes "lease_inv key limit (clock env) s G" and "0 \<le> limit"
  shows "int (length (get_leases env s (''conc:'' @ key))) \<le> limit"
    and "g \<in> G \<Longrightarrow> clock env < snd g \<Longrightarrow> g \<in> set (get_leases env s (''conc:'' @ key))"
  using assms
  by (fastforce simp: lease_inv_def get_leases_def vk_get_def split: option.splits prod.splits)+

lemma put_leases_inv:
  assumes "clock env = t" and "int (length ls) \<le> limit"
    and "\<And>g. g \<in> G \<Longrightarrow> t < snd g \<Longrightarrow> g \<in> set ls"
  shows "lease_inv key limit t (put_leases env t (''conc:'' @ key) ls s) G"
proof (cases ls)
  case Nil
  with assms(3) have "\<forall>g \<in> G. snd g \<le> t" by (metis empty_iff linorder_not_le list.set(1))
  with Nil show ?thesis by (simp add: lease_inv_def put_leases_def)
next
  case (Cons l rest)
  let ?latest = "foldl max (snd l) (map snd rest)"
  have "snd x \<le> ?latest" if "x \<in> set ls" for x
    using that Cons foldl_max_ge [of "snd l"] by auto
  then have "snd x \<le> t + max 1 (?latest - t)" if "x \<in> set ls" for x using that by fastforce
  with assms Cons show ?thesis
    by (auto simp: lease_inv_def put_leases_def vk_put_def Let_def)
qed

lemma put_leases_other:
  "k' \<noteq> k \<Longrightarrow> leases (put_leases env t k' ls s) k = leases s k"
  by (simp add: put_leases_def vk_put_def Let_def split: list.split)

lemma associate_leases [simp]: "leases (associate env t e rk l k s) = leases s"
  by (simp add: associate_def Let_def)

lemma lease_inv_cong:
  "leases s' (''conc:'' @ key) = leases s (''conc:'' @ key) \<Longrightarrow> lease_inv key limit t s G \<Longrightarrow>
     lease_inv key limit t s' G"
  by (simp add: lease_inv_def)

lemma lease_inv_fewer:
  "lease_inv key limit t s G \<Longrightarrow> G' \<subseteq> G \<Longrightarrow> lease_inv key limit t s G'"
  by (fastforce simp: lease_inv_def split: option.splits)

subsection \<open>What the operations do to the leases of a key\<close>

lemma acquire_cases:
  assumes "acquireConcurrency env t leaseId key limit ttl absolute request s = (s', out)"
  obtains (unavailable) e where "s' = s" "out = Inl e"
  | (full) e where "leases s' = leases (put_leases env t (''conc:'' @ key)
        (filter (\<lambda>l. snd l > t) (get_leases env s (''conc:'' @ key))) s)" "out = Inl e"
  | (granted) h active where "active = filter (\<lambda>l. snd l > t) (get_leases env s (''conc:'' @ key))"
      "int (length active) < limit" "out = Inr h"
      "leases s' = leases (put_leases env t (''conc:'' @ key)
         (z_add (leaseId, t + max ttl absolute * 1000) active) s)"
proof -
  let ?active = "filter (\<lambda>l. snd l > t) (get_leases env s (''conc:'' @ key))"
  consider "\<not> valkey_has_write_capacity env"
    | "valkey_has_write_capacity env" "int (length ?active) \<ge> limit"
    | "valkey_has_write_capacity env" "int (length ?active) < limit" by linarith
  then show thesis
  proof cases
    case 1
    with assms show thesis
      by (intro unavailable) (auto simp: acquireConcurrency_def concurrency_acquire_script_def Let_def)
  next
    case 2
    with assms show thesis
      by (intro full) (auto simp: acquireConcurrency_def concurrency_acquire_script_def Let_def)
  next
    case 3
    with assms show thesis
      by (intro granted [OF refl])
         (auto simp: acquireConcurrency_def concurrency_acquire_script_def Let_def split: option.splits)
  qed
qed

lemma leases_put_cong:
  "leases s' = leases (put_leases env t k ls s) \<Longrightarrow>
     lease_inv key limit t (put_leases env t k ls s) G \<Longrightarrow> lease_inv key limit t s' G"
  by (simp add: lease_inv_def)

lemma length_filter_limit: "int (length xs) \<le> n \<Longrightarrow> int (length (filter P xs)) \<le> n"
  using length_filter_le [of P xs] by linarith

lemma z_rem_other: "k' \<noteq> k \<Longrightarrow> leases (z_rem env (l, k) s) k' = leases s k'"
  by (auto simp: z_rem_def Let_def split: option.split)

lemma release_script_inv:
  assumes "lease_inv key limit t s G" and "clock env = t" and "0 \<le> limit"
  shows "lease_inv key limit t (concurrency_release_script env (''conc:'' @ key) l t s)
    {g \<in> G. fst g \<noteq> l}"
proof -
  let ?ls = "get_leases env s (''conc:'' @ key)"
  note I = get_leases_inv [of key limit env s G, unfolded assms(2), OF assms(1,3)]
  have "int (length (filter (\<lambda>x. t < snd x \<and> fst x \<noteq> l) ?ls)) \<le> limit"
    using I(1) by (rule length_filter_limit)
  with I(2) show ?thesis
    unfolding concurrency_release_script_def by (intro put_leases_inv assms(2)) auto
qed

lemma get_leases_z_rem:
  "get_leases env (z_rem env (l, k) s) k' =
     (if k' = k then filter (\<lambda>x. fst x \<noteq> l) (get_leases env s k') else get_leases env s k')"
proof (cases "k' = k")
  case False
  then show ?thesis by (simp add: get_leases_def vk_get_def z_rem_other)
next
  case True
  show ?thesis
  proof (cases "vk_get env (leases s) k")
    case None
    then show ?thesis using True by (simp add: z_rem_def get_leases_def)
  next
    case (Some ls)
    then obtain e where e: "leases s k = Some (ls, e)" "case e of None \<Rightarrow> True | Some t \<Rightarrow> clock env < t"
      by (auto simp: vk_get_def split: option.splits if_splits)
    then show ?thesis using True Some
      by (cases e) (simp_all add: z_rem_def get_leases_def vk_get_def Let_def)
  qed
qed

lemma get_leases_fold_z_rem:
  "get_leases env (fold (z_rem env) ps s) k = filter (\<lambda>x. (fst x, k) \<notin> set ps) (get_leases env s k)"
proof (induction ps arbitrary: s)
  case (Cons p ps)
  obtain l k' where p: "p = (l, k')" by (cases p)
  have "get_leases env (fold (z_rem env) (p # ps) s) k
      = filter (\<lambda>x. (fst x, k) \<notin> set ps) (get_leases env (z_rem env (l, k') s) k)"
    using Cons by (simp add: p)
  also have "\<dots> = filter (\<lambda>x. (fst x, k) \<notin> set (p # ps)) (get_leases env s k)"
    by (auto simp: get_leases_z_rem p conj_commute intro!: filter_cong)
  finally show ?case .
qed simp

lemma release_request_leases:
  "get_leases env (releaseRequestConcurrency env r s) k
     = filter (\<lambda>x. (fst x, k) \<notin> set (request_assoc env r s)) (get_leases env s k)"
proof -
  have "get_leases env (releaseRequestConcurrency env r s) k
      = get_leases env (fold (z_rem env) (request_assoc env r s) s) k"
    by (simp add: releaseRequestConcurrency_def request_concurrency_release_script_def request_assoc_def
        Let_def get_leases_def)
  then show ?thesis by (simp add: get_leases_fold_z_rem)
qed

lemma z_rem_inv:
  assumes "lease_inv key limit t s G" and "clock env = t"
  shows "lease_inv key limit t (z_rem env (l, k) s)
    {g \<in> G. \<not> (fst g = l \<and> k = ''conc:'' @ key)}"
proof (cases "k = ''conc:'' @ key")
  case False
  then have "leases (z_rem env (l, k) s) (''conc:'' @ key) = leases s (''conc:'' @ key)"
    using z_rem_other by metis
  from lease_inv_cong [OF this assms(1)] show ?thesis using False by simp
next
  case True
  show ?thesis
  proof (cases "leases s k")
    case None
    then have "z_rem env (l, k) s = s" by (simp add: z_rem_def vk_get_def)
    with lease_inv_fewer [OF assms(1)] show ?thesis by auto
  next
    case (Some p)
    then obtain ls d where p: "leases s k = Some (ls, Some d)" "int (length ls) \<le> limit"
      "\<forall>x \<in> set ls. snd x \<le> d" "\<forall>g \<in> G. t < snd g \<longrightarrow> g \<in> set ls"
      using assms(1) True by (cases p) (auto simp: lease_inv_def)
    let ?rest = "filter (\<lambda>x. fst x \<noteq> l) ls"
    have len: "int (length ?rest) \<le> limit" using p(2) by (rule length_filter_limit)
    have now: "leases (z_rem env (l, k) s) k = (if d \<le> t then Some (ls, Some d)
        else if ?rest = [] then None else Some (?rest, Some d))"
      using p(1) assms(2) by (simp add: z_rem_def vk_get_def Let_def)
    have kept: "g \<in> set ?rest" if "g \<in> G" "\<not> (fst g = l \<and> k = ''conc:'' @ key)" "t < snd g" for g
      using that p(4) True by simp
    show ?thesis
    proof (cases "d \<le> t")
      case True
      then show ?thesis
        using now p \<open>k = ''conc:'' @ key\<close> by (simp add: lease_inv_def)
    next
      case False
      show ?thesis
      proof (cases "?rest = []")
        case True
        have "snd g \<le> t" if "g \<in> {g \<in> G. \<not> (fst g = l \<and> k = ''conc:'' @ key)}" for g
        proof (rule ccontr)
          assume "\<not> snd g \<le> t"
          with kept [of g] that have "g \<in> set ?rest" by simp
          with True show False by (simp only: list.set empty_iff)
        qed
        moreover have "leases (z_rem env (l, k) s) (''conc:'' @ key) = None"
          using now False True \<open>k = ''conc:'' @ key\<close> by metis
        ultimately show ?thesis unfolding lease_inv_def by (simp only: option.case) blast
      next
        case rest: False
        have "leases (z_rem env (l, k) s) (''conc:'' @ key) = Some (?rest, Some d)"
          using now False rest \<open>k = ''conc:'' @ key\<close> by metis
        moreover have "\<forall>x \<in> set ?rest. snd x \<le> d" using p(3) by simp
        moreover have "\<forall>g \<in> {g \<in> G. \<not> (fst g = l \<and> k = ''conc:'' @ key)}. t < snd g \<longrightarrow> g \<in> set ?rest"
          using kept by blast
        ultimately show ?thesis
          unfolding lease_inv_def using len by (simp only: option.case prod.case) blast
      qed
    qed
  qed
qed

lemma fold_z_rem_inv:
  assumes "lease_inv key limit t s G" and "clock env = t"
  shows "lease_inv key limit t (fold (z_rem env) ps s) {g \<in> G. (fst g, ''conc:'' @ key) \<notin> set ps}"
  using assms(1)
proof (induction ps arbitrary: s G)
  case (Cons p ps)
  obtain l k where p: "p = (l, k)" by (cases p)
  have "lease_inv key limit t (fold (z_rem env) (p # ps) s)
      {g \<in> {g \<in> G. \<not> (fst g = l \<and> k = ''conc:'' @ key)}. (fst g, ''conc:'' @ key) \<notin> set ps}"
    using Cons.IH [OF z_rem_inv [OF Cons.prems assms(2), of l k]] by (simp add: p)
  then show ?case by (rule lease_inv_fewer) (auto simp: p)
qed simp

lemma lease_inv_later: "lease_inv key limit t s G \<Longrightarrow> t \<le> t' \<Longrightarrow> lease_inv key limit t' s G"
  by (fastforce simp: lease_inv_def split: option.splits)

lemma acquire_inv:
  assumes inv: "lease_inv key limit t s G" and clk: "clock env = t" and lim: "0 \<le> limit"
    and acq: "acquireConcurrency env t leaseId key limit ttl absolute request s = (s', out)"
  shows "out = Inl e \<Longrightarrow> lease_inv key limit t s' G"
    and "out = Inr h \<Longrightarrow> leaseId \<notin> fst ` G \<Longrightarrow>
      lease_inv key limit t s' (insert (leaseId, t + max ttl absolute * 1000) G)"
proof -
  note I = get_leases_inv [of key limit env s G, unfolded clk, OF inv lim]
  let ?active = "filter (\<lambda>l. snd l > t) (get_leases env s (''conc:'' @ key))"
  have act: "g \<in> set ?active" if "g \<in> G" "t < snd g" for g using I(2) that by simp
  have put: "lease_inv key limit t (put_leases env t (''conc:'' @ key) ?active s) G"
    using act length_filter_limit [OF I(1)] by (intro put_leases_inv clk) auto
  show "out = Inr h \<Longrightarrow> leaseId \<notin> fst ` G \<Longrightarrow>
      lease_inv key limit t s' (insert (leaseId, t + max ttl absolute * 1000) G)"
    using acq
  proof (cases rule: acquire_cases)
    case (granted h' active)
    let ?ls = "z_add (leaseId, t + max ttl absolute * 1000) active"
    assume fresh: "leaseId \<notin> fst ` G"
    have "int (length ?ls) \<le> limit"
      using granted(2) length_filter_limit [of active "limit - 1" "\<lambda>l'. fst l' \<noteq> leaseId"]
      by (simp add: z_add_def)
    moreover have "g \<in> set ?ls" if "g \<in> insert (leaseId, t + max ttl absolute * 1000) G" "t < snd g" for g
    proof (cases "g = (leaseId, t + max ttl absolute * 1000)")
      case False
      with that have "g \<in> G" by simp
      moreover from this have "fst g \<noteq> leaseId" using fresh by (metis imageI)
      ultimately show ?thesis using act [of g] that(2) by (simp add: z_add_def granted(1))
    qed (simp add: z_add_def)
    ultimately show ?thesis
      by (intro leases_put_cong [OF granted(4)] put_leases_inv clk)
  qed simp_all
  show "out = Inl e \<Longrightarrow> lease_inv key limit t s' G"
    using acq
  proof (cases rule: acquire_cases)
    case unavailable
    with inv show ?thesis by simp
  next
    case (full e)
    from leases_put_cong [OF full(1) put] show ?thesis .
  qed simp
qed

lemma acquire_other:
  assumes "acquireConcurrency env t leaseId key' limit' ttl absolute request s = (s', out)"
    and "key' \<noteq> key"
  shows "leases s' (''conc:'' @ key) = leases s (''conc:'' @ key)"
  using assms(1)
proof (cases rule: acquire_cases)
  case unavailable
  then show ?thesis by simp
next
  case (full e)
  then show ?thesis using assms(2) by (simp add: put_leases_other)
next
  case (granted h active)
  then show ?thesis using assms(2) by (simp add: put_leases_other)
qed

lemma release_handle_inv:
  assumes "lease_inv key limit t s G" and "clock env = t" and "0 \<le> limit"
    and "release_handle env t h s = (s', h')"
  shows "lease_inv key limit t s'
    (if \<not> h_released h \<and> h_key h = ''conc:'' @ key then {g \<in> G. fst g \<noteq> h_lease h} else G)"
proof (cases "\<not> h_released h \<and> h_key h = ''conc:'' @ key")
  case True
  with assms release_script_inv [of key limit t s G env "h_lease h"] show ?thesis
    by (auto simp: release_handle_def)
next
  case False
  then have "leases s' (''conc:'' @ key) = leases s (''conc:'' @ key)"
    using assms(4) put_leases_other [of "h_key h" "''conc:'' @ key"]
    by (auto simp: release_handle_def concurrency_release_script_def split: if_splits)
  from lease_inv_cong [OF this assms(1)] False show ?thesis by auto
qed

lemma lease_run_inv:
  assumes "lease_run key limit t s G" and "0 \<le> limit"
  shows "lease_inv key limit t s G"
  using assms
proof (induction rule: lease_run.induct)
  case (start t)
  then show ?case by (simp add: lease_inv_def empty_store_def)
next
  case (tick t s G t')
  then show ?case using lease_inv_later by blast
next
  case (acquire t s G env leaseId ttl absolute request s' h)
  then show ?case using acquire_inv(2) [of key limit t s G env] by blast
next
  case (refused t s G env leaseId ttl absolute request s' e)
  then show ?case using acquire_inv(1) [of key limit t s G env] by blast
next
  case (other_key t s G env key' leaseId limit' ttl absolute request s' out)
  then show ?case using lease_inv_cong [OF acquire_other] by blast
next
  case (release t s G env h s' h')
  then show ?case using release_handle_inv by blast
next
  case (release_request t s G env s' requestId)
  then have "lease_inv key limit t (fold (z_rem env) (request_assoc env requestId s) s)
      {g \<in> G. (fst g, ''conc:'' @ key) \<notin> set (request_assoc env requestId s)}"
    by (intro fold_z_rem_inv) auto
  then show ?case
    unfolding release_request.hyps(3)
    by (rule lease_inv_cong [rotated])
       (simp add: releaseRequestConcurrency_def request_concurrency_release_script_def request_assoc_def Let_def)
next
  case (other_state t s G s')
  then show ?case using lease_inv_cong [of s' key s] by simp
qed


text \<open>
  Finishing a request frees its leases and no other. After \<open>releaseRequestConcurrency\<close> each
  concurrency set holds exactly the leases it held that are not associated with the request, and
  a lease acquired for the request is associated with it.
\<close>

theorem request_release_exact:
  assumes "r \<noteq> []"
    and "acquireConcurrency env now leaseId key limit ttl absolute (Some r) s = (s1, Inr h)"
  shows "(leaseId, ''conc:'' @ key) \<in> set (request_assoc env r s1)
    \<and> get_leases env (releaseRequestConcurrency env r s1) k
        = filter (\<lambda>x. (fst x, k) \<notin> set (request_assoc env r s1)) (get_leases env s1 k)"
proof -
  let ?rk = "''conc-request:'' @ r" and ?d = "now + max ttl absolute * 1000"
  obtain s0 where s1: "s1 = associate env now ?d ?rk leaseId (''conc:'' @ key) s0"
    using assms by (auto simp: acquireConcurrency_def concurrency_acquire_script_def Let_def split: if_splits)
  have "request_assoc env r s1 = filter (\<lambda>(l, k). l \<noteq> leaseId) (request_assoc env r s0)
      @ [(leaseId, ''conc:'' @ key)]"
    by (simp add: s1 request_assoc_def associate_def vk_put_def vk_get_def Let_def)
  with release_request_leases show ?thesis by simp
qed

theorem request_release_exact_witness:
  "\<exists>s1 h. acquireConcurrency (sample_server 0) 0 ''l1'' ''acct'' 2 120 660 (Some ''r1'') empty_store = (s1, Inr h)
    \<and> ''l1'' \<notin> fst ` set (get_leases (sample_server 0)
         (releaseRequestConcurrency (sample_server 0) ''r1'' s1) ''conc:acct'')"
proof -
  have "valkey_has_write_capacity (sample_server 0)"
    by (simp add: sample_server_def valkey_has_write_capacity_def)
  moreover have "get_leases (sample_server 0) empty_store ''conc:acct'' = []"
    by (simp add: get_leases_def vk_get_def empty_store_def)
  ultimately obtain s1 h where acq: "acquireConcurrency (sample_server 0) 0 ''l1'' ''acct'' 2 120 660
      (Some ''r1'') empty_store = (s1, Inr h)"
    by (simp add: acquireConcurrency_def concurrency_acquire_script_def Let_def)
  from request_release_exact [OF _ acq, of "''conc:acct''"] acq show ?thesis by force
qed


end
