(* ===== verification/CapacitySpec.thy ===== *)
theory CapacitySpec
  imports BucketSpec
begin

section \<open>The token capacity of a plan and a model\<close>

text \<open>
  \<open>inferenceTokenCapacity\<close> is what the callers compare an estimate with before admission. It is exact:
  an estimate passes the account, account-model and provider buckets of a fresh request if and only
  if it is at most this capacity.
\<close>

lemma fresh_level [simp]: "option_level env opt empty_store = o_capacity opt"
  by (simp add: option_level_def empty_store_def vk_get_def bucket_level_def)

lemma fresh_admits:
  assumes "valkey_has_write_capacity env"
  shows "(\<exists>r. snd (evaluateBuckets env (clock env) opts empty_store) = Inr r)
    \<longleftrightarrow> (\<forall>opt \<in> set opts. option_cost opt \<le> o_capacity opt)"
proof -
  have states: "bucket_states env (clock env) (map script_args opts) empty_store
      = map (\<lambda>opt. (script_args opt, o_capacity opt)) opts"
    by (simp add: bucket_states_def empty_store_def vk_get_def bucket_level_def)
  show ?thesis
    using assms
    by (auto simp: evaluateBuckets_def multi_bucket_script_def Let_def states filter_empty_conv
        linorder_not_le split: if_splits)
qed

lemma fresh_checks:
  assumes "valkey_has_write_capacity env"
  shows "snd (checkBuckets env (clock env) opts empty_store) = Inr ()
    \<longleftrightarrow> (\<forall>opt \<in> set opts. option_cost opt \<le> o_capacity opt)"
  using fresh_admits [OF assms, of opts]
  by (auto simp: checkBuckets_def split: prod.splits sum.splits)

lemma rate_bucket_sel [simp]:
  "o_capacity (rate_bucket k r c) = r"
  "option_cost (rate_bucket k r c) = (case c of None \<Rightarrow> 1 | Some x \<Rightarrow> x)"
  by (simp_all add: rate_bucket_def option_cost_def)

lemma provider_limits_positive:
  "providerModelLimits st p m = (rpm, tpm) \<Longrightarrow> 1 \<le> rpm \<and> 1000 \<le> tpm"
  by (auto simp: providerModelLimits_def Let_def split: if_splits option.splits)

text \<open>
  The advertised capacity is exact. For a plan of at least one request and one token a minute,
  on any Venice limits: a fresh request passes the account (and key) buckets, the account-model
  buckets and the provider buckets if and only if its token estimate is at most
  \<open>inferenceTokenCapacity\<close>.
\<close>

theorem token_capacity_exact:
  assumes "valkey_has_write_capacity env"
    and "1 \<le> requestsPerMinute plan" and "1 \<le> tokensPerMinute plan"
  shows "((\<exists>w. snd (limitAccountInference env (clock env) account key plan est empty_store) = Inr w)
      \<and> snd (limitAccountModelInference env (clock env) st account plan provider model est empty_store) = Inr ()
      \<and> snd (limitProviderInference env (clock env) st provider model est empty_store) = Inr ())
    \<longleftrightarrow> est \<le> inferenceTokenCapacity st plan provider model"
proof -
  obtain rpm tpm where limits: "providerModelLimits st provider model = (rpm, tpm)" by fastforce
  note L = provider_limits_positive [OF limits]
  have plan: "(1 :: rat) \<le> of_int (requestsPerMinute plan)" "(1 :: rat) \<le> of_int (tokensPerMinute plan)"
    using assms(2,3) by simp_all
  have account: "(\<exists>w. snd (limitAccountInference env (clock env) account key plan est empty_store) = Inr w)
      \<longleftrightarrow> est \<le> of_int (tokensPerMinute plan)"
    using fresh_admits [OF assms(1), of "accountInferenceBuckets account key plan est"] plan
    by (fastforce simp: limitAccountInference_def checkBucketsWithWindows_def accountInferenceBuckets_def
        Let_def split: prod.splits sum.splits option.splits if_splits)
  have shared: "snd (limitAccountModelInference env (clock env) st account plan provider model est empty_store)
      = Inr () \<longleftrightarrow> est \<le> accountModelTpm plan tpm"
    using plan L unfolding limitAccountModelInference_def fresh_checks [OF assms(1)]
    by (auto simp: accountModelBuckets_def limits Let_def accountModelTpm_def accountModelRpm_def)
  have upstream: "snd (limitProviderInference env (clock env) st provider model est empty_store) = Inr ()
      \<longleftrightarrow> est \<le> tpm"
    using L unfolding limitProviderInference_def fresh_checks [OF assms(1)]
    by (auto simp: providerBuckets_def limits Let_def)
  show ?thesis
    unfolding account shared upstream inferenceTokenCapacity_def limits by auto
qed

theorem token_capacity_exact_witness:
  "((\<exists>w. snd (limitAccountInference (sample_server 0) 0 ''a'' None payg_plan 160000 empty_store) = Inr w)
      \<and> snd (limitAccountModelInference (sample_server 0) 0 \<lparr> vn_limits = [], vn_expires = 0, vn_observed = 0 \<rparr>
          ''a'' payg_plan ''near'' ''m'' 160000 empty_store) = Inr ()
      \<and> snd (limitProviderInference (sample_server 0) 0 \<lparr> vn_limits = [], vn_expires = 0, vn_observed = 0 \<rparr>
          ''near'' ''m'' 160000 empty_store) = Inr ())
    \<and> inferenceTokenCapacity \<lparr> vn_limits = [], vn_expires = 0, vn_observed = 0 \<rparr> payg_plan ''near'' ''m'' = 200000"
proof -
  have "valkey_has_write_capacity (sample_server 0)"
    by (simp add: sample_server_def valkey_has_write_capacity_def)
  moreover have "clock (sample_server 0) = 0" by (simp add: sample_server_def)
  moreover have cap: "inferenceTokenCapacity \<lparr> vn_limits = [], vn_expires = 0, vn_observed = 0 \<rparr> payg_plan
      ''near'' ''m'' = 200000"
    by (simp add: inferenceTokenCapacity_def providerModelLimits_def accountModelTpm_def payg_plan_def
        account_model_share_def)
  ultimately show ?thesis
    using token_capacity_exact [of "sample_server 0" payg_plan "''a''" None 160000
        "\<lparr> vn_limits = [], vn_expires = 0, vn_observed = 0 \<rparr>" "''near''" "''m''"]
    by (simp add: payg_plan_def)
qed

end
