(* ===== verification/Circuit.thy ===== *)
theory Circuit
  imports Prelude
begin

section \<open>The operational circuit breaker (providers/circuitBreaker.ts)\<close>

text \<open>
  The class \<open>OperationalCircuitBreaker\<close> as a state record, the classification of failures, and the
  bounded registry of scoped breakers. A permit is an object whose identity the code tracks in a
  \<open>WeakSet\<close>: here it carries a number, fresh at every \<open>acquire\<close>. The clock is an argument.
  \<open>circuit_run\<close> is the history of a breaker with the permits it handed out; the properties are that a
  half-open breaker is always waiting for exactly one probe, so it can never stay half-open with
  nobody left to settle it, and that a closed breaker is below both of its thresholds.
\<close>

record circuit_options =
  consecutiveFailureThreshold :: int
  burstFailureThreshold :: int
  burstWindowMs :: int
  openDurationMs :: int

definition default_circuit_options :: circuit_options where
  "default_circuit_options = \<lparr> consecutiveFailureThreshold = 5, burstFailureThreshold = 10,
     burstWindowMs = 30000, openDurationMs = 15000 \<rparr>"

datatype circuit_state = Closed | Open | HalfOpen

record permit =
  permit_id :: nat
  halfOpenProbe :: bool
  generation :: nat

record breaker =
  state :: circuit_state
  consecutiveFailures :: int
  recentFailures :: "int list"
  openedAt :: int
  current_generation :: nat
  settledPermits :: "nat list"
  next_permit :: nat

definition new_breaker :: breaker where
  "new_breaker = \<lparr> state = Closed, consecutiveFailures = 0, recentFailures = [], openedAt = 0,
     current_generation = 0, settledPermits = [], next_permit = 0 \<rparr>"

definition new_permit :: "breaker \<Rightarrow> bool \<Rightarrow> permit" where
  "new_permit b probe =
     \<lparr> permit_id = next_permit b, halfOpenProbe = probe, generation = current_generation b \<rparr>"

definition acquire :: "circuit_options \<Rightarrow> int \<Rightarrow> breaker \<Rightarrow> breaker \<times> permit result" where
  "acquire opts now b =
     (if state b = Open \<and> now - openedAt b \<ge> openDurationMs opts
      then (b\<lparr> state := HalfOpen, next_permit := next_permit b + 1 \<rparr>, Inr (new_permit b True))
      else if state b \<noteq> Closed then (b, Inl (ProviderErr 503 ''provider_unavailable''))
      else (b\<lparr> next_permit := next_permit b + 1 \<rparr>, Inr (new_permit b False)))"

definition settle :: "permit \<Rightarrow> breaker \<Rightarrow> breaker \<times> bool" where
  "settle p b =
     (if permit_id p \<in> set (settledPermits b) then (b, False)
      else (b\<lparr> settledPermits := permit_id p # settledPermits b \<rparr>, True))"

definition open_circuit :: "int \<Rightarrow> breaker \<Rightarrow> breaker" where
  "open_circuit now b =
     b\<lparr> state := Open, openedAt := now, current_generation := current_generation b + 1 \<rparr>"

definition recordSuccess :: "circuit_options \<Rightarrow> int \<Rightarrow> permit \<Rightarrow> breaker \<Rightarrow> breaker" where
  "recordSuccess opts now p b =
     (case settle p b of
        (b1, fresh) \<Rightarrow>
          if \<not> fresh then b1
          else if generation p \<noteq> current_generation b1 then b1
          else
            let recovered = halfOpenProbe p \<or> state b1 = HalfOpen in
            b1\<lparr> state := Closed, consecutiveFailures := 0,
                recentFailures := (if recovered then []
                  else filter (\<lambda>t. now - t \<le> burstWindowMs opts) (recentFailures b1)),
                openedAt := 0 \<rparr>)"

definition recordOperationalFailure :: "circuit_options \<Rightarrow> int \<Rightarrow> permit \<Rightarrow> breaker \<Rightarrow> breaker" where
  "recordOperationalFailure opts now p b =
     (case settle p b of
        (b1, fresh) \<Rightarrow>
          if \<not> fresh then b1
          else if generation p \<noteq> current_generation b1 then b1
          else if halfOpenProbe p \<or> state b1 = HalfOpen then open_circuit now b1
          else
            let b2 = b1\<lparr> consecutiveFailures := consecutiveFailures b1 + 1,
                         recentFailures := filter (\<lambda>t. now - t \<le> burstWindowMs opts) (recentFailures b1)
                           @ [now] \<rparr>
            in if consecutiveFailures b2 \<ge> consecutiveFailureThreshold opts
                  \<or> int (length (recentFailures b2)) \<ge> burstFailureThreshold opts
               then open_circuit now b2 else b2)"

definition recordNeutral :: "circuit_options \<Rightarrow> int \<Rightarrow> permit \<Rightarrow> breaker \<Rightarrow> breaker" where
  "recordNeutral opts now p b =
     (case settle p b of
        (b1, fresh) \<Rightarrow>
          if \<not> fresh then b1
          else if generation p \<noteq> current_generation b1 then b1
          else if halfOpenProbe p \<and> state b1 = HalfOpen
          then b1\<lparr> state := Open, openedAt := now - openDurationMs opts \<rparr>
          else b1)"

definition snapshot :: "circuit_options \<Rightarrow> int \<Rightarrow> breaker \<Rightarrow> circuit_state \<times> int \<times> nat" where
  "snapshot opts now b =
     (state b, consecutiveFailures b,
      length (filter (\<lambda>t. now - t \<le> burstWindowMs opts) (recentFailures b)))"

subsection \<open>Classification\<close>

datatype failure_scope = NetworkScope | ModelScope

text \<open>An error value of the provider path: its class and the fields the classification reads.\<close>

datatype thrown =
    ThrownProvider string "int option"
  | ThrownDom string
  | ThrownType string "string option"
  | ThrownOther

definition operationalFailureScope :: "thrown \<Rightarrow> failure_scope option" where
  "operationalFailureScope e =
     (case e of
        ThrownProvider code status \<Rightarrow>
          if code = ''provider_timeout'' then Some NetworkScope
          else if code \<in> {''provider_invalid_json'', ''provider_no_stream'', ''provider_stream_incomplete''}
               \<or> status = Some 429 \<or> (case status of None \<Rightarrow> False | Some n \<Rightarrow> n \<ge> 500)
          then Some ModelScope else None
      | ThrownDom name \<Rightarrow>
          if name \<in> {''AbortError'', ''NetworkError'', ''TimeoutError''} then Some NetworkScope else None
      | ThrownType message cause_code \<Rightarrow>
          if message = ''fetch failed'' \<or> message = ''terminated'' \<or> cause_code \<noteq> None
          then Some NetworkScope else None
      | ThrownOther \<Rightarrow> None)"

definition isOperationalProviderFailure :: "thrown \<Rightarrow> bool" where
  "isOperationalProviderFailure e \<longleftrightarrow> operationalFailureScope e \<noteq> None"

subsection \<open>The registry\<close>

record circuit_registry =
  maxScopedBreakers :: nat
  scopedBreakers :: "(string \<times> breaker) list"

definition new_registry :: "nat option \<Rightarrow> circuit_registry" where
  "new_registry limit =
     \<lparr> maxScopedBreakers = max 1 (min 4096 (case limit of None \<Rightarrow> 512 | Some n \<Rightarrow> n)),
       scopedBreakers = [] \<rparr>"

datatype venice_operation = VAttestation | VChat | VStream | VEmbeddings | VImage | VSpeech

definition venice_operation_name :: "venice_operation \<Rightarrow> string" where
  "venice_operation_name op = (case op of VAttestation \<Rightarrow> ''attestation'' | VChat \<Rightarrow> ''chat''
     | VStream \<Rightarrow> ''stream'' | VEmbeddings \<Rightarrow> ''embeddings'' | VImage \<Rightarrow> ''image'' | VSpeech \<Rightarrow> ''speech'')"

definition scope_key :: "venice_operation \<Rightarrow> string \<Rightarrow> string" where
  "scope_key op externalModelId = venice_operation_name op @ [CHR 0x00] @ take 256 externalModelId"

text \<open>A JavaScript map in insertion order; the breaker returned is the one stored under the key.\<close>

definition scoped :: "venice_operation \<Rightarrow> string \<Rightarrow> circuit_registry \<Rightarrow> circuit_registry \<times> breaker" where
  "scoped op externalModelId r =
     (let key = scope_key op externalModelId in
      case map_of (scopedBreakers r) key of
        Some existing \<Rightarrow>
          (r\<lparr> scopedBreakers := filter (\<lambda>p. fst p \<noteq> key) (scopedBreakers r) @ [(key, existing)] \<rparr>, existing)
      | None \<Rightarrow>
          let kept = (if length (scopedBreakers r) \<ge> maxScopedBreakers r
                      then tl (scopedBreakers r) else scopedBreakers r)
          in (r\<lparr> scopedBreakers := kept @ [(key, new_breaker)] \<rparr>, new_breaker))"

definition update_scoped :: "string \<Rightarrow> breaker \<Rightarrow> circuit_registry \<Rightarrow> circuit_registry" where
  "update_scoped key b r =
     r\<lparr> scopedBreakers := map (\<lambda>p. if fst p = key then (key, b) else p) (scopedBreakers r) \<rparr>"

definition scopedSize :: "circuit_registry \<Rightarrow> nat" where
  "scopedSize r = length (scopedBreakers r)"

subsection \<open>The history of a breaker\<close>

inductive circuit_run :: "circuit_options \<Rightarrow> int \<Rightarrow> breaker \<Rightarrow> permit list \<Rightarrow> bool" for opts where
  start: "circuit_run opts t new_breaker []"
| tick: "circuit_run opts t b P \<Longrightarrow> t \<le> t' \<Longrightarrow> circuit_run opts t' b P"
| granted: "circuit_run opts t b P \<Longrightarrow> acquire opts t b = (b', Inr p) \<Longrightarrow> circuit_run opts t b' (p # P)"
| refused: "circuit_run opts t b P \<Longrightarrow> acquire opts t b = (b', Inl e) \<Longrightarrow> circuit_run opts t b' P"
| success: "circuit_run opts t b P \<Longrightarrow> p \<in> set P \<Longrightarrow> circuit_run opts t (recordSuccess opts t p b) P"
| failure: "circuit_run opts t b P \<Longrightarrow> p \<in> set P \<Longrightarrow>
    circuit_run opts t (recordOperationalFailure opts t p b) P"
| neutral: "circuit_run opts t b P \<Longrightarrow> p \<in> set P \<Longrightarrow> circuit_run opts t (recordNeutral opts t p b) P"

text \<open>The permits that can still change the breaker: unsettled and of its generation.\<close>

definition outstanding :: "breaker \<Rightarrow> permit list \<Rightarrow> permit list" where
  "outstanding b P =
     filter (\<lambda>p. permit_id p \<notin> set (settledPermits b) \<and> generation p = current_generation b) P"

definition permits_ok :: "breaker \<Rightarrow> permit list \<Rightarrow> bool" where
  "permits_ok b P \<longleftrightarrow> distinct (map permit_id P)
     \<and> (\<forall>p \<in> set P. permit_id p < next_permit b \<and> generation p \<le> current_generation b)
     \<and> (\<forall>i \<in> set (settledPermits b). i < next_permit b)"

definition probes_ok :: "breaker \<Rightarrow> permit list \<Rightarrow> bool" where
  "probes_ok b P \<longleftrightarrow>
     (case state b of
        Closed \<Rightarrow> \<forall>p \<in> set (outstanding b P). \<not> halfOpenProbe p
      | Open \<Rightarrow> outstanding b P = []
      | HalfOpen \<Rightarrow> \<exists>p. outstanding b P = [p] \<and> halfOpenProbe p)"

definition counts_ok :: "circuit_options \<Rightarrow> breaker \<Rightarrow> bool" where
  "counts_ok opts b \<longleftrightarrow> (state b = Closed \<longrightarrow>
     consecutiveFailures b < consecutiveFailureThreshold opts
     \<and> int (length (recentFailures b)) < burstFailureThreshold opts)"

lemma outstanding_cong:
  "settledPermits b' = settledPermits b \<Longrightarrow> current_generation b' = current_generation b \<Longrightarrow>
     outstanding b' P = outstanding b P"
  by (simp add: outstanding_def)

lemma outstanding_newer:
  "\<forall>p \<in> set P. generation p < current_generation b \<Longrightarrow> outstanding b P = []"
  by (auto simp: outstanding_def filter_empty_conv)

lemma outstanding_settle:
  assumes "distinct (map permit_id P)" and "p \<in> set P"
    and "settledPermits b' = permit_id p # settledPermits b" and "current_generation b' = current_generation b"
  shows "outstanding b' P = filter (\<lambda>q. q \<noteq> p) (outstanding b P)"
proof -
  have "permit_id q = permit_id p \<longleftrightarrow> q = p" if "q \<in> set P" for q
    using assms(1,2) that by (auto simp: distinct_map inj_on_def)
  then show ?thesis
    by (auto simp: outstanding_def assms(3,4) intro!: filter_cong)
qed

lemma acquire_ok:
  assumes "permits_ok b P" and "probes_ok b P" and "counts_ok opts b"
    and "acquire opts t b = (b', Inr p)"
  shows "permits_ok b' (p # P) \<and> probes_ok b' (p # P) \<and> counts_ok opts b'"
proof -
  have fresh: "next_permit b \<notin> set (settledPermits b)" "\<forall>q \<in> set P. permit_id q \<noteq> next_permit b"
    using assms(1) by (auto simp: permits_ok_def)
  have same: "outstanding b' P = outstanding b P"
    using assms(4) by (intro outstanding_cong) (auto simp: acquire_def split: if_splits)
  have "permits_ok b' (p # P)"
    using assms(1,4) fresh
    by (auto simp: permits_ok_def acquire_def new_permit_def less_SucI split: if_splits)
  moreover have "outstanding b' (p # P) = p # outstanding b P"
    using assms(4) fresh same
    by (auto simp: outstanding_def acquire_def new_permit_def split: if_splits)
  with assms(2,4) have "probes_ok b' (p # P)"
    by (auto simp: probes_ok_def acquire_def new_permit_def split: if_splits)
  moreover have "counts_ok opts b'"
    using assms(3,4) by (auto simp: counts_ok_def acquire_def split: if_splits)
  ultimately show ?thesis by simp
qed

lemma acquire_refused: "acquire opts t b = (b', Inl e) \<Longrightarrow> b' = b"
  by (auto simp: acquire_def split: if_splits)

definition breaker_ok :: "circuit_options \<Rightarrow> breaker \<Rightarrow> permit list \<Rightarrow> bool" where
  "breaker_ok opts b P \<longleftrightarrow> permits_ok b P \<and> probes_ok b P \<and> counts_ok opts b"

text \<open>
  Settling a permit: either it was settled before, or it is of an older generation and nothing else
  changes, or it is one of the outstanding ones and leaves them.
\<close>

lemma settle_cases:
  assumes "breaker_ok opts b P" and "p \<in> set P"
  obtains (again) "settle p b = (b, False)"
  | (stale) b1 where "settle p b = (b1, True)" "generation p \<noteq> current_generation b1"
      "breaker_ok opts b1 P"
  | (current) b1 where "settle p b = (b1, True)" "generation p = current_generation b1"
      "p \<in> set (outstanding b P)" "outstanding b1 P = filter (\<lambda>q. q \<noteq> p) (outstanding b P)"
      "permits_ok b1 P" "b1 = b\<lparr> settledPermits := permit_id p # settledPermits b \<rparr>"
proof (cases "permit_id p \<in> set (settledPermits b)")
  case True
  then show thesis by (intro again) (simp add: settle_def)
next
  case False
  let ?b1 = "b\<lparr> settledPermits := permit_id p # settledPermits b \<rparr>"
  have s: "settle p b = (?b1, True)" using False by (simp add: settle_def)
  have P: "permits_ok b P" using assms(1) by (simp add: breaker_ok_def)
  then have out: "outstanding ?b1 P = filter (\<lambda>q. q \<noteq> p) (outstanding b P)"
    using assms(2) by (intro outstanding_settle) (simp_all add: permits_ok_def)
  have P1: "permits_ok ?b1 P" using P assms(2) by (auto simp: permits_ok_def)
  show thesis
  proof (cases "generation p = current_generation b")
    case True
    then show thesis using s out P1 False assms(2) by (intro current) (auto simp: outstanding_def)
  next
    case gen: False
    then have "filter (\<lambda>q. q \<noteq> p) (outstanding b P) = outstanding b P"
      by (auto simp: outstanding_def intro!: filter_cong)
    then have "breaker_ok opts ?b1 P"
      using assms(1) P1 out by (simp add: breaker_ok_def probes_ok_def counts_ok_def split: circuit_state.splits)
    with s gen show thesis by (intro stale) auto
  qed
qed

lemma open_circuit_ok:
  assumes "permits_ok b P"
  shows "breaker_ok opts (open_circuit t b) P"
proof -
  have "outstanding (open_circuit t b) P = []"
    using assms by (intro outstanding_newer) (auto simp: open_circuit_def permits_ok_def less_Suc_eq_le)
  then show ?thesis
    using assms by (auto simp: breaker_ok_def probes_ok_def counts_ok_def permits_ok_def open_circuit_def le_SucI)
qed

lemma current_state:
  assumes "breaker_ok opts b P" and "p \<in> set (outstanding b P)"
  shows "state b = Closed \<and> \<not> halfOpenProbe p
    \<or> state b = HalfOpen \<and> halfOpenProbe p \<and> outstanding b P = [p]"
  using assms by (auto simp: breaker_ok_def probes_ok_def split: circuit_state.splits)

lemma recordSuccess_ok:
  assumes ok: "breaker_ok opts b P" and p: "p \<in> set P"
    and thr: "0 < consecutiveFailureThreshold opts" "0 < burstFailureThreshold opts"
  shows "breaker_ok opts (recordSuccess opts t p b) P"
  using ok p
proof (cases rule: settle_cases)
  case again
  then show ?thesis using ok by (simp add: recordSuccess_def)
next
  case (stale b1)
  then show ?thesis by (simp add: recordSuccess_def)
next
  case (current b1)
  let ?b = "recordSuccess opts t p b"
  have same: "outstanding ?b P = outstanding b1 P" and perm: "permits_ok ?b P"
    using current by (auto simp: recordSuccess_def Let_def permits_ok_def outstanding_def)
  have closed: "state ?b = Closed" "consecutiveFailures ?b = 0"
    using current by (simp_all add: recordSuccess_def Let_def)
  have "int (length (recentFailures ?b)) < burstFailureThreshold opts"
  proof (cases "state b = HalfOpen")
    case True
    then show ?thesis using current thr by (simp add: recordSuccess_def Let_def)
  next
    case False
    with current_state [OF ok current(3)] ok current(6)
    have "int (length (recentFailures b1)) < burstFailureThreshold opts"
      by (simp add: breaker_ok_def counts_ok_def)
    moreover have "int (length (filter (\<lambda>x. t - x \<le> burstWindowMs opts) (recentFailures b1)))
        \<le> int (length (recentFailures b1))"
      by simp
    ultimately have "int (length (filter (\<lambda>x. t - x \<le> burstWindowMs opts) (recentFailures b1)))
        < burstFailureThreshold opts"
      by linarith
    then show ?thesis using current(1,2) thr by (simp add: recordSuccess_def Let_def)
  qed
  moreover have "\<forall>q \<in> set (outstanding b1 P). \<not> halfOpenProbe q"
    using current_state [OF ok current(3)] ok current(4)
    by (auto simp: breaker_ok_def probes_ok_def)
  ultimately show ?thesis
    using perm closed thr same by (simp add: breaker_ok_def probes_ok_def counts_ok_def)
qed

lemma recordOperationalFailure_ok:
  assumes ok: "breaker_ok opts b P" and p: "p \<in> set P"
  shows "breaker_ok opts (recordOperationalFailure opts t p b) P"
  using ok p
proof (cases rule: settle_cases)
  case again
  then show ?thesis using ok by (simp add: recordOperationalFailure_def)
next
  case (stale b1)
  then show ?thesis by (simp add: recordOperationalFailure_def)
next
  case (current b1)
  let ?b2 = "b1\<lparr> consecutiveFailures := consecutiveFailures b1 + 1,
    recentFailures := filter (\<lambda>x. t - x \<le> burstWindowMs opts) (recentFailures b1) @ [t] \<rparr>"
  have P2: "permits_ok ?b2 P" using current(5) by (simp add: permits_ok_def)
  show ?thesis
  proof (cases "state b = HalfOpen \<or> halfOpenProbe p
      \<or> consecutiveFailures ?b2 \<ge> consecutiveFailureThreshold opts
      \<or> int (length (recentFailures ?b2)) \<ge> burstFailureThreshold opts")
    case True
    then have "recordOperationalFailure opts t p b \<in> {open_circuit t b1, open_circuit t ?b2}"
      using current(1,2,6) by (auto simp: recordOperationalFailure_def Let_def)
    with open_circuit_ok current(5) P2 show ?thesis by auto
  next
    case False
    then have eq: "recordOperationalFailure opts t p b = ?b2"
      using current(1,2,6) by (auto simp: recordOperationalFailure_def Let_def)
    have "outstanding ?b2 P = outstanding b1 P" by (simp add: outstanding_def)
    moreover have "state ?b2 = Closed" using False current_state [OF ok current(3)] current(6) by simp
    moreover have "\<forall>q \<in> set (outstanding b1 P). \<not> halfOpenProbe q"
      using current_state [OF ok current(3)] False ok current(4) by (auto simp: breaker_ok_def probes_ok_def)
    ultimately show ?thesis
      unfolding eq using P2 False by (simp add: breaker_ok_def probes_ok_def counts_ok_def)
  qed
qed

lemma recordNeutral_ok:
  assumes ok: "breaker_ok opts b P" and p: "p \<in> set P"
  shows "breaker_ok opts (recordNeutral opts t p b) P"
  using ok p
proof (cases rule: settle_cases)
  case again
  then show ?thesis using ok by (simp add: recordNeutral_def)
next
  case (stale b1)
  then show ?thesis by (simp add: recordNeutral_def)
next
  case (current b1)
  let ?b = "recordNeutral opts t p b"
  have same: "outstanding ?b P = outstanding b1 P" and perm: "permits_ok ?b P"
    using current by (auto simp: recordNeutral_def permits_ok_def outstanding_def)
  from current_state [OF ok current(3)] show ?thesis
  proof
    assume "state b = Closed \<and> \<not> halfOpenProbe p"
    then have "?b = b1" "state b1 = Closed" using current by (simp_all add: recordNeutral_def)
    with ok current show ?thesis by (simp add: breaker_ok_def probes_ok_def counts_ok_def)
  next
    assume h: "state b = HalfOpen \<and> halfOpenProbe p \<and> outstanding b P = [p]"
    then have "state ?b = Open" using current by (simp add: recordNeutral_def)
    with perm same current(4) h show ?thesis by (simp add: breaker_ok_def probes_ok_def counts_ok_def)
  qed
qed

lemma circuit_run_ok:
  assumes "circuit_run opts t b P"
    and "0 < consecutiveFailureThreshold opts" and "0 < burstFailureThreshold opts"
  shows "breaker_ok opts b P"
  using assms
proof (induction rule: circuit_run.induct)
  case (start t)
  then show ?case
    by (simp add: breaker_ok_def permits_ok_def probes_ok_def counts_ok_def new_breaker_def outstanding_def)
next
  case (granted t b P b' p)
  then show ?case using acquire_ok [of b P opts t b' p] by (simp add: breaker_ok_def)
next
  case (refused t b P b' e)
  then show ?case using acquire_refused by blast
qed (simp_all add: recordSuccess_ok recordOperationalFailure_ok recordNeutral_ok)

text \<open>
  C33. A half-open breaker always has exactly one probe out, and whatever becomes of it the breaker
  moves on. In every history of a breaker: when it is half-open there is one unsettled permit of its
  generation, the probe; its success closes the breaker, its failure opens it again, and its
  cancellation makes the next \<open>acquire\<close> at the same time a new probe. So no sequence of late,
  repeated or cancelled settlements leaves the provider refused forever.
\<close>

theorem half_open_never_stuck:
  assumes "circuit_run opts t b P" and "state b = HalfOpen"
    and "0 < consecutiveFailureThreshold opts" and "0 < burstFailureThreshold opts"
  shows "\<exists>p. outstanding b P = [p] \<and> halfOpenProbe p
    \<and> state (recordSuccess opts t p b) = Closed
    \<and> state (recordOperationalFailure opts t p b) = Open
    \<and> (\<exists>b' q. acquire opts t (recordNeutral opts t p b) = (b', Inr q) \<and> halfOpenProbe q)"
proof -
  have ok: "breaker_ok opts b P" using circuit_run_ok assms by blast
  then obtain p where p: "outstanding b P = [p]" "halfOpenProbe p"
    using assms(2) by (auto simp: breaker_ok_def probes_ok_def)
  then have "p \<in> set (outstanding b P)" by simp
  then have "permit_id p \<notin> set (settledPermits b)" "generation p = current_generation b"
    by (auto simp: outstanding_def)
  with p assms(2) show ?thesis
    by (auto simp: recordSuccess_def recordOperationalFailure_def recordNeutral_def settle_def Let_def
        open_circuit_def acquire_def new_permit_def)
qed

text \<open>
  An outage lets at most one request through, and a closed breaker is below its thresholds. In
  every history: unless the breaker is closed, at most one permit is unsettled and can still change
  it, and an \<open>acquire\<close> that grants one grants a probe, no sooner than the open duration after the
  failure; when it is closed, both failure counters are below the thresholds that open it.
\<close>

theorem outage_admits_one_probe:
  assumes "circuit_run opts t b P"
    and "0 < consecutiveFailureThreshold opts" and "0 < burstFailureThreshold opts"
  shows "if state b = Closed
    then consecutiveFailures b < consecutiveFailureThreshold opts
      \<and> int (length (recentFailures b)) < burstFailureThreshold opts
    else length (outstanding b P) \<le> 1
      \<and> (case acquire opts t b of
           (b', Inr p) \<Rightarrow> outstanding b P = [] \<and> halfOpenProbe p \<and> openedAt b + openDurationMs opts \<le> t
         | (b', Inl e) \<Rightarrow> b' = b)"
proof -
  have "breaker_ok opts b P" using circuit_run_ok assms by blast
  then show ?thesis
    by (auto simp: breaker_ok_def probes_ok_def counts_ok_def acquire_def new_permit_def
        split: circuit_state.splits if_splits)
qed

subsection \<open>The registry stays bounded\<close>

definition registry_ok :: "circuit_registry \<Rightarrow> bool" where
  "registry_ok r \<longleftrightarrow> 1 \<le> maxScopedBreakers r \<and> maxScopedBreakers r \<le> 4096
     \<and> length (scopedBreakers r) \<le> maxScopedBreakers r \<and> distinct (map fst (scopedBreakers r))"

lemma registry_ok_new: "registry_ok (new_registry limit)"
  by (simp add: registry_ok_def new_registry_def)

text \<open>
  The registry of scoped breakers never exceeds its bound and keeps what it holds. A lookup
  returns the breaker stored for its operation and model (a fresh one when there is none), stores it
  under that key, and loses at most one other breaker: the least recently used one, and only when
  the registry is full.
\<close>

theorem scoped_lookup:
  assumes "registry_ok r" and "scoped op model r = (r', b)"
  shows "registry_ok r' \<and> map_of (scopedBreakers r') (scope_key op model) = Some b
    \<and> (case map_of (scopedBreakers r) (scope_key op model) of
         Some b0 \<Rightarrow> b = b0 \<and> (\<forall>k. map_of (scopedBreakers r') k = map_of (scopedBreakers r) k)
       | None \<Rightarrow> b = new_breaker \<and> (\<forall>k. k \<noteq> scope_key op model \<longrightarrow>
           map_of (scopedBreakers r') k = map_of (scopedBreakers r) k
           \<or> length (scopedBreakers r) = maxScopedBreakers r \<and> k = fst (hd (scopedBreakers r))))"
proof (cases "map_of (scopedBreakers r) (scope_key op model)")
  case (Some b0)
  let ?k = "scope_key op model" and ?bs = "scopedBreakers r"
  have r': "r' = r\<lparr> scopedBreakers := filter (\<lambda>p. fst p \<noteq> ?k) ?bs @ [(?k, b0)] \<rparr>" "b = b0"
    using assms(2) Some by (auto simp: scoped_def Let_def)
  have d: "distinct (map fst ?bs)" using assms(1) by (simp add: registry_ok_def)
  have "map_of (filter (\<lambda>p. fst p \<noteq> ?k) bs) k = (if k = ?k then None else map_of bs k)" for k
    and bs :: "(string \<times> breaker) list"
    by (induction bs) auto
  then have map: "map_of (filter (\<lambda>p. fst p \<noteq> ?k) ?bs @ [(?k, b0)]) k = map_of ?bs k" for k
    using Some by (simp add: map_add_def split: option.split)
  have "length (filter (\<lambda>p. fst p \<noteq> ?k) ?bs) < length ?bs"
    using map_of_SomeD [OF Some] by (intro length_filter_less [of "(?k, b0)"]) auto
  moreover have "distinct (map fst (filter (\<lambda>p. fst p \<noteq> ?k) ?bs @ [(?k, b0)]))"
    using d by (auto simp: distinct_map_filter)
  ultimately show ?thesis
    using assms(1) Some r' map by (simp add: registry_ok_def)
next
  case None
  let ?k = "scope_key op model" and ?bs = "scopedBreakers r"
  let ?kept = "if length ?bs \<ge> maxScopedBreakers r then tl ?bs else ?bs"
  have r': "r' = r\<lparr> scopedBreakers := ?kept @ [(?k, new_breaker)] \<rparr>" "b = new_breaker"
    using assms(2) None by (simp_all add: scoped_def Let_def)
  have ok: "1 \<le> maxScopedBreakers r" "length ?bs \<le> maxScopedBreakers r" "distinct (map fst ?bs)"
    using assms(1) by (auto simp: registry_ok_def)
  have fresh: "?k \<notin> fst ` set ?bs" using None by (simp add: map_of_eq_None_iff)
  have sub: "set ?kept \<subseteq> set ?bs" by (cases ?bs) auto
  have "registry_ok r'"
    using assms(1) ok fresh by (cases ?bs) (auto simp: registry_ok_def r')
  moreover have none: "map_of ?kept ?k = None"
    using fresh sub by (auto simp: map_of_eq_None_iff)
  moreover have "map_of ?kept k = map_of ?bs k
      \<or> length ?bs = maxScopedBreakers r \<and> k = fst (hd ?bs)" for k
    using ok(2) by (cases ?bs) auto
  moreover have "map_of (scopedBreakers r') k = (if k = ?k then Some new_breaker else map_of ?kept k)" for k
    using none by (simp add: r' map_add_def split: option.split)
  ultimately show ?thesis
    using None r'(2) by simp
qed

subsection \<open>Concrete histories\<close>

definition quick_circuit :: circuit_options where
  "quick_circuit = \<lparr> consecutiveFailureThreshold = 1, burstFailureThreshold = 2, burstWindowMs = 10,
     openDurationMs = 5 \<rparr>"

definition tripped :: breaker where
  "tripped = \<lparr> state = Open, consecutiveFailures = 1, recentFailures = [0], openedAt = 0,
     current_generation = 1, settledPermits = [0], next_permit = 1 \<rparr>"

definition first_permit :: permit where
  "first_permit = \<lparr> permit_id = 0, halfOpenProbe = False, generation = 0 \<rparr>"

lemma tripped_run: "circuit_run quick_circuit 0 tripped [first_permit]"
proof -
  have "acquire quick_circuit 0 new_breaker = (new_breaker\<lparr> next_permit := 1 \<rparr>, Inr first_permit)"
    by (simp add: acquire_def new_breaker_def new_permit_def first_permit_def)
  from circuit_run.failure [OF circuit_run.granted [OF circuit_run.start this], of first_permit]
  show ?thesis
    by (simp add: recordOperationalFailure_def settle_def first_permit_def new_breaker_def open_circuit_def
        quick_circuit_def tripped_def)
qed

theorem outage_admits_one_probe_witness:
  "length (outstanding tripped [first_permit]) \<le> 1 \<and> acquire quick_circuit 0 tripped
     = (tripped, Inl (ProviderErr 503 ''provider_unavailable''))"
  using outage_admits_one_probe [OF tripped_run]
  by (simp add: quick_circuit_def tripped_def acquire_def)

theorem half_open_never_stuck_witness:
  "\<exists>p. halfOpenProbe p \<and> state (recordSuccess quick_circuit 9 p
     (tripped\<lparr> state := HalfOpen, next_permit := 2 \<rparr>)) = Closed"
proof -
  have "circuit_run quick_circuit 9 tripped [first_permit]"
    by (rule circuit_run.tick [OF tripped_run]) simp
  moreover have "acquire quick_circuit 9 tripped
      = (tripped\<lparr> state := HalfOpen, next_permit := 2 \<rparr>, Inr (new_permit tripped True))"
    by (simp add: acquire_def quick_circuit_def tripped_def)
  ultimately have "circuit_run quick_circuit 9 (tripped\<lparr> state := HalfOpen, next_permit := 2 \<rparr>)
      [new_permit tripped True, first_permit]"
    by (rule circuit_run.granted)
  from half_open_never_stuck [OF this] show ?thesis by (auto simp: quick_circuit_def)
qed

theorem scoped_lookup_witness:
  "map_of (scopedBreakers (fst (scoped VChat ''m'' (new_registry None)))) (scope_key VChat ''m'')
     = Some new_breaker"
proof -
  obtain r' b where s: "scoped VChat ''m'' (new_registry None) = (r', b)" by fastforce
  from scoped_lookup [OF registry_ok_new s] s show ?thesis by (auto simp: new_registry_def)
qed

end
