(* ===== verification/ProviderPolicy.thy ===== *)
theory ProviderPolicy
  imports Money "HOL-Library.Char_ord" "HOL-Library.List_Lexorder" "HOL-Library.Multiset"
begin

section \<open>Provider routing policies (providers/routing/policy.ts)\<close>

text \<open>
  The wire schema, its normalization, the digest bound into a ticket and the workspace merge.
  Strings are lists of 8-bit characters: a slug outside ASCII is refused by the pattern either way.
  The digest is the object the code hands to \<open>JSON.stringify\<close>, as a value: the text is its rendering.
  The privacy floors are ordered by \<open>PRIVACY_RANK\<close>.
\<close>

datatype privacy_floor = Anonymous | Private | Tee | E2ee

definition floor_rank :: "privacy_floor \<Rightarrow> nat" where
  "floor_rank f = (case f of Anonymous \<Rightarrow> 0 | Private \<Rightarrow> 1 | Tee \<Rightarrow> 2 | E2ee \<Rightarrow> 3)"

instantiation privacy_floor :: linorder
begin

definition less_eq_privacy_floor :: "privacy_floor \<Rightarrow> privacy_floor \<Rightarrow> bool" where
  "a \<le> b \<longleftrightarrow> floor_rank a \<le> floor_rank b"

definition less_privacy_floor :: "privacy_floor \<Rightarrow> privacy_floor \<Rightarrow> bool" where
  "a < b \<longleftrightarrow> floor_rank a < floor_rank b"

instance
  by standard
     (auto simp: less_eq_privacy_floor_def less_privacy_floor_def floor_rank_def split: privacy_floor.splits)

end

definition floor_name :: "privacy_floor \<Rightarrow> string" where
  "floor_name f = (case f of Anonymous \<Rightarrow> ''anonymous'' | Private \<Rightarrow> ''private'' | Tee \<Rightarrow> ''tee'' | E2ee \<Rightarrow> ''e2ee'')"

definition PRIVACY_RANK :: "string \<Rightarrow> nat" where
  "PRIVACY_RANK c = (if c = ''private'' then 1 else if c = ''tee'' then 2 else if c = ''e2ee'' then 3 else 0)"

datatype provider_sort = SortPrivacy | SortPrice | SortLatency | SortThroughput

definition sort_name :: "provider_sort \<Rightarrow> string" where
  "sort_name s = (case s of SortPrivacy \<Rightarrow> ''privacy'' | SortPrice \<Rightarrow> ''price''
     | SortLatency \<Rightarrow> ''latency'' | SortThroughput \<Rightarrow> ''throughput'')"

definition MAX_PROVIDER_ATTEMPTS :: int where
  "MAX_PROVIDER_ATTEMPTS = 3"

type_synonym price_caps = "rat option \<times> rat option"

record policy_object =
  in_order :: "string list option"
  in_only :: "string list option"
  in_ignore :: "string list option"
  in_allow_fallbacks :: "bool option"
  in_sort :: "provider_sort option"
  in_minimum_privacy :: "privacy_floor option"
  in_max_price :: "price_caps option"
  in_require_parameters :: "bool option"
  in_max_attempts :: "rat option"

datatype policy_input = PolicyAbsent | PolicySlug string | PolicyObject policy_object

subsection \<open>The schema\<close>

definition slug_string_ok :: "string \<Rightarrow> bool" where
  "slug_string_ok s \<longleftrightarrow> 1 \<le> length s \<and> length s \<le> 64"

definition provider_list_ok :: "string list \<Rightarrow> bool" where
  "provider_list_ok l \<longleftrightarrow> 1 \<le> length l \<and> length l \<le> 16 \<and> list_all slug_string_ok l"

definition price_ok :: "rat option \<Rightarrow> bool" where
  "price_ok p = (case p of None \<Rightarrow> True | Some q \<Rightarrow> 0 \<le> q \<and> q \<le> 1000000)"

definition providerRoutingPolicySchema :: "policy_input \<Rightarrow> bool" where
  "providerRoutingPolicySchema input =
     (case input of
        PolicyAbsent \<Rightarrow> False
      | PolicySlug s \<Rightarrow> slug_string_ok s
      | PolicyObject p \<Rightarrow>
          (case in_order p of None \<Rightarrow> True | Some l \<Rightarrow> provider_list_ok l)
          \<and> (case in_only p of None \<Rightarrow> True | Some l \<Rightarrow> provider_list_ok l)
          \<and> (case in_ignore p of None \<Rightarrow> True | Some l \<Rightarrow> length l \<le> 16 \<and> list_all slug_string_ok l)
          \<and> (case in_max_price p of None \<Rightarrow> True | Some (i, out) \<Rightarrow> price_ok i \<and> price_ok out)
          \<and> (case in_max_attempts p of None \<Rightarrow> True
             | Some n \<Rightarrow> is_whole n \<and> 1 \<le> n \<and> n \<le> of_int MAX_PROVIDER_ATTEMPTS))"

subsection \<open>Normalization\<close>

record policy =
  order :: "string list"
  only :: "string list option"
  ignore :: "string list"
  allowFallbacks :: bool
  sort_by :: provider_sort
  minimumPrivacy :: "privacy_floor option"
  maxPrice :: "price_caps option"
  requireParameters :: bool
  maxAttempts :: rat
  pin :: bool

definition AUTO_PROVIDER_POLICY :: policy where
  "AUTO_PROVIDER_POLICY = \<lparr> order = [], only = None, ignore = [], allowFallbacks = True,
     sort_by = SortPrivacy, minimumPrivacy = None, maxPrice = None, requireParameters = False,
     maxAttempts = of_int MAX_PROVIDER_ATTEMPTS, pin = False \<rparr>"

definition to_lower_char :: "char \<Rightarrow> char" where
  "to_lower_char c = (let n = (of_char c :: nat) in
     if 65 \<le> n \<and> n \<le> 90 \<or> 192 \<le> n \<and> n \<le> 222 \<and> n \<noteq> 215 then char_of (n + 32) else c)"

definition is_lower_alnum :: "char \<Rightarrow> bool" where
  "is_lower_alnum c = (let n = (of_char c :: nat) in 97 \<le> n \<and> n \<le> 122 \<or> is_digit c)"

definition slug_part :: "string \<Rightarrow> bool" where
  "slug_part s = (case s of [] \<Rightarrow> False
     | c # cs \<Rightarrow> is_lower_alnum c \<and> length cs \<le> 63
         \<and> list_all (\<lambda>d. is_lower_alnum d \<or> d = CHR ''-'') cs)"

definition PROVIDER_SLUG :: "string \<Rightarrow> bool" where
  "PROVIDER_SLUG s =
     (let base = takeWhile (\<lambda>c. c \<noteq> CHR ''/'') s; rest = dropWhile (\<lambda>c. c \<noteq> CHR ''/'') s
      in slug_part base \<and> (rest = [] \<or> slug_part (tl rest)))"

definition normalizeSlug :: "string \<Rightarrow> string result" where
  "normalizeSlug raw =
     (let slug = map to_lower_char (js_trim raw) in
      if PROVIDER_SLUG slug then Inr slug else Inl (App 400 ''invalid_provider_policy''))"

text \<open>Keeping the first of equal elements, as a set with insertion order does.\<close>

definition unique :: "'a list \<Rightarrow> 'a list" where
  "unique xs = fold (\<lambda>x out. if x \<in> set out then out else out @ [x]) xs []"

definition normalizeSlugList :: "string list option \<Rightarrow> string list result" where
  "normalizeSlugList raw =
     (case raw of None \<Rightarrow> Inr []
      | Some l \<Rightarrow> and_then (map_result normalizeSlug l) (\<lambda>slugs. Inr (unique slugs)))"

definition conflicts :: "string list \<Rightarrow> string list option \<Rightarrow> string list \<Rightarrow> bool" where
  "conflicts ord onl ignored \<longleftrightarrow>
     (case onl of None \<Rightarrow> False | Some l \<Rightarrow> list_ex (\<lambda>s. s \<in> set ignored) l)
     \<or> list_ex (\<lambda>s. s \<in> set ignored) ord
     \<or> (case onl of None \<Rightarrow> False | Some l \<Rightarrow> list_ex (\<lambda>s. s \<notin> set l) ord)"

definition normalizeProviderPolicy :: "policy_input \<Rightarrow> policy result" where
  "normalizeProviderPolicy input =
     (case input of
        PolicyAbsent \<Rightarrow> Inr AUTO_PROVIDER_POLICY
      | PolicySlug s \<Rightarrow> and_then (normalizeSlug s) (\<lambda>slug.
          Inr \<lparr> order = [slug], only = Some [slug], ignore = [], allowFallbacks = False,
                sort_by = SortPrivacy, minimumPrivacy = None, maxPrice = None,
                requireParameters = False, maxAttempts = 1, pin = True \<rparr>)
      | PolicyObject p \<Rightarrow>
          and_then (normalizeSlugList (in_order p)) (\<lambda>ord.
          and_then (case in_only p of None \<Rightarrow> Inr None
                    | Some l \<Rightarrow> and_then (normalizeSlugList (Some l)) (\<lambda>l'. Inr (Some l'))) (\<lambda>onl.
          and_then (normalizeSlugList (in_ignore p)) (\<lambda>ign.
            if conflicts ord onl ign then Inl (App 400 ''provider_policy_conflict'')
            else
              let fallbacks = (case in_allow_fallbacks p of None \<Rightarrow> True | Some b \<Rightarrow> b);
                  attempts = (if fallbacks
                    then (case in_max_attempts p of None \<Rightarrow> of_int MAX_PROVIDER_ATTEMPTS | Some n \<Rightarrow> n)
                    else 1);
                  price = (case in_max_price p of None \<Rightarrow> None
                    | Some (i, out) \<Rightarrow> if i \<noteq> None \<or> out \<noteq> None then Some (i, out) else None)
              in Inr \<lparr> order = ord, only = onl, ignore = ign, allowFallbacks = fallbacks,
                       sort_by = (case in_sort p of None \<Rightarrow> SortPrivacy | Some s \<Rightarrow> s),
                       minimumPrivacy = in_minimum_privacy p, maxPrice = price,
                       requireParameters = (case in_require_parameters p of None \<Rightarrow> False | Some b \<Rightarrow> b),
                       maxAttempts = max 1 (min (of_int MAX_PROVIDER_ATTEMPTS) attempts),
                       pin = False \<rparr>))))"

subsection \<open>The digest\<close>

definition js_strings :: "string list \<Rightarrow> jsval" where
  "js_strings l = JArray (map JString l)"

definition js_cap :: "rat option \<Rightarrow> jsval" where
  "js_cap v = (case v of None \<Rightarrow> JNull | Some q \<Rightarrow> JNumber (Fin q))"

definition providerPolicyDigest :: "policy \<Rightarrow> jsval" where
  "providerPolicyDigest p = JObject
     [(''o'', js_strings (order p)),
      (''y'', case only p of None \<Rightarrow> JNull | Some l \<Rightarrow> js_strings (sort l)),
      (''i'', js_strings (sort (ignore p))),
      (''f'', JBool (allowFallbacks p)),
      (''s'', JString (sort_name (sort_by p))),
      (''p'', case minimumPrivacy p of None \<Rightarrow> JNull | Some f \<Rightarrow> JString (floor_name f)),
      (''x'', case maxPrice p of None \<Rightarrow> JNull
              | Some (i, out) \<Rightarrow> JObject [(''i'', js_cap i), (''o'', js_cap out)]),
      (''r'', JBool (requireParameters p)),
      (''a'', JNumber (Fin (maxAttempts p))),
      (''n'', JBool (pin p))]"

definition providerPolicyDigestFromInput :: "policy_input \<Rightarrow> jsval result" where
  "providerPolicyDigestFromInput input =
     and_then (normalizeProviderPolicy input) (\<lambda>p. Inr (providerPolicyDigest p))"

definition isAutoProviderPolicy :: "policy \<Rightarrow> bool" where
  "isAutoProviderPolicy p \<longleftrightarrow> providerPolicyDigest p = providerPolicyDigest AUTO_PROVIDER_POLICY"

subsection \<open>The workspace merge\<close>

record workspace_defaults =
  ws_sort :: provider_sort
  ws_only :: "string list option"
  ws_ignore :: "string list"
  ws_allowFallbacks :: bool
  ws_maxAttempts :: rat
  ws_minimumPrivacy :: "privacy_floor option"
  ws_maxPrice :: "price_caps option"
  ws_requireParameters :: bool

definition DEFAULT_WORKSPACE_PROVIDER_DEFAULTS :: workspace_defaults where
  "DEFAULT_WORKSPACE_PROVIDER_DEFAULTS = \<lparr> ws_sort = SortPrivacy, ws_only = None, ws_ignore = [],
     ws_allowFallbacks = True, ws_maxAttempts = of_int MAX_PROVIDER_ATTEMPTS,
     ws_minimumPrivacy = None, ws_maxPrice = None, ws_requireParameters = False \<rparr>"

definition strongerFloor :: "privacy_floor option \<Rightarrow> privacy_floor option \<Rightarrow> privacy_floor option" where
  "strongerFloor a b =
     (case (a, b) of (None, _) \<Rightarrow> b | (_, None) \<Rightarrow> a | (Some f, Some g) \<Rightarrow> if g \<le> f then a else b)"

definition tighter :: "rat option \<Rightarrow> rat option \<Rightarrow> rat option" where
  "tighter x y = (case (x, y) of (None, _) \<Rightarrow> y | (_, None) \<Rightarrow> x | (Some p, Some q) \<Rightarrow> Some (min p q))"

definition tighterPrice :: "price_caps option \<Rightarrow> price_caps option \<Rightarrow> price_caps option" where
  "tighterPrice a b =
     (case (a, b) of
        (None, _) \<Rightarrow> b
      | (_, None) \<Rightarrow> a
      | (Some (ai, ao), Some (bi, bo)) \<Rightarrow>
          (let i = tighter ai bi; out = tighter ao bo
           in if i = None \<and> out = None then None else Some (i, out)))"

definition intersectOnly :: "string list option \<Rightarrow> string list option \<Rightarrow> string list option" where
  "intersectOnly a b =
     (case (a, b) of (None, _) \<Rightarrow> b | (_, None) \<Rightarrow> a
      | (Some x, Some y) \<Rightarrow> Some (filter (\<lambda>s. s \<in> set y) x))"

definition mergeWorkspaceProviderPolicy :: "policy \<Rightarrow> workspace_defaults \<Rightarrow> policy" where
  "mergeWorkspaceProviderPolicy request workspace =
     (let fallbacks = allowFallbacks request \<and> ws_allowFallbacks workspace
      in \<lparr> order = order request,
           only = intersectOnly (only request) (ws_only workspace),
           ignore = unique (ignore request @ ws_ignore workspace),
           allowFallbacks = fallbacks,
           sort_by = (if isAutoProviderPolicy request then ws_sort workspace else sort_by request),
           minimumPrivacy = strongerFloor (minimumPrivacy request) (ws_minimumPrivacy workspace),
           maxPrice = tighterPrice (maxPrice request) (ws_maxPrice workspace),
           requireParameters = requireParameters request \<or> ws_requireParameters workspace,
           maxAttempts = max 1 (min (maxAttempts request) (min (ws_maxAttempts workspace)
             (if fallbacks then of_int MAX_PROVIDER_ATTEMPTS else 1))),
           pin = pin request \<rparr>)"

subsection \<open>Normalized policies\<close>

lemma set_unique_acc:
  "set (fold (\<lambda>x out. if x \<in> set out then out else out @ [x]) xs acc) = set acc \<union> set xs"
  by (induction xs arbitrary: acc) auto

lemma set_unique [simp]: "set (unique xs) = set xs"
  by (simp add: unique_def set_unique_acc)

lemma distinct_unique_acc:
  "distinct acc \<Longrightarrow> distinct (fold (\<lambda>x out. if x \<in> set out then out else out @ [x]) xs acc)"
  by (induction xs arbitrary: acc) auto

lemma distinct_unique [simp]: "distinct (unique xs)"
  by (simp add: unique_def distinct_unique_acc)

definition policy_ok :: "policy \<Rightarrow> bool" where
  "policy_ok p \<longleftrightarrow>
     distinct (order p) \<and> distinct (ignore p) \<and> list_all PROVIDER_SLUG (order p)
     \<and> list_all PROVIDER_SLUG (ignore p)
     \<and> (case only p of None \<Rightarrow> True
        | Some l \<Rightarrow> distinct l \<and> list_all PROVIDER_SLUG l \<and> set l \<inter> set (ignore p) = {}
            \<and> set (order p) \<subseteq> set l)
     \<and> set (order p) \<inter> set (ignore p) = {}
     \<and> 1 \<le> maxAttempts p \<and> maxAttempts p \<le> of_int MAX_PROVIDER_ATTEMPTS
     \<and> (\<not> allowFallbacks p \<longrightarrow> maxAttempts p = 1)
     \<and> maxPrice p \<noteq> Some (None, None)
     \<and> (pin p \<longrightarrow> (\<exists>s. order p = [s] \<and> only p = Some [s]) \<and> \<not> allowFallbacks p)"

lemma normalizeSlug_ok: "normalizeSlug raw = Inr s \<Longrightarrow> PROVIDER_SLUG s"
  by (auto simp: normalizeSlug_def Let_def split: if_splits)

lemma normalizeSlugList_ok:
  assumes "normalizeSlugList raw = Inr l"
  shows "distinct l \<and> list_all PROVIDER_SLUG l"
proof (cases raw)
  case None
  with assms show ?thesis by (auto simp: normalizeSlugList_def)
next
  case (Some r)
  then obtain slugs where "list_all2 (\<lambda>x y. normalizeSlug x = Inr y) r slugs" "l = unique slugs"
    using assms by (auto simp: normalizeSlugList_def and_then_Inr_iff map_result_Inr_iff)
  then show ?thesis
    using normalizeSlug_ok by (fastforce simp: list_all_iff list_all2_conv_all_nth in_set_conv_nth)
qed

lemma conflicts_ok:
  assumes "\<not> conflicts ord onl ign"
  shows "set ord \<inter> set ign = {}"
    and "onl = Some l \<Longrightarrow> set l \<inter> set ign = {} \<and> set ord \<subseteq> set l"
  using assms by (auto simp: conflicts_def list_ex_iff)

text \<open>
  Every normalized policy is well formed. Whatever is accepted on the wire, the policy that
  comes out has valid, distinct slugs, no contradiction between \<open>order\<close>, \<open>only\<close> and \<open>ignore\<close>, between
  one and three attempts, exactly one without fallbacks, no empty price ceiling, and is a pin only
  when it names one provider and forbids fallbacks.
\<close>

theorem normalized_policy_ok:
  assumes "normalizeProviderPolicy input = Inr p"
  shows "policy_ok p"
proof (cases input)
  case PolicyAbsent
  with assms show ?thesis
    by (auto simp: normalizeProviderPolicy_def AUTO_PROVIDER_POLICY_def policy_ok_def MAX_PROVIDER_ATTEMPTS_def)
next
  case (PolicySlug s)
  with assms obtain slug where "normalizeSlug s = Inr slug" "p = \<lparr> order = [slug], only = Some [slug],
      ignore = [], allowFallbacks = False, sort_by = SortPrivacy, minimumPrivacy = None, maxPrice = None,
      requireParameters = False, maxAttempts = 1, pin = True \<rparr>"
    by (auto simp: normalizeProviderPolicy_def and_then_Inr_iff)
  then show ?thesis by (simp add: policy_ok_def normalizeSlug_ok MAX_PROVIDER_ATTEMPTS_def)
next
  case (PolicyObject q)
  then obtain ord onl ign where L: "normalizeSlugList (in_order q) = Inr ord"
    "(case in_only q of None \<Rightarrow> Inr None
      | Some l \<Rightarrow> and_then (normalizeSlugList (Some l)) (\<lambda>l'. Inr (Some l'))) = Inr onl"
    "normalizeSlugList (in_ignore q) = Inr ign" "\<not> conflicts ord onl ign"
    and p: "order p = ord" "only p = onl" "ignore p = ign" "\<not> pin p"
      "1 \<le> maxAttempts p" "maxAttempts p \<le> of_int MAX_PROVIDER_ATTEMPTS"
      "\<not> allowFallbacks p \<longrightarrow> maxAttempts p = 1" "maxPrice p \<noteq> Some (None, None)"
    using assms
    by (auto simp: normalizeProviderPolicy_def and_then_Inr_iff Let_def MAX_PROVIDER_ATTEMPTS_def
        split: if_splits option.splits prod.splits)
  have "distinct l \<and> list_all PROVIDER_SLUG l" if "onl = Some l" for l
    using L(2) that normalizeSlugList_ok
    by (auto simp: and_then_Inr_iff split: option.splits)
  then show ?thesis
    using p normalizeSlugList_ok [OF L(1)] normalizeSlugList_ok [OF L(3)] conflicts_ok [OF L(4)]
    by (auto simp: policy_ok_def split: option.split)
qed

definition sample_policy_object :: policy_object where
  "sample_policy_object = \<lparr> in_order = Some ['' Venice ''], in_only = Some [''venice'', ''tinfoil''],
     in_ignore = None, in_allow_fallbacks = None, in_sort = Some SortPrice, in_minimum_privacy = Some Tee,
     in_max_price = Some (Some 5, None), in_require_parameters = None, in_max_attempts = Some 2 \<rparr>"

theorem normalized_policy_ok_witness:
  "\<exists>p. normalizeProviderPolicy (PolicyObject sample_policy_object) = Inr p \<and> policy_ok p
     \<and> order p = [''venice'']"
proof -
  have "normalizeSlug '' Venice '' = Inr ''venice''" "normalizeSlug ''venice'' = Inr ''venice''"
    "normalizeSlug ''tinfoil'' = Inr ''tinfoil''"
    by code_simp+
  then have "\<exists>p. normalizeProviderPolicy (PolicyObject sample_policy_object) = Inr p
      \<and> order p = [''venice'']"
    by (simp add: normalizeProviderPolicy_def sample_policy_object_def normalizeSlugList_def unique_def
        conflicts_def Let_def)
  with normalized_policy_ok show ?thesis by blast
qed

subsection \<open>The digest binds the policy\<close>

lemma sort_eq_iff: "sort l = sort l' \<longleftrightarrow> mset l = mset l'"
  by (metis mset_sort properties_for_sort sorted_sort)

lemma js_strings_inj [simp]: "js_strings l = js_strings l' \<longleftrightarrow> l = l'"
  by (simp add: js_strings_def inj_map_eq_map inj_def)

lemma js_strings_not_null [simp]: "js_strings l \<noteq> JNull" "JNull \<noteq> js_strings l"
  by (simp_all add: js_strings_def)

lemma js_cap_inj [simp]: "js_cap a = js_cap b \<longleftrightarrow> a = b"
  by (auto simp: js_cap_def split: option.splits)

lemma sort_name_inj [simp]: "sort_name a = sort_name b \<longleftrightarrow> a = b"
  by (auto simp: sort_name_def split: provider_sort.splits)

lemma floor_name_inj [simp]: "floor_name a = floor_name b \<longleftrightarrow> a = b"
  by (auto simp: floor_name_def split: privacy_floor.splits)


subsection \<open>The merge only restricts\<close>

definition permits :: "string list option \<Rightarrow> string list \<Rightarrow> string \<Rightarrow> bool" where
  "permits onl ign s \<longleftrightarrow> (case onl of None \<Rightarrow> True | Some l \<Rightarrow> s \<in> set l) \<and> s \<notin> set ign"

definition meets_floor :: "privacy_floor option \<Rightarrow> privacy_floor \<Rightarrow> bool" where
  "meets_floor m f = (case m of None \<Rightarrow> True | Some g \<Rightarrow> g \<le> f)"

definition meets_cap :: "rat option \<Rightarrow> rat \<Rightarrow> bool" where
  "meets_cap c x = (case c of None \<Rightarrow> True | Some m \<Rightarrow> x \<le> m)"

definition meets_price :: "price_caps option \<Rightarrow> rat \<Rightarrow> rat \<Rightarrow> bool" where
  "meets_price c i out = (case c of None \<Rightarrow> True | Some (ci, co) \<Rightarrow> meets_cap ci i \<and> meets_cap co out)"

lemma meets_tighter: "meets_cap (tighter a b) x \<longleftrightarrow> meets_cap a x \<and> meets_cap b x"
  by (auto simp: meets_cap_def tighter_def split: option.splits)

lemma meets_tighterPrice:
  "meets_price (tighterPrice a b) i out \<longleftrightarrow> meets_price a i out \<and> meets_price b i out"
proof (cases a)
  case (Some pa)
  show ?thesis
  proof (cases b)
    case b: (Some pb)
    obtain ai ao bi bo where [simp]: "pa = (ai, ao)" "pb = (bi, bo)" by (cases pa; cases pb)
    show ?thesis
      using meets_tighter [of ai bi i] meets_tighter [of ao bo out]
      by (auto simp: Some b tighterPrice_def Let_def meets_price_def meets_cap_def)
  qed (simp add: Some tighterPrice_def meets_price_def)
qed (simp add: tighterPrice_def meets_price_def)

lemma meets_strongerFloor:
  "meets_floor (strongerFloor a b) f \<longleftrightarrow> meets_floor a f \<and> meets_floor b f"
  by (cases a; cases b) (auto simp: meets_floor_def strongerFloor_def)


end
