(* ===== verification/PublicIdentity.thy ===== *)
theory PublicIdentity
  imports ProviderPolicy Plans
begin

section \<open>Public provider identity (providers/publicIdentity.ts)\<close>

text \<open>
  The one mapping from internal provider ids to what a customer sees. The two frozen tables are
  association lists in the order of the source; \<open>hasOwnProperty\<close> is membership of a key. The regular
  expression of \<open>mentionsConcealedProvider\<close> is written out: an occurrence of the term, compared without
  case, that no ASCII letter or digit touches on either side.
\<close>

record public_group =
  g_slug :: string
  g_display :: string
  g_description :: string

definition PUBLIC_PROVIDER_GROUPS :: "(string \<times> public_group) list" where
  "PUBLIC_PROVIDER_GROUPS = [(''other'', \<lparr> g_slug = ''other'', g_display = ''Other'',
     g_description = ''Additional models AnonRouter serves through partner inference providers that are not listed by name.'' \<rparr>)]"

definition isPublicProviderGroupSlug :: "string \<Rightarrow> bool" where
  "isPublicProviderGroupSlug slug \<longleftrightarrow> slug \<in> fst ` set PUBLIC_PROVIDER_GROUPS"

definition publicProviderGroupBySlug :: "string \<Rightarrow> public_group option" where
  "publicProviderGroupBySlug slug = map_of PUBLIC_PROVIDER_GROUPS slug"

record public_member =
  mb_group :: string
  mb_operatorLabel :: string
  mb_namespace :: string
  mb_concealed :: "string list"

definition PUBLIC_PROVIDER_MEMBERS :: "(string \<times> public_member) list" where
  "PUBLIC_PROVIDER_MEMBERS = [(''near-ai'', \<lparr> mb_group = ''other'', mb_operatorLabel = ''Other (NEAR AI)'',
     mb_namespace = ''other'', mb_concealed = [''near'', ''nearai'', ''near.ai'', ''near-ai''] \<rparr>)]"

definition memberOf :: "string \<Rightarrow> public_member option" where
  "memberOf internalProvider = map_of PUBLIC_PROVIDER_MEMBERS internalProvider"

definition publicProviderGroupFor :: "string \<Rightarrow> public_group option" where
  "publicProviderGroupFor internalProvider =
     (case memberOf internalProvider of None \<Rightarrow> None | Some m \<Rightarrow> publicProviderGroupBySlug (mb_group m))"

definition isPublicProviderMember :: "string \<Rightarrow> bool" where
  "isPublicProviderMember internalProvider \<longleftrightarrow> memberOf internalProvider \<noteq> None"

definition publicProviderSlug :: "string \<Rightarrow> string" where
  "publicProviderSlug internalProvider =
     (case publicProviderGroupFor internalProvider of None \<Rightarrow> internalProvider | Some g \<Rightarrow> g_slug g)"

definition publicProviderName :: "string \<Rightarrow> string \<Rightarrow> string" where
  "publicProviderName internalProvider internalName =
     (case publicProviderGroupFor internalProvider of None \<Rightarrow> internalName | Some g \<Rightarrow> g_display g)"

definition operatorProviderLabel :: "string \<Rightarrow> string \<Rightarrow> string" where
  "operatorProviderLabel internalProvider internalName =
     (case memberOf internalProvider of None \<Rightarrow> internalName | Some m \<Rightarrow> mb_operatorLabel m)"

text \<open>The part before the first slash, all of it without one.\<close>

definition before_slash :: "string \<Rightarrow> string" where
  "before_slash s = takeWhile (\<lambda>c. c \<noteq> CHR ''/'') s"

definition from_slash :: "string \<Rightarrow> string" where
  "from_slash s = dropWhile (\<lambda>c. c \<noteq> CHR ''/'') s"

definition internalProvidersForPublicSlug :: "string \<Rightarrow> string list" where
  "internalProvidersForPublicSlug publicSlug =
     (if isPublicProviderMember (before_slash publicSlug) then []
      else if \<not> isPublicProviderGroupSlug publicSlug then [publicSlug]
      else map fst (filter (\<lambda>(i, m). mb_group m = publicSlug) PUBLIC_PROVIDER_MEMBERS))"

definition publicRouteId :: "string \<Rightarrow> string" where
  "publicRouteId routeId =
     (if from_slash routeId = [] \<or> before_slash routeId = [] then routeId
      else case memberOf (before_slash routeId) of
             None \<Rightarrow> routeId
           | Some m \<Rightarrow> mb_namespace m @ from_slash routeId)"

definition isMemberInternalRouteId :: "string \<Rightarrow> bool" where
  "isMemberInternalRouteId routeId \<longleftrightarrow>
     from_slash routeId \<noteq> [] \<and> before_slash routeId \<noteq> []
     \<and> (let key = map to_lower_char (js_trim (before_slash routeId)) in
        case memberOf key of None \<Rightarrow> False | Some m \<Rightarrow> mb_namespace m \<noteq> key)"

definition isLegacyMemberRouteId :: "string \<Rightarrow> string \<Rightarrow> bool" where
  "isLegacyMemberRouteId internalProvider publicModelId \<longleftrightarrow>
     (case memberOf internalProvider of
        None \<Rightarrow> False | Some m \<Rightarrow> \<not> starts_with publicModelId (mb_namespace m @ ''/''))"

definition providerQualifiedRouteId :: "string \<Rightarrow> string \<Rightarrow> string" where
  "providerQualifiedRouteId internalProvider slug =
     (case memberOf internalProvider of None \<Rightarrow> internalProvider | Some m \<Rightarrow> mb_namespace m) @ ''/'' @ slug"

definition concealedProviderTerms :: "string list" where
  "concealedProviderTerms =
     sort (unique (map (map to_lower_char)
       (concat (map (\<lambda>(i, m). mb_concealed m) PUBLIC_PROVIDER_MEMBERS))))"

definition is_alnum :: "char \<Rightarrow> bool" where
  "is_alnum c \<longleftrightarrow> is_lower_alnum (to_lower_char c)"

definition word_at :: "string \<Rightarrow> string \<Rightarrow> nat \<Rightarrow> bool" where
  "word_at w s i \<longleftrightarrow>
     map to_lower_char (take (length w) (drop i s)) = w
     \<and> (i = 0 \<or> \<not> is_alnum (s ! (i - 1)))
     \<and> (i + length w \<ge> length s \<or> \<not> is_alnum (s ! (i + length w)))"

definition mentionsConcealedProvider :: "string \<Rightarrow> bool" where
  "mentionsConcealedProvider s \<longleftrightarrow>
     list_ex (\<lambda>w. list_ex (word_at w s) [0 ..< Suc (length s)]) concealedProviderTerms"

subsection \<open>Lemmas\<close>

lemmas identity_defs = PUBLIC_PROVIDER_MEMBERS_def PUBLIC_PROVIDER_GROUPS_def memberOf_def
  isPublicProviderMember_def isPublicProviderGroupSlug_def publicProviderGroupBySlug_def
  publicProviderGroupFor_def

lemma memberOf_eq: "memberOf p = (if p = ''near-ai'' then Some (snd (hd PUBLIC_PROVIDER_MEMBERS)) else None)"
  by (simp add: identity_defs)

lemma member_iff: "isPublicProviderMember p \<longleftrightarrow> p = ''near-ai''"
  by (simp add: isPublicProviderMember_def memberOf_eq)

lemma group_iff: "isPublicProviderGroupSlug s \<longleftrightarrow> s = ''other''"
  by (auto simp: identity_defs)

lemma publicProviderSlug_eq: "publicProviderSlug p = (if p = ''near-ai'' then ''other'' else p)"
  by (simp add: publicProviderSlug_def identity_defs)

lemma before_slash_simps [simp]: "before_slash ''near-ai'' = ''near-ai''" "before_slash ''other'' = ''other''"
  by (simp_all add: before_slash_def)

lemma before_slash_append [simp]: "CHR ''/'' \<notin> set p \<Longrightarrow> before_slash (p @ CHR ''/'' # s) = p"
  by (simp add: before_slash_def takeWhile_append takeWhile_eq_all_conv)

lemma from_slash_append [simp]: "CHR ''/'' \<notin> set p \<Longrightarrow> from_slash (p @ CHR ''/'' # s) = CHR ''/'' # s"
  by (simp add: from_slash_def dropWhile_append dropWhile_eq_Nil_conv)

lemma internalProviders_eq:
  "internalProvidersForPublicSlug s =
     (if before_slash s = ''near-ai'' then [] else if s = ''other'' then [''near-ai''] else [s])"
  by (simp add: internalProvidersForPublicSlug_def member_iff group_iff PUBLIC_PROVIDER_MEMBERS_def)

lemma before_slash_near:
  "before_slash (''near-ai'' @ r) = ''near-ai'' \<longleftrightarrow> r = [] \<or> hd r = CHR ''/''"
  by (cases r) (auto simp: before_slash_def)

subsection \<open>Properties\<close>

text \<open>
  A member id is never public. The public slug of any provider is not a member id; the slug a
  customer sends covers an internal provider exactly when it is that provider's public slug and not
  an internal namespace, a group slug covering its members only; and a member id, alone or
  qualified, covers nothing, like an unknown provider.
\<close>

theorem public_slug_conceals:
  "\<not> isPublicProviderMember (publicProviderSlug p)
   \<and> (p \<in> set (internalProvidersForPublicSlug s) \<longleftrightarrow>
        publicProviderSlug p = s
        \<and> (if isPublicProviderMember p then isPublicProviderGroupSlug s
           else \<not> isPublicProviderGroupSlug p \<and> \<not> isPublicProviderMember (before_slash p)))
   \<and> internalProvidersForPublicSlug (''near-ai'' @ r) =
       (if r = [] \<or> hd r = CHR ''/'' then [] else [''near-ai'' @ r])"
  by (auto simp: internalProviders_eq before_slash_near [simplified] publicProviderSlug_eq member_iff group_iff)

lemma near_ai_text: "CHR ''/'' \<notin> set ''near-ai''" "CHR ''/'' \<notin> set ''other''"
  "map to_lower_char (js_trim ''near-ai'') = ''near-ai''" "map to_lower_char (js_trim ''other'') = ''other''"
  by code_simp+

lemma namespace_near [simp]: "mb_namespace (snd (hd PUBLIC_PROVIDER_MEMBERS)) = ''other''"
  by (simp add: PUBLIC_PROVIDER_MEMBERS_def)

text \<open>
  A member's routes have one public form. The id a member's route is published under is the
  public form of its stored id, is not refused as internal and is not legacy; the stored form under
  the internal namespace is refused from customers and is legacy; and publishing twice changes
  nothing.
\<close>

theorem member_route_ids:
  assumes "isPublicProviderMember p"
  shows "publicRouteId (p @ ''/'' @ slug) = providerQualifiedRouteId p slug
    \<and> publicRouteId (providerQualifiedRouteId p slug) = providerQualifiedRouteId p slug
    \<and> \<not> isMemberInternalRouteId (providerQualifiedRouteId p slug)
    \<and> \<not> isLegacyMemberRouteId p (providerQualifiedRouteId p slug)
    \<and> isMemberInternalRouteId (p @ ''/'' @ slug) \<and> isLegacyMemberRouteId p (p @ ''/'' @ slug)"
proof -
  have p: "p = ''near-ai''" using assms by (simp add: member_iff)
  have q: "providerQualifiedRouteId ''near-ai'' slug = ''other'' @ CHR ''/'' # slug"
    by (simp add: providerQualifiedRouteId_def memberOf_eq)
  have "publicRouteId (''near-ai'' @ CHR ''/'' # slug) = ''other'' @ CHR ''/'' # slug"
    "publicRouteId (''other'' @ CHR ''/'' # slug) = ''other'' @ CHR ''/'' # slug"
    unfolding publicRouteId_def by (simp_all only: before_slash_append from_slash_append near_ai_text
        not_False_eq_True) (simp_all add: memberOf_eq)
  moreover have "isMemberInternalRouteId (''near-ai'' @ CHR ''/'' # slug)"
    "\<not> isMemberInternalRouteId (''other'' @ CHR ''/'' # slug)"
    unfolding isMemberInternalRouteId_def by (simp_all only: before_slash_append from_slash_append near_ai_text
        not_False_eq_True Let_def) (simp_all add: memberOf_eq)
  ultimately show ?thesis
    by (simp add: p q isLegacyMemberRouteId_def memberOf_eq starts_with_def)
qed

theorem member_route_ids_witness:
  "publicRouteId ''near-ai/glm'' = providerQualifiedRouteId ''near-ai'' ''glm''"
  using member_route_ids [of "''near-ai''" "''glm''"] by (simp add: member_iff)

end
