(* ===== verification/RoutingEngine.thy ===== *)
theory RoutingEngine
  imports PublicIdentity Ledger Circuit
begin

section \<open>The provider routing engine (providers/routing/engine.ts)\<close>

text \<open>
  The pure engine that turns the routes of one model, a normalized policy and content-free request
  facts into a bounded, ordered plan. A route object is a record; its identity, which the code
  compares in a \<open>Set\<close>, is the field \<open>pr_object\<close>, so equal records are one object. Comparison keys are
  numbers, the infinity of an absent metric, or strings, compared position by position. Prices and
  latencies are finite numbers.
\<close>

datatype provider_health = Healthy | Degraded | TemporarilyUnavailable | Disabled

datatype model_type = TextModel | ImageModel | TtsModel | EmbeddingModel

record provider_route =
  pr_object :: nat
  pr_provider :: string
  pr_canonicalModelId :: string
  pr_publicModelId :: string
  pr_externalModelId :: string
  pr_privacyClass :: string
  pr_modelType :: model_type
  pr_inputPrice :: rat
  pr_outputPrice :: rat
  pr_cacheReadPrice :: "rat option"
  pr_cacheWritePrice :: "rat option"
  pr_unitPrice :: "rat option"
  pr_priced :: bool
  pr_streaming :: bool
  pr_tools :: bool
  pr_vision :: bool
  pr_reasoning :: bool
  pr_maxOutput :: "int option"
  pr_contextWindow :: int
  pr_expectedLatency :: "rat option"
  pr_latencyP50 :: "rat option"
  pr_throughput :: "rat option"
  pr_health :: provider_health
  pr_stableId :: string

record routing_request =
  rq_operation :: operation
  rq_stream :: bool
  rq_tools :: bool
  rq_vision :: bool
  rq_reasoning :: bool
  rq_e2ee :: bool
  rq_maxOutput :: "int option"
  rq_inputCeiling :: "int option"

record routing_plan =
  pl_model :: string
  pl_policy :: policy
  pl_attempts :: "provider_route list"
  pl_effectivePrivacy :: string
  pl_minimumPrivacy :: string
  pl_fallback :: bool
  pl_maxReservation :: rat

datatype unavailable_reason = NoRoute | NoRouteMeetsPrivacy | NoRouteMeetsPrice | NoRouteFitsContext

record health_signals =
  hs_emergencyDisabled :: bool
  hs_killSwitch :: bool
  hs_circuit :: "circuit_state option"
  hs_catalogStale :: "bool option"
  hs_providerActive :: "bool option"
  hs_modelCallable :: "bool option"
  hs_recentAttempts :: "int option"
  hs_successRate :: "rat option"

definition providerHealthFromSignals :: "health_signals \<Rightarrow> provider_health" where
  "providerHealthFromSignals s =
     (if hs_emergencyDisabled s \<or> hs_providerActive s = Some False \<or> hs_modelCallable s = Some False
      then Disabled
      else if hs_killSwitch s \<or> hs_circuit s = Some Open then TemporarilyUnavailable
      else if hs_circuit s = Some HalfOpen \<or> hs_catalogStale s = Some True then Degraded
      else case hs_successRate s of
             Some rate \<Rightarrow>
               if (case hs_recentAttempts s of None \<Rightarrow> 0 | Some n \<Rightarrow> n) \<ge> 8 \<and> rate < 1 / 2
               then Degraded else Healthy
           | None \<Rightarrow> Healthy)"

subsection \<open>Filters\<close>

definition matchesSlug :: "string \<Rightarrow> string \<Rightarrow> bool" where
  "matchesSlug routeProvider slug =
     (let route = publicProviderSlug routeProvider in
      route = slug \<or> starts_with route (slug @ ''/''))"

definition inList :: "string \<Rightarrow> string list \<Rightarrow> bool" where
  "inList routeProvider l = list_ex (matchesSlug routeProvider) l"

definition routeIsAttemptable :: "provider_route \<Rightarrow> bool" where
  "routeIsAttemptable r \<longleftrightarrow> pr_health r \<noteq> Disabled \<and> pr_health r \<noteq> TemporarilyUnavailable"

definition operationModelType :: "operation \<Rightarrow> model_type" where
  "operationModelType op =
     (case op of OpEmbeddings \<Rightarrow> EmbeddingModel | OpImage \<Rightarrow> ImageModel | OpSpeech \<Rightarrow> TtsModel
        | OpChat \<Rightarrow> TextModel)"

definition technically_eligible :: "policy \<Rightarrow> routing_request \<Rightarrow> provider_route \<Rightarrow> bool" where
  "technically_eligible p q r =
     (if pr_modelType r \<noteq> operationModelType (rq_operation q) then False
      else if (if rq_e2ee q then pr_privacyClass r \<noteq> ''e2ee'' else pr_privacyClass r = ''e2ee'') then False
      else if \<not> routeIsAttemptable r then False
      else if \<not> pr_priced r then False
      else if (case only p of None \<Rightarrow> False | Some l \<Rightarrow> \<not> inList (pr_provider r) l) then False
      else if ignore p \<noteq> [] \<and> inList (pr_provider r) (ignore p) then False
      else if rq_stream q \<and> \<not> pr_streaming r then False
      else if rq_tools q \<and> \<not> pr_tools r then False
      else if rq_vision q \<and> \<not> pr_vision r then False
      else if requireParameters p \<and> rq_reasoning q \<and> \<not> pr_reasoning r then False
      else if (case (rq_maxOutput q, pr_maxOutput r) of
                 (Some want, Some limit) \<Rightarrow> want > limit | _ \<Rightarrow> False) then False
      else True)"

definition technicallyEligibleRoutes ::
    "provider_route list \<Rightarrow> policy \<Rightarrow> routing_request \<Rightarrow> provider_route list" where
  "technicallyEligibleRoutes routes p q = filter (technically_eligible p q) routes"

definition routeFitsRequestContext :: "provider_route \<Rightarrow> routing_request \<Rightarrow> bool" where
  "routeFitsRequestContext r q =
     (case rq_inputCeiling q of
        None \<Rightarrow> True
      | Some tokens \<Rightarrow>
          if pr_modelType r = TextModel then
            (let remaining = pr_contextWindow r - tokens in
             if remaining \<le> 0 then False
             else case rq_maxOutput q of None \<Rightarrow> True | Some want \<Rightarrow> want \<le> remaining)
          else if pr_modelType r = EmbeddingModel then tokens \<le> pr_contextWindow r
          else True)"

definition passesMaxPrice :: "provider_route \<Rightarrow> policy \<Rightarrow> bool" where
  "passesMaxPrice r p =
     (case maxPrice p of
        None \<Rightarrow> True
      | Some (i, out) \<Rightarrow>
          if (case i of None \<Rightarrow> False | Some m \<Rightarrow> pr_inputPrice r > m) then False
          else if (case out of None \<Rightarrow> False | Some m \<Rightarrow> pr_outputPrice r > m) then False
          else True)"

definition listEligibleProviderRoutes ::
    "provider_route list \<Rightarrow> policy \<Rightarrow> routing_request \<Rightarrow> provider_route list" where
  "listEligibleProviderRoutes routes p q =
     filter (\<lambda>r. passesMaxPrice r p \<and> routeFitsRequestContext r q) (technicallyEligibleRoutes routes p q)"

subsection \<open>Ordering\<close>

datatype sort_key = KNum rat | KInf | KStr string

instantiation sort_key :: linorder
begin

fun less_sort_key :: "sort_key \<Rightarrow> sort_key \<Rightarrow> bool" where
  "KNum a < KNum b \<longleftrightarrow> a < b"
| "KNum a < KInf \<longleftrightarrow> True"
| "KNum a < KStr t \<longleftrightarrow> True"
| "KInf < KStr t \<longleftrightarrow> True"
| "KStr s < KStr t \<longleftrightarrow> s < t"
| "(_ :: sort_key) < _ \<longleftrightarrow> False"

definition less_eq_sort_key :: "sort_key \<Rightarrow> sort_key \<Rightarrow> bool" where
  "a \<le> b \<longleftrightarrow> a < b \<or> a = (b :: sort_key)"

instance
proof
  fix x y z :: sort_key
  show "x < y \<longleftrightarrow> x \<le> y \<and> \<not> y \<le> x"
    by (cases x; cases y) (auto simp: less_eq_sort_key_def)
  show "x \<le> x" by (simp add: less_eq_sort_key_def)
  show "x \<le> y \<Longrightarrow> y \<le> z \<Longrightarrow> x \<le> z"
    by (cases x; cases y; cases z) (auto simp: less_eq_sort_key_def)
  show "x \<le> y \<Longrightarrow> y \<le> x \<Longrightarrow> x = y"
    by (cases x; cases y) (auto simp: less_eq_sort_key_def)
  show "x \<le> y \<or> y \<le> x"
    by (cases x; cases y) (auto simp: less_eq_sort_key_def)
qed

end

definition priceKey :: "provider_route \<Rightarrow> sort_key" where
  "priceKey r =
     (if pr_modelType r = ImageModel \<or> pr_modelType r = TtsModel
      then (case pr_unitPrice r of None \<Rightarrow> KInf | Some u \<Rightarrow> KNum u)
      else KNum (pr_inputPrice r + pr_outputPrice r))"

definition healthKey :: "provider_route \<Rightarrow> sort_key" where
  "healthKey r = KNum (if pr_health r = Healthy then 0 else 1)"

definition PROVIDER_TIE_BREAK_ORDER :: "string list" where
  "PROVIDER_TIE_BREAK_ORDER =
     [''aws-bedrock'', ''chutes'', ''deepinfra'', ''fireworks'', ''mock'', ''phala-ai'', ''tinfoil'', ''venice'',
      ''near-ai'']"

definition providerTieBreakRank :: "string \<Rightarrow> nat" where
  "providerTieBreakRank provider = length (takeWhile (\<lambda>p. p \<noteq> provider) PROVIDER_TIE_BREAK_ORDER)"

definition compareProviderTieBreak :: "string \<Rightarrow> string \<Rightarrow> int" where
  "compareProviderTieBreak l r =
     (let rank = int (providerTieBreakRank l) - int (providerTieBreakRank r) in
      if rank \<noteq> 0 then rank else if l < r then -1 else if l > r then 1 else 0)"

definition tieKey :: "provider_route \<Rightarrow> sort_key" where
  "tieKey r = KNum (of_nat (providerTieBreakRank (pr_provider r)))"

definition latencyKey :: "provider_route \<Rightarrow> sort_key" where
  "latencyKey r =
     (case pr_latencyP50 r of
        Some l \<Rightarrow> KNum l
      | None \<Rightarrow> (case pr_expectedLatency r of Some l \<Rightarrow> KNum l | None \<Rightarrow> KInf))"

text \<open>The negated throughput; an unknown one is \<open>-(-\<infinity>)\<close>.\<close>

definition throughputKeyDesc :: "provider_route \<Rightarrow> sort_key" where
  "throughputKeyDesc r = (case pr_throughput r of Some t \<Rightarrow> KNum (- t) | None \<Rightarrow> KInf)"

definition privacyKeyDesc :: "provider_route \<Rightarrow> sort_key" where
  "privacyKeyDesc r = KNum (- of_nat (PRIVACY_RANK (pr_privacyClass r)))"

definition comparisonKeys :: "provider_sort \<Rightarrow> provider_route \<Rightarrow> sort_key list" where
  "comparisonKeys s r =
     (case s of
        SortPrice \<Rightarrow> [priceKey r, healthKey r, latencyKey r, tieKey r, KStr (pr_stableId r)]
      | SortLatency \<Rightarrow> [latencyKey r, healthKey r, priceKey r, tieKey r, KStr (pr_stableId r)]
      | SortThroughput \<Rightarrow> [throughputKeyDesc r, healthKey r, priceKey r, tieKey r, KStr (pr_stableId r)]
      | SortPrivacy \<Rightarrow> [privacyKeyDesc r, healthKey r, priceKey r, latencyKey r, tieKey r,
                       KStr (pr_stableId r)])"

fun compare_keys :: "sort_key list \<Rightarrow> sort_key list \<Rightarrow> int" where
  "compare_keys (a # as) (b # bs) = (if a < b then -1 else if a > b then 1 else compare_keys as bs)"
| "compare_keys _ _ = 0"

definition compareRoutes :: "provider_sort \<Rightarrow> provider_route \<Rightarrow> provider_route \<Rightarrow> int" where
  "compareRoutes s a b = compare_keys (comparisonKeys s a) (comparisonKeys s b)"

subsection \<open>The plan\<close>

definition rankOf :: "provider_route \<Rightarrow> nat" where
  "rankOf r = PRIVACY_RANK (pr_privacyClass r)"

definition hardFloorRank :: "policy \<Rightarrow> nat option" where
  "hardFloorRank p =
     (case minimumPrivacy p of
        Some f \<Rightarrow> Some (PRIVACY_RANK (floor_name f))
      | None \<Rightarrow> if sort_by p = SortPrivacy then None else Some (PRIVACY_RANK ''private''))"

text \<open>The nested loop over the explicit order: a route already taken is not taken again.\<close>

definition take_slug :: "provider_route list \<Rightarrow> string \<Rightarrow> provider_route list \<Rightarrow> provider_route list" where
  "take_slug pool slug explicit =
     fold (\<lambda>r ex. if r \<notin> set ex \<and> matchesSlug (pr_provider r) slug then ex @ [r] else ex) pool explicit"

definition explicit_routes :: "string list \<Rightarrow> provider_route list \<Rightarrow> provider_route list" where
  "explicit_routes slugs pool = fold (take_slug pool) slugs []"

definition confineFloor :: "provider_route list \<Rightarrow> provider_route list \<Rightarrow> nat" where
  "confineFloor explicit ordered =
     (case explicit of
        [] \<Rightarrow> rankOf (hd ordered)
      | r # rs \<Rightarrow> foldl min (rankOf r) (map rankOf rs))"

definition fallback_order ::
    "policy \<Rightarrow> provider_route list \<Rightarrow> provider_route list \<Rightarrow> provider_route list" where
  "fallback_order p explicit sortedPool =
     (let remainder = filter (\<lambda>r. r \<notin> set explicit) sortedPool in
      if allowFallbacks p then explicit @ remainder
      else if explicit \<noteq> [] then explicit else remainder)"

definition confine :: "policy \<Rightarrow> provider_route list \<Rightarrow> provider_route list \<Rightarrow> provider_route list" where
  "confine p explicit ordered =
     (if minimumPrivacy p = None \<and> sort_by p = SortPrivacy \<and> ordered \<noteq> []
      then filter (\<lambda>r. r \<in> set explicit \<or> rankOf r \<ge> confineFloor explicit ordered) ordered
      else ordered)"

definition orderedRoutes :: "policy \<Rightarrow> provider_route list \<Rightarrow> provider_route list" where
  "orderedRoutes p pool =
     (let sortedPool = js_sort (compareRoutes (sort_by p)) pool;
          explicit = explicit_routes (order p) sortedPool
      in confine p explicit (fallback_order p explicit sortedPool))"

definition class_with_rank :: "nat \<Rightarrow> provider_route list \<Rightarrow> string" where
  "class_with_rank n attempts =
     (case find (\<lambda>r. rankOf r = n) attempts of Some r \<Rightarrow> pr_privacyClass r | None \<Rightarrow> [])"

definition plan_of ::
    "string \<Rightarrow> policy \<Rightarrow> (provider_route \<Rightarrow> rat) \<Rightarrow> provider_route list \<Rightarrow> routing_plan" where
  "plan_of model p reservationCostUsd attempts =
     \<lparr> pl_model = model, pl_policy = p, pl_attempts = attempts,
       pl_effectivePrivacy = class_with_rank (foldl max 0 (map rankOf attempts)) attempts,
       pl_minimumPrivacy = class_with_rank (foldl min (rankOf (hd attempts)) (map rankOf attempts)) attempts,
       pl_fallback = length attempts > 1,
       pl_maxReservation = foldl max 0 (map reservationCostUsd attempts) \<rparr>"

definition buildProviderRoutingPlan ::
    "string \<Rightarrow> provider_route list \<Rightarrow> policy \<Rightarrow> routing_request \<Rightarrow> (provider_route \<Rightarrow> rat)
      \<Rightarrow> unavailable_reason + routing_plan" where
  "buildProviderRoutingPlan model routes p q reservationCostUsd =
     (let capable = technicallyEligibleRoutes routes p q in
      if capable = [] then Inl NoRoute
      else
        let withinPrice = filter (\<lambda>r. passesMaxPrice r p) capable in
        if withinPrice = [] then Inl NoRouteMeetsPrice
        else
          let withinHardFloor = (case hardFloorRank p of
                None \<Rightarrow> withinPrice | Some n \<Rightarrow> filter (\<lambda>r. rankOf r \<ge> n) withinPrice) in
          if withinHardFloor = [] then Inl NoRouteMeetsPrivacy
          else
            let ordered = orderedRoutes p withinHardFloor;
                fitting = filter (\<lambda>r. routeFitsRequestContext r q) ordered in
            if ordered \<noteq> [] \<and> fitting = [] then Inl NoRouteFitsContext
            else
              let attempts = take (nat \<lfloor>max 1 (maxAttempts p)\<rfloor>)
                    (if allowFallbacks p then fitting else take 1 fitting) in
              if attempts = [] then Inl NoRoute
              else Inr (plan_of model p reservationCostUsd attempts))"

definition isProviderRouteEligible :: "provider_route \<Rightarrow> policy \<Rightarrow> routing_request \<Rightarrow> bool" where
  "isProviderRouteEligible r p q =
     (let pool = listEligibleProviderRoutes [r] p q in
      if pool = [] then False
      else case minimumPrivacy p of
             None \<Rightarrow> True
           | Some f \<Rightarrow> \<not> rankOf r < PRIVACY_RANK (floor_name f))"

definition selectNextProviderAttempt :: "routing_plan \<Rightarrow> int \<Rightarrow> provider_route option" where
  "selectNextProviderAttempt plan attemptIndex =
     (if attemptIndex < 0 \<or> attemptIndex \<ge> int (length (pl_attempts plan)) then None
      else Some (pl_attempts plan ! nat attemptIndex))"

end
