(* ===== verification/RoutingSpec.thy ===== *)
theory RoutingSpec
  imports RoutingEngine
begin

section \<open>What a routing plan guarantees\<close>

text \<open>
  The lemmas of the routing engine: its comparator is a total order on the keys (interpreting the
  locale \<open>comparator\<close>), the sort of routes with distinct stable ids is unique, the explicit order keeps
  within the pool, and \<open>buildProviderRoutingPlan\<close> has one closed form \<open>build_eq\<close>. The properties read
  that form: who may be attempted, that Auto never moves to a weaker privacy class, what the
  reservation covers, when and why a plan fails, and that the result does not depend on the order in
  which the routes are listed.
\<close>

subsection \<open>The comparator\<close>

lemma compare_keys_le: "length as = length bs \<Longrightarrow> compare_keys as bs \<le> 0 \<longleftrightarrow> as \<le> bs"
  by (induction as bs rule: list_induct2) auto

lemma length_comparisonKeys: "length (comparisonKeys s a) = length (comparisonKeys s b)"
  by (cases s) (simp_all add: comparisonKeys_def)

lemma compareRoutes_le: "compareRoutes s a b \<le> 0 \<longleftrightarrow> comparisonKeys s a \<le> comparisonKeys s b"
  unfolding compareRoutes_def by (rule compare_keys_le [OF length_comparisonKeys])

lemma comparisonKeys_stableId: "comparisonKeys s a = comparisonKeys s b \<Longrightarrow> pr_stableId a = pr_stableId b"
  by (cases s) (simp_all add: comparisonKeys_def)

interpretation route_order: comparator "compareRoutes s" for s
  by unfold_locales (auto simp: compareRoutes_le)

lemma route_sort_unique:
  assumes "mset xs = mset ys" and "inj_on pr_stableId (set xs)"
  shows "js_sort (compareRoutes s) xs = js_sort (compareRoutes s) ys"
proof (rule route_order.js_sort_unique [OF assms(1)])
  fix a b
  assume ab: "a \<in> set xs" "b \<in> set xs" and "compareRoutes s a b \<le> 0" "compareRoutes s b a \<le> 0"
  then have "comparisonKeys s a = comparisonKeys s b" by (simp add: compareRoutes_le)
  then have "pr_stableId a = pr_stableId b" by (rule comparisonKeys_stableId)
  with assms(2) ab show "a = b" by (simp add: inj_on_eq_iff)
qed

subsection \<open>The explicit order\<close>

lemma set_take_slug:
  "set (take_slug pool slug ex) = set ex \<union> {r \<in> set pool. matchesSlug (pr_provider r) slug}"
  unfolding take_slug_def by (induction pool arbitrary: ex) auto

lemma set_explicit_from:
  "set (fold (take_slug pool) slugs ex)
    = set ex \<union> {r \<in> set pool. \<exists>slug \<in> set slugs. matchesSlug (pr_provider r) slug}"
  by (induction slugs arbitrary: ex) (auto simp: set_take_slug)

lemma set_explicit_routes:
  "set (explicit_routes slugs pool) = {r \<in> set pool. inList (pr_provider r) slugs}"
  by (simp add: explicit_routes_def set_explicit_from inList_def list_ex_iff)

lemma explicit_routes_Nil [simp]: "explicit_routes [] pool = []"
  by (simp add: explicit_routes_def)

subsection \<open>The closed form of the plan\<close>

text \<open>The routes that pass every filter before the order: technical, price and hard privacy floor.\<close>

definition route_pool :: "provider_route list \<Rightarrow> policy \<Rightarrow> routing_request \<Rightarrow> provider_route list" where
  "route_pool routes p q =
     filter (\<lambda>r. technically_eligible p q r \<and> passesMaxPrice r p
       \<and> (case hardFloorRank p of None \<Rightarrow> True | Some n \<Rightarrow> n \<le> rankOf r)) routes"

lemma set_confine: "set (confine p ex ord) \<subseteq> set ord"
  by (auto simp: confine_def)

lemma set_fallback_order: "set ex \<subseteq> set sp \<Longrightarrow> set (fallback_order p ex sp) \<subseteq> set sp"
  by (auto simp: fallback_order_def Let_def)

lemma set_orderedRoutes: "set (orderedRoutes p pool) \<subseteq> set pool"
proof -
  let ?sp = "js_sort (compareRoutes (sort_by p)) pool"
  have "set (fallback_order p (explicit_routes (order p) ?sp) ?sp) \<subseteq> set ?sp"
    by (rule set_fallback_order) (auto simp: set_explicit_routes)
  then show ?thesis
    using set_confine by (fastforce simp: orderedRoutes_def Let_def)
qed

lemma fallback_order_not_Nil: "sp \<noteq> [] \<Longrightarrow> fallback_order p ex sp \<noteq> []"
  by (simp add: fallback_order_def Let_def)

lemma fallback_order_explicit: "ex \<noteq> [] \<Longrightarrow> \<exists>rest. fallback_order p ex sp = ex @ rest"
  by (simp add: fallback_order_def Let_def)

lemma confine_not_Nil:
  assumes "ord \<noteq> []" and "ex \<noteq> [] \<Longrightarrow> \<exists>rest. ord = ex @ rest"
  shows "confine p ex ord \<noteq> []"
proof (cases "ex = []")
  case True
  with assms(1) show ?thesis by (cases ord) (simp_all add: confine_def confineFloor_def)
next
  case False
  with assms(2) obtain rest where "ord = ex @ rest" by auto
  with False show ?thesis by (cases ex) (simp_all add: confine_def)
qed

lemma orderedRoutes_not_Nil:
  assumes "pool \<noteq> []"
  shows "orderedRoutes p pool \<noteq> []"
proof -
  have "js_sort (compareRoutes (sort_by p)) pool \<noteq> []"
    using assms length_js_sort [of "compareRoutes (sort_by p)" pool] by (metis length_0_conv)
  then show ?thesis
    unfolding orderedRoutes_def Let_def
    by (intro confine_not_Nil fallback_order_not_Nil fallback_order_explicit)
qed

lemma route_pool_eq:
  "route_pool routes p q = (case hardFloorRank p of
      None \<Rightarrow> filter (\<lambda>r. passesMaxPrice r p) (technicallyEligibleRoutes routes p q)
    | Some n \<Rightarrow> filter (\<lambda>r. rankOf r \<ge> n)
        (filter (\<lambda>r. passesMaxPrice r p) (technicallyEligibleRoutes routes p q)))"
  by (auto simp: route_pool_def technicallyEligibleRoutes_def conj_assoc split: option.splits
      intro!: filter_cong)

definition fitting_routes :: "policy \<Rightarrow> routing_request \<Rightarrow> provider_route list \<Rightarrow> provider_route list" where
  "fitting_routes p q pool = filter (\<lambda>r. routeFitsRequestContext r q) (orderedRoutes p pool)"

definition planned :: "policy \<Rightarrow> provider_route list \<Rightarrow> provider_route list" where
  "planned p fitting = take (nat \<lfloor>max 1 (maxAttempts p)\<rfloor>) (if allowFallbacks p then fitting else take 1 fitting)"

lemma attempts_pos: "0 < nat \<lfloor>max 1 (x :: rat)\<rfloor>"
proof -
  have "1 \<le> \<lfloor>max 1 x\<rfloor>" by (simp add: le_floor_iff)
  then show ?thesis by simp
qed

lemma planned_Nil [simp]: "planned p l = [] \<longleftrightarrow> l = []"
  using attempts_pos [of "maxAttempts p"] by (simp add: planned_def)

lemma set_planned: "set (planned p l) \<subseteq> set l"
  by (auto simp: planned_def dest!: in_set_takeD)

lemma build_eq:
  "buildProviderRoutingPlan model routes p q cost =
     (if technicallyEligibleRoutes routes p q = [] then Inl NoRoute
      else if filter (\<lambda>r. passesMaxPrice r p) (technicallyEligibleRoutes routes p q) = []
      then Inl NoRouteMeetsPrice
      else if route_pool routes p q = [] then Inl NoRouteMeetsPrivacy
      else if fitting_routes p q (route_pool routes p q) = [] then Inl NoRouteFitsContext
      else Inr (plan_of model p cost (planned p (fitting_routes p q (route_pool routes p q)))))"
  unfolding buildProviderRoutingPlan_def Let_def route_pool_eq [symmetric] fitting_routes_def [symmetric]
    planned_def [symmetric]
  by (simp add: orderedRoutes_not_Nil)

lemma build_Inr:
  assumes "buildProviderRoutingPlan model routes p q cost = Inr plan"
  shows "route_pool routes p q \<noteq> []"
    and "fitting_routes p q (route_pool routes p q) \<noteq> []"
    and "plan = plan_of model p cost (planned p (fitting_routes p q (route_pool routes p q)))"
  using assms by (auto simp: build_eq split: if_splits)

lemma set_attempts:
  assumes "buildProviderRoutingPlan model routes p q cost = Inr plan" and "r \<in> set (pl_attempts plan)"
  shows "r \<in> set routes \<and> technically_eligible p q r \<and> passesMaxPrice r p
    \<and> (case hardFloorRank p of None \<Rightarrow> True | Some n \<Rightarrow> n \<le> rankOf r) \<and> routeFitsRequestContext r q
    \<and> r \<in> set (orderedRoutes p (route_pool routes p q))"
  using assms(2) set_planned set_orderedRoutes [of p "route_pool routes p q"]
  unfolding build_Inr(3) [OF assms(1)] plan_of_def fitting_routes_def
  by (fastforce simp: route_pool_def)

subsection \<open>Eligibility\<close>

lemma PRIVACY_RANK_floor [simp]: "PRIVACY_RANK (floor_name f) = floor_rank f"
  by (cases f) (simp_all add: PRIVACY_RANK_def floor_name_def floor_rank_def)

lemma hardFloorRank_eq:
  "hardFloorRank p = (case minimumPrivacy p of Some f \<Rightarrow> Some (floor_rank f)
     | None \<Rightarrow> if sort_by p = SortPrivacy then None else Some 1)"
proof -
  have "PRIVACY_RANK ''private'' = 1" by (simp add: PRIVACY_RANK_def)
  then show ?thesis by (simp add: hardFloorRank_def split: option.splits)
qed

lemma eligible_iff:
  "isProviderRouteEligible r p q \<longleftrightarrow> technically_eligible p q r \<and> passesMaxPrice r p
     \<and> routeFitsRequestContext r q
     \<and> (case minimumPrivacy p of None \<Rightarrow> True | Some f \<Rightarrow> floor_rank f \<le> rankOf r)"
  by (auto simp: isProviderRouteEligible_def listEligibleProviderRoutes_def technicallyEligibleRoutes_def
      Let_def not_less split: option.splits)

lemma technically_eligible_modality:
  "technically_eligible p q r \<Longrightarrow> pr_privacyClass r = ''e2ee'' \<longleftrightarrow> rq_e2ee q"
  by (simp add: technically_eligible_def split: if_splits)

lemma technically_eligible_health:
  "technically_eligible p q r \<Longrightarrow> pr_health r \<noteq> Disabled \<and> pr_health r \<noteq> TemporarilyUnavailable"
  by (simp add: technically_eligible_def routeIsAttemptable_def split: if_splits)

lemma length_planned:
  "of_nat (length (planned p l)) \<le> (max 1 (maxAttempts p) :: rat) \<and> (length (planned p l) \<le> 1 \<or> allowFallbacks p)"
proof -
  have "length (planned p l) \<le> nat \<lfloor>max 1 (maxAttempts p)\<rfloor>" by (simp add: planned_def)
  then have "of_nat (length (planned p l)) \<le> (of_nat (nat \<lfloor>max 1 (maxAttempts p)\<rfloor>) :: rat)"
    by (simp only: of_nat_le_iff)
  also have "\<dots> \<le> max 1 (maxAttempts p)"
    using attempts_pos [of "maxAttempts p"] by (simp add: of_nat_nat)
  finally show ?thesis by (simp add: planned_def min_le_iff_disj)
qed

text \<open>
  C31. Every planned attempt is allowed. A plan has at least one attempt and at most the policy's
  maximum, and one only if fallbacks are off; each attempt is one of the given routes, is eligible
  under the policy for this request, serves exactly the request's modality (ciphertext or plaintext),
  is not disabled or unavailable, and under a price, latency or throughput sort without a floor is
  at least of the private class.
\<close>

theorem plan_attempts_eligible:
  assumes "buildProviderRoutingPlan model routes p q cost = Inr plan"
  shows "pl_attempts plan \<noteq> [] \<and> of_nat (length (pl_attempts plan)) \<le> max 1 (maxAttempts p)
    \<and> (allowFallbacks p \<or> length (pl_attempts plan) = 1)
    \<and> (\<forall>r \<in> set (pl_attempts plan). r \<in> set routes \<and> isProviderRouteEligible r p q
        \<and> (pr_privacyClass r = ''e2ee'' \<longleftrightarrow> rq_e2ee q)
        \<and> pr_health r \<noteq> Disabled \<and> pr_health r \<noteq> TemporarilyUnavailable
        \<and> (minimumPrivacy p = None \<and> sort_by p \<noteq> SortPrivacy \<longrightarrow> 1 \<le> rankOf r))"
proof -
  let ?l = "fitting_routes p q (route_pool routes p q)"
  have att: "pl_attempts plan = planned p ?l" by (simp add: build_Inr(3) [OF assms] plan_of_def)
  have "planned p ?l \<noteq> []" using build_Inr(2) [OF assms] by simp
  then have "length (planned p ?l) \<noteq> 0" by simp
  then have num: "pl_attempts plan \<noteq> [] \<and> of_nat (length (pl_attempts plan)) \<le> max 1 (maxAttempts p)
    \<and> (allowFallbacks p \<or> length (pl_attempts plan) = 1)"
    using length_planned [of p ?l] unfolding att by (auto simp: le_Suc_eq)
  have "r \<in> set routes \<and> isProviderRouteEligible r p q
        \<and> (pr_privacyClass r = ''e2ee'' \<longleftrightarrow> rq_e2ee q)
        \<and> pr_health r \<noteq> Disabled \<and> pr_health r \<noteq> TemporarilyUnavailable
        \<and> (minimumPrivacy p = None \<and> sort_by p \<noteq> SortPrivacy \<longrightarrow> 1 \<le> rankOf r)"
    if "r \<in> set (pl_attempts plan)" for r
    using set_attempts [OF assms that] technically_eligible_modality [of p q r]
      technically_eligible_health [of p q r]
    by (auto simp: eligible_iff hardFloorRank_eq split: option.splits if_splits)
  with num show ?thesis by blast
qed

subsection \<open>Privacy\<close>

lemma privacy_sort_rank: "compareRoutes SortPrivacy a b \<le> 0 \<Longrightarrow> rankOf b \<le> rankOf a"
  by (simp add: compareRoutes_le comparisonKeys_def privacyKeyDesc_def rankOf_def) fastforce

lemma confined_strongest:
  assumes "minimumPrivacy p = None" and "sort_by p = SortPrivacy" and "order p = []"
    and "r \<in> set (orderedRoutes p pool)" and "x \<in> set pool"
  shows "rankOf x \<le> rankOf r"
proof -
  let ?sp = "js_sort (compareRoutes SortPrivacy) pool"
  have "?sp \<noteq> []" using assms(5) set_js_sort [of "compareRoutes SortPrivacy" pool] by (metis empty_iff set_empty)
  then obtain y ys where sp: "?sp = y # ys" by (cases ?sp) auto
  have "rankOf x \<le> rankOf y"
    by (rule privacy_sort_rank [OF route_order.hd_js_sort_le [OF sp assms(5)]])
  moreover have "rankOf y \<le> rankOf r"
    using assms(1-4) by (auto simp: orderedRoutes_def Let_def confine_def fallback_order_def sp
        confineFloor_def split: if_splits)
  ultimately show ?thesis by simp
qed

text \<open>
  C28. Auto never downgrades privacy. Under the privacy sort with no floor and no explicit order, every
  attempt of the plan, the fallbacks included, is of the strongest privacy class among all routes
  that pass the technical filters and the price ceiling, even those too small for the prompt.
\<close>

theorem auto_never_downgrades:
  assumes "buildProviderRoutingPlan model routes p q cost = Inr plan"
    and "minimumPrivacy p = None" and "sort_by p = SortPrivacy" and "order p = []"
    and "r \<in> set (pl_attempts plan)"
    and "x \<in> set routes" and "technically_eligible p q x" and "passesMaxPrice x p"
  shows "rankOf x \<le> rankOf r"
proof (rule confined_strongest [OF assms(2-4)])
  show "r \<in> set (orderedRoutes p (route_pool routes p q))"
    using set_attempts [OF assms(1,5)] by blast
  show "x \<in> set (route_pool routes p q)"
    using assms(2,3,6-8) by (simp add: route_pool_def hardFloorRank_eq)
qed

subsection \<open>What the plan reports\<close>

lemma class_with_rank_of:
  assumes "n \<in> rankOf ` set attempts"
  shows "\<exists>r \<in> set attempts. class_with_rank n attempts = pr_privacyClass r \<and> rankOf r = n"
proof -
  obtain r where r: "find (\<lambda>r. rankOf r = n) attempts = Some r"
    using assms by (cases "find (\<lambda>r. rankOf r = n) attempts") (auto simp: find_None_iff)
  then have "class_with_rank n attempts = pr_privacyClass r" by (simp add: class_with_rank_def)
  with r show ?thesis by (auto simp: find_Some_iff)
qed

lemma max_rank_in:
  assumes "attempts \<noteq> []"
  shows "foldl max 0 (map rankOf attempts) \<in> rankOf ` set attempts"
proof -
  have "foldl max 0 (map rankOf attempts) = foldl max (rankOf (hd attempts)) (map rankOf (tl attempts))"
    using assms by (cases attempts) simp_all
  then show ?thesis
    using assms foldl_max_in [of "rankOf (hd attempts)" "map rankOf (tl attempts)"] by (cases attempts) auto
qed

text \<open>
  What a plan reports about itself is honest. The amount to reserve covers every attempt and is
  the cost of one of them (or 0), so a fallback never costs more than was reserved and nothing more
  is held; the effective privacy class is the strongest of an attempt, the minimum class the weakest
  of an attempt, so no attempt serves below the class that is promised; and a fallback is announced
  exactly when there is a second attempt.
\<close>

theorem plan_report_honest:
  assumes "buildProviderRoutingPlan model routes p q cost = Inr plan"
  shows "0 \<le> pl_maxReservation plan
    \<and> (\<forall>r \<in> set (pl_attempts plan). cost r \<le> pl_maxReservation plan
         \<and> rankOf r \<le> PRIVACY_RANK (pl_effectivePrivacy plan)
         \<and> PRIVACY_RANK (pl_minimumPrivacy plan) \<le> rankOf r)
    \<and> (pl_maxReservation plan = 0 \<or> (\<exists>r \<in> set (pl_attempts plan). pl_maxReservation plan = cost r))
    \<and> (\<exists>r \<in> set (pl_attempts plan). pl_effectivePrivacy plan = pr_privacyClass r)
    \<and> (\<exists>r \<in> set (pl_attempts plan). pl_minimumPrivacy plan = pr_privacyClass r)
    \<and> (pl_fallback plan \<longleftrightarrow> 1 < length (pl_attempts plan))"
proof -
  let ?a = "pl_attempts plan"
  have plan: "plan = plan_of model p cost ?a" and ne: "?a \<noteq> []"
    using build_Inr [OF assms] by (simp_all add: plan_of_def)
  have res: "pl_maxReservation plan = foldl max 0 (map cost ?a)"
    and eff: "pl_effectivePrivacy plan = class_with_rank (foldl max 0 (map rankOf ?a)) ?a"
    and low: "pl_minimumPrivacy plan = class_with_rank (foldl min (rankOf (hd ?a)) (map rankOf ?a)) ?a"
    and fb: "pl_fallback plan \<longleftrightarrow> 1 < length ?a"
    by (subst plan, simp add: plan_of_def)+
  have "foldl min (rankOf (hd ?a)) (map rankOf ?a) \<in> rankOf ` set ?a"
    using foldl_min_in [of "rankOf (hd ?a)" "map rankOf ?a"] ne by auto
  from class_with_rank_of [OF this] obtain lo where lo: "lo \<in> set ?a" "pl_minimumPrivacy plan = pr_privacyClass lo"
    "rankOf lo = foldl min (rankOf (hd ?a)) (map rankOf ?a)"
    unfolding low by auto
  from class_with_rank_of [OF max_rank_in [OF ne]] obtain hi where hi: "hi \<in> set ?a"
    "pl_effectivePrivacy plan = pr_privacyClass hi" "rankOf hi = foldl max 0 (map rankOf ?a)"
    unfolding eff by auto
  have bounds: "rankOf r \<le> rankOf hi \<and> rankOf lo \<le> rankOf r \<and> cost r \<le> pl_maxReservation plan" if "r \<in> set ?a" for r
    using that foldl_max_ge [of 0 "map rankOf ?a"] foldl_max_ge [of 0 "map cost ?a"]
      foldl_min_le [of "rankOf (hd ?a)" "map rankOf ?a"]
    unfolding res hi(3) lo(3) by simp
  have "0 \<le> pl_maxReservation plan" unfolding res using foldl_max_ge [of 0 "map cost ?a"] by simp
  moreover have "pl_maxReservation plan = 0 \<or> (\<exists>r \<in> set ?a. pl_maxReservation plan = cost r)"
    unfolding res using foldl_max_in [of 0 "map cost ?a"] by auto
  moreover have "PRIVACY_RANK (pl_effectivePrivacy plan) = rankOf hi"
    "PRIVACY_RANK (pl_minimumPrivacy plan) = rankOf lo"
    by (simp_all add: hi(2) lo(2) rankOf_def)
  ultimately show ?thesis using bounds hi(1,2) lo(1,2) fb by auto
qed

subsection \<open>Determinism\<close>

lemma mset_filter_cong: "mset xs = mset ys \<Longrightarrow> mset (filter P xs) = mset (filter P ys)"
  by simp

text \<open>
  The plan does not depend on how the routes are listed: for routes with distinct stable ids, any
  permutation of the list gives the same plan or the same failure, so a restart or a reordered
  catalog never moves traffic.
\<close>

theorem plan_order_independent:
  assumes "mset routes = mset routes'" and "inj_on pr_stableId (set routes)"
  shows "buildProviderRoutingPlan model routes p q cost = buildProviderRoutingPlan model routes' p q cost"
proof -
  have sets: "set routes = set routes'" using assms(1) by (metis set_mset_mset)
  have pool: "mset (route_pool routes p q) = mset (route_pool routes' p q)"
    unfolding route_pool_def by (rule mset_filter_cong [OF assms(1)])
  have "set (route_pool routes p q) \<subseteq> set routes" by (auto simp: route_pool_def)
  then have "inj_on pr_stableId (set (route_pool routes p q))" by (rule inj_on_subset [OF assms(2)])
  from route_sort_unique [OF pool this]
  have ord: "orderedRoutes p (route_pool routes p q) = orderedRoutes p (route_pool routes' p q)"
    by (simp add: orderedRoutes_def)
  have "technicallyEligibleRoutes routes p q = [] \<longleftrightarrow> technicallyEligibleRoutes routes' p q = []"
    "filter (\<lambda>r. passesMaxPrice r p) (technicallyEligibleRoutes routes p q) = []
       \<longleftrightarrow> filter (\<lambda>r. passesMaxPrice r p) (technicallyEligibleRoutes routes' p q) = []"
    "route_pool routes p q = [] \<longleftrightarrow> route_pool routes' p q = []"
    using sets by (simp_all add: filter_empty_conv technicallyEligibleRoutes_def route_pool_def)
  then show ?thesis by (simp add: build_eq ord fitting_routes_def)
qed

subsection \<open>When there is no plan\<close>

text \<open>
  C32. A plan fails for exactly the reason it reports. There is no route when none passes the technical
  filters; none within the price when some do but none of them is under the ceiling; none private
  enough when some are but all of those are below the hard floor; none fits when every route the
  policy would have attempted is too small for the prompt. In every other case there is a plan.
\<close>

theorem plan_failure_reasons:
  fixes model routes p q cost
  defines "result \<equiv> buildProviderRoutingPlan model routes p q cost"
  shows "(result = Inl NoRoute \<longleftrightarrow> \<not> (\<exists>r \<in> set routes. technically_eligible p q r))
    \<and> (result = Inl NoRouteMeetsPrice \<longleftrightarrow> (\<exists>r \<in> set routes. technically_eligible p q r)
         \<and> \<not> (\<exists>r \<in> set routes. technically_eligible p q r \<and> passesMaxPrice r p))
    \<and> (result = Inl NoRouteMeetsPrivacy \<longleftrightarrow>
         (\<exists>r \<in> set routes. technically_eligible p q r \<and> passesMaxPrice r p)
         \<and> (\<exists>n. hardFloorRank p = Some n
              \<and> (\<forall>r \<in> set routes. technically_eligible p q r \<and> passesMaxPrice r p \<longrightarrow> rankOf r < n)))
    \<and> (result = Inl NoRouteFitsContext \<longleftrightarrow> route_pool routes p q \<noteq> []
         \<and> (\<forall>r \<in> set (orderedRoutes p (route_pool routes p q)). \<not> routeFitsRequestContext r q))
    \<and> ((\<exists>plan. result = Inr plan) \<longleftrightarrow>
         (\<exists>r \<in> set (orderedRoutes p (route_pool routes p q)). routeFitsRequestContext r q))"
proof -
  have t: "technicallyEligibleRoutes routes p q = [] \<longleftrightarrow> \<not> (\<exists>r \<in> set routes. technically_eligible p q r)"
    and w: "filter (\<lambda>r. passesMaxPrice r p) (technicallyEligibleRoutes routes p q) = []
      \<longleftrightarrow> \<not> (\<exists>r \<in> set routes. technically_eligible p q r \<and> passesMaxPrice r p)"
    by (auto simp: technicallyEligibleRoutes_def filter_empty_conv)
  have pool: "route_pool routes p q = [] \<longleftrightarrow> \<not> (\<exists>r \<in> set routes. technically_eligible p q r \<and> passesMaxPrice r p)
      \<or> (\<exists>n. hardFloorRank p = Some n
              \<and> (\<forall>r \<in> set routes. technically_eligible p q r \<and> passesMaxPrice r p \<longrightarrow> rankOf r < n))"
    by (cases "hardFloorRank p") (auto simp: route_pool_def filter_empty_conv not_le)
  have fit: "fitting_routes p q l = [] \<longleftrightarrow> (\<forall>r \<in> set (orderedRoutes p l). \<not> routeFitsRequestContext r q)" for l
    by (simp add: fitting_routes_def filter_empty_conv)
  have "orderedRoutes p (route_pool routes p q) = []" if "route_pool routes p q = []"
    using set_orderedRoutes [of p "[]"] that by simp
  then show ?thesis
    unfolding result_def build_eq t w fit using pool by auto
qed

text \<open>
  With a privacy floor and fallbacks, a plan exists exactly when some route is eligible: nothing the
  ordering does loses the only route that can serve the request.
\<close>

theorem plan_exists_iff_eligible:
  assumes "minimumPrivacy p = Some f" and "allowFallbacks p"
  shows "(\<exists>plan. buildProviderRoutingPlan model routes p q cost = Inr plan)
    \<longleftrightarrow> (\<exists>r \<in> set routes. isProviderRouteEligible r p q)"
proof -
  let ?pool = "route_pool routes p q"
  have "set (orderedRoutes p ?pool) = set ?pool"
    using assms set_explicit_routes [of "order p" "js_sort (compareRoutes (sort_by p)) ?pool"]
    by (auto simp: orderedRoutes_def confine_def fallback_order_def Let_def)
  moreover have "r \<in> set ?pool \<and> routeFitsRequestContext r q \<longleftrightarrow> r \<in> set routes \<and> isProviderRouteEligible r p q" for r
    using assms by (auto simp: eligible_iff route_pool_def hardFloorRank_eq)
  ultimately have "(\<exists>r \<in> set (orderedRoutes p ?pool). routeFitsRequestContext r q)
      \<longleftrightarrow> (\<exists>r \<in> set routes. isProviderRouteEligible r p q)" by blast
  moreover have "(\<exists>plan. buildProviderRoutingPlan model routes p q cost = Inr plan)
      \<longleftrightarrow> fitting_routes p q ?pool \<noteq> []"
    using set_orderedRoutes [of p ?pool]
    by (auto simp: build_eq fitting_routes_def route_pool_eq filter_empty_conv split: option.splits)
  ultimately show ?thesis by (auto simp: fitting_routes_def filter_empty_conv)
qed

text \<open>
  The eligibility check promises more than the planner keeps: under a price, latency or throughput
  sort without a floor the planner requires the private class, which \<open>isProviderRouteEligible\<close> does not
  look at, so a model whose only route is anonymous is reported as having an eligible route and then
  has no plan.
\<close>

theorem eligible_without_a_plan:
  assumes "isProviderRouteEligible r p q" and "minimumPrivacy p = None" and "sort_by p \<noteq> SortPrivacy"
    and "rankOf r = 0"
  shows "buildProviderRoutingPlan model [r] p q cost = Inl NoRouteMeetsPrivacy"
  using assms by (simp add: eligible_iff build_eq technicallyEligibleRoutes_def route_pool_def hardFloorRank_eq)

subsection \<open>The workspace merge\<close>

lemma inList_intersect:
  "inList provider (filter (\<lambda>s. s \<in> set b) a) \<Longrightarrow> inList provider a \<and> inList provider b"
  by (auto simp: inList_def list_ex_iff)

lemma passesMaxPrice_iff:
  "passesMaxPrice r p \<longleftrightarrow> meets_price (maxPrice p) (pr_inputPrice r) (pr_outputPrice r)"
  by (auto simp: passesMaxPrice_def meets_price_def meets_cap_def split: option.splits)

lemma strongerFloor_rank:
  "(case strongerFloor a b of None \<Rightarrow> True | Some f \<Rightarrow> floor_rank f \<le> n) \<longleftrightarrow>
     (case a of None \<Rightarrow> True | Some f \<Rightarrow> floor_rank f \<le> n) \<and> (case b of None \<Rightarrow> True | Some f \<Rightarrow> floor_rank f \<le> n)"
  by (cases a; cases b) (auto simp: strongerFloor_def less_eq_privacy_floor_def)

definition serves_request :: "routing_request \<Rightarrow> provider_route \<Rightarrow> bool" where
  "serves_request q r \<longleftrightarrow> pr_modelType r = operationModelType (rq_operation q)
     \<and> (rq_e2ee q \<longleftrightarrow> pr_privacyClass r = ''e2ee'') \<and> routeIsAttemptable r \<and> pr_priced r
     \<and> (rq_stream q \<longrightarrow> pr_streaming r) \<and> (rq_tools q \<longrightarrow> pr_tools r) \<and> (rq_vision q \<longrightarrow> pr_vision r)
     \<and> (case (rq_maxOutput q, pr_maxOutput r) of (Some want, Some limit) \<Rightarrow> want \<le> limit | _ \<Rightarrow> True)"

definition listed :: "string list option \<Rightarrow> provider_route \<Rightarrow> bool" where
  "listed l r \<longleftrightarrow> (case l of None \<Rightarrow> True | Some xs \<Rightarrow> inList (pr_provider r) xs)"

lemma inList_Nil [simp]: "\<not> inList provider []"
  by (simp add: inList_def)

lemma technically_eligible_iff:
  "technically_eligible p q r \<longleftrightarrow> serves_request q r \<and> listed (only p) r
     \<and> \<not> inList (pr_provider r) (ignore p) \<and> (requireParameters p \<and> rq_reasoning q \<longrightarrow> pr_reasoning r)"
proof -
  have refuse: "(if c then False else b) \<longleftrightarrow> \<not> c \<and> b" for c b by simp
  have modality: "(if rq_e2ee q then pr_privacyClass r \<noteq> ''e2ee'' else pr_privacyClass r = ''e2ee'')
      \<longleftrightarrow> \<not> (rq_e2ee q \<longleftrightarrow> pr_privacyClass r = ''e2ee'')" by simp
  have limit: "(case (rq_maxOutput q, pr_maxOutput r) of (Some want, Some limit) \<Rightarrow> want > limit | _ \<Rightarrow> False)
      \<longleftrightarrow> \<not> (case (rq_maxOutput q, pr_maxOutput r) of (Some want, Some limit) \<Rightarrow> want \<le> limit | _ \<Rightarrow> True)"
    by (auto split: option.splits)
  have onl: "(case only p of None \<Rightarrow> False | Some l \<Rightarrow> \<not> inList (pr_provider r) l) \<longleftrightarrow> \<not> listed (only p) r"
    by (simp add: listed_def split: option.splits)
  have ign: "ignore p \<noteq> [] \<and> inList (pr_provider r) (ignore p) \<longleftrightarrow> inList (pr_provider r) (ignore p)"
    by auto
  show ?thesis
    unfolding technically_eligible_def serves_request_def refuse modality limit onl ign by blast
qed

lemma listed_intersect: "listed (intersectOnly a b) r \<Longrightarrow> listed a r \<and> listed b r"
  by (cases a; cases b) (auto simp: listed_def intersectOnly_def dest: inList_intersect)

lemma inList_unique_append: "inList provider (unique (a @ b)) \<longleftrightarrow> inList provider a \<or> inList provider b"
  by (auto simp: inList_def list_ex_iff)

text \<open>
  C29. A workspace confines every attempt. Under the policy merged from a request and its workspace,
  each planned attempt is eligible under the request's own policy, and the workspace allows it: its
  provider list covers the route, its ignore list does not, its prices and its privacy floor hold.
  The plan makes no more attempts than either side permits.
\<close>

theorem workspace_confines_plan:
  assumes "buildProviderRoutingPlan model routes (mergeWorkspaceProviderPolicy p w) q cost = Inr plan"
  shows "(\<forall>r \<in> set (pl_attempts plan). isProviderRouteEligible r p q
        \<and> listed (ws_only w) r \<and> \<not> inList (pr_provider r) (ws_ignore w)
        \<and> meets_price (ws_maxPrice w) (pr_inputPrice r) (pr_outputPrice r)
        \<and> (case ws_minimumPrivacy w of None \<Rightarrow> True | Some f \<Rightarrow> floor_rank f \<le> rankOf r))
    \<and> of_nat (length (pl_attempts plan)) \<le> max 1 (min (maxAttempts p) (ws_maxAttempts w))"
proof -
  let ?m = "mergeWorkspaceProviderPolicy p w"
  have sel: "only ?m = intersectOnly (only p) (ws_only w)" "ignore ?m = unique (ignore p @ ws_ignore w)"
    "requireParameters ?m \<longleftrightarrow> requireParameters p \<or> ws_requireParameters w"
    "minimumPrivacy ?m = strongerFloor (minimumPrivacy p) (ws_minimumPrivacy w)"
    "maxPrice ?m = tighterPrice (maxPrice p) (ws_maxPrice w)"
    by (simp_all add: mergeWorkspaceProviderPolicy_def Let_def)
  have "isProviderRouteEligible r p q
        \<and> listed (ws_only w) r \<and> \<not> inList (pr_provider r) (ws_ignore w)
        \<and> meets_price (ws_maxPrice w) (pr_inputPrice r) (pr_outputPrice r)
        \<and> (case ws_minimumPrivacy w of None \<Rightarrow> True | Some f \<Rightarrow> floor_rank f \<le> rankOf r)"
    if "isProviderRouteEligible r ?m q" for r
    using that listed_intersect [of "only p" "ws_only w" r]
    unfolding eligible_iff technically_eligible_iff sel passesMaxPrice_iff meets_tighterPrice
      strongerFloor_rank inList_unique_append by blast
  moreover have "r \<in> set (pl_attempts plan) \<Longrightarrow> isProviderRouteEligible r ?m q" for r
    using set_attempts [OF assms, of r] by (auto simp: eligible_iff hardFloorRank_eq split: option.splits)
  moreover have "max 1 (maxAttempts ?m) \<le> max 1 (min (maxAttempts p) (ws_maxAttempts w))"
    by (simp add: mergeWorkspaceProviderPolicy_def Let_def max_def min_def)
  moreover have "of_nat (length (pl_attempts plan)) \<le> max 1 (maxAttempts ?m)"
    using length_planned [of ?m "fitting_routes ?m q (route_pool routes ?m q)"]
    by (simp add: build_Inr(3) [OF assms] plan_of_def)
  ultimately show ?thesis by fastforce
qed

subsection \<open>Order and pins\<close>

lemma privacy_sort_strict: "rankOf a < rankOf b \<Longrightarrow> compareRoutes SortPrivacy b a \<le> 0"
  by (simp add: compareRoutes_le comparisonKeys_def privacyKeyDesc_def rankOf_def)

text \<open>
  The first attempt is the best one. Without an explicit order, no route that passes every filter
  and can hold the prompt compares better than the first attempt under the policy's sort, and the
  attempts are in that order.
\<close>

theorem first_attempt_best:
  assumes "buildProviderRoutingPlan model routes p q cost = Inr plan" and "order p = []"
  shows "sorted_wrt (\<lambda>a b. compareRoutes (sort_by p) a b \<le> 0) (pl_attempts plan)
    \<and> (\<forall>x \<in> set (route_pool routes p q). routeFitsRequestContext x q
         \<longrightarrow> compareRoutes (sort_by p) (hd (pl_attempts plan)) x \<le> 0)"
proof -
  let ?pool = "route_pool routes p q" and ?R = "\<lambda>a b. compareRoutes (sort_by p) a b \<le> 0"
  let ?sp = "js_sort (compareRoutes (sort_by p)) ?pool"
  let ?fit = "fitting_routes p q ?pool"
  obtain P where ord: "orderedRoutes p ?pool = filter P ?sp" and
    P: "x \<in> set ?pool \<Longrightarrow> y \<in> set (filter P ?sp) \<Longrightarrow> \<not> P x \<Longrightarrow> ?R y x" for x y
  proof (cases "minimumPrivacy p = None \<and> sort_by p = SortPrivacy \<and> ?sp \<noteq> []")
    case True
    then have "orderedRoutes p ?pool = filter (\<lambda>r. rankOf r \<ge> rankOf (hd ?sp)) ?sp"
      using assms(2) by (simp add: orderedRoutes_def confine_def fallback_order_def confineFloor_def Let_def)
    moreover have "?R y x" if "rankOf (hd ?sp) \<le> rankOf y" "\<not> rankOf (hd ?sp) \<le> rankOf x" for x y
      using that privacy_sort_strict [of x y] True by simp
    ultimately show ?thesis by (intro that [of "\<lambda>r. rankOf r \<ge> rankOf (hd ?sp)"]) auto
  next
    case False
    then have "orderedRoutes p ?pool = filter (\<lambda>_. True) ?sp"
      using assms(2) by (auto simp: orderedRoutes_def confine_def fallback_order_def Let_def)
    then show ?thesis by (rule that) simp
  qed
  have sorted: "sorted_wrt ?R ?fit"
    unfolding fitting_routes_def ord by (intro sorted_wrt_filter route_order.sorted_js_sort)
  obtain z zs where fit: "?fit = z # zs" using build_Inr(2) [OF assms(1)] by (cases ?fit) auto
  have att: "pl_attempts plan = planned p ?fit" by (simp add: build_Inr(3) [OF assms(1)] plan_of_def)
  have hd: "hd (planned p ?fit) = z"
    using attempts_pos [of "maxAttempts p"] by (simp add: planned_def fit hd_take)
  have "?R z x" if x: "x \<in> set ?pool" "routeFitsRequestContext x q" for x
  proof (cases "P x")
    case True
    then have "x \<in> set ?fit" using x by (simp add: fitting_routes_def ord)
    then show ?thesis using sorted route_order.cmp_swap [of "sort_by p" z z] by (auto simp: fit)
  next
    case False
    have "z \<in> set ?fit" by (simp add: fit)
    then have "z \<in> set (filter P ?sp)" by (simp add: fitting_routes_def ord)
    with P [OF x(1)] False show ?thesis by blast
  qed
  moreover have "sorted_wrt ?R (planned p ?fit)"
    using sorted by (simp add: planned_def sorted_wrt_take)
  ultimately show ?thesis by (simp add: att hd)
qed

text \<open>
  A pin is exact. A plan built for a bare provider slug has one attempt, by a provider whose
  public slug is the pinned slug or a variant below it; there is no fallback to any other provider.
\<close>

theorem pin_is_exact:
  assumes "normalizeProviderPolicy (PolicySlug s) = Inr p"
    and "buildProviderRoutingPlan model routes p q cost = Inr plan"
  shows "\<exists>r slug. pl_attempts plan = [r] \<and> normalizeSlug s = Inr slug \<and> matchesSlug (pr_provider r) slug
    \<and> \<not> pl_fallback plan"
proof -
  obtain slug where slug: "normalizeSlug s = Inr slug" and p: "allowFallbacks p = False" "only p = Some [slug]"
    using assms(1) by (cases "normalizeSlug s") (auto simp: normalizeProviderPolicy_def)
  let ?a = "pl_attempts plan"
  have ne: "?a \<noteq> []" and att: "?a = planned p (fitting_routes p q (route_pool routes p q))"
    using build_Inr [OF assms(2)] by (simp_all add: plan_of_def)
  have "length ?a \<le> 1" unfolding att using length_planned [of p] p(1) by blast
  with ne obtain r where r: "?a = [r]" by (cases ?a) auto
  then have "technically_eligible p q r" using set_attempts [OF assms(2), of r] by simp
  then have "matchesSlug (pr_provider r) slug"
    by (simp add: technically_eligible_iff listed_def p(2) inList_def)
  moreover have "\<not> pl_fallback plan" using r build_Inr(3) [OF assms(2)] by (simp add: plan_of_def)
  ultimately show ?thesis using r slug by blast
qed

subsection \<open>Concrete plans\<close>

definition sample_route :: "nat \<Rightarrow> string \<Rightarrow> string \<Rightarrow> rat \<Rightarrow> provider_route" where
  "sample_route n provider cls price =
     \<lparr> pr_object = n, pr_provider = provider, pr_canonicalModelId = ''m'', pr_publicModelId = ''m'',
       pr_externalModelId = ''m'', pr_privacyClass = cls, pr_modelType = TextModel,
       pr_inputPrice = price, pr_outputPrice = price, pr_cacheReadPrice = None, pr_cacheWritePrice = None,
       pr_unitPrice = None, pr_priced = True, pr_streaming = True, pr_tools = True, pr_vision = False,
       pr_reasoning = True, pr_maxOutput = None, pr_contextWindow = 1000, pr_expectedLatency = None,
       pr_latencyP50 = None, pr_throughput = None, pr_health = Healthy, pr_stableId = provider \<rparr>"

definition sample_request :: routing_request where
  "sample_request = \<lparr> rq_operation = OpChat, rq_stream = True, rq_tools = False, rq_vision = False,
     rq_reasoning = False, rq_e2ee = False, rq_maxOutput = Some 100, rq_inputCeiling = Some 200 \<rparr>"

definition sample_routes :: "provider_route list" where
  "sample_routes = [sample_route 0 ''venice'' ''private'' 2, sample_route 1 ''tinfoil'' ''tee'' 5,
     sample_route 2 ''near-ai'' ''tee'' 5, sample_route 3 ''mock'' ''anonymous'' 1]"

definition sample_cost :: "provider_route \<Rightarrow> rat" where
  "sample_cost r = pr_inputPrice r * 3"

lemma sample_plan:
  "buildProviderRoutingPlan ''m'' sample_routes AUTO_PROVIDER_POLICY sample_request sample_cost =
     Inr (plan_of ''m'' AUTO_PROVIDER_POLICY sample_cost
       [sample_route 1 ''tinfoil'' ''tee'' 5, sample_route 2 ''near-ai'' ''tee'' 5])"
  by code_simp

theorem plan_attempts_eligible_witness:
  "isProviderRouteEligible (sample_route 1 ''tinfoil'' ''tee'' 5) AUTO_PROVIDER_POLICY sample_request"
  using plan_attempts_eligible [OF sample_plan] by (simp add: plan_of_def)

theorem auto_never_downgrades_witness:
  "rankOf (sample_route 0 ''venice'' ''private'' 2) \<le> rankOf (sample_route 2 ''near-ai'' ''tee'' 5)"
proof (rule auto_never_downgrades [OF sample_plan])
  show "technically_eligible AUTO_PROVIDER_POLICY sample_request (sample_route 0 ''venice'' ''private'' 2)"
    by code_simp
  show "passesMaxPrice (sample_route 0 ''venice'' ''private'' 2) AUTO_PROVIDER_POLICY" by code_simp
qed (simp_all add: AUTO_PROVIDER_POLICY_def plan_of_def sample_routes_def)

theorem plan_report_honest_witness:
  "sample_cost (sample_route 2 ''near-ai'' ''tee'' 5) \<le> pl_maxReservation (plan_of ''m'' AUTO_PROVIDER_POLICY
     sample_cost [sample_route 1 ''tinfoil'' ''tee'' 5, sample_route 2 ''near-ai'' ''tee'' 5])"
proof -
  let ?plan = "plan_of ''m'' AUTO_PROVIDER_POLICY sample_cost
    [sample_route 1 ''tinfoil'' ''tee'' 5, sample_route 2 ''near-ai'' ''tee'' 5]"
  have "sample_route 2 ''near-ai'' ''tee'' 5 \<in> set (pl_attempts ?plan)" by (simp add: plan_of_def)
  with plan_report_honest [OF sample_plan] show ?thesis by blast
qed

theorem plan_order_independent_witness:
  "buildProviderRoutingPlan ''m'' (rev sample_routes) AUTO_PROVIDER_POLICY sample_request sample_cost =
     Inr (plan_of ''m'' AUTO_PROVIDER_POLICY sample_cost
       [sample_route 1 ''tinfoil'' ''tee'' 5, sample_route 2 ''near-ai'' ''tee'' 5])"
proof -
  have "inj_on pr_stableId (set sample_routes)"
    by (simp add: sample_routes_def sample_route_def inj_on_def)
  from plan_order_independent [OF _ this, of "rev sample_routes"] sample_plan show ?thesis by simp
qed

theorem plan_failure_reasons_witness:
  "buildProviderRoutingPlan ''m'' [] AUTO_PROVIDER_POLICY sample_request sample_cost = Inl NoRoute"
  using plan_failure_reasons [of "''m''" "[]" AUTO_PROVIDER_POLICY sample_request sample_cost] by simp

theorem plan_exists_iff_eligible_witness:
  "\<exists>plan. buildProviderRoutingPlan ''m'' sample_routes (AUTO_PROVIDER_POLICY\<lparr> minimumPrivacy := Some Private \<rparr>)
     sample_request sample_cost = Inr plan"
proof -
  have "isProviderRouteEligible (sample_route 0 ''venice'' ''private'' 2)
      (AUTO_PROVIDER_POLICY\<lparr> minimumPrivacy := Some Private \<rparr>) sample_request"
    by code_simp
  then show ?thesis
    using plan_exists_iff_eligible [of "AUTO_PROVIDER_POLICY\<lparr> minimumPrivacy := Some Private \<rparr>" Private "''m''"
        sample_routes sample_request sample_cost]
    by (auto simp: AUTO_PROVIDER_POLICY_def sample_routes_def)
qed

theorem eligible_without_a_plan_witness:
  "isProviderRouteEligible (sample_route 3 ''mock'' ''anonymous'' 1)
      (AUTO_PROVIDER_POLICY\<lparr> sort_by := SortPrice \<rparr>) sample_request
   \<and> buildProviderRoutingPlan ''m'' [sample_route 3 ''mock'' ''anonymous'' 1]
      (AUTO_PROVIDER_POLICY\<lparr> sort_by := SortPrice \<rparr>) sample_request sample_cost = Inl NoRouteMeetsPrivacy"
proof -
  have el: "isProviderRouteEligible (sample_route 3 ''mock'' ''anonymous'' 1)
      (AUTO_PROVIDER_POLICY\<lparr> sort_by := SortPrice \<rparr>) sample_request"
    by code_simp
  moreover have "minimumPrivacy (AUTO_PROVIDER_POLICY\<lparr> sort_by := SortPrice \<rparr>) = None"
    "sort_by (AUTO_PROVIDER_POLICY\<lparr> sort_by := SortPrice \<rparr>) \<noteq> SortPrivacy"
    "rankOf (sample_route 3 ''mock'' ''anonymous'' 1) = 0"
    by (simp_all add: AUTO_PROVIDER_POLICY_def rankOf_def sample_route_def PRIVACY_RANK_def)
  ultimately show ?thesis using eligible_without_a_plan by blast
qed

definition strict_workspace :: workspace_defaults where
  "strict_workspace = DEFAULT_WORKSPACE_PROVIDER_DEFAULTS\<lparr> ws_ignore := [''other''], ws_maxAttempts := 2 \<rparr>"

theorem workspace_confines_plan_witness:
  "\<exists>plan. buildProviderRoutingPlan ''m'' sample_routes
      (mergeWorkspaceProviderPolicy AUTO_PROVIDER_POLICY strict_workspace) sample_request sample_cost = Inr plan
    \<and> (\<exists>r. r \<in> set (pl_attempts plan) \<and> \<not> inList (pr_provider r) [''other''])"
proof -
  obtain plan where plan: "buildProviderRoutingPlan ''m'' sample_routes
      (mergeWorkspaceProviderPolicy AUTO_PROVIDER_POLICY strict_workspace) sample_request sample_cost
    = Inr plan \<and> pl_attempts plan = [sample_route 1 ''tinfoil'' ''tee'' 5]"
  proof -
    have "case buildProviderRoutingPlan ''m'' sample_routes
        (mergeWorkspaceProviderPolicy AUTO_PROVIDER_POLICY strict_workspace) sample_request sample_cost of
        Inl e \<Rightarrow> False | Inr plan \<Rightarrow> pl_attempts plan = [sample_route 1 ''tinfoil'' ''tee'' 5]"
      by code_simp
    then show ?thesis by (auto split: sum.splits intro: that)
  qed
  then show ?thesis
    using workspace_confines_plan [of "''m''" sample_routes AUTO_PROVIDER_POLICY strict_workspace
        sample_request sample_cost plan]
    by (auto simp: strict_workspace_def)
qed

theorem first_attempt_best_witness:
  "compareRoutes SortPrivacy (sample_route 1 ''tinfoil'' ''tee'' 5) (sample_route 0 ''venice'' ''private'' 2) \<le> 0"
proof -
  have "sample_route 0 ''venice'' ''private'' 2 \<in> set (route_pool sample_routes AUTO_PROVIDER_POLICY sample_request)"
    "routeFitsRequestContext (sample_route 0 ''venice'' ''private'' 2) sample_request"
    by code_simp+
  with first_attempt_best [OF sample_plan] show ?thesis
    by (simp add: AUTO_PROVIDER_POLICY_def plan_of_def)
qed

theorem pin_is_exact_witness:
  "\<exists>p plan. normalizeProviderPolicy (PolicySlug ''Venice'') = Inr p
    \<and> buildProviderRoutingPlan ''m'' sample_routes p sample_request sample_cost = Inr plan
    \<and> \<not> pl_fallback plan"
proof -
  have "case normalizeProviderPolicy (PolicySlug ''Venice'') of Inl e \<Rightarrow> False | Inr p \<Rightarrow>
      (case buildProviderRoutingPlan ''m'' sample_routes p sample_request sample_cost of
         Inl e \<Rightarrow> False | Inr plan \<Rightarrow> True)"
    by code_simp
  then obtain p plan where "normalizeProviderPolicy (PolicySlug ''Venice'') = Inr p"
    "buildProviderRoutingPlan ''m'' sample_routes p sample_request sample_cost = Inr plan"
    by (auto split: sum.splits)
  with pin_is_exact show ?thesis by blast
qed

end
