(* ===== verification/TextCodec.thy ===== *)
theory TextCodec
  imports Metering
begin

section \<open>JavaScript text as bytes\<close>

text \<open>
  The parts of the platform the codecs use: \<open>TextEncoder\<close>, which encodes UTF-16 text as UTF-8 and
  replaces a lone surrogate by U+FFFD, and \<open>TextDecoder("utf-8", { fatal: true })\<close>, which refuses
  ill-formed bytes and, as the option \<open>ignoreBOM\<close> is not set, drops a leading byte order mark. Text is a
  list of 16-bit units, bytes are numbers below 256, and a scalar value is a number.
\<close>

subsection \<open>UTF-16\<close>

definition is_scalar :: "nat \<Rightarrow> bool" where
  "is_scalar c \<longleftrightarrow> c < 0xD800 \<or> 0xE000 \<le> c \<and> c < 0x110000"

definition surrogate :: "16 word \<Rightarrow> bool" where
  "surrogate u \<longleftrightarrow> high_surrogate u \<or> low_surrogate u"

definition pair_scalar :: "16 word \<Rightarrow> 16 word \<Rightarrow> nat" where
  "pair_scalar u v = 0x10000 + (unat u - 0xD800) * 0x400 + (unat v - 0xDC00)"

fun scalars :: "ustring \<Rightarrow> nat list" where
  "scalars [] = []"
| "scalars [u] = [if surrogate u then 0xFFFD else unat u]"
| "scalars (u # v # us) =
     (if high_surrogate u \<and> low_surrogate v then pair_scalar u v # scalars us
      else (if surrogate u then 0xFFFD else unat u) # scalars (v # us))"

fun well_formed :: "ustring \<Rightarrow> bool" where
  "well_formed [] = True"
| "well_formed [u] = (\<not> surrogate u)"
| "well_formed (u # v # us) =
     (if high_surrogate u \<and> low_surrogate v then well_formed us else \<not> surrogate u \<and> well_formed (v # us))"

definition units_of :: "nat \<Rightarrow> ustring" where
  "units_of c =
     (if c < 0x10000 then [word_of_nat c]
      else [word_of_nat (0xD800 + (c - 0x10000) div 0x400), word_of_nat (0xDC00 + (c - 0x10000) mod 0x400)])"

lemma high_surrogate_unat: "high_surrogate u \<longleftrightarrow> 0xD800 \<le> unat u \<and> unat u \<le> 0xDBFF"
  by (simp add: high_surrogate_def word_le_nat_alt)

lemma low_surrogate_unat: "low_surrogate u \<longleftrightarrow> 0xDC00 \<le> unat u \<and> unat u \<le> 0xDFFF"
  by (simp add: low_surrogate_def word_le_nat_alt)

lemma surrogate_unat: "surrogate u \<longleftrightarrow> 0xD800 \<le> unat u \<and> unat u \<le> 0xDFFF"
  unfolding surrogate_def high_surrogate_unat low_surrogate_unat by arith

lemma unat16_lt: "unat (u :: 16 word) < 0x10000"
  by (rule order_less_le_trans [OF unsigned_less]) simp

lemma unat16_of_nat: "n < 0x10000 \<Longrightarrow> unat (word_of_nat n :: 16 word) = n"
  by (simp add: unat_of_nat take_bit_nat_def)

lemma pair_scalar_units:
  assumes "high_surrogate u" and "low_surrogate v"
  shows "units_of (pair_scalar u v) = [u, v]" and "is_scalar (pair_scalar u v)"
proof -
  let ?h = "unat u - 0xD800" and ?l = "unat v - 0xDC00"
  have b: "?h < 0x400" "?l < 0x400" "0xD800 \<le> unat u" "0xDC00 \<le> unat v"
    using assms by (auto simp: high_surrogate_unat low_surrogate_unat)
  have "(h * 0x400 + l) div 0x400 = h \<and> (h * 0x400 + l) mod 0x400 = l" if "l < 0x400" for h l :: nat
    using that by simp
  from this [OF b(2), of ?h] have "(pair_scalar u v - 0x10000) div 0x400 = ?h" "(pair_scalar u v - 0x10000) mod 0x400 = ?l"
    by (simp_all only: pair_scalar_def add.assoc add_diff_cancel_left')
  moreover have "\<not> pair_scalar u v < 0x10000" by (simp add: pair_scalar_def)
  moreover have "0xD800 + ?h = unat u" "0xDC00 + ?l = unat v" using b by simp_all
  ultimately show "units_of (pair_scalar u v) = [u, v]"
    unfolding units_of_def by (simp add: unsigned_word_eqI)
  show "is_scalar (pair_scalar u v)" using b by (simp add: is_scalar_def pair_scalar_def)
qed

lemma units_of_unat: "units_of (unat u) = [u]"
  using unat16_lt [of u] by (simp add: units_of_def)

lemma units_scalars: "well_formed s \<Longrightarrow> concat (map units_of (scalars s)) = s"
proof (induction s rule: scalars.induct)
  case (2 u)
  then show ?case by (simp add: units_of_unat)
next
  case (3 u v us)
  then show ?case by (auto simp: pair_scalar_units units_of_unat split: if_splits)
qed simp

lemma scalars_all: "list_all is_scalar (scalars s)"
proof (induction s rule: scalars.induct)
  case (2 u)
  then show ?case using unat16_lt [of u] by (auto simp: surrogate_unat is_scalar_def)
next
  case (3 u v us)
  then show ?case
    using unat16_lt [of u] pair_scalar_units(2) [of u v] by (auto simp: surrogate_unat is_scalar_def)
qed simp

lemma scalars_plain: "\<not> surrogate u \<Longrightarrow> scalars (u # us) = unat u # scalars us"
  by (cases us) (auto simp: surrogate_def)

lemma scalars_units_of: "is_scalar c \<Longrightarrow> scalars (units_of c @ us) = c # scalars us"
proof (cases "c < 0x10000")
  case True
  assume "is_scalar c"
  with True have "\<not> surrogate (word_of_nat c)" by (auto simp: surrogate_unat unat16_of_nat is_scalar_def)
  then show ?thesis using True by (simp add: units_of_def scalars_plain unat16_of_nat)
next
  case False
  assume c: "is_scalar c"
  let ?h = "0xD800 + (c - 0x10000) div 0x400" and ?l = "0xDC00 + (c - 0x10000) mod 0x400"
  have lim: "c - 0x10000 < 0x100000" using c False by (auto simp: is_scalar_def)
  then have h: "(c - 0x10000) div 0x400 < 0x400" by (simp add: less_mult_imp_div_less)
  have l: "(c - 0x10000) mod 0x400 < 0x400" by simp
  have u: "unat (word_of_nat ?h :: 16 word) = ?h" "unat (word_of_nat ?l :: 16 word) = ?l"
    by (rule unat16_of_nat, use h l in linarith)+
  have "high_surrogate (word_of_nat ?h)" "low_surrogate (word_of_nat ?l)"
    using h l unfolding high_surrogate_unat low_surrogate_unat u by linarith+
  moreover have "pair_scalar (word_of_nat ?h) (word_of_nat ?l) = c"
    using False div_mult_mod_eq [of "c - 0x10000" "0x400"]
    by (simp only: pair_scalar_def u add_diff_cancel_left' add.assoc)
  ultimately show ?thesis using False by (simp add: units_of_def)
qed

lemma scalars_units: "list_all is_scalar cs \<Longrightarrow> scalars (concat (map units_of cs)) = cs"
  by (induction cs) (simp_all add: scalars_units_of)

subsection \<open>UTF-8\<close>

definition encode_scalar :: "nat \<Rightarrow> nat list" where
  "encode_scalar c =
     (if c < 0x80 then [c]
      else if c < 0x800 then [0xC0 + c div 0x40, 0x80 + c mod 0x40]
      else if c < 0x10000 then [0xE0 + c div 0x1000, 0x80 + c div 0x40 mod 0x40, 0x80 + c mod 0x40]
      else [0xF0 + c div 0x40000, 0x80 + c div 0x1000 mod 0x40, 0x80 + c div 0x40 mod 0x40, 0x80 + c mod 0x40])"

definition continuation :: "nat \<Rightarrow> bool" where
  "continuation b \<longleftrightarrow> 0x80 \<le> b \<and> b < 0xC0"

text \<open>A decoded value is refused when a shorter encoding exists or it is no scalar value.\<close>

definition checked_scalar :: "nat \<Rightarrow> nat \<Rightarrow> nat list \<Rightarrow> (nat \<times> nat list) option" where
  "checked_scalar least c rest = (if least \<le> c \<and> is_scalar c then Some (c, rest) else None)"

fun utf8_next :: "nat list \<Rightarrow> (nat \<times> nat list) option" where
  "utf8_next [] = None"
| "utf8_next (b # bs) =
     (if b < 0x80 then Some (b, bs)
      else if b < 0xC0 then None
      else if b < 0xE0 then
        (case bs of
           c # rest \<Rightarrow> if continuation c then checked_scalar 0x80 ((b - 0xC0) * 0x40 + (c - 0x80)) rest else None
         | _ \<Rightarrow> None)
      else if b < 0xF0 then
        (case bs of
           c # d # rest \<Rightarrow>
             if continuation c \<and> continuation d
             then checked_scalar 0x800 ((b - 0xE0) * 0x1000 + (c - 0x80) * 0x40 + (d - 0x80)) rest else None
         | _ \<Rightarrow> None)
      else if b < 0xF8 then
        (case bs of
           c # d # e # rest \<Rightarrow>
             if continuation c \<and> continuation d \<and> continuation e
             then checked_scalar 0x10000
               ((b - 0xF0) * 0x40000 + (c - 0x80) * 0x1000 + (d - 0x80) * 0x40 + (e - 0x80)) rest
             else None
         | _ \<Rightarrow> None)
      else None)"

lemma utf8_next_shorter: "utf8_next bs = Some (c, rest) \<Longrightarrow> length rest < length bs"
  by (cases bs) (auto simp: checked_scalar_def split: if_splits list.splits)

function utf8_decode :: "nat list \<Rightarrow> nat list option" where
  "utf8_decode bs =
     (if bs = [] then Some []
      else case utf8_next bs of
             None \<Rightarrow> None
           | Some (c, rest) \<Rightarrow> (case utf8_decode rest of None \<Rightarrow> None | Some cs \<Rightarrow> Some (c # cs)))"
  by pat_completeness auto
termination
  by (relation "measure length") (auto dest: utf8_next_shorter)

declare utf8_decode.simps [simp del]

lemma encode_scalar_bytes: "is_scalar c \<Longrightarrow> list_all (\<lambda>b. b < 256) (encode_scalar c)"
  by (auto simp: encode_scalar_def is_scalar_def less_mult_imp_div_less)

lemma encode_scalar_not_Nil [simp]: "encode_scalar c \<noteq> []"
  by (simp add: encode_scalar_def)

lemma utf8_next_encode: "is_scalar c \<Longrightarrow> utf8_next (encode_scalar c @ rest) = Some (c, rest)"
proof -
  assume c: "is_scalar c"
  have six: "c = c div 0x40 * 0x40 + c mod 0x40" "c mod 0x40 < 0x40"
    and twelve: "c div 0x40 = c div 0x1000 * 0x40 + c div 0x40 mod 0x40" "c div 0x40 mod 0x40 < 0x40"
    and eighteen: "c div 0x1000 = c div 0x40000 * 0x40 + c div 0x1000 mod 0x40" "c div 0x1000 mod 0x40 < 0x40"
    using div_mult_mod_eq [of c "0x40"] div_mult_mod_eq [of "c div 0x40" "0x40"]
      div_mult_mod_eq [of "c div 0x1000" "0x40"]
    by (simp_all add: div_mult2_eq [symmetric])
  have range: "c < 0x110000" using c by (auto simp: is_scalar_def)
  consider "c < 0x80" | "0x80 \<le> c" "c < 0x800" | "0x800 \<le> c" "c < 0x10000" | "0x10000 \<le> c"
    by linarith
  then show ?thesis
  proof cases
    case 2
    then have "c div 0x40 < 0x20" by (simp add: less_mult_imp_div_less)
    with 2 c six(2) show ?thesis by (simp add: encode_scalar_def continuation_def checked_scalar_def)
  next
    case 3
    then have "c div 0x1000 < 0x10" by (simp add: less_mult_imp_div_less)
    moreover have "c div 0x1000 * 0x1000 + c div 0x40 mod 0x40 * 0x40 + c mod 0x40 = c"
      using six twelve by linarith
    ultimately show ?thesis
      using 3 c six(2) twelve(2) by (simp add: encode_scalar_def continuation_def checked_scalar_def)
  next
    case 4
    have "c div 0x40000 < 8" using range by (simp add: less_mult_imp_div_less)
    moreover have "c div 0x40000 * 0x40000 + c div 0x1000 mod 0x40 * 0x1000 + c div 0x40 mod 0x40 * 0x40
        + c mod 0x40 = c"
      using six twelve eighteen by linarith
    ultimately show ?thesis
      using 4 c six(2) twelve(2) eighteen(2)
      by (simp add: encode_scalar_def continuation_def checked_scalar_def)
  qed (simp add: encode_scalar_def)
qed

lemma utf8_decode_encode: "list_all is_scalar cs \<Longrightarrow> utf8_decode (concat (map encode_scalar cs)) = Some cs"
proof (induction cs)
  case (Cons c cs)
  then show ?case
    by (subst utf8_decode.simps) (simp add: utf8_next_encode)
qed (simp add: utf8_decode.simps)

subsection \<open>TextEncoder and TextDecoder\<close>

definition encode_text :: "ustring \<Rightarrow> nat list" where
  "encode_text s = concat (map encode_scalar (scalars s))"

definition decode_text :: "nat list \<Rightarrow> ustring result" where
  "decode_text bs =
     (case utf8_decode bs of
        None \<Rightarrow> Inl (Thrown ''TypeError'')
      | Some cs \<Rightarrow> Inr (concat (map units_of (case cs of c # rest \<Rightarrow> if c = 0xFEFF then rest else cs | [] \<Rightarrow> []))))"

definition has_bom :: "ustring \<Rightarrow> bool" where
  "has_bom s \<longleftrightarrow> (case s of u # us \<Rightarrow> u = 0xFEFF | [] \<Rightarrow> False)"

lemma hd_scalars_bom: "well_formed s \<Longrightarrow> has_bom s \<longleftrightarrow> (\<exists>cs. scalars s = 0xFEFF # cs)"
proof (induction s rule: scalars.induct)
  case (2 u)
  then show ?case using word_unat_eq_iff [of u "0xFEFF"] by (simp add: has_bom_def)
next
  case (3 u v us)
  have "unat (0xFEFF :: 16 word) = 0xFEFF" by simp
  with 3 show ?case
    using word_unat_eq_iff [of u "0xFEFF"] by (auto simp: has_bom_def pair_scalar_def high_surrogate_unat)
qed (simp add: has_bom_def)

lemma decode_encode_text: "well_formed s \<Longrightarrow> \<not> has_bom s \<Longrightarrow> decode_text (encode_text s) = Inr s"
  using hd_scalars_bom [of s] units_scalars [of s]
  by (auto simp: decode_text_def encode_text_def utf8_decode_encode scalars_all split: list.splits)

lemma decode_encode_bom:
  assumes "well_formed s" and "has_bom s"
  shows "decode_text (encode_text s) = Inr (tl s)"
proof -
  obtain cs where cs: "scalars s = 0xFEFF # cs" using assms hd_scalars_bom by blast
  have "decode_text (encode_text s) = Inr (concat (map units_of cs))"
    using utf8_decode_encode [OF scalars_all [of s]] by (simp add: decode_text_def encode_text_def cs)
  moreover have "concat (map units_of (scalars s)) = s" by (rule units_scalars [OF assms(1)])
  then have "s = word_of_nat 0xFEFF # concat (map units_of cs)" by (simp add: cs units_of_def)
  then have "concat (map units_of cs) = tl s" by (metis list.sel(3))
  ultimately show ?thesis by simp
qed

lemma encode_text_inj: "well_formed s \<Longrightarrow> well_formed t \<Longrightarrow> encode_text s = encode_text t \<Longrightarrow> s = t"
  by (metis encode_text_def option.inject scalars_all units_scalars utf8_decode_encode)

end
