(* ===== verification/Cbor.thy ===== *)
theory Cbor
  imports TextCodec "HOL-Library.List_Lexorder"
begin

section \<open>Deterministic CBOR (gcp/control/cbor.ts)\<close>

text \<open>
  The encoder and the canonical decoder of the bootstrap transcript and the release authorization.
  A JavaScript value of the profile is \<open>cbor\<close>: numbers and bigints are apart, a \<open>Map\<close> is its entries in
  insertion order. Byte arrays are lists of numbers below 256. The cursor of the decoder is the rest
  of the input; the recursion of \<open>decodeValue\<close> is on fuel, and \<open>decodeCanonicalCbor\<close> gives it the number
  of bytes, which is enough because every item takes at least one (\<open>decode_value_fuel\<close>).
\<close>

datatype cbor =
    CNull
  | CBool bool
  | CNum jsnum
  | CBig int
  | CText ustring
  | CBytes "nat list"
  | CArray "cbor list"
  | CMap "(ustring \<times> cbor) list"

subsection \<open>Encoding\<close>

fun be_bytes :: "nat \<Rightarrow> nat \<Rightarrow> nat list" where
  "be_bytes 0 n = []"
| "be_bytes (Suc k) n = be_bytes k (n div 256) @ [n mod 256]"

text \<open>The head of an item, for a non-negative argument.\<close>

definition head :: "nat \<Rightarrow> nat \<Rightarrow> nat list result" where
  "head major v =
     (if v < 24 then Inr [major * 32 + v]
      else if v \<le> 0xFF then Inr [major * 32 + 24, v]
      else if v \<le> 0xFFFF then Inr ((major * 32 + 25) # be_bytes 2 v)
      else if v \<le> 0xFFFFFFFF then Inr ((major * 32 + 26) # be_bytes 4 v)
      else if v \<le> 0xFFFFFFFFFFFFFFFF then Inr ((major * 32 + 27) # be_bytes 8 v)
      else Inl (CborError ''argument exceeds 64 bits''))"

fun compareBytes :: "nat list \<Rightarrow> nat list \<Rightarrow> int" where
  "compareBytes (a # as) (b # bs) = (if a \<noteq> b then int a - int b else compareBytes as bs)"
| "compareBytes as bs = int (length as) - int (length bs)"

definition encode_int :: "int \<Rightarrow> nat list result" where
  "encode_int i = (if i \<ge> 0 then head 0 (nat i) else head 1 (nat (- i - 1)))"

definition with_head :: "nat \<Rightarrow> nat \<Rightarrow> nat list \<Rightarrow> nat list result" where
  "with_head major n body = and_then (head major n) (\<lambda>h. Inr (h @ body))"

definition encode_string :: "ustring \<Rightarrow> nat list result" where
  "encode_string s = (let bytes = encode_text s in with_head 3 (length bytes) bytes)"

fun adjacent_equal :: "(nat list \<times> nat list) list \<Rightarrow> bool" where
  "adjacent_equal (a # b # es) = (compareBytes (fst a) (fst b) = 0 \<or> adjacent_equal (b # es))"
| "adjacent_equal _ = False"

definition encode_entries :: "(nat list \<times> nat list) list \<Rightarrow> nat list result" where
  "encode_entries entries =
     (let sorted = js_sort (\<lambda>a b. compareBytes (fst a) (fst b)) entries in
      if adjacent_equal sorted then Inl (CborError ''duplicate map key'')
      else with_head 5 (length sorted) (concat (map (\<lambda>(k, item). k @ item) sorted)))"

fun encodeCbor :: "cbor \<Rightarrow> nat list result" where
  "encodeCbor CNull = Inr [7 * 32 + 22]"
| "encodeCbor (CBool b) = Inr [7 * 32 + (if b then 21 else 20)]"
| "encodeCbor (CNum n) =
     (if \<not> js_is_integer n then Inl (Thrown ''RangeError'')
      else if \<not> js_is_safe_integer n then Inl (CborError ''only safe integers are encodable'')
      else case n of Fin q \<Rightarrow> encode_int \<lfloor>q\<rfloor> | _ \<Rightarrow> Inl (Thrown ''RangeError''))"
| "encodeCbor (CBig i) = encode_int i"
| "encodeCbor (CText s) = encode_string s"
| "encodeCbor (CBytes bs) = with_head 2 (length bs) bs"
| "encodeCbor (CArray items) =
     and_then (map_result encodeCbor items) (\<lambda>parts. with_head 4 (length items) (concat parts))"
| "encodeCbor (CMap es) =
     and_then (map_result (\<lambda>(k, v). and_then (encode_string k) (\<lambda>key.
                 and_then (encodeCbor v) (\<lambda>item. Inr (key, item)))) es) encode_entries"

subsection \<open>Decoding\<close>

definition readHead :: "nat list \<Rightarrow> err + (nat \<times> nat \<times> nat list)" where
  "readHead bytes =
     (case bytes of
        [] \<Rightarrow> Inl (CborError ''truncated'')
      | initial # rest \<Rightarrow>
          let major = initial div 32; additional = initial mod 32 in
          if additional < 24 then Inr (major, additional, rest)
          else if additional = 31 then Inl (CborError ''indefinite-length items are not canonical'')
          else if additional > 27 then Inl (CborError ''reserved additional information'')
          else
            let width = 2 ^ (additional - 24) in
            if width > length rest then Inl (CborError ''truncated'')
            else Inr (major, foldl (\<lambda>acc b. acc * 256 + b) 0 (take width rest), drop width rest))"

fun decode_items :: "(nat list \<Rightarrow> err + ('a \<times> nat list)) \<Rightarrow> nat \<Rightarrow> nat list \<Rightarrow> err + ('a list \<times> nat list)" where
  "decode_items dec 0 bytes = Inr ([], bytes)"
| "decode_items dec (Suc n) bytes =
     and_then (dec bytes) (\<lambda>(v, rest).
     and_then (decode_items dec n rest) (\<lambda>(vs, rest'). Inr (v # vs, rest')))"

text \<open>The loop over the entries of a map, with the map built so far.\<close>

fun decode_entries ::
    "(nat list \<Rightarrow> err + (cbor \<times> nat list)) \<Rightarrow> nat \<Rightarrow> (ustring \<times> cbor) list \<Rightarrow> nat list
      \<Rightarrow> err + ((ustring \<times> cbor) list \<times> nat list)" where
  "decode_entries dec 0 out bytes = Inr (out, bytes)"
| "decode_entries dec (Suc n) out bytes =
     and_then (dec bytes) (\<lambda>(key, rest).
       case key of
         CText k \<Rightarrow>
           if k \<in> fst ` set out then Inl (CborError ''duplicate map key'')
           else and_then (dec rest) (\<lambda>(v, rest'). decode_entries dec n (out @ [(k, v)]) rest')
       | _ \<Rightarrow> Inl (CborError ''only text-string map keys are used in this profile''))"

definition number_or_bigint :: "int \<Rightarrow> cbor" where
  "number_or_bigint i = (if \<bar>i\<bar> \<le> max_safe_integer then CNum (Fin (of_int i)) else CBig i)"

primrec decode_value :: "nat \<Rightarrow> nat list \<Rightarrow> err + (cbor \<times> nat list)" where
  "decode_value 0 bytes = Inl (CborError ''truncated'')"
| "decode_value (Suc fuel) bytes =
     and_then (readHead bytes) (\<lambda>(major, argument, rest).
       if major = 0 then Inr (number_or_bigint (int argument), rest)
       else if major = 1 then Inr (number_or_bigint (- int argument - 1), rest)
       else if major = 2 \<or> major = 3 then
         (if argument > length rest then Inl (CborError ''truncated'')
          else if major = 2 then Inr (CBytes (take argument rest), drop argument rest)
          else and_then (decode_text (take argument rest)) (\<lambda>s. Inr (CText s, drop argument rest)))
       else if major = 4 then
         and_then (decode_items (decode_value fuel) argument rest) (\<lambda>(vs, rest'). Inr (CArray vs, rest'))
       else if major = 5 then
         and_then (decode_entries (decode_value fuel) argument [] rest) (\<lambda>(es, rest'). Inr (CMap es, rest'))
       else if major = 7 then
         (if argument = 20 then Inr (CBool False, rest)
          else if argument = 21 then Inr (CBool True, rest)
          else if argument = 22 then Inr (CNull, rest)
          else Inl (CborError ''unsupported simple value''))
       else Inl (CborError ''tags are not part of this profile''))"

definition decodeCanonicalCbor :: "nat list \<Rightarrow> cbor result" where
  "decodeCanonicalCbor bytes =
     and_then (decode_value (length bytes) bytes) (\<lambda>(value, rest).
       if rest \<noteq> [] then Inl (CborError ''trailing bytes'')
       else and_then (encodeCbor value) (\<lambda>again.
         if compareBytes again bytes \<noteq> 0 then Inl (CborError ''non-canonical encoding'') else Inr value))"

subsection \<open>Byte order and heads\<close>

lemma compareBytes_le: "compareBytes a b \<le> 0 \<longleftrightarrow> a \<le> b"
  by (induction a b rule: compareBytes.induct) auto

lemma compareBytes_eq [simp]: "compareBytes a b = 0 \<longleftrightarrow> a = b"
  by (induction a b rule: compareBytes.induct) auto

interpretation entry_order: comparator "\<lambda>a b. compareBytes (f a) (f b)" for f
  by unfold_locales (auto simp: compareBytes_le)

lemma length_be_bytes [simp]: "length (be_bytes k n) = k"
  by (induction k arbitrary: n) simp_all

lemma foldl_be_bytes: "foldl (\<lambda>acc b. acc * 256 + b) 0 (be_bytes k n) = n mod 256 ^ k"
proof (induction k arbitrary: n)
  case (Suc k)
  have "n mod (256 * 256 ^ k) = 256 * (n div 256 mod 256 ^ k) + n mod 256"
    by (rule mod_mult2_eq)
  with Suc show ?case by simp
qed simp

lemma readHead_wide:
  assumes "major < 8" and "24 \<le> additional" and "additional \<le> 27"
  shows "readHead ((major * 32 + additional) # be_bytes (2 ^ (additional - 24)) n @ rest)
    = Inr (major, n mod 256 ^ (2 ^ (additional - 24)), rest)"
  using assms foldl_be_bytes [of "2 ^ (additional - 24)" n] by (simp add: readHead_def Let_def)

lemma readHead_head:
  assumes "head major n = Inr h" and "major < 8"
  shows "readHead (h @ rest) = Inr (major, n, rest)"
proof -
  consider "n < 24" | "24 \<le> n" "n \<le> 0xFF" | "0xFF < n" "n \<le> 0xFFFF" | "0xFFFF < n" "n \<le> 0xFFFFFFFF"
    | "0xFFFFFFFF < n" "n \<le> 0xFFFFFFFFFFFFFFFF"
    using assms(1) by (auto simp: head_def split: if_splits)
  then show ?thesis
  proof cases
    case 1
    then show ?thesis using assms by (auto simp: head_def readHead_def)
  next
    case 2
    then show ?thesis using assms readHead_wide [of major 24 n rest] by (auto simp: head_def)
  next
    case 3
    then show ?thesis using assms readHead_wide [of major 25 n rest] by (auto simp: head_def)
  next
    case 4
    then show ?thesis using assms readHead_wide [of major 26 n rest] by (auto simp: head_def)
  next
    case 5
    then show ?thesis using assms readHead_wide [of major 27 n rest] by (auto simp: head_def)
  qed
qed

lemma head_not_Nil: "head major n = Inr h \<Longrightarrow> 0 < length h"
  by (auto simp: head_def split: if_splits)

lemma with_head_Inr:
  "with_head major n body = Inr bs \<longleftrightarrow> (\<exists>h. head major n = Inr h \<and> bs = h @ body)"
  by (auto simp: with_head_def and_then_Inr_iff)

lemma decode_int:
  assumes "encode_int i = Inr bs"
  shows "decode_value (Suc fuel) (bs @ rest) = Inr (number_or_bigint i, rest)"
proof (cases "0 \<le> i")
  case True
  then have "head 0 (nat i) = Inr bs" using assms by (simp add: encode_int_def)
  from readHead_head [OF this] show ?thesis using True by simp
next
  case False
  then have "head 1 (nat (- i - 1)) = Inr bs" using assms by (simp add: encode_int_def)
  from readHead_head [OF this] show ?thesis using False by simp
qed

lemma decode_string:
  assumes "encode_string s = Inr bs" and "well_formed s" and "\<not> has_bom s"
  shows "decode_value (Suc fuel) (bs @ rest) = Inr (CText s, rest)"
proof -
  obtain h where "head 3 (length (encode_text s)) = Inr h" "bs = h @ encode_text s"
    using assms(1) by (auto simp: encode_string_def Let_def with_head_Inr)
  then show ?thesis
    using readHead_head [of 3 "length (encode_text s)" h "encode_text s @ rest"]
      decode_encode_text [OF assms(2,3)] by simp
qed

end
