(* ===== verification/CborSpec.thy ===== *)
theory CborSpec
  imports Cbor
begin

section \<open>The codec is canonical\<close>

text \<open>
  Round trips of \<open>Cbor\<close> by induction on the value: what the encoder produces decodes to the canonical
  form of the value (numbers by range, maps by encoded key) with the rest of the input untouched, and
  the canonical form encodes to the same bytes. Text must be well-formed UTF-16 without a leading
  byte order mark: the two exceptions are stated at the end.
\<close>

subsection \<open>Canonical values\<close>

definition key_bytes :: "ustring \<Rightarrow> nat list" where
  "key_bytes k = (case encode_string k of Inr b \<Rightarrow> b | Inl _ \<Rightarrow> [])"

fun canon :: "cbor \<Rightarrow> cbor" where
  "canon (CNum n) = (case n of Fin q \<Rightarrow> number_or_bigint \<lfloor>q\<rfloor> | _ \<Rightarrow> CNum n)"
| "canon (CBig i) = number_or_bigint i"
| "canon (CArray items) = CArray (map canon items)"
| "canon (CMap es) = CMap (js_sort (\<lambda>a b. compareBytes (key_bytes (fst a)) (key_bytes (fst b)))
     (map (\<lambda>(k, v). (k, canon v)) es))"
| "canon v = v"

definition plain_text :: "ustring \<Rightarrow> bool" where
  "plain_text s \<longleftrightarrow> well_formed s \<and> \<not> has_bom s"

text \<open>Values of the profile: plain text, and maps with distinct keys, as a \<open>Map\<close> has.\<close>

fun plain :: "cbor \<Rightarrow> bool" where
  "plain (CText s) = plain_text s"
| "plain (CArray items) = list_all plain items"
| "plain (CMap es) = (distinct (map fst es) \<and> list_all (\<lambda>(k, v). plain_text k \<and> plain v) es)"
| "plain _ = True"

subsection \<open>Sorting related lists\<close>

lemma sort_insert_list_all2:
  assumes "R x y" and "list_all2 R xs ys"
    and "\<And>a b c d. R a b \<Longrightarrow> R c d \<Longrightarrow> cmp a c = cmp' b d"
  shows "list_all2 R (sort_insert cmp x xs) (sort_insert cmp' y ys)"
  using assms(2,1)
proof (induction rule: list_all2_induct)
  case (Cons a as b bs)
  then show ?case using assms(3) [of x y a b] by simp
qed simp

lemma js_sort_list_all2:
  assumes "list_all2 R xs ys" and "\<And>a b c d. R a b \<Longrightarrow> R c d \<Longrightarrow> cmp a c = cmp' b d"
  shows "list_all2 R (js_sort cmp xs) (js_sort cmp' ys)"
  using assms(1)
proof (induction rule: list_all2_induct)
  case (Cons x xs y ys)
  then show ?case
    using sort_insert_list_all2 [of R x y "js_sort cmp xs" "js_sort cmp' ys" cmp cmp'] assms(2)
    by (simp add: js_sort_def)
qed (simp add: js_sort_def)

subsection \<open>Decoding what was encoded\<close>

lemma decode_items_all:
  assumes "list_all2 (\<lambda>x y. \<forall>rest. dec (y @ rest) = Inr (g x, rest)) xs ys"
  shows "decode_items dec (length xs) (concat ys @ rest) = Inr (map g xs, rest)"
  using assms
proof (induction rule: list_all2_induct)
  case (Cons x xs y ys)
  then show ?case by simp
qed simp

lemma decode_entries_all:
  assumes "list_all2 (\<lambda>(k, w) (kb, vb). (\<forall>rest. dec (kb @ rest) = Inr (CText k, rest))
      \<and> (\<forall>rest. dec (vb @ rest) = Inr (w, rest))) xs ys"
    and "distinct (map fst (out @ xs))"
  shows "decode_entries dec (length xs) out (concat (map (\<lambda>(k, item). k @ item) ys) @ rest) = Inr (out @ xs, rest)"
  using assms
proof (induction arbitrary: out rule: list_all2_induct)
  case (Cons x xs y ys)
  obtain k w kb vb where xy: "x = (k, w)" "y = (kb, vb)" by (cases x; cases y)
  with Cons.hyps(1) have step: "dec (kb @ r) = Inr (CText k, r)" "dec (vb @ r) = Inr (w, r)" for r
    by simp_all
  have "k \<notin> fst ` set out" using Cons.prems xy by auto
  moreover have "distinct (map fst ((out @ [(k, w)]) @ xs))" using Cons.prems xy by simp
  from Cons.IH [OF this] have "decode_entries dec (length xs) (out @ [(k, w)])
      (concat (map (\<lambda>(k, item). k @ item) ys) @ rest) = Inr (out @ x # xs, rest)" by (simp add: xy)
  ultimately show ?case by (simp add: xy step)
qed simp

lemma length_concat_mem: "x \<in> set xs \<Longrightarrow> length (f x) \<le> length (concat (map f xs))"
  by (induction xs) auto

lemma encode_string_not_Nil: "encode_string s = Inr b \<Longrightarrow> 0 < length b"
  by (auto simp: encode_string_def Let_def with_head_Inr dest: head_not_Nil)

text \<open>The entries of a map, encoded, in the order of the source and in the order of the keys.\<close>

lemma encode_entries_sorted:
  assumes "map_result (\<lambda>(k, v). and_then (encode_string k) (\<lambda>key.
      and_then (encodeCbor v) (\<lambda>item. Inr (key, item)))) es = Inr entries"
  shows "list_all2 (\<lambda>(k, v) (kb, vb). encode_string k = Inr kb \<and> encodeCbor v = Inr vb)
      (js_sort (\<lambda>a b. compareBytes (key_bytes (fst a)) (key_bytes (fst b))) es)
      (js_sort (\<lambda>a b. compareBytes (fst a) (fst b)) entries)"
proof (rule js_sort_list_all2)
  show "list_all2 (\<lambda>(k, v) (kb, vb). encode_string k = Inr kb \<and> encodeCbor v = Inr vb) es entries"
    using assms unfolding map_result_Inr_iff
    by (rule list_all2_mono) (auto simp: and_then_Inr_iff split: prod.splits)
qed (auto simp: key_bytes_def)

lemma js_sort_map: "js_sort cmp (map f xs) = map f (js_sort (\<lambda>a b. cmp (f a) (f b)) xs)"
proof (induction xs)
  case (Cons x xs)
  have "sort_insert cmp (f x) (map f ys) = map f (sort_insert (\<lambda>a b. cmp (f a) (f b)) x ys)" for ys
    by (induction ys) simp_all
  with Cons show ?case by (simp add: js_sort_def)
qed (simp add: js_sort_def)

definition key_order :: "(ustring \<times> 'a) list \<Rightarrow> (ustring \<times> 'a) list" where
  "key_order es = js_sort (\<lambda>a b. compareBytes (key_bytes (fst a)) (key_bytes (fst b))) es"

lemma canon_CMap: "canon (CMap es) = CMap (map (\<lambda>(k, v). (k, canon v)) (key_order es))"
  by (simp add: key_order_def js_sort_map case_prod_beta)

lemma set_key_order [simp]: "set (key_order es) = set es"
  by (simp add: key_order_def)

lemma length_key_order [simp]: "length (key_order es) = length es"
  by (simp add: key_order_def)

lemma distinct_key_order: "distinct (map fst es) \<Longrightarrow> distinct (map fst (key_order es))"
  unfolding distinct_map set_key_order by (simp add: key_order_def distinct_js_sort)

lemma encode_CArrayE:
  assumes "encodeCbor (CArray items) = Inr bs"
  obtains h parts where "head 4 (length items) = Inr h" and "bs = h @ concat parts"
    and "list_all2 (\<lambda>x y. encodeCbor x = Inr y) items parts"
  using assms by (auto simp: and_then_Inr_iff map_result_Inr_iff with_head_Inr)

lemma encode_CMapE:
  assumes "encodeCbor (CMap es) = Inr bs"
  obtains h entries where "head 5 (length es) = Inr h"
    and "bs = h @ concat (map (\<lambda>(k, item). k @ item) entries)"
    and "list_all2 (\<lambda>(k, v) (kb, vb). encode_string k = Inr kb \<and> encodeCbor v = Inr vb) (key_order es) entries"
    and "\<not> adjacent_equal entries" and "sorted_wrt (\<lambda>a b. compareBytes (fst a) (fst b) \<le> 0) entries"
proof -
  obtain l where l: "map_result (\<lambda>(k, v). and_then (encode_string k) (\<lambda>key.
      and_then (encodeCbor v) (\<lambda>item. Inr (key, item)))) es = Inr l" and bs: "encode_entries l = Inr bs"
    using assms by (auto simp: and_then_Inr_iff)
  let ?sorted = "js_sort (\<lambda>a b. compareBytes (fst a) (fst b)) l"
  have rel: "list_all2 (\<lambda>(k, v) (kb, vb). encode_string k = Inr kb \<and> encodeCbor v = Inr vb) (key_order es) ?sorted"
    unfolding key_order_def by (rule encode_entries_sorted [OF l])
  then have "length ?sorted = length es" using list_all2_lengthD by fastforce
  with bs obtain h where "head 5 (length es) = Inr h"
    "bs = h @ concat (map (\<lambda>(k, item). k @ item) ?sorted)" "\<not> adjacent_equal ?sorted"
    by (auto simp: encode_entries_def Let_def with_head_Inr split: if_splits)
  then show ?thesis
    using rel entry_order.sorted_js_sort [of fst l] by (intro that)
qed

lemma head_Suc_fuel: "head major n = Inr h \<Longrightarrow> length (h @ body) \<le> fuel \<Longrightarrow> \<exists>f. fuel = Suc f \<and> length body \<le> f"
  using head_not_Nil [of major n h] by (cases fuel; cases h) auto

lemma decode_encode:
  "encodeCbor v = Inr bs \<Longrightarrow> plain v \<Longrightarrow> length bs \<le> fuel
    \<Longrightarrow> decode_value fuel (bs @ rest) = Inr (canon v, rest)"
proof (induction v arbitrary: bs fuel rest)
  case (CNum n)
  then obtain q where n: "n = Fin q" "encode_int \<lfloor>q\<rfloor> = Inr bs"
    by (cases n) (auto split: if_splits)
  then have "0 < length bs" by (auto simp: encode_int_def dest: head_not_Nil split: if_splits)
  with CNum.prems(3) obtain f where "fuel = Suc f" by (cases fuel) auto
  then show ?case using decode_int [OF n(2)] n(1) by simp
next
  case (CBig i)
  then have e: "encode_int i = Inr bs" by simp
  then have "0 < length bs" by (auto simp: encode_int_def dest: head_not_Nil split: if_splits)
  with CBig.prems(3) obtain f where "fuel = Suc f" by (cases fuel) auto
  then show ?case using decode_int [OF e] by simp
next
  case (CText s)
  then have e: "encode_string s = Inr bs" by simp
  with CText.prems(3) encode_string_not_Nil [OF e] obtain f where "fuel = Suc f" by (cases fuel) auto
  then show ?case using decode_string [OF e] CText.prems(2) by (simp add: plain_text_def)
next
  case (CBytes b)
  then obtain h where h: "head 2 (length b) = Inr h" "bs = h @ b" by (auto simp: with_head_Inr)
  with CBytes.prems(3) head_Suc_fuel obtain f where "fuel = Suc f" by blast
  then show ?case using readHead_head [OF h(1)] h(2) by simp
next
  case (CArray items)
  obtain h parts where h: "head 4 (length items) = Inr h" "bs = h @ concat parts"
    and parts: "list_all2 (\<lambda>x y. encodeCbor x = Inr y) items parts"
    using encode_CArrayE [OF CArray.prems(1)] .
  from h CArray.prems(3) head_Suc_fuel obtain f where f: "fuel = Suc f" "length (concat parts) \<le> f" by blast
  have "list_all2 (\<lambda>x y. \<forall>rest. decode_value f (y @ rest) = Inr (canon x, rest)) items parts"
  proof (rule list.rel_mono_strong [OF parts], intro allI)
    fix x y r
    assume mem: "x \<in> set items" "y \<in> set parts" and enc: "encodeCbor x = Inr y"
    have "length y \<le> f" using length_concat_mem [OF mem(2), of id] f(2) by simp
    moreover have "plain x" using CArray.prems(2) mem(1) by (simp add: list_all_iff)
    ultimately show "decode_value f (y @ r) = Inr (canon x, r)" by (intro CArray.IH [OF mem(1) enc])
  qed
  from decode_items_all [OF this] show ?case
    using readHead_head [OF h(1)] by (simp add: f(1) h(2))
next
  case (CMap es)
  obtain h entries where h: "head 5 (length es) = Inr h"
      "bs = h @ concat (map (\<lambda>(k, item). k @ item) entries)"
    and rel: "list_all2 (\<lambda>(k, v) (kb, vb). encode_string k = Inr kb \<and> encodeCbor v = Inr vb) (key_order es) entries"
    using encode_CMapE [OF CMap.prems(1)] .
  let ?body = "concat (map (\<lambda>(k, item). k @ item) entries)"
  from h CMap.prems(3) head_Suc_fuel obtain f where f: "fuel = Suc f" "length ?body \<le> f" by blast
  let ?es = "map (\<lambda>(k, v). (k, canon v)) (key_order es)"
  have "list_all2 (\<lambda>(k, v) (kb, vb). (\<forall>r. decode_value f (kb @ r) = Inr (CText k, r))
      \<and> (\<forall>r. decode_value f (vb @ r) = Inr (canon v, r))) (key_order es) entries"
  proof (rule list.rel_mono_strong [OF rel], clarify, intro conjI allI)
    fix k v kb vb r
    assume mem: "(k, v) \<in> set (key_order es)" "(kb, vb) \<in> set entries"
      and enc: "encode_string k = Inr kb" "encodeCbor v = Inr vb"
    have len: "length kb + length vb \<le> f"
      using length_concat_mem [OF mem(2), of "\<lambda>(k, item). k @ item"] f(2) by simp
    have pl: "plain_text k" "plain v" using CMap.prems(2) mem(1) by (auto simp: list_all_iff)
    obtain g where "f = Suc g" using encode_string_not_Nil [OF enc(1)] len by (cases f) auto
    then show "decode_value f (kb @ r) = Inr (CText k, r)"
      using decode_string [OF enc(1)] pl(1) by (simp add: plain_text_def)
    show "decode_value f (vb @ r) = Inr (canon v, r)"
      using mem(1) len by (intro CMap.IH [OF _ _ enc(2) pl(2)]) (auto intro: snds.intros)
  qed
  then have "list_all2 (\<lambda>(k, w) (kb, vb). (\<forall>r. decode_value f (kb @ r) = Inr (CText k, r))
      \<and> (\<forall>r. decode_value f (vb @ r) = Inr (w, r))) ?es entries"
    unfolding list.rel_map by (rule list_all2_mono) auto
  moreover have "map fst ?es = map fst (key_order es)" by (simp add: case_prod_beta)
  then have "distinct (map fst ([] @ ?es))"
    using CMap.prems(2) distinct_key_order [of es] by (simp only: append_Nil plain.simps)
  ultimately have "decode_entries (decode_value f) (length ?es) [] (?body @ rest) = Inr ([] @ ?es, rest)"
    by (rule decode_entries_all)
  then show ?case
    using readHead_head [OF h(1)] by (simp add: f(1) h(2) canon_CMap del: canon.simps)
qed (auto simp: readHead_def Suc_le_eq dest!: gr0_implies_Suc)

subsection \<open>The canonical form encodes to the same bytes\<close>

lemma encode_number_or_bigint [simp]: "encodeCbor (number_or_bigint i) = encode_int i"
  by (simp add: number_or_bigint_def)

lemma map_result_list_all2: "list_all2 (\<lambda>x y. f x = Inr y) xs ys \<Longrightarrow> map_result f xs = Inr ys"
  by (simp add: map_result_Inr_iff)

lemma encode_canon: "encodeCbor v = Inr bs \<Longrightarrow> encodeCbor (canon v) = Inr bs"
proof (induction v arbitrary: bs)
  case (CNum n)
  then show ?case by (cases n) (auto split: if_splits)
next
  case (CArray items)
  obtain h parts where h: "head 4 (length items) = Inr h" "bs = h @ concat parts"
    and parts: "list_all2 (\<lambda>x y. encodeCbor x = Inr y) items parts"
    using encode_CArrayE [OF CArray.prems] .
  have "list_all2 (\<lambda>x y. encodeCbor x = Inr y) (map canon items) parts"
    unfolding list.rel_map by (rule list.rel_mono_strong [OF parts]) (rule CArray.IH)
  from map_result_list_all2 [OF this] show ?case using h by (simp add: with_head_def)
next
  case (CMap es)
  obtain h entries where h: "head 5 (length es) = Inr h"
      "bs = h @ concat (map (\<lambda>(k, item). k @ item) entries)"
    and rel: "list_all2 (\<lambda>(k, v) (kb, vb). encode_string k = Inr kb \<and> encodeCbor v = Inr vb) (key_order es) entries"
    and ord: "\<not> adjacent_equal entries" "sorted_wrt (\<lambda>a b. compareBytes (fst a) (fst b) \<le> 0) entries"
    using encode_CMapE [OF CMap.prems] .
  have "list_all2 (\<lambda>(k, v) (kb, vb). encode_string k = Inr kb \<and> encodeCbor v = Inr vb)
      (map (\<lambda>(k, v). (k, canon v)) (key_order es)) entries"
    unfolding list.rel_map
    using CMap.IH by (intro list.rel_mono_strong [OF rel]) (fastforce intro: snds.intros)
  then have "map_result (\<lambda>(k, v). and_then (encode_string k) (\<lambda>key.
      and_then (encodeCbor v) (\<lambda>item. Inr (key, item)))) (map (\<lambda>(k, v). (k, canon v)) (key_order es)) = Inr entries"
    by (intro map_result_list_all2) (erule list_all2_mono, auto)
  moreover have "js_sort (\<lambda>a b. compareBytes (fst a) (fst b)) entries = entries"
    by (rule entry_order.js_sort_sorted [OF ord(2)])
  moreover have "length entries = length es" using rel list_all2_lengthD by fastforce
  ultimately show ?case
    using h ord(1) by (simp add: canon_CMap encode_entries_def with_head_def del: canon.simps)
qed simp_all

lemma decode_canonical_Inr:
  "decodeCanonicalCbor bs = Inr v \<longleftrightarrow> decode_value (length bs) bs = Inr (v, []) \<and> encodeCbor v = Inr bs"
  by (auto simp: decodeCanonicalCbor_def and_then_Inr_iff split: if_splits)

text \<open>
  C30. What the encoder writes is read back. If a value of the profile encodes, decoding the bytes
  succeeds and returns its canonical form: the same value with numbers as a number when safe and a
  bigint otherwise, and map entries in the order of their encoded keys; and the canonical form
  encodes to the same bytes.
\<close>

theorem cbor_roundtrip:
  assumes "encodeCbor v = Inr bs" and "plain v"
  shows "decodeCanonicalCbor bs = Inr (canon v) \<and> encodeCbor (canon v) = Inr bs"
  using decode_encode [OF assms order_refl, of "[]"] encode_canon [OF assms(1)]
  by (simp add: decode_canonical_Inr)

text \<open>
  One byte string per value and one value per byte string. A byte string is accepted only if it
  is exactly the encoding of the value it decodes to, so two accepted strings of one value are
  equal; a value of the profile is read from its own encoding and from no other; and two values of
  the profile with the same encoding have the same canonical form, so a signed digest binds the
  value.
\<close>

theorem cbor_canonical:
  "(decodeCanonicalCbor bs = Inr v \<and> decodeCanonicalCbor bs' = Inr v \<longrightarrow> bs = bs')
   \<and> (plain v \<longrightarrow> (decodeCanonicalCbor bs = Inr v \<longleftrightarrow> encodeCbor v = Inr bs \<and> canon v = v))
   \<and> (plain v \<and> plain w \<and> encodeCbor v = Inr bs \<and> encodeCbor w = Inr bs \<longrightarrow> canon v = canon w)"
proof -
  have rt: "encodeCbor u = Inr cs \<Longrightarrow> plain u \<Longrightarrow> decodeCanonicalCbor cs = Inr (canon u)" for u cs
    using decode_encode [of u cs "length cs" "[]"] encode_canon [of u cs] by (simp add: decode_canonical_Inr)
  have "decodeCanonicalCbor cs = Inr u \<Longrightarrow> encodeCbor u = Inr cs" for u cs
    by (simp add: decode_canonical_Inr)
  with rt show ?thesis by (metis sum.inject(2))
qed

subsection \<open>The number of bytes is fuel enough\<close>

lemma readHead_shorter: "readHead bytes = Inr (major, argument, rest) \<Longrightarrow> length rest < length bytes"
  by (auto simp: readHead_def Let_def le_imp_less_Suc split: list.splits if_splits)

lemma decode_items_shorter:
  "(\<And>bs v r. dec bs = Inr (v, r) \<Longrightarrow> length r \<le> length bs)
    \<Longrightarrow> decode_items dec n bytes = Inr (vs, rest) \<Longrightarrow> length rest \<le> length bytes"
  by (induction n arbitrary: bytes vs) (fastforce simp: and_then_Inr_iff)+

lemma decode_entries_shorter:
  "(\<And>bs v r. dec bs = Inr (v, r) \<Longrightarrow> length r \<le> length bs)
    \<Longrightarrow> decode_entries dec n out bytes = Inr (es, rest) \<Longrightarrow> length rest \<le> length bytes"
proof (induction n arbitrary: out bytes)
  case (Suc n)
  from Suc.prems(2) obtain key r where kr: "dec bytes = Inr (key, r)" by (auto simp: and_then_Inr_iff)
  with Suc.prems(2) obtain k where "key = CText k" by (cases key) auto
  with kr Suc.prems(2) obtain v r' where v: "dec r = Inr (v, r')"
    "decode_entries dec n (out @ [(k, v)]) r' = Inr (es, rest)"
    by (auto simp: and_then_Inr_iff split: if_splits)
  have "length rest \<le> length r'" using Suc.IH Suc.prems(1) v(2) by blast
  then show ?case using Suc.prems(1) [OF kr] Suc.prems(1) [OF v(1)] by linarith
qed simp

lemma decode_value_shorter: "decode_value fuel bytes = Inr (v, rest) \<Longrightarrow> length rest < length bytes"
proof (induction fuel arbitrary: bytes v rest)
  case (Suc fuel)
  from Suc.prems obtain major argument r where h: "readHead bytes = Inr (major, argument, r)"
    by (auto simp: and_then_Inr_iff)
  have IH: "decode_value fuel bs = Inr (w, r') \<Longrightarrow> length r' \<le> length bs" for bs w r'
    using Suc.IH by fastforce
  have "length rest \<le> length r"
    using Suc.prems h decode_items_shorter [OF IH] decode_entries_shorter [OF IH]
    by (auto simp: and_then_Inr_iff split: if_splits)
  with readHead_shorter [OF h] show ?case by simp
qed simp

lemma decode_items_fuel:
  assumes "\<And>bs. length bs \<le> m \<Longrightarrow> dec bs = dec' bs" and "\<And>bs v r. dec bs = Inr (v, r) \<Longrightarrow> length r \<le> length bs"
    and "length bytes \<le> m"
  shows "decode_items dec n bytes = decode_items dec' n bytes"
  using assms(3)
proof (induction n arbitrary: bytes)
  case (Suc n)
  show ?case
  proof (cases "dec bytes")
    case (Inr p)
    obtain v r where p: "p = (v, r)" by (cases p)
    then have "length r \<le> m" using assms(2) Inr Suc.prems by fastforce
    with Suc.IH [OF this] show ?thesis using Inr p assms(1) [OF Suc.prems] by simp
  qed (use assms(1) [OF Suc.prems] in simp)
qed simp

lemma decode_entries_fuel:
  assumes "\<And>bs. length bs \<le> m \<Longrightarrow> dec bs = dec' bs" and "\<And>bs v r. dec bs = Inr (v, r) \<Longrightarrow> length r \<le> length bs"
    and "length bytes \<le> m"
  shows "decode_entries dec n out bytes = decode_entries dec' n out bytes"
  using assms(3)
proof (induction n arbitrary: out bytes)
  case (Suc n)
  show ?case
  proof (cases "dec bytes")
    case (Inr p)
    obtain key r where p: "p = (key, r)" by (cases p)
    then have r: "length r \<le> m" using assms(2) Inr Suc.prems by fastforce
    have next_eq: "dec r = dec' r" by (rule assms(1) [OF r])
    have "decode_entries dec n out' r' = decode_entries dec' n out' r'" if "dec r = Inr (v, r')" for out' v r'
      using Suc.IH assms(2) [OF that] r by simp
    then show ?thesis
      using Inr p assms(1) [OF Suc.prems] next_eq
      by (cases "dec' r") (auto split: cbor.split)
  qed (use assms(1) [OF Suc.prems] in simp)
qed simp

text \<open>
  The decoder returns on every input. Every item takes at least a byte of the input, so with the
  number of bytes as fuel the recursion never stops for want of it: any larger fuel gives the same
  value or the same error, also on truncated and hostile input (a count larger than what follows).
\<close>

theorem decode_value_fuel:
  assumes "length bytes \<le> fuel"
  shows "decode_value fuel bytes = decode_value (length bytes) bytes"
proof -
  have "decode_value fuel bytes = decode_value fuel' bytes"
    if "length bytes \<le> fuel" "length bytes \<le> fuel'" for fuel fuel' and bytes
    using that
  proof (induction fuel arbitrary: fuel' bytes)
    case 0
    then show ?case by (cases fuel') (simp_all add: readHead_def)
  next
    case (Suc f)
    show ?case
    proof (cases fuel')
      case 0
      with Suc.prems show ?thesis by (simp add: readHead_def)
    next
      case fuel': (Suc f')
      show ?thesis
      proof (cases "readHead bytes")
        case (Inr p)
        obtain major argument rest where p: "p = (major, argument, rest)" by (cases p)
        have "length rest < length bytes" by (rule readHead_shorter) (use Inr p in simp)
        then have rest: "length rest \<le> min f f'" using Suc.prems fuel' by simp
        have same: "decode_value f bs = decode_value f' bs" if "length bs \<le> min f f'" for bs
          using that by (intro Suc.IH) simp_all
        have shrink: "decode_value f bs = Inr (v, r) \<Longrightarrow> length r \<le> length bs" for bs v r
          using decode_value_shorter by fastforce
        show ?thesis
          using decode_items_fuel [OF same shrink rest] decode_entries_fuel [OF same shrink rest]
          unfolding fuel' decode_value.simps(2) Inr p by simp
      qed (simp add: fuel')
    qed
  qed
  with assms show ?thesis by blast
qed

subsection \<open>Text the codec cannot carry\<close>

lemma head_length_mono:
  assumes "head major n = Inr h" and "head major n' = Inr h'" and "n' \<le> n"
  shows "length h' \<le> length h"
  using assms by (auto simp: head_def split: if_splits)

lemma head_smaller: "head major n = Inr h \<Longrightarrow> n' \<le> n \<Longrightarrow> \<exists>h'. head major n' = Inr h'"
  by (auto simp: head_def split: if_splits)

text \<open>
  The encoder accepts text its own decoder refuses: for well-formed text that starts with the byte
  order mark U+FEFF the encoder returns bytes, and decoding those bytes drops the mark, encodes the
  rest, finds other bytes and reports a non-canonical encoding.
\<close>

theorem bom_text_refused:
  assumes "well_formed s" and "has_bom s" and "encodeCbor (CText s) = Inr bs"
  shows "decodeCanonicalCbor bs = Inl (CborError ''non-canonical encoding'')"
proof -
  obtain h where h: "head 3 (length (encode_text s)) = Inr h" "bs = h @ encode_text s"
    using assms(3) by (auto simp: encode_string_def Let_def with_head_Inr)
  obtain f where f: "length bs = Suc f" using head_not_Nil [OF h(1)] h(2) by (cases "length bs") auto
  have dec: "decode_value (length bs) bs = Inr (CText (tl s), [])"
    unfolding f using readHead_head [OF h(1), of "encode_text s"] decode_encode_bom [OF assms(1,2)]
    by (simp add: h(2))
  obtain cs where "scalars s = 0xFEFF # cs" using hd_scalars_bom [OF assms(1)] assms(2) by blast
  then have "s = concat (map units_of (0xFEFF # cs))" using units_scalars [OF assms(1)] by simp
  moreover have "list_all is_scalar cs" using scalars_all [of s] \<open>scalars s = _\<close> by simp
  ultimately have "scalars (tl s) = cs" using scalars_units by (simp add: units_of_def)
  then have shorter: "length (encode_text s) = 3 + length (encode_text (tl s))"
    by (simp add: encode_text_def \<open>scalars s = _\<close> encode_scalar_def)
  then obtain h' where h': "head 3 (length (encode_text (tl s))) = Inr h'"
    using head_smaller [OF h(1), of "length (encode_text (tl s))"] by auto
  have "length h' \<le> length h" by (rule head_length_mono [OF h(1) h']) (simp add: shorter)
  then have "length (h' @ encode_text (tl s)) \<noteq> length bs" by (simp add: h(2) shorter)
  then have "h' @ encode_text (tl s) \<noteq> bs" by auto
  then show ?thesis
    using dec h' by (simp add: decodeCanonicalCbor_def encode_string_def with_head_def)
qed

text \<open>
  The encoder is not injective on ill-formed text: a lone surrogate is encoded as the replacement
  character, so two different strings have one encoding, and a map with both as keys is refused as
  if a key were duplicated.
\<close>

theorem lone_surrogate_collides:
  assumes "surrogate u"
  shows "encodeCbor (CText [u]) = encodeCbor (CText [0xFFFD]) \<and> [u] \<noteq> [0xFFFD]
    \<and> encodeCbor (CMap [([u], CNull), ([0xFFFD], CNull)]) = Inl (CborError ''duplicate map key'')"
proof -
  have "\<not> surrogate 0xFFFD" by (simp add: surrogate_unat)
  then have ne: "u \<noteq> 0xFFFD" using assms by auto
  have enc: "encode_string [u] = encode_string [0xFFFD]"
    using assms \<open>\<not> surrogate 0xFFFD\<close> by (simp add: encode_string_def encode_text_def)
  obtain b where "encode_string [0xFFFD] = Inr b"
    using \<open>\<not> surrogate 0xFFFD\<close>
    by (simp add: encode_string_def encode_text_def encode_scalar_def with_head_def head_def)
  then show ?thesis using enc ne by (simp add: encode_entries_def js_sort_def)
qed

subsection \<open>Concrete encodings\<close>

definition sample_transcript :: cbor where
  "sample_transcript = CMap [([0x76], CNum (Fin 500)), ([0x69, 0x64], CText [0xE9]),
     ([0x6B], CArray [CBytes [1, 255], CBig 70000, CBool True, CNull])]"

lemma be_bytes_2: "be_bytes 2 v = [v div 256 mod 256, v mod 256]"
  by (simp add: numeral_2_eq_2)

lemma be_bytes_4:
  "be_bytes 4 v = [v div 256 div 256 div 256 mod 256, v div 256 div 256 mod 256, v div 256 mod 256, v mod 256]"
proof -
  have "be_bytes 4 v = be_bytes (Suc (Suc (Suc (Suc 0)))) v" by (rule arg_cong [where f = "\<lambda>k. be_bytes k v"]) simp
  then show ?thesis by simp
qed

lemmas encode_eval = encode_string_def encode_text_def encode_scalar_def with_head_def head_def encode_int_def
  encode_entries_def surrogate_def high_surrogate_def low_surrogate_def is_whole_def
  max_safe_integer_def be_bytes_2 be_bytes_4

lemma encode_sample: "encodeCbor sample_transcript =
    Inr [163, 97, 107, 132, 66, 1, 255, 26, 0, 1, 17, 112, 245, 246, 97, 118, 25, 1, 244, 98, 105, 100, 98, 195, 169]"
proof -
  have "encodeCbor (CArray [CBytes [1, 255], CBig 70000, CBool True, CNull])
      = Inr [132, 66, 1, 255, 26, 0, 1, 17, 112, 245, 246]"
    by (simp add: encode_eval)
  moreover have "encodeCbor (CNum (Fin 500)) = Inr [25, 1, 244]" "encodeCbor (CText [0xE9]) = Inr [98, 195, 169]"
    "encode_string [0x76] = Inr [97, 118]" "encode_string [0x69, 0x64] = Inr [98, 105, 100]"
    "encode_string [0x6B] = Inr [97, 107]"
    by (simp_all add: encode_eval)
  ultimately show ?thesis
    unfolding sample_transcript_def encodeCbor.simps(8) map_result.simps
    by (simp del: encodeCbor.simps add: encode_entries_def js_sort_def with_head_def head_def)
qed

theorem cbor_roundtrip_witness:
  "decodeCanonicalCbor
    [163, 97, 107, 132, 66, 1, 255, 26, 0, 1, 17, 112, 245, 246, 97, 118, 25, 1, 244, 98, 105, 100, 98, 195, 169]
    = Inr (canon sample_transcript)"
proof -
  have "plain sample_transcript"
    by (simp add: sample_transcript_def plain_text_def surrogate_def high_surrogate_def low_surrogate_def has_bom_def)
  from cbor_roundtrip [OF encode_sample this] show ?thesis by blast
qed

theorem cbor_canonical_witness:
  "decodeCanonicalCbor [24, 5] \<noteq> Inr (CNum (Fin 5))"
proof -
  have "encodeCbor (CNum (Fin 5)) = Inr [5]"
    by (simp add: encode_eval)
  with cbor_canonical [of "[24, 5]" "CNum (Fin 5)"] show ?thesis by simp
qed

theorem bom_text_refused_witness:
  "decodeCanonicalCbor [100, 239, 187, 191, 97] = Inl (CborError ''non-canonical encoding'')"
proof (rule bom_text_refused [of "[0xFEFF, 0x61]"])
  show "well_formed [0xFEFF, 0x61]" by (simp add: surrogate_def high_surrogate_def low_surrogate_def)
  show "encodeCbor (CText [0xFEFF, 0x61]) = Inr [100, 239, 187, 191, 97]"
    by (simp add: encode_eval)
qed (simp add: has_bom_def)

theorem lone_surrogate_collides_witness:
  "encodeCbor (CText [0xD800]) = encodeCbor (CText [0xFFFD])"
  using lone_surrogate_collides [of "0xD800"] by (simp add: surrogate_def high_surrogate_def)

theorem decode_value_fuel_witness:
  "decode_value 1000 [0x9B, 0xFF, 0xFF, 0xFF, 0xFF, 0xFF, 0xFF, 0xFF, 0xFF, 0x01]
    = decode_value 10 [0x9B, 0xFF, 0xFF, 0xFF, 0xFF, 0xFF, 0xFF, 0xFF, 0xFF, 0x01]"
  using decode_value_fuel [of "[0x9B, 0xFF, 0xFF, 0xFF, 0xFF, 0xFF, 0xFF, 0xFF, 0xFF, 0x01]" 1000]
  by (simp del: decode_value.simps add: eval_nat_numeral)

end
