(* ===== verification/Base64Url.thy ===== *)
theory Base64Url
  imports Prelude
begin

section \<open>base64url and hexadecimal, as Node's buffers read and write them\<close>

text \<open>
  \<open>Buffer.toString("base64url")\<close> writes without padding. \<open>Buffer.from(s, "base64url")\<close> is lenient: it reads
  both alphabets, skips every other character, stops at a padding character and drops an incomplete
  last byte. It never throws. \<open>Buffer.from(s, "hex")\<close> reads pairs of digits up to the first that is none. Bytes are numbers below 256.
\<close>

definition sextet_char :: "nat \<Rightarrow> char" where
  "sextet_char n =
     char_of (if n < 26 then n + 65 else if n < 52 then n + 71 else if n < 62 then n - 4
              else if n = 62 then 45 else 95)"

definition char_sextet :: "char \<Rightarrow> nat option" where
  "char_sextet c =
     (let n = of_char c in
      if 65 \<le> n \<and> n \<le> 90 then Some (n - 65)
      else if 97 \<le> n \<and> n \<le> 122 then Some (n - 71)
      else if 48 \<le> n \<and> n \<le> 57 then Some (n + 4)
      else if n = 43 \<or> n = 45 then Some 62
      else if n = 47 \<or> n = 95 then Some 63
      else None)"

fun sextets :: "nat list \<Rightarrow> nat list" where
  "sextets (a # b # c # bs) =
     [a div 4, a mod 4 * 16 + b div 16, b mod 16 * 4 + c div 64, c mod 64] @ sextets bs"
| "sextets [a, b] = [a div 4, a mod 4 * 16 + b div 16, b mod 16 * 4]"
| "sextets [a] = [a div 4, a mod 4 * 16]"
| "sextets [] = []"

fun octets :: "nat list \<Rightarrow> nat list" where
  "octets (a # b # c # d # ss) =
     [a * 4 + b div 16, b mod 16 * 16 + c div 4, c mod 4 * 64 + d] @ octets ss"
| "octets [a, b, c] = [a * 4 + b div 16, b mod 16 * 16 + c div 4]"
| "octets [a, b] = [a * 4 + b div 16]"
| "octets _ = []"

definition toBase64url :: "nat list \<Rightarrow> string" where
  "toBase64url bs = map sextet_char (sextets bs)"

definition fromBase64url :: "string \<Rightarrow> nat list" where
  "fromBase64url s = octets (List.map_filter char_sextet (takeWhile (\<lambda>c. c \<noteq> CHR ''='') s))"

definition is_byte :: "nat \<Rightarrow> bool" where
  "is_byte b \<longleftrightarrow> b < 256"

subsection \<open>Reading what was written\<close>

lemma of_char_small: "n < 256 \<Longrightarrow> of_char (char_of n) = (n :: nat)"
  by (simp add: of_char_of)

lemma sextet_char_props:
  assumes "n < 64"
  shows "char_sextet (sextet_char n) = Some n" and "sextet_char n \<noteq> CHR ''=''"
proof -
  consider "n < 26" | "26 \<le> n" "n < 52" | "52 \<le> n" "n < 62" | "n = 62" | "n = 63" using assms by linarith
  then have code: "of_char (sextet_char n) =
      (if n < 26 then n + 65 else if n < 52 then n + 71 else if n < 62 then n - 4 else if n = 62 then 45 else 95)"
    by cases (simp_all add: sextet_char_def of_char_small)
  show "char_sextet (sextet_char n) = Some n"
    using assms unfolding char_sextet_def code by (auto simp: Let_def)
  have "of_char (sextet_char n) \<noteq> (61 :: nat)" using assms unfolding code by auto
  then show "sextet_char n \<noteq> CHR ''=''" by auto
qed

lemma sextets_range: "list_all is_byte bs \<Longrightarrow> list_all (\<lambda>n. n < 64) (sextets bs)"
  by (induction bs rule: sextets.induct) (auto simp: is_byte_def)

lemma octets_sextets: "list_all is_byte bs \<Longrightarrow> octets (sextets bs) = bs"
proof (induction bs rule: sextets.induct)
  case (1 a b c bs)
  have "(a mod 4 * 16 + b div 16) div 16 = a mod 4" "(a mod 4 * 16 + b div 16) mod 16 = b div 16"
    "(b mod 16 * 4 + c div 64) div 4 = b mod 16" "(b mod 16 * 4 + c div 64) mod 4 = c div 64"
    using 1(2) by (simp_all add: is_byte_def less_mult_imp_div_less)
  then show ?case using 1 by simp
next
  case (2 a b)
  have "(a mod 4 * 16 + b div 16) div 16 = a mod 4" "(a mod 4 * 16 + b div 16) mod 16 = b div 16"
    using 2 by (simp_all add: is_byte_def less_mult_imp_div_less)
  then show ?case by simp
qed simp_all

lemma map_filter_sextets:
  "list_all (\<lambda>n. n < 64) ns \<Longrightarrow> List.map_filter char_sextet (map sextet_char ns) = ns"
  by (induction ns) (simp_all add: List.map_filter_def sextet_char_props)

lemma base64url_roundtrip:
  assumes "list_all is_byte bs"
  shows "fromBase64url (toBase64url bs) = bs"
proof -
  have "takeWhile (\<lambda>c. c \<noteq> CHR ''='') (map sextet_char (sextets bs)) = map sextet_char (sextets bs)"
    using sextets_range [OF assms] sextet_char_props(2) by (auto simp: takeWhile_eq_all_conv list_all_iff)
  then show ?thesis
    using map_filter_sextets [OF sextets_range [OF assms]] octets_sextets [OF assms]
    by (simp only: fromBase64url_def toBase64url_def)
qed

subsection \<open>Hexadecimal\<close>

definition hex_digit :: "nat \<Rightarrow> char" where
  "hex_digit n = ''0123456789abcdef'' ! n"

definition bytes_hex :: "nat list \<Rightarrow> string" where
  "bytes_hex bs = concat (map (\<lambda>b. [hex_digit (b div 16), hex_digit (b mod 16)]) bs)"

definition hex_value :: "char \<Rightarrow> nat option" where
  "hex_value c =
     (let n = of_char c in
      if 48 \<le> n \<and> n \<le> 57 then Some (n - 48)
      else if 97 \<le> n \<and> n \<le> 102 then Some (n - 87)
      else if 65 \<le> n \<and> n \<le> 70 then Some (n - 55)
      else None)"

fun hex_bytes :: "string \<Rightarrow> nat list" where
  "hex_bytes (a # b # cs) =
     (case (hex_value a, hex_value b) of (Some x, Some y) \<Rightarrow> (x * 16 + y) # hex_bytes cs | _ \<Rightarrow> [])"
| "hex_bytes _ = []"

text \<open>\<open>/^[0-9a-f]*$/\<close> and \<open>toLowerCase\<close> on 8-bit text.\<close>

definition lower_hex :: "char \<Rightarrow> bool" where
  "lower_hex c \<longleftrightarrow> c \<in> set ''0123456789abcdef''"

definition lower_char :: "char \<Rightarrow> char" where
  "lower_char c =
     (let n = of_char c :: nat in
      if 65 \<le> n \<and> n \<le> 90 \<or> 192 \<le> n \<and> n \<le> 222 \<and> n \<noteq> 215 then char_of (n + 32) else c)"

definition toLowerCase :: "string \<Rightarrow> string" where
  "toLowerCase s = map lower_char s"

lemma hex_digits_table:
  "n < 16 \<Longrightarrow> hex_value (hex_digit n) = Some n \<and> lower_hex (hex_digit n) \<and> lower_char (hex_digit n) = hex_digit n"
proof -
  assume n: "n < 16"
  have table: "list_all (\<lambda>n. hex_value (''0123456789abcdef'' ! n) = Some n \<and> lower_hex (''0123456789abcdef'' ! n)
      \<and> lower_char (''0123456789abcdef'' ! n) = ''0123456789abcdef'' ! n) [0..<16]"
    by (simp add: hex_value_def lower_hex_def lower_char_def upt_rec)
  show ?thesis using table n by (simp add: list_all_iff hex_digit_def)
qed

lemma of_char_hex_digit: "n < 16 \<Longrightarrow> of_char (hex_digit n) = (if n < 10 then n + 48 else n + 87)"
proof -
  assume n: "n < 16"
  have "list_all (\<lambda>n. of_char (''0123456789abcdef'' ! n) = (if n < 10 then n + 48 else n + 87)) [0..<16]"
    by (simp add: upt_rec)
  then show ?thesis using n by (simp add: list_all_iff hex_digit_def)
qed

lemma lower_char_value:
  assumes "hex_value c = Some v"
  shows "v < 16" and "lower_char c = hex_digit v"
proof -
  show v: "v < 16" using assms by (auto simp: hex_value_def Let_def split: if_splits)
  have "of_char (lower_char c) = (of_char (hex_digit v) :: nat)"
    using assms unfolding of_char_hex_digit [OF v]
    by (auto simp: hex_value_def lower_char_def Let_def of_char_small split: if_splits)
  then show "lower_char c = hex_digit v" by simp
qed

lemma lower_char_hex: "hex_value c \<noteq> None \<Longrightarrow> lower_hex (lower_char c)"
  by (auto simp: lower_char_value hex_digits_table)

lemma hex_bytes_hex: "list_all is_byte bs \<Longrightarrow> hex_bytes (bytes_hex bs @ cs) = bs @ hex_bytes cs"
proof (induction bs)
  case (Cons b bs)
  then have "b div 16 < 16" "b mod 16 < 16" by (simp_all add: is_byte_def less_mult_imp_div_less)
  then show ?case using Cons by (simp add: bytes_hex_def hex_digits_table)
qed (simp add: bytes_hex_def)

lemma length_bytes_hex [simp]: "length (bytes_hex bs) = 2 * length bs"
  by (induction bs) (simp_all add: bytes_hex_def)

lemma bytes_hex_lower: "list_all is_byte bs \<Longrightarrow> list_all lower_hex (bytes_hex bs)"
  by (induction bs) (simp_all add: bytes_hex_def is_byte_def less_mult_imp_div_less hex_digits_table)

lemma bytes_hex_inj: "list_all is_byte bs \<Longrightarrow> list_all is_byte cs \<Longrightarrow> bytes_hex bs = bytes_hex cs \<Longrightarrow> bs = cs"
  using hex_bytes_hex [of bs "[]"] hex_bytes_hex [of cs "[]"] by simp

lemma hex_digit_value:
  assumes "lower_hex c"
  obtains v where "hex_value c = Some v" and "v < 16" and "hex_digit v = c"
  using assms by (auto simp: lower_hex_def hex_value_def hex_digit_def)

lemma bytes_hex_hex_bytes: "list_all lower_hex s \<Longrightarrow> even (length s) \<Longrightarrow> bytes_hex (hex_bytes s) = s"
proof (induction s rule: hex_bytes.induct)
  case (1 a b cs)
  from 1(2) have "lower_hex a" "lower_hex b" by simp_all
  then obtain x y where "hex_value a = Some x" "x < 16" "hex_digit x = a"
      and "hex_value b = Some y" "y < 16" "hex_digit y = b" by (elim hex_digit_value)
  then show ?case using 1 by (simp add: bytes_hex_def)
qed (simp_all add: bytes_hex_def)

lemma hex_bytes_range: "list_all lower_hex s \<Longrightarrow> list_all is_byte (hex_bytes s)"
proof (induction s rule: hex_bytes.induct)
  case (1 a b cs)
  from 1(2) have "lower_hex a" "lower_hex b" by simp_all
  then obtain x y where "hex_value a = Some x" "x < 16" and "hex_value b = Some y" "y < 16"
    by (elim hex_digit_value)
  then show ?case using 1 by (simp add: is_byte_def)
qed simp_all

lemma hex_bytes_inj:
  "list_all lower_hex s \<Longrightarrow> even (length s) \<Longrightarrow> list_all lower_hex t \<Longrightarrow> even (length t) \<Longrightarrow>
     hex_bytes s = hex_bytes t \<Longrightarrow> s = t"
  by (metis bytes_hex_hex_bytes)

end
