(* ===== verification/Capability.thy ===== *)
theory Capability
  imports Money CborSpec Base64Url
begin

section \<open>Credential capabilities (providers/credentials/capability.ts)\<close>

text \<open>
  The signed, single-use authorization of one credential operation: its canonical bytes, its signature
  envelope and its verification. The identifier fields are 8-bit strings; on the wire they are CBOR
  text. Ed25519 is code outside the repository, so signing and verifying are arguments of the
  definitions (\<open>edSign\<close>, \<open>edVerify\<close>, on hexadecimal keys and bytes); the random bytes of a mint are too.
  An error keeps its message, because the endpoint that calls the verifier branches on it; only the
  list of names after \<^verbatim>\<open>unknown capability field:\<close>, the text of a pattern and the unknown action are
  left out, none of which the endpoint sees.
\<close>

definition CAPABILITY_PROTOCOL :: string where
  "CAPABILITY_PROTOCOL = ''anonrouter-provider-credential-capability-v1''"

definition CAPABILITY_DEFAULT_TTL_SECONDS :: rat where
  "CAPABILITY_DEFAULT_TTL_SECONDS = 300"

definition CAPABILITY_MAX_TTL_SECONDS :: rat where
  "CAPABILITY_MAX_TTL_SECONDS = 900"

datatype CapabilityAction = Register | Rotate | Revoke

fun action_text :: "CapabilityAction \<Rightarrow> string" where
  "action_text Register = ''register''"
| "action_text Rotate = ''rotate''"
| "action_text Revoke = ''revoke''"

definition CAPABILITY_ACTIONS :: "CapabilityAction list" where
  "CAPABILITY_ACTIONS = [Register, Rotate, Revoke]"

definition action_of :: "ustring \<Rightarrow> CapabilityAction option" where
  "action_of s = find (\<lambda>a. ascii (action_text a) = s) CAPABILITY_ACTIONS"

definition CAPABILITY_FIELDS :: "string list" where
  "CAPABILITY_FIELDS = [''protocol'', ''capabilityId'', ''operatorId'', ''provider'', ''credentialId'', ''action'',
     ''deploymentId'', ''issuedAt'', ''expiresAt'', ''nonce'']"

text \<open>A pattern \<^verbatim>\<open>^[a-z0-9][a-z0-9...]{lo,hi}$\<close>, with the further characters of the tail.\<close>

definition lower_alnum :: "char \<Rightarrow> bool" where
  "lower_alnum c \<longleftrightarrow> (let n = of_char c :: nat in 97 \<le> n \<and> n \<le> 122 \<or> 48 \<le> n \<and> n \<le> 57)"

definition id_pattern :: "string \<Rightarrow> nat \<Rightarrow> nat \<Rightarrow> string \<Rightarrow> bool" where
  "id_pattern extra lo hi s =
     (case s of [] \<Rightarrow> False
      | c # cs \<Rightarrow> lower_alnum c \<and> lo \<le> length cs \<and> length cs \<le> hi
          \<and> list_all (\<lambda>c. lower_alnum c \<or> c \<in> set extra) cs)"

definition ID_PATTERN :: "string \<Rightarrow> bool" where
  "ID_PATTERN = id_pattern ''._-'' 2 63"

definition CREDENTIAL_ID_PATTERN :: "string \<Rightarrow> bool" where
  "CREDENTIAL_ID_PATTERN = id_pattern ''_-'' 0 63"

record credential_capability =
  capabilityId :: string
  operatorId :: string
  provider :: string
  credentialId :: string
  action :: CapabilityAction
  deploymentId :: string
  issuedAt :: jsnum
  expiresAt :: jsnum
  nonce :: "nat list"

definition requireId :: "string \<Rightarrow> string \<Rightarrow> (string \<Rightarrow> bool) \<Rightarrow> string result" where
  "requireId name v pattern =
     (if pattern v then Inr v else Inl (CapabilityError (name @ '' must match the identifier pattern'')))"

subsection \<open>Canonical bytes\<close>

text \<open>The comparisons and the difference of numbers, as the language defines them.\<close>

fun js_le :: "jsnum \<Rightarrow> jsnum \<Rightarrow> bool" where
  "js_le NaN _ = False"
| "js_le _ NaN = False"
| "js_le NegInf _ = True"
| "js_le _ PosInf = True"
| "js_le (Fin p) (Fin q) = (p \<le> q)"
| "js_le _ _ = False"

fun js_minus :: "jsnum \<Rightarrow> jsnum \<Rightarrow> jsnum" where
  "js_minus (Fin p) (Fin q) = Fin (p - q)"
| "js_minus NaN _ = NaN"
| "js_minus _ NaN = NaN"
| "js_minus PosInf PosInf = NaN"
| "js_minus NegInf NegInf = NaN"
| "js_minus PosInf _ = PosInf"
| "js_minus NegInf _ = NegInf"
| "js_minus _ PosInf = NegInf"
| "js_minus _ NegInf = PosInf"

definition js_greater :: "jsnum \<Rightarrow> jsnum \<Rightarrow> bool" where
  "js_greater a b \<longleftrightarrow> js_le b a \<and> \<not> js_le a b"

definition capability_map :: "credential_capability \<Rightarrow> (ustring \<times> cbor) list" where
  "capability_map c =
    [(ascii ''protocol'', CText (ascii CAPABILITY_PROTOCOL)),
     (ascii ''capabilityId'', CText (ascii (capabilityId c))),
     (ascii ''operatorId'', CText (ascii (operatorId c))),
     (ascii ''provider'', CText (ascii (provider c))),
     (ascii ''credentialId'', CText (ascii (credentialId c))),
     (ascii ''action'', CText (ascii (action_text (action c)))),
     (ascii ''deploymentId'', CText (ascii (deploymentId c))),
     (ascii ''issuedAt'', CNum (issuedAt c)),
     (ascii ''expiresAt'', CNum (expiresAt c)),
     (ascii ''nonce'', CBytes (nonce c))]"

definition encodeCapability :: "credential_capability \<Rightarrow> nat list result" where
  "encodeCapability c =
     (if length (nonce c) \<noteq> 16 then Inl (CapabilityError ''nonce must be 16 bytes'')
      else if js_le (expiresAt c) (issuedAt c) then Inl (CapabilityError ''expiresAt must be after issuedAt'')
      else if js_greater (js_minus (expiresAt c) (issuedAt c)) (Fin CAPABILITY_MAX_TTL_SECONDS)
        then Inl (CapabilityError ''capability lifetime exceeds 900s'')
      else
        and_then (requireId ''capabilityId'' (capabilityId c) ID_PATTERN) (\<lambda>_.
        and_then (requireId ''operatorId'' (operatorId c) ID_PATTERN) (\<lambda>_.
        and_then (requireId ''provider'' (provider c) ID_PATTERN) (\<lambda>_.
        and_then (requireId ''credentialId'' (credentialId c) CREDENTIAL_ID_PATTERN) (\<lambda>_.
        and_then (requireId ''deploymentId'' (deploymentId c) CREDENTIAL_ID_PATTERN) (\<lambda>_.
        encodeCbor (CMap (capability_map c))))))))"

text \<open>\<open>Map.get\<close> on the entries, and the readers of \<open>decodeCapability\<close>.\<close>

definition get_text :: "(ustring \<times> cbor) list \<Rightarrow> string \<Rightarrow> ustring result" where
  "get_text es key =
     (case map_of es (ascii key) of Some (CText s) \<Rightarrow> Inr s
      | _ \<Rightarrow> Inl (CapabilityError (key @ '' must be a string'')))"

definition get_uint :: "(ustring \<times> cbor) list \<Rightarrow> string \<Rightarrow> jsnum result" where
  "get_uint es key =
     (case map_of es (ascii key) of
        Some (CNum n) \<Rightarrow>
          if \<not> js_is_safe_integer n \<or> js_greater (Fin 0) n
          then Inl (CapabilityError (key @ '' must be a non-negative integer'')) else Inr n
      | _ \<Rightarrow> Inl (CapabilityError (key @ '' must be a non-negative integer'')))"

text \<open>A decoded identifier: only text of 8-bit units can match a pattern.\<close>

definition string_of_units :: "ustring \<Rightarrow> string" where
  "string_of_units s = map (\<lambda>u. char_of (unat u)) s"

definition get_id :: "(ustring \<times> cbor) list \<Rightarrow> string \<Rightarrow> (string \<Rightarrow> bool) \<Rightarrow> string result" where
  "get_id es key pattern =
     and_then (get_text es key) (\<lambda>s.
       if list_all (\<lambda>u. unat u < 256) s then requireId key (string_of_units s) pattern
       else Inl (CapabilityError (key @ '' must match the identifier pattern'')))"

text \<open>The object \<open>decodeCapability\<close> returns, its fields read in the order of the source.\<close>

definition decoded_capability ::
    "(ustring \<times> cbor) list \<Rightarrow> CapabilityAction \<Rightarrow> nat list \<Rightarrow> credential_capability result" where
  "decoded_capability es act n =
     and_then (get_id es ''capabilityId'' ID_PATTERN) (\<lambda>cid.
     and_then (get_id es ''operatorId'' ID_PATTERN) (\<lambda>oid.
     and_then (get_id es ''provider'' ID_PATTERN) (\<lambda>prov.
     and_then (get_id es ''credentialId'' CREDENTIAL_ID_PATTERN) (\<lambda>cred.
     and_then (get_id es ''deploymentId'' CREDENTIAL_ID_PATTERN) (\<lambda>dep.
     and_then (get_uint es ''issuedAt'') (\<lambda>iss.
     and_then (get_uint es ''expiresAt'') (\<lambda>ex.
       Inr \<lparr> capabilityId = cid, operatorId = oid, provider = prov, credentialId = cred,
         action = act, deploymentId = dep, issuedAt = iss, expiresAt = ex, nonce = n \<rparr>)))))))"

definition decode_fields :: "(ustring \<times> cbor) list \<Rightarrow> credential_capability result" where
  "decode_fields es =
     (if \<not> fst ` set es \<subseteq> ascii ` set CAPABILITY_FIELDS then Inl (CapabilityError ''unknown capability field: '')
      else case find (\<lambda>f. map_of es (ascii f) = None) CAPABILITY_FIELDS of
        Some f \<Rightarrow> Inl (CapabilityError (''missing capability field: '' @ f))
      | None \<Rightarrow>
        if map_of es (ascii ''protocol'') \<noteq> Some (CText (ascii CAPABILITY_PROTOCOL))
        then Inl (CapabilityError ''unexpected capability protocol'')
        else and_then (get_text es ''action'') (\<lambda>a.
          case action_of a of
            None \<Rightarrow> Inl (CapabilityError ''unknown action'')
          | Some act \<Rightarrow>
            (case map_of es (ascii ''nonce'') of
               Some (CBytes n) \<Rightarrow>
                 if length n \<noteq> 16 then Inl (CapabilityError ''nonce must be 16 bytes'')
                 else decoded_capability es act n
             | _ \<Rightarrow> Inl (CapabilityError ''nonce must be 16 bytes''))))"

definition decodeCapability :: "nat list \<Rightarrow> credential_capability result" where
  "decodeCapability encoded =
     (case decodeCanonicalCbor encoded of
        Inl (CborError m) \<Rightarrow> Inl (CapabilityError (''capability is not canonical CBOR: '' @ m))
      | Inl _ \<Rightarrow> Inl (CapabilityError ''capability is not canonical CBOR'')
      | Inr (CMap es) \<Rightarrow> decode_fields es
      | Inr _ \<Rightarrow> Inl (CapabilityError ''capability must be a CBOR map''))"

subsection \<open>Signing, verifying and minting\<close>

record signed_capability =
  s_capability :: string
  s_signature :: string
  s_keyId :: string

definition signCapability ::
    "(string \<Rightarrow> nat list \<Rightarrow> nat list) \<Rightarrow> credential_capability \<Rightarrow> string \<Rightarrow> string \<Rightarrow> signed_capability result" where
  "signCapability edSign c privateKeyHex keyId =
     and_then (encodeCapability c) (\<lambda>encoded.
       Inr \<lparr> s_capability = toBase64url encoded,
             s_signature = toBase64url (edSign privateKeyHex encoded),
             s_keyId = keyId \<rparr>)"

record verification_input =
  v_signed :: signed_capability
  v_publicKeys :: "string \<rightharpoonup> string"
  v_deploymentId :: string
  v_action :: CapabilityAction
  v_provider :: string
  v_credentialId :: string
  v_now :: int
  v_isConsumed :: "string \<Rightarrow> bool result"

text \<open>A key that is present but empty counts as absent, as the test \<open>!publicKeyHex\<close> does.\<close>

definition verifyCapability ::
    "(string \<Rightarrow> nat list \<Rightarrow> nat list \<Rightarrow> bool) \<Rightarrow> verification_input \<Rightarrow> credential_capability result" where
  "verifyCapability edVerify i =
     (let encoded = fromBase64url (s_capability (v_signed i));
          signature = fromBase64url (s_signature (v_signed i)) in
      case v_publicKeys i (s_keyId (v_signed i)) of
        None \<Rightarrow> Inl (CapabilityError (''unknown capability signing key id: '' @ s_keyId (v_signed i)))
      | Some pub \<Rightarrow>
        if pub = [] then Inl (CapabilityError (''unknown capability signing key id: '' @ s_keyId (v_signed i)))
        else if length signature \<noteq> 64 then Inl (CapabilityError ''malformed capability signature'')
        else if \<not> edVerify pub encoded signature then Inl (CapabilityError ''invalid capability signature'')
        else and_then (decodeCapability encoded) (\<lambda>c.
          if deploymentId c \<noteq> v_deploymentId i
            then Inl (CapabilityError ''capability is bound to a different deployment'')
          else if action c \<noteq> v_action i then Inl (CapabilityError ''capability does not authorize this action'')
          else if provider c \<noteq> v_provider i then Inl (CapabilityError ''capability is bound to a different provider'')
          else if credentialId c \<noteq> v_credentialId i
            then Inl (CapabilityError ''capability is bound to a different credential id'')
          else if js_greater (issuedAt c) (Fin (of_int (v_now i)))
            then Inl (CapabilityError ''capability is not yet valid'')
          else if js_le (expiresAt c) (Fin (of_int (v_now i))) then Inl (CapabilityError ''capability has expired'')
          else and_then (v_isConsumed i (capabilityId c)) (\<lambda>used.
            if used then Inl (CapabilityError ''capability has already been used'') else Inr c)))"

record mint_params =
  m_operatorId :: string
  m_provider :: string
  m_credentialId :: string
  m_action :: CapabilityAction
  m_deploymentId :: string
  m_now :: rat
  m_ttlSeconds :: "rat option"

definition mintCapability :: "nat list \<Rightarrow> nat list \<Rightarrow> mint_params \<Rightarrow> credential_capability" where
  "mintCapability idBytes nonceBytes p =
     (let ttl = min (case m_ttlSeconds p of Some t \<Rightarrow> t | None \<Rightarrow> CAPABILITY_DEFAULT_TTL_SECONDS)
                  CAPABILITY_MAX_TTL_SECONDS in
      \<lparr> capabilityId = ''cap-'' @ bytes_hex idBytes, operatorId = m_operatorId p, provider = m_provider p,
        credentialId = m_credentialId p, action = m_action p, deploymentId = m_deploymentId p,
        issuedAt = Fin (m_now p), expiresAt = Fin (m_now p + ttl), nonce = nonceBytes \<rparr>)"

definition nonceMatches :: "nat list \<Rightarrow> nat list \<Rightarrow> bool" where
  "nonceMatches a b \<longleftrightarrow> length a = length b \<and> a = b"

end
