(* ===== verification/CapabilitySpec.thy ===== *)
theory CapabilitySpec
  imports Capability
begin

section \<open>What a capability binds\<close>

text \<open>
  A capability that encodes is decoded to itself, and the verifier accepts exactly the signed, unspent
  capability for this deployment, provider, credential and moment.
\<close>

subsection \<open>8-bit text on the wire\<close>

lemma unat_ascii: "unat (word_of_nat (of_char c) :: 16 word) = of_char c"
  by (rule unat16_of_nat, rule order_less_trans [OF nat_of_char_less_256]) simp

lemma string_of_units_ascii [simp]: "string_of_units (ascii s) = s"
  by (simp add: string_of_units_def ascii_def unat_ascii comp_def)

lemma ascii_eq_iff [simp]: "ascii s = ascii t \<longleftrightarrow> s = t"
  using string_of_units_ascii by metis

lemma ascii_units: "u \<in> set (ascii s) \<Longrightarrow> unat u < 256"
  using nat_of_char_less_256 by (auto simp: ascii_def unat_ascii)

lemma narrow_ascii [simp]: "list_all (\<lambda>u. unat u < 256) (ascii s)"
  by (simp add: list_all_iff ascii_units)

lemma well_formed_narrow: "(\<And>u. u \<in> set s \<Longrightarrow> unat u < 256) \<Longrightarrow> well_formed s"
proof (induction s rule: well_formed.induct)
  case (2 u)
  then have "unat u < 256" by simp
  then show ?case by (simp add: surrogate_unat)
next
  case (3 u v us)
  then have "unat u < 256" by simp
  then have "\<not> surrogate u" "\<not> high_surrogate u" by (simp_all add: surrogate_unat high_surrogate_unat)
  then show ?case using 3 by simp
qed simp

lemma plain_ascii [simp]: "plain_text (ascii s)"
proof -
  have "\<not> has_bom (ascii s)"
  proof (cases "ascii s")
    case (Cons u us)
    then have "unat u < 256" using ascii_units [of u s] by simp
    then have "u \<noteq> 0xFEFF" by auto
    with Cons show ?thesis by (simp add: has_bom_def)
  qed (simp add: has_bom_def)
  then show ?thesis by (simp add: plain_text_def well_formed_narrow ascii_units)
qed

lemma encode_ascii_length: "length (encode_text (ascii s)) \<le> 2 * length s"
proof -
  have "scalars u = map unat u" if "\<And>x. x \<in> set u \<Longrightarrow> unat x < 256" for u
    using that
  proof (induction u)
    case (Cons a u)
    then have "unat a < 256" by simp
    then have "\<not> surrogate a" by (simp add: surrogate_unat)
    then show ?case using Cons by (simp add: scalars_plain)
  qed simp
  then have "scalars (ascii s) = map unat (ascii s)" using ascii_units by blast
  moreover have "length (concat (map encode_scalar (map unat u))) \<le> 2 * length u"
    if "\<And>x. x \<in> set u \<Longrightarrow> unat x < 256" for u
    using that by (induction u) (force simp: encode_scalar_def)+
  then have "length (concat (map encode_scalar (map unat (ascii s)))) \<le> 2 * length (ascii s)"
    using ascii_units by blast
  ultimately show ?thesis by (simp only: encode_text_def) (simp add: ascii_def)
qed

lemma encode_ascii: "length s < 2 ^ 60 \<Longrightarrow> \<exists>b. encode_string (ascii s) = Inr b"
  using encode_ascii_length [of s] by (simp add: encode_string_def Let_def with_head_def head_def)

lemma id_pattern_length: "id_pattern extra lo hi s \<Longrightarrow> length s \<le> Suc hi"
  by (cases s) (simp_all add: id_pattern_def)

subsection \<open>Encoding and decoding a capability\<close>

lemma decode_fields_cong:
  assumes "map_of es = map_of es'"
  shows "decode_fields es = decode_fields es'"
proof -
  have "fst ` set es = fst ` set es'" using assms by (metis dom_map_of_conv_image_fst)
  moreover have "get_text es = get_text es'" "get_uint es = get_uint es'" "get_id es = get_id es'"
    "decoded_capability es = decoded_capability es'"
    by (simp_all only: fun_eq_iff get_text_def get_uint_def get_id_def decoded_capability_def assms simp_thms)
  ultimately show ?thesis unfolding decode_fields_def assms by (simp only:)
qed

lemma map_of_key_order: "distinct (map fst es) \<Longrightarrow> map_of (key_order es) = map_of es"
  by (simp add: map_of_inject_set distinct_key_order)

definition good_number :: "jsnum \<Rightarrow> bool" where
  "good_number n \<longleftrightarrow> js_is_safe_integer n \<and> js_le (Fin 0) n"

lemma canon_good_number:
  assumes "js_is_safe_integer n"
  shows "canon (CNum n) = CNum n"
  using assms by (cases n) (auto simp: number_or_bigint_def elim!: is_wholeE)

lemma capability_map_keys [simp]: "map fst (capability_map c) = map ascii CAPABILITY_FIELDS"
  by (simp add: capability_map_def CAPABILITY_FIELDS_def)

lemma distinct_capability_keys: "distinct (map fst (capability_map c))"
  unfolding capability_map_keys by (simp add: CAPABILITY_FIELDS_def)

lemma plain_capability: "plain (CMap (capability_map c))"
proof -
  have "list_all (\<lambda>(k, v). plain_text k \<and> plain v) (capability_map c)"
    by (simp add: capability_map_def)
  then show ?thesis using distinct_capability_keys by simp
qed

lemma canon_capability:
  assumes "js_is_safe_integer (issuedAt c)" and "js_is_safe_integer (expiresAt c)"
  shows "canon (CMap (capability_map c)) = CMap (key_order (capability_map c))"
proof -
  have "\<forall>kv \<in> set (capability_map c). canon (snd kv) = snd kv"
    using canon_good_number assms by (simp add: capability_map_def)
  then have "map (\<lambda>(k, v). (k, canon v)) (key_order (capability_map c)) = key_order (capability_map c)"
    by (intro map_idI) (auto simp: split_beta)
  then show ?thesis by (simp only: canon_CMap)
qed

lemma action_of_text [simp]: "action_of (ascii (action_text a)) = Some a"
  by (cases a) (simp_all add: action_of_def CAPABILITY_ACTIONS_def)

lemma get_capability [simp]:
  "get_text (capability_map c) ''action'' = Inr (ascii (action_text (action c)))"
  "get_text (capability_map c) ''capabilityId'' = Inr (ascii (capabilityId c))"
  "get_text (capability_map c) ''operatorId'' = Inr (ascii (operatorId c))"
  "get_text (capability_map c) ''provider'' = Inr (ascii (provider c))"
  "get_text (capability_map c) ''credentialId'' = Inr (ascii (credentialId c))"
  "get_text (capability_map c) ''deploymentId'' = Inr (ascii (deploymentId c))"
  "map_of (capability_map c) (ascii ''protocol'') = Some (CText (ascii CAPABILITY_PROTOCOL))"
  "map_of (capability_map c) (ascii ''nonce'') = Some (CBytes (nonce c))"
  "map_of (capability_map c) (ascii ''issuedAt'') = Some (CNum (issuedAt c))"
  "map_of (capability_map c) (ascii ''expiresAt'') = Some (CNum (expiresAt c))"
  by (simp_all add: get_text_def capability_map_def)

lemma find_missing_capability: "find (\<lambda>f. map_of (capability_map c) (ascii f) = None) CAPABILITY_FIELDS = None"
  by (simp add: find_None_iff CAPABILITY_FIELDS_def capability_map_def)

text \<open>The identifiers, the nonce and the times a capability must have.\<close>

definition well_named :: "credential_capability \<Rightarrow> bool" where
  "well_named c \<longleftrightarrow> ID_PATTERN (capabilityId c) \<and> ID_PATTERN (operatorId c) \<and> ID_PATTERN (provider c)
     \<and> CREDENTIAL_ID_PATTERN (credentialId c) \<and> CREDENTIAL_ID_PATTERN (deploymentId c) \<and> length (nonce c) = 16"

definition timed :: "credential_capability \<Rightarrow> bool" where
  "timed c \<longleftrightarrow> good_number (issuedAt c) \<and> good_number (expiresAt c)"

lemma decode_capability_map:
  assumes "well_named c" and "timed c"
  shows "decode_fields (capability_map c) = Inr c"
proof -
  have "fst ` set (capability_map c) = ascii ` set CAPABILITY_FIELDS"
    by (metis capability_map_keys image_set)
  moreover have "get_uint (capability_map c) ''issuedAt'' = Inr (issuedAt c)"
      "get_uint (capability_map c) ''expiresAt'' = Inr (expiresAt c)"
    using assms(2) by (simp_all add: get_uint_def timed_def good_number_def js_greater_def)
  ultimately show ?thesis
    using assms(1)
    by (simp add: decode_fields_def find_missing_capability decoded_capability_def get_id_def requireId_def well_named_def)
qed

lemma encodeCapability_Inr:
  assumes "encodeCapability c = Inr bs"
  shows "well_named c" and "encodeCbor (CMap (capability_map c)) = Inr bs"
    and "\<not> js_le (expiresAt c) (issuedAt c)"
    and "\<not> js_greater (js_minus (expiresAt c) (issuedAt c)) (Fin CAPABILITY_MAX_TTL_SECONDS)"
  using assms
  by (auto simp: encodeCapability_def requireId_def well_named_def and_then_Inr_iff split: if_splits)

subsection \<open>A map that encodes\<close>

lemma distinct_not_adjacent: "distinct (map fst es) \<Longrightarrow> \<not> adjacent_equal es"
  by (induction es rule: adjacent_equal.induct) auto

lemma encode_string_inj:
  assumes "encode_string k = Inr b" and "encode_string k' = Inr b" and "plain_text k" and "plain_text k'"
  shows "k = k'"
  using decode_encode [of "CText k" b "length b" "[]"] decode_encode [of "CText k'" b "length b" "[]"] assms
  by simp

lemma map_result_exists: "\<forall>x \<in> set xs. \<exists>y. f x = Inr y \<Longrightarrow> \<exists>ys. map_result f xs = Inr ys"
  by (induction xs) auto

lemma encode_map_ok:
  assumes "distinct (map fst es)" and "length es < 2 ^ 60"
    and "\<forall>(k, v) \<in> set es. plain_text k \<and> (\<exists>b. encode_string k = Inr b) \<and> (\<exists>b. encodeCbor v = Inr b)"
  shows "\<exists>bs. encodeCbor (CMap es) = Inr bs"
proof -
  let ?enc = "\<lambda>(k, v). and_then (encode_string k) (\<lambda>key. and_then (encodeCbor v) (\<lambda>item. Inr (key, item)))"
  have "\<forall>e \<in> set es. \<exists>y. ?enc e = Inr y" using assms(3) by fastforce
  then obtain l where l: "map_result ?enc es = Inr l" using map_result_exists by blast
  then have rel: "list_all2 (\<lambda>(k, v) (kb, vb). encode_string k = Inr kb \<and> encodeCbor v = Inr vb) es l"
    unfolding map_result_Inr_iff by (rule list_all2_mono) (auto simp: and_then_Inr_iff split: prod.splits)
  have len: "length l = length es" using rel list_all2_lengthD by metis
  have "distinct (map fst l)"
  proof (unfold distinct_conv_nth length_map, intro allI impI)
    fix m n assume mn: "m < length l" "n < length l" "m \<noteq> n"
    have at: "encode_string (fst (es ! j)) = Inr (fst (l ! j)) \<and> plain_text (fst (es ! j))" if "j < length l" for j
      using list_all2_nthD2 [OF rel that] assms(3) nth_mem [of j es] that len by (fastforce simp: split_beta)
    have "fst (es ! m) \<noteq> fst (es ! n)"
      using assms(1) mn len by (metis length_map nth_eq_iff_index_eq nth_map)
    then show "map fst l ! m \<noteq> map fst l ! n"
      using at [OF mn(1)] at [OF mn(2)] encode_string_inj mn by (metis nth_map)
  qed
  then have "\<not> adjacent_equal (js_sort (\<lambda>a b. compareBytes (fst a) (fst b)) l)"
    by (intro distinct_not_adjacent) (simp add: distinct_map distinct_js_sort)
  then show ?thesis
    using l assms(2) len by (simp add: encode_entries_def with_head_def head_def)
qed

lemma encode_good_number:
  assumes "js_is_safe_integer n"
  shows "\<exists>b. encodeCbor (CNum n) = Inr b"
proof -
  obtain i where n: "n = Fin (of_int i)" "\<bar>i\<bar> \<le> max_safe_integer"
    using assms by (cases n) (auto elim!: is_wholeE)
  then have "nat i \<le> 0xFFFFFFFFFFFFFFFF" "nat (- i - 1) \<le> 0xFFFFFFFFFFFFFFFF"
    by (auto simp: max_safe_integer_def)
  then show ?thesis using n by (simp add: encode_int_def head_def)
qed

lemma short_id:
  "ID_PATTERN s \<Longrightarrow> length s < 2 ^ 60" "CREDENTIAL_ID_PATTERN s \<Longrightarrow> length s < 2 ^ 60"
  unfolding ID_PATTERN_def CREDENTIAL_ID_PATTERN_def by (auto dest!: id_pattern_length)

lemma encode_capability_ok:
  assumes "well_named c" and "js_is_safe_integer (issuedAt c)" and "js_is_safe_integer (expiresAt c)"
  shows "\<exists>bs. encodeCbor (CMap (capability_map c)) = Inr bs"
proof (rule encode_map_ok [OF distinct_capability_keys])
  show "length (capability_map c) < 2 ^ 60" by (simp add: capability_map_def)
  have ids: "\<exists>b. encode_string (ascii (f c)) = Inr b"
    if "f \<in> {capabilityId, operatorId, provider, credentialId, deploymentId}" for f
    using assms(1) that short_id encode_ascii by (auto simp: well_named_def)
  have lit: "\<exists>b. encode_string (ascii s) = Inr b"
    if "s \<in> {CAPABILITY_PROTOCOL, action_text (action c)} \<union> set CAPABILITY_FIELDS" for s
    using that by (intro encode_ascii, cases "action c") (auto simp: CAPABILITY_PROTOCOL_def CAPABILITY_FIELDS_def)
  show "\<forall>(k, v) \<in> set (capability_map c).
      plain_text k \<and> (\<exists>b. encode_string k = Inr b) \<and> (\<exists>b. encodeCbor v = Inr b)"
    using ids lit encode_good_number [OF assms(2)] encode_good_number [OF assms(3)] assms(1)
    by (simp add: capability_map_def CAPABILITY_FIELDS_def with_head_def head_def well_named_def)
qed

subsection \<open>The wire bytes are bytes\<close>

fun byte_values :: "cbor \<Rightarrow> bool" where
  "byte_values (CBytes bs) = list_all is_byte bs"
| "byte_values (CArray items) = list_all byte_values items"
| "byte_values (CMap es) = list_all (\<lambda>(k, v). byte_values v) es"
| "byte_values _ = True"

lemma be_bytes_range: "list_all is_byte (be_bytes k n)"
  by (induction k arbitrary: n) (simp_all add: is_byte_def)

lemma head_range: "head major n = Inr h \<Longrightarrow> major < 8 \<Longrightarrow> list_all is_byte h"
  by (auto simp: head_def be_bytes_range is_byte_def split: if_splits)

lemma encode_text_range: "list_all is_byte (encode_text s)"
proof -
  have "list_all is_byte (concat (map encode_scalar cs))" if "list_all is_scalar cs" for cs
    using that encode_scalar_bytes by (induction cs) (auto simp: is_byte_def list_all_iff)
  then show ?thesis using scalars_all by (simp add: encode_text_def)
qed

lemma with_head_range:
  "with_head major n body = Inr bs \<Longrightarrow> major < 8 \<Longrightarrow> list_all is_byte body \<Longrightarrow> list_all is_byte bs"
  by (auto simp: with_head_Inr dest: head_range)

lemma encode_string_range: "encode_string s = Inr b \<Longrightarrow> list_all is_byte b"
  by (auto simp: encode_string_def Let_def encode_text_range elim: with_head_range)

lemma encodeCbor_range: "encodeCbor v = Inr bs \<Longrightarrow> byte_values v \<Longrightarrow> list_all is_byte bs"
proof (induction v arbitrary: bs)
  case (CNum n)
  then show ?case by (cases n) (auto simp: encode_int_def dest!: head_range split: if_splits)
next
  case (CBig i)
  then show ?case by (auto simp: encode_int_def dest!: head_range split: if_splits)
next
  case (CArray items)
  obtain h parts where h: "head 4 (length items) = Inr h" "bs = h @ concat parts"
    and parts: "list_all2 (\<lambda>x y. encodeCbor x = Inr y) items parts"
    using encode_CArrayE [OF CArray.prems(1)] .
  have "list_all2 (\<lambda>x y. list_all is_byte y) items parts"
    using CArray.IH CArray.prems(2) by (intro list.rel_mono_strong [OF parts]) (auto simp: list_all_iff)
  then have "list_all is_byte (concat parts)" by (induction rule: list_all2_induct) simp_all
  then show ?case using h head_range [OF h(1)] by simp
next
  case (CMap es)
  obtain h entries where h: "head 5 (length es) = Inr h"
      "bs = h @ concat (map (\<lambda>(k, item). k @ item) entries)"
    and rel: "list_all2 (\<lambda>(k, v) (kb, vb). encode_string k = Inr kb \<and> encodeCbor v = Inr vb) (key_order es) entries"
    using encode_CMapE [OF CMap.prems(1)] .
  have "list_all2 (\<lambda>_ (kb, vb). list_all is_byte kb \<and> list_all is_byte vb) (key_order es) entries"
  proof (rule list.rel_mono_strong [OF rel], clarify, intro conjI)
    fix k v kb vb
    assume mem: "(k, v) \<in> set (key_order es)" and enc: "encode_string k = Inr kb" "encodeCbor v = Inr vb"
    show "list_all is_byte kb" by (rule encode_string_range [OF enc(1)])
    have "byte_values v" using CMap.prems(2) mem by (auto simp: list_all_iff)
    then show "list_all is_byte vb" using mem by (intro CMap.IH [OF _ _ enc(2)]) (auto intro: snds.intros)
  qed
  then have "list_all is_byte (concat (map (\<lambda>(k, item). k @ item) entries))"
    by (induction rule: list_all2_induct) auto
  then show ?case using h head_range [OF h(1)] by simp
qed (auto simp: is_byte_def encode_string_range elim: with_head_range)

lemma capability_bytes:
  assumes "encodeCapability c = Inr bs" and "list_all is_byte (nonce c)"
  shows "list_all is_byte bs"
proof -
  have "byte_values (CMap (capability_map c))" using assms(2) by (simp add: capability_map_def)
  then show ?thesis using encodeCbor_range [OF encodeCapability_Inr(2) [OF assms(1)]] by blast
qed

lemma list_all2_mem: "list_all2 R xs ys \<Longrightarrow> x \<in> set xs \<Longrightarrow> \<exists>y \<in> set ys. R x y"
  by (induction rule: list_all2_induct) auto

lemma encoded_times:
  assumes "encodeCapability c = Inr bs"
  shows "js_is_safe_integer (issuedAt c)" and "js_is_safe_integer (expiresAt c)"
proof -
  obtain entries where rel: "list_all2 (\<lambda>(k, v) (kb, vb). encode_string k = Inr kb \<and> encodeCbor v = Inr vb)
      (key_order (capability_map c)) entries"
    by (rule encode_CMapE [OF encodeCapability_Inr(2) [OF assms]]) (rule that)
  have enc: "\<exists>b. encodeCbor v = Inr b" if "(k, v) \<in> set (capability_map c)" for k v
  proof -
    have "(k, v) \<in> set (key_order (capability_map c))" using that by simp
    from list_all2_mem [OF rel this] show ?thesis by auto
  qed
  have safe: "js_is_safe_integer n" if "encodeCbor (CNum n) = Inr b" for n b
    using that by (auto split: if_splits)
  have "(ascii ''issuedAt'', CNum (issuedAt c)) \<in> set (capability_map c)"
    "(ascii ''expiresAt'', CNum (expiresAt c)) \<in> set (capability_map c)"
    by (simp_all add: capability_map_def)
  then show "js_is_safe_integer (issuedAt c)" and "js_is_safe_integer (expiresAt c)"
    using safe enc by blast+
qed

lemma encoded_timed:
  assumes "encodeCapability c = Inr bs" and "js_le (Fin 0) (issuedAt c)"
  shows "timed c"
proof -
  obtain p q where "issuedAt c = Fin p" "expiresAt c = Fin q"
    using encoded_times [OF assms(1)] by (cases "issuedAt c"; cases "expiresAt c") auto
  then show ?thesis
    using encoded_times [OF assms(1)] encodeCapability_Inr(3) [OF assms(1)] assms(2)
    by (simp add: timed_def good_number_def)
qed

lemma decode_map_bytes:
  assumes "encodeCbor (CMap (capability_map c)) = Inr bs" and "well_named c" and "timed c"
  shows "decodeCapability bs = Inr c"
proof -
  have "js_is_safe_integer (issuedAt c)" "js_is_safe_integer (expiresAt c)"
    using assms(3) by (simp_all add: timed_def good_number_def)
  note canon = canon_capability [OF this]
  have "decodeCanonicalCbor bs = Inr (CMap (key_order (capability_map c)))"
    using decode_encode [OF assms(1) plain_capability order_refl, of "[]"] encode_canon [OF assms(1)]
    unfolding canon decode_canonical_Inr by simp
  then show ?thesis
    using decode_capability_map [OF assms(2,3)]
      decode_fields_cong [OF map_of_key_order [OF distinct_capability_keys, of c]]
    by (simp add: decodeCapability_def)
qed

lemma decode_encoded:
  "encodeCapability c = Inr bs \<Longrightarrow> js_le (Fin 0) (issuedAt c) \<Longrightarrow> decodeCapability bs = Inr c"
  by (intro decode_map_bytes encodeCapability_Inr encoded_timed)

text \<open>A capability of the permitted form and lifetime is encoded.\<close>

lemma encodes:
  assumes "well_named c" and "js_is_safe_integer (issuedAt c)" and "js_is_safe_integer (expiresAt c)"
    and "\<not> js_le (expiresAt c) (issuedAt c)" and "js_le (js_minus (expiresAt c) (issuedAt c)) (Fin 900)"
  shows "\<exists>bs. encodeCapability c = Inr bs"
  using encode_capability_ok [OF assms(1-3)] assms
  by (simp add: encodeCapability_def well_named_def requireId_def js_greater_def CAPABILITY_MAX_TTL_SECONDS_def)

subsection \<open>One byte string per capability\<close>

lemma decode_entries_distinct:
  "decode_entries dec n out bytes = Inr (es, rest) \<Longrightarrow> distinct (map fst out) \<Longrightarrow> distinct (map fst es)"
proof (induction dec n out bytes arbitrary: es rest rule: decode_entries.induct)
  case (2 dec n out bytes)
  obtain key r where "dec bytes = Inr (key, r)" using "2.prems"(1) by (auto simp: and_then_Inr_iff)
  with "2.prems"(1) obtain k where k: "dec bytes = Inr (CText k, r)" "k \<notin> fst ` set out"
    by (cases key) (auto split: if_splits)
  then obtain v r' where v: "dec r = Inr (v, r')" "decode_entries dec n (out @ [(k, v)]) r' = Inr (es, rest)"
    using "2.prems"(1) by (auto simp: and_then_Inr_iff)
  have "distinct (map fst (out @ [(k, v)]))" using "2.prems"(2) k(2) by simp
  from "2.IH" [OF k(1) refl refl k(2) v(1) refl v(2) this] show ?case .
qed simp

lemma decoded_map_distinct:
  assumes "decode_value fuel bytes = Inr (CMap es, rest)"
  shows "distinct (map fst es)"
proof (cases fuel)
  case (Suc f)
  from assms obtain n r where "decode_entries (decode_value f) n [] r = Inr (es, rest)"
    unfolding Suc by (auto simp: and_then_Inr_iff number_or_bigint_def split: if_splits)
  from decode_entries_distinct [OF this] show ?thesis by simp
qed (use assms in simp)

lemma get_id_Inr:
  "get_id es key pattern = Inr v \<longleftrightarrow> map_of es (ascii key) = Some (CText (ascii v)) \<and> pattern v"
proof -
  have narrow: "ascii (string_of_units s) = s" if "list_all (\<lambda>u. unat u < 256) s" for s
    using that by (auto simp: ascii_def string_of_units_def list_all_iff intro!: map_idI)
  then show ?thesis
    by (auto simp: get_id_def get_text_def requireId_def and_then_Inr_iff split: option.splits cbor.splits if_splits)
qed

lemma get_uint_Inr: "get_uint es key = Inr n \<longleftrightarrow> map_of es (ascii key) = Some (CNum n) \<and> good_number n"
proof -
  have "js_is_safe_integer m \<Longrightarrow> js_le (Fin 0) m \<longleftrightarrow> \<not> js_greater (Fin 0) m" for m
    by (cases m) (auto simp: js_greater_def)
  then show ?thesis
    by (auto simp: get_uint_def good_number_def split: option.splits cbor.splits if_splits)
qed

lemma action_of_Some: "action_of s = Some a \<Longrightarrow> s = ascii (action_text a)"
  by (auto simp: action_of_def CAPABILITY_ACTIONS_def split: if_splits)

lemma find_not_None: "find P xs = None \<Longrightarrow> x \<in> set xs \<Longrightarrow> \<not> P x"
  by (auto simp: find_None_iff)

lemma decoded_capability_Inr:
  "decoded_capability es act n = Inr c \<longleftrightarrow>
     get_id es ''capabilityId'' ID_PATTERN = Inr (capabilityId c)
     \<and> get_id es ''operatorId'' ID_PATTERN = Inr (operatorId c)
     \<and> get_id es ''provider'' ID_PATTERN = Inr (provider c)
     \<and> get_id es ''credentialId'' CREDENTIAL_ID_PATTERN = Inr (credentialId c)
     \<and> get_id es ''deploymentId'' CREDENTIAL_ID_PATTERN = Inr (deploymentId c)
     \<and> get_uint es ''issuedAt'' = Inr (issuedAt c) \<and> get_uint es ''expiresAt'' = Inr (expiresAt c)
     \<and> action c = act \<and> nonce c = n"
  by (cases c) (auto simp: decoded_capability_def and_then_Inr_iff)

lemma decode_fields_InrE:
  assumes "decode_fields es = Inr c"
  obtains "fst ` set es \<subseteq> ascii ` set CAPABILITY_FIELDS"
    and "map_of es (ascii ''protocol'') = Some (CText (ascii CAPABILITY_PROTOCOL))"
    and "map_of es (ascii ''action'') = Some (CText (ascii (action_text (action c))))"
    and "map_of es (ascii ''nonce'') = Some (CBytes (nonce c))" and "length (nonce c) = 16"
    and "decoded_capability es (action c) (nonce c) = Inr c"
proof -
  have pre: "fst ` set es \<subseteq> ascii ` set CAPABILITY_FIELDS"
    "find (\<lambda>f. map_of es (ascii f) = None) CAPABILITY_FIELDS = None"
    "map_of es (ascii ''protocol'') = Some (CText (ascii CAPABILITY_PROTOCOL))"
    using assms by (auto simp: decode_fields_def split: if_splits option.splits)
  then obtain a where a: "get_text es ''action'' = Inr a"
    using assms by (auto simp: decode_fields_def and_then_Inr_iff)
  then obtain act where act: "action_of a = Some act"
    using assms pre by (cases "action_of a") (auto simp: decode_fields_def)
  obtain v where v: "map_of es (ascii ''nonce'') = Some v"
    using find_not_None [OF pre(2), of "''nonce''"] by (auto simp: CAPABILITY_FIELDS_def)
  then obtain n where n: "v = CBytes n" "length n = 16" and rest: "decoded_capability es act n = Inr c"
    using assms pre a act by (cases v) (auto simp: decode_fields_def split: if_splits)
  moreover have "map_of es (ascii ''action'') = Some (CText a)"
    using a by (auto simp: get_text_def split: option.splits cbor.splits)
  ultimately show ?thesis
    using pre v action_of_Some [OF act] by (auto intro!: that simp: decoded_capability_Inr)
qed

lemma decode_fields_map:
  assumes "decode_fields es = Inr c"
  shows "map_of es = map_of (capability_map c)"
proof
  fix k
  from assms show "map_of es k = map_of (capability_map c) k"
  proof (cases rule: decode_fields_InrE)
    case 1
    show ?thesis
    proof (cases "k \<in> ascii ` set CAPABILITY_FIELDS")
      case True
      then show ?thesis using 1(2-6) unfolding decoded_capability_Inr get_id_Inr get_uint_Inr
        by (auto simp: CAPABILITY_FIELDS_def capability_map_def)
    next
      case False
      moreover have "fst ` set (capability_map c) = ascii ` set CAPABILITY_FIELDS"
        by (metis capability_map_keys image_set)
      ultimately show ?thesis using 1(1) by (metis map_of_eq_None_iff subset_iff)
    qed
  qed
qed

lemma decode_fields_form: "decode_fields es = Inr c \<Longrightarrow> well_named c \<and> timed c"
  by (erule decode_fields_InrE)
     (simp add: decoded_capability_Inr get_id_Inr get_uint_Inr well_named_def timed_def)

lemma key_order_unique:
  assumes "set xs = set ys" and "distinct xs" and "distinct ys" and "inj_on (\<lambda>e. key_bytes (fst e)) (set xs)"
  shows "key_order xs = key_order ys"
  unfolding key_order_def
proof (rule entry_order.js_sort_unique)
  show "mset xs = mset ys" using assms(1-3) by (simp add: set_eq_iff_mset_eq_distinct)
  fix a b :: "ustring \<times> 'a"
  assume "a \<in> set xs" "b \<in> set xs" and "compareBytes (key_bytes (fst a)) (key_bytes (fst b)) \<le> 0"
    "compareBytes (key_bytes (fst b)) (key_bytes (fst a)) \<le> 0"
  then show "a = b" using assms(4) by (auto simp: compareBytes_le dest: inj_onD)
qed

lemma key_bytes_inj:
  assumes "plain_text k" and "plain_text k'" and "encode_string k = Inr b" and "encode_string k' = Inr b'"
    and "key_bytes k = key_bytes k'"
  shows "k = k'"
  using assms encode_string_inj [of k b k'] by (simp add: key_bytes_def)

lemma canonical_bytes_of:
  assumes "decodeCapability bs = Inr c"
  shows "encodeCbor (CMap (capability_map c)) = Inr bs"
proof -
  obtain es where es: "decodeCanonicalCbor bs = Inr (CMap es)" and dec: "decode_fields es = Inr c"
    using assms by (auto simp: decodeCapability_def split: sum.splits err.splits cbor.splits)
  have val: "decode_value (length bs) bs = Inr (CMap es, [])" and again: "encodeCbor (CMap es) = Inr bs"
    using es by (simp_all only: decode_canonical_Inr)
  have dist: "distinct (map fst es)" by (rule decoded_map_distinct [OF val])
  have set: "set es = set (capability_map c)"
    using decode_fields_map [OF dec] map_of_inject_set [OF dist distinct_capability_keys] by metis
  have form: "well_named c" "timed c" using decode_fields_form [OF dec] by blast+
  then have safe: "js_is_safe_integer (issuedAt c)" "js_is_safe_integer (expiresAt c)"
    by (simp_all add: timed_def good_number_def)
  obtain bs' where bs': "encodeCbor (CMap (capability_map c)) = Inr bs'"
    using encode_capability_ok [OF form(1) safe] by blast
  have plain: "plain (CMap es)" using plain_capability [of c] dist set by (simp add: list_all_iff)
  have "canon (CMap es) = CMap es"
    using decode_encode [OF again plain order_refl, of "[]"] val by simp
  moreover have "map (\<lambda>(k, v). (k, canon v)) (key_order es) = key_order es"
  proof -
    have "\<forall>kv \<in> set es. canon (snd kv) = snd kv"
      using canon_good_number safe unfolding set by (simp add: capability_map_def)
    then show ?thesis by (intro map_idI) (auto simp: split_beta)
  qed
  ultimately have "key_order es = es" by (simp only: canon_CMap cbor.inject)
  moreover have "key_order es = key_order (capability_map c)"
  proof (rule key_order_unique [OF set])
    show "distinct es" "distinct (capability_map c)"
      using dist distinct_capability_keys by (auto simp only: distinct_map)
    have short: "length f < 2 ^ 60" if "f \<in> set CAPABILITY_FIELDS" for f
      using that by (auto simp: CAPABILITY_FIELDS_def)
    have keys: "plain_text (fst e) \<and> (\<exists>b. encode_string (fst e) = Inr b)" if "e \<in> set es" for e
    proof -
      have "fst e \<in> set (map fst (capability_map c))" using that unfolding set set_map by (rule imageI)
      then obtain f where "f \<in> set CAPABILITY_FIELDS" "fst e = ascii f"
        unfolding capability_map_keys set_map by (rule imageE) (rule that)
      then show ?thesis using encode_ascii [OF short] by simp
    qed
    show "inj_on (\<lambda>e. key_bytes (fst e)) (set es)"
    proof (rule inj_onI)
      fix d e assume "d \<in> set es" "e \<in> set es" "key_bytes (fst d) = key_bytes (fst e)"
      then have "fst d = fst e" using keys key_bytes_inj by metis
      moreover have "inj_on fst (set es)" using dist by (simp only: distinct_map)
      ultimately show "d = e" using \<open>d \<in> set es\<close> \<open>e \<in> set es\<close> by (blast dest: inj_onD)
    qed
  qed
  ultimately have "encodeCbor (canon (CMap (capability_map c))) = Inr bs"
    using again by (simp only: canon_capability [OF safe])
  then show ?thesis using encode_canon [OF bs'] bs' by simp
qed

text \<open>
  A capability has one byte string. The decoder returns a capability for exactly the bytes the
  encoder's map has, and only for well-formed identifiers, a 16-byte nonce and non-negative safe
  times; so what was signed is what is checked, byte for byte. The lifetime is no part of it: bytes
  with a longer lifetime than the encoder permits decode as well.
\<close>

theorem capability_one_encoding:
  "decodeCapability bs = Inr c
    \<longleftrightarrow> well_named c \<and> timed c \<and> encodeCbor (CMap (capability_map c)) = Inr bs"
proof
  assume dec: "decodeCapability bs = Inr c"
  then obtain es where "decode_fields es = Inr c"
    by (auto simp: decodeCapability_def split: sum.splits err.splits cbor.splits)
  then show "well_named c \<and> timed c \<and> encodeCbor (CMap (capability_map c)) = Inr bs"
    using decode_fields_form canonical_bytes_of [OF dec] by blast
next
  assume r: "well_named c \<and> timed c \<and> encodeCbor (CMap (capability_map c)) = Inr bs"
  then show "decodeCapability bs = Inr c" by (intro decode_map_bytes) auto
qed

text \<open>What a verified capability satisfies, in the order of the checks.\<close>

lemma verify_Inr:
  "verifyCapability edVerify i = Inr c \<longleftrightarrow>
     (\<exists>pub. v_publicKeys i (s_keyId (v_signed i)) = Some pub \<and> pub \<noteq> []
        \<and> edVerify pub (fromBase64url (s_capability (v_signed i))) (fromBase64url (s_signature (v_signed i))))
     \<and> length (fromBase64url (s_signature (v_signed i))) = 64
     \<and> decodeCapability (fromBase64url (s_capability (v_signed i))) = Inr c
     \<and> deploymentId c = v_deploymentId i \<and> action c = v_action i \<and> provider c = v_provider i
     \<and> credentialId c = v_credentialId i \<and> \<not> js_greater (issuedAt c) (Fin (of_int (v_now i)))
     \<and> \<not> js_le (expiresAt c) (Fin (of_int (v_now i))) \<and> v_isConsumed i (capabilityId c) = Inr False"
  by (cases "v_publicKeys i (s_keyId (v_signed i))")
     (auto simp: verifyCapability_def and_then_Inr_iff Let_def split: if_splits)

subsection \<open>From minting to verification\<close>

lemma hex_digit_lower:
  assumes "n < 16"
  shows "lower_alnum (hex_digit n)"
proof -
  have "list_all lower_alnum ''0123456789abcdef''" by (simp add: lower_alnum_def)
  then show ?thesis using assms by (simp only: hex_digit_def list_all_length) simp
qed

lemma bytes_hex_props:
  assumes "list_all is_byte bs"
  shows "length (bytes_hex bs) = 2 * length bs" and "list_all lower_alnum (bytes_hex bs)"
  using assms
  by (induction bs) (auto simp: bytes_hex_def is_byte_def less_mult_imp_div_less intro: hex_digit_lower)

lemma minted_id:
  assumes "list_all is_byte idBytes" and "length idBytes = 12"
  shows "ID_PATTERN (''cap-'' @ bytes_hex idBytes)"
proof -
  have "list_all (\<lambda>c. lower_alnum c \<or> c \<in> set ''._-'') (bytes_hex idBytes)"
    using bytes_hex_props(2) [OF assms(1)] by (auto simp: list_all_iff)
  then show ?thesis
    using bytes_hex_props(1) [OF assms(1)] assms(2)
    by (simp add: ID_PATTERN_def id_pattern_def) (simp add: lower_alnum_def)
qed

definition mint_ttl :: "int option \<Rightarrow> int" where
  "mint_ttl t = (case t of None \<Rightarrow> 300 | Some n \<Rightarrow> min n 900)"

definition mint_ok :: "nat list \<Rightarrow> nat list \<Rightarrow> mint_params \<Rightarrow> bool" where
  "mint_ok idBytes nonceBytes p \<longleftrightarrow>
     list_all is_byte idBytes \<and> length idBytes = 12 \<and> list_all is_byte nonceBytes \<and> length nonceBytes = 16
     \<and> ID_PATTERN (m_operatorId p) \<and> ID_PATTERN (m_provider p)
     \<and> CREDENTIAL_ID_PATTERN (m_credentialId p) \<and> CREDENTIAL_ID_PATTERN (m_deploymentId p)"

lemma minted:
  assumes "mint_ok idBytes nonceBytes p" and "m_now p = of_int n" and "m_ttlSeconds p = map_option of_int t"
    and "0 \<le> n" and "n + 900 \<le> max_safe_integer" and "0 < mint_ttl t"
  defines "c \<equiv> mintCapability idBytes nonceBytes p"
  shows "issuedAt c = Fin (of_int n)" and "expiresAt c = Fin (of_int (n + mint_ttl t))"
    and "\<exists>bs. encodeCapability c = Inr bs \<and> decodeCapability bs = Inr c \<and> list_all is_byte bs"
proof -
  have ttl: "min (case m_ttlSeconds p of Some t \<Rightarrow> t | None \<Rightarrow> CAPABILITY_DEFAULT_TTL_SECONDS)
      CAPABILITY_MAX_TTL_SECONDS = of_int (mint_ttl t)"
    using assms(3)
    by (cases t) (auto simp: CAPABILITY_DEFAULT_TTL_SECONDS_def CAPABILITY_MAX_TTL_SECONDS_def mint_ttl_def min_def)
  show iss: "issuedAt c = Fin (of_int n)" and ex: "expiresAt c = Fin (of_int (n + mint_ttl t))"
    using assms(2) by (simp_all add: c_def mintCapability_def Let_def ttl)
  have names: "well_named c"
    using assms(1) minted_id by (simp add: c_def well_named_def mint_ok_def mintCapability_def Let_def)
  have "mint_ttl t \<le> 900" by (auto simp: mint_ttl_def split: option.split)
  then have "js_is_safe_integer (issuedAt c)" "js_is_safe_integer (expiresAt c)"
    "\<not> js_le (expiresAt c) (issuedAt c)" "js_le (js_minus (expiresAt c) (issuedAt c)) (Fin 900)"
    using assms(4-6) by (simp_all only: iss ex js_is_safe_integer.simps js_le.simps js_minus.simps
        is_whole_of_int floor_of_int of_int_le_iff flip: of_int_diff) simp_all
  then obtain bs where bs: "encodeCapability c = Inr bs" using encodes [OF names] by blast
  moreover have "decodeCapability bs = Inr c"
    using assms(4) by (intro decode_encoded [OF bs]) (simp add: iss)
  moreover have "list_all is_byte bs"
    using assms(1) by (intro capability_bytes [OF bs]) (simp add: c_def mint_ok_def mintCapability_def Let_def)
  ultimately show "\<exists>bs. encodeCapability c = Inr bs \<and> decodeCapability bs = Inr c \<and> list_all is_byte bs"
    by blast
qed

text \<open>
  C22. A minted capability works exactly where and when it was issued for. Minted for valid identifiers
  at second \<open>n\<close> and signed with a key whose public half the verifier pins, it is accepted by the
  deployment, action, provider and credential it names, from \<open>n\<close> until its lifetime (300 seconds
  unless stated, never more than 900) has passed, while its id is not recorded as used; with any
  other input it is refused. Of Ed25519 this needs that a 64-byte signature by the private key
  verifies.
\<close>

theorem minted_capability_window:
  fixes edSign :: "string \<Rightarrow> nat list \<Rightarrow> nat list" and edVerify :: "string \<Rightarrow> nat list \<Rightarrow> nat list \<Rightarrow> bool"
  assumes "mint_ok idBytes nonceBytes p" and "m_now p = of_int n" and "m_ttlSeconds p = map_option of_int t"
    and "0 \<le> n" and "n + 900 \<le> max_safe_integer" and "0 < mint_ttl t"
    and "keys keyId = Some pub" and "pub \<noteq> []"
    and "\<And>m. edVerify pub m (edSign priv m) \<and> length (edSign priv m) = 64 \<and> list_all is_byte (edSign priv m)"
  defines "c \<equiv> mintCapability idBytes nonceBytes p"
  shows "\<exists>s. signCapability edSign c priv keyId = Inr s
    \<and> (\<forall>i d. v_signed i = s \<and> v_publicKeys i = keys \<longrightarrow>
        (verifyCapability edVerify i = Inr c \<longleftrightarrow>
           v_deploymentId i = m_deploymentId p \<and> v_action i = m_action p \<and> v_provider i = m_provider p
           \<and> v_credentialId i = m_credentialId p \<and> n \<le> v_now i \<and> v_now i < n + mint_ttl t
           \<and> v_isConsumed i (capabilityId c) = Inr False)
        \<and> (verifyCapability edVerify i = Inr d \<longrightarrow> d = c))"
proof -
  obtain bs where bs: "encodeCapability c = Inr bs" "decodeCapability bs = Inr c" "list_all is_byte bs"
    using minted(3) [OF assms(1-6)] unfolding c_def by blast
  have times: "issuedAt c = Fin (of_int n)" "expiresAt c = Fin (of_int (n + mint_ttl t))"
    using minted(1,2) [OF assms(1-6)] unfolding c_def by blast+
  have fields: "deploymentId c = m_deploymentId p" "action c = m_action p" "provider c = m_provider p"
    "credentialId c = m_credentialId p"
    by (simp_all add: c_def mintCapability_def Let_def)
  let ?s = "\<lparr> s_capability = toBase64url bs, s_signature = toBase64url (edSign priv bs), s_keyId = keyId \<rparr>"
  have sig: "fromBase64url (toBase64url (edSign priv bs)) = edSign priv bs" "fromBase64url (toBase64url bs) = bs"
    using assms(9) bs(3) by (simp_all add: base64url_roundtrip)
  have window: "\<not> js_greater (issuedAt c) (Fin (of_int m)) \<longleftrightarrow> n \<le> m"
    "\<not> js_le (expiresAt c) (Fin (of_int m)) \<longleftrightarrow> m < n + mint_ttl t" for m
    by (auto simp only: times js_greater_def js_le.simps of_int_le_iff)
  show ?thesis
  proof (intro exI [of _ ?s] conjI allI impI)
    show "signCapability edSign c priv keyId = Inr ?s" by (simp add: signCapability_def bs(1))
    fix i :: verification_input and d
    assume i: "v_signed i = ?s \<and> v_publicKeys i = keys"
    have v: "verifyCapability edVerify i = Inr d' \<longleftrightarrow> d' = c \<and> deploymentId c = v_deploymentId i \<and> action c = v_action i
        \<and> provider c = v_provider i \<and> credentialId c = v_credentialId i \<and> n \<le> v_now i
        \<and> v_now i < n + mint_ttl t \<and> v_isConsumed i (capabilityId c) = Inr False" for d'
      unfolding verify_Inr using i assms(7-9) bs(2) window [of "v_now i"] by (auto simp: sig)
    show "verifyCapability edVerify i = Inr c \<longleftrightarrow> v_deploymentId i = m_deploymentId p \<and> v_action i = m_action p
        \<and> v_provider i = m_provider p \<and> v_credentialId i = m_credentialId p \<and> n \<le> v_now i
        \<and> v_now i < n + mint_ttl t \<and> v_isConsumed i (capabilityId c) = Inr False"
      unfolding v fields by auto
    assume "verifyCapability edVerify i = Inr d"
    then show "d = c" by (simp only: v)
  qed
qed

definition sample_mint :: mint_params where
  "sample_mint = \<lparr> m_operatorId = ''operator-1'', m_provider = ''venice'', m_credentialId = ''primary'',
     m_action = Rotate, m_deploymentId = ''phala-1'', m_now = 1000, m_ttlSeconds = None \<rparr>"

lemma sample_mint_ok: "mint_ok (replicate 12 7) (replicate 16 9) sample_mint"
  by (simp add: mint_ok_def sample_mint_def ID_PATTERN_def CREDENTIAL_ID_PATTERN_def id_pattern_def lower_alnum_def
      is_byte_def list_all_iff)

definition sample_sign :: "string \<Rightarrow> nat list \<Rightarrow> nat list" where
  "sample_sign key m = replicate 64 ((length key + sum_list m) mod 256)"

definition sample_verify :: "string \<Rightarrow> nat list \<Rightarrow> nat list \<Rightarrow> bool" where
  "sample_verify key m s \<longleftrightarrow> s = replicate 64 ((length key + sum_list m) mod 256)"

lemma sample_keys: "sample_verify ''public'' m (sample_sign ''secret'' m)
    \<and> length (sample_sign ''secret'' m) = 64 \<and> list_all is_byte (sample_sign ''secret'' m)"
  by (simp add: sample_verify_def sample_sign_def is_byte_def list_all_iff)

theorem minted_capability_window_witness:
  "\<exists>s. signCapability sample_sign (mintCapability (replicate 12 7) (replicate 16 9) sample_mint) ''secret'' ''key-1''
      = Inr s
    \<and> verifyCapability sample_verify
        \<lparr> v_signed = s, v_publicKeys = [''key-1'' \<mapsto> ''public''], v_deploymentId = ''phala-1'',
          v_action = Rotate, v_provider = ''venice'', v_credentialId = ''primary'', v_now = 1299,
          v_isConsumed = \<lambda>_. Inr False \<rparr>
        = Inr (mintCapability (replicate 12 7) (replicate 16 9) sample_mint)"
proof -
  have p: "m_now sample_mint = of_int 1000" "m_ttlSeconds sample_mint = map_option of_int None"
    "(0 :: int) \<le> 1000" "(1000 :: int) + 900 \<le> max_safe_integer" "0 < mint_ttl None"
    "[''key-1'' \<mapsto> ''public''] ''key-1'' = Some ''public''" "''public'' \<noteq> []"
    by (simp_all add: sample_mint_def max_safe_integer_def mint_ttl_def)
  obtain s where "signCapability sample_sign (mintCapability (replicate 12 7) (replicate 16 9) sample_mint)
      ''secret'' ''key-1'' = Inr s"
    and acc: "\<And>i d. v_signed i = s \<and> v_publicKeys i = [''key-1'' \<mapsto> ''public''] \<Longrightarrow>
      verifyCapability sample_verify i = Inr (mintCapability (replicate 12 7) (replicate 16 9) sample_mint)
      \<longleftrightarrow> v_deploymentId i = m_deploymentId sample_mint \<and> v_action i = m_action sample_mint
        \<and> v_provider i = m_provider sample_mint \<and> v_credentialId i = m_credentialId sample_mint
        \<and> 1000 \<le> v_now i \<and> v_now i < 1000 + mint_ttl None
        \<and> v_isConsumed i (capabilityId (mintCapability (replicate 12 7) (replicate 16 9) sample_mint)) = Inr False"
    using minted_capability_window [where n = 1000 and t = None and keys = "[''key-1'' \<mapsto> ''public'']" and keyId = "''key-1''"
        and edSign = sample_sign and edVerify = sample_verify, OF sample_mint_ok p sample_keys] by blast
  then show ?thesis
    by (intro exI [of _ s]) (simp add: acc, simp add: sample_mint_def mint_ttl_def)
qed

end
