(* ===== verification/ConsumedLog.thy ===== *)
theory ConsumedLog
  imports Capability "HOL-Library.Char_ord"
begin

section \<open>The log of used capabilities (credentials/consumedCapabilities.ts)\<close>

text \<open>
  The durable record of capability ids that were used. The file on the writable mount is \<open>log_file\<close>:
  absent, impossible to stat, not a regular file, not readable as JSON, or a JSON value; the state of
  the process is the flag \<open>observedPersistedState\<close> beside it. Writing is a temporary file and a rename;
  its outcome is an argument: it can fail before the rename, when the file keeps its contents, or at
  the change of mode after it. Milliseconds are integers once they have been checked to be safe.
\<close>

record consumed_entry =
  e_capabilityId :: string
  e_consumedAtMs :: int
  e_expiresAtMs :: int

datatype log_file = LogMissing | LogStatFails | LogNotRegular | LogUnreadable | LogJson jsval

datatype persist_outcome = Written | WriteFails | ModeFails

record log_state =
  log_observed :: bool
  log_disk :: log_file

definition CONSUMED_ID_PATTERN :: "string \<Rightarrow> bool" where
  "CONSUMED_ID_PATTERN = id_pattern ''_-'' 2 63"

definition RETENTION_GRACE_MS :: int where
  "RETENTION_GRACE_MS = 24 * 60 * 60 * 1000"

definition MAX_ENTRIES :: nat where
  "MAX_ENTRIES = 10000"

subsection \<open>The JSON of the log\<close>

definition object_field :: "(string \<times> jsval) list \<Rightarrow> string \<Rightarrow> jsval" where
  "object_field fs key = (case map_of fs key of Some v \<Rightarrow> v | None \<Rightarrow> JUndefined)"

fun join_commas :: "string list \<Rightarrow> string" where
  "join_commas [] = []"
| "join_commas [s] = s"
| "join_commas (s # ss) = s @ '','' @ join_commas ss"

definition entry_keys :: string where
  "entry_keys = ''capabilityId,consumedAtMs,expiresAtMs''"

text \<open>A non-negative safe integer.\<close>

definition safe_ms :: "jsval \<Rightarrow> int option" where
  "safe_ms v =
     (case v of
        JNumber n \<Rightarrow> (if js_is_safe_integer n \<and> js_le (Fin 0) n
                    then (case n of Fin q \<Rightarrow> Some \<lfloor>q\<rfloor> | _ \<Rightarrow> None) else None)
      | _ \<Rightarrow> None)"

definition parse_entry :: "string set \<Rightarrow> jsval \<Rightarrow> consumed_entry option" where
  "parse_entry seen raw =
     (case raw of
        JObject fs \<Rightarrow>
          if join_commas (sort (map fst fs)) \<noteq> entry_keys then None
          else (case object_field fs ''capabilityId'' of
                  JString cid \<Rightarrow>
                    if \<not> CONSUMED_ID_PATTERN cid \<or> cid \<in> seen then None
                    else (case (safe_ms (object_field fs ''consumedAtMs''), safe_ms (object_field fs ''expiresAtMs'')) of
                            (Some used, Some ex) \<Rightarrow>
                              Some \<lparr> e_capabilityId = cid, e_consumedAtMs = used, e_expiresAtMs = ex \<rparr>
                          | _ \<Rightarrow> None)
                | _ \<Rightarrow> None)
      | _ \<Rightarrow> None)"

fun parse_entries :: "string set \<Rightarrow> jsval list \<Rightarrow> consumed_entry list result" where
  "parse_entries seen [] = Inr []"
| "parse_entries seen (raw # raws) =
     (case parse_entry seen raw of
        None \<Rightarrow> Inl ConsumedLogError
      | Some e \<Rightarrow> and_then (parse_entries (insert (e_capabilityId e) seen) raws) (\<lambda>es. Inr (e # es)))"

definition parseState :: "jsval \<Rightarrow> consumed_entry list result" where
  "parseState v =
     (case v of
        JArray raws \<Rightarrow> if length raws > MAX_ENTRIES then Inl ConsumedLogError else parse_entries {} raws
      | _ \<Rightarrow> Inl ConsumedLogError)"

definition entry_json :: "consumed_entry \<Rightarrow> jsval" where
  "entry_json e = JObject
     [(''capabilityId'', JString (e_capabilityId e)),
      (''consumedAtMs'', JNumber (Fin (of_int (e_consumedAtMs e)))),
      (''expiresAtMs'', JNumber (Fin (of_int (e_expiresAtMs e))))]"

subsection \<open>Operations\<close>

definition load :: "log_state \<Rightarrow> log_state \<times> consumed_entry list result" where
  "load s =
     (case log_disk s of
        LogMissing \<Rightarrow> (s, if log_observed s then Inl ConsumedLogError else Inr [])
      | LogStatFails \<Rightarrow> (s, Inl ConsumedLogError)
      | LogNotRegular \<Rightarrow> (s, Inl ConsumedLogError)
      | LogUnreadable \<Rightarrow> (s\<lparr> log_observed := True \<rparr>, Inl ConsumedLogError)
      | LogJson v \<Rightarrow> (s\<lparr> log_observed := True \<rparr>, parseState v))"

definition persist :: "persist_outcome \<Rightarrow> consumed_entry list \<Rightarrow> log_state \<Rightarrow> log_state \<times> unit result" where
  "persist out es s =
     (let written = s\<lparr> log_observed := True, log_disk := LogJson (JArray (map entry_json es)) \<rparr> in
      case out of
        Written \<Rightarrow> (written, Inr ())
      | WriteFails \<Rightarrow> (s, Inl (Thrown ''fs''))
      | ModeFails \<Rightarrow> (written, Inl (Thrown ''fs'')))"

text \<open>The expiry in milliseconds, when the seconds and their product with 1000 are safe.\<close>

definition expiry_ms :: "jsnum \<Rightarrow> int option" where
  "expiry_ms n =
     (case n of
        Fin q \<Rightarrow> if js_is_safe_integer n \<and> 0 \<le> q \<and> js_is_safe_integer (Fin (q * 1000))
                 then Some \<lfloor>q * 1000\<rfloor> else None
      | _ \<Rightarrow> None)"

definition consume ::
    "persist_outcome \<Rightarrow> int \<Rightarrow> string \<Rightarrow> jsnum \<Rightarrow> log_state \<Rightarrow> log_state \<times> bool result" where
  "consume out now cid expiresAtSeconds s =
     (case load s of
        (s', Inl e) \<Rightarrow> (s', Inl e)
      | (s', Inr entries) \<Rightarrow>
          if \<exists>e \<in> set entries. e_capabilityId e = cid then (s', Inr False)
          else (case expiry_ms expiresAtSeconds of
                  None \<Rightarrow> (s', Inl ConsumedLogError)
                | Some ex \<Rightarrow>
                    if \<not> CONSUMED_ID_PATTERN cid \<or> now < 0 \<or> now > max_safe_integer then (s', Inl ConsumedLogError)
                    else
                      let retained = filter (\<lambda>e. e_expiresAtMs e + RETENTION_GRACE_MS > now) entries in
                      if length retained \<ge> MAX_ENTRIES then (s', Inl ConsumedLogError)
                      else (case persist out
                              (retained @ [\<lparr> e_capabilityId = cid, e_consumedAtMs = now, e_expiresAtMs = ex \<rparr>]) s' of
                              (s'', Inl e) \<Rightarrow> (s'', Inl e)
                            | (s'', Inr _) \<Rightarrow> (s'', Inr True))))"

definition wasConsumed :: "string \<Rightarrow> log_state \<Rightarrow> log_state \<times> bool result" where
  "wasConsumed cid s =
     (case load s of
        (s', Inl e) \<Rightarrow> (s', Inl e)
      | (s', Inr entries) \<Rightarrow> (s', Inr (\<exists>e \<in> set entries. e_capabilityId e = cid)))"

text \<open>A new process over the same mount.\<close>

definition restart_log :: "log_state \<Rightarrow> log_state" where
  "restart_log s = s\<lparr> log_observed := False \<rparr>"

subsection \<open>What is written is read back\<close>

definition entry_ok :: "consumed_entry \<Rightarrow> bool" where
  "entry_ok e \<longleftrightarrow> CONSUMED_ID_PATTERN (e_capabilityId e)
     \<and> 0 \<le> e_consumedAtMs e \<and> e_consumedAtMs e \<le> max_safe_integer
     \<and> 0 \<le> e_expiresAtMs e \<and> e_expiresAtMs e \<le> max_safe_integer"

definition log_ok :: "consumed_entry list \<Rightarrow> bool" where
  "log_ok es \<longleftrightarrow> list_all entry_ok es \<and> distinct (map e_capabilityId es) \<and> length es \<le> MAX_ENTRIES"

lemma safe_ms_int [simp]:
  "safe_ms (JNumber (Fin (of_int i))) = (if 0 \<le> i \<and> i \<le> max_safe_integer then Some i else None)"
  by (auto simp: safe_ms_def max_safe_integer_def)

lemma safe_ms_Some: "safe_ms v = Some i \<Longrightarrow> 0 \<le> i \<and> i \<le> max_safe_integer"
  by (auto simp: safe_ms_def split: jsval.splits jsnum.splits if_splits)

lemma sorted_entry_keys:
  "sort [''capabilityId'', ''consumedAtMs'', ''expiresAtMs''] = [''capabilityId'', ''consumedAtMs'', ''expiresAtMs'']"
  by (simp add: less_eq_char_def)

lemma parse_entry_json:
  assumes "entry_ok e" and "e_capabilityId e \<notin> seen"
  shows "parse_entry seen (entry_json e) = Some e"
proof -
  have "join_commas [''capabilityId'', ''consumedAtMs'', ''expiresAtMs''] = entry_keys"
    by (simp add: entry_keys_def)
  then show ?thesis
    using assms sorted_entry_keys by (simp add: parse_entry_def entry_json_def object_field_def entry_ok_def)
qed

lemma parse_entries_json:
  "list_all entry_ok es \<Longrightarrow> distinct (map e_capabilityId es) \<Longrightarrow> e_capabilityId ` set es \<inter> seen = {}
    \<Longrightarrow> parse_entries seen (map entry_json es) = Inr es"
  by (induction es arbitrary: seen) (auto simp: parse_entry_json)

lemma parseState_json: "log_ok es \<Longrightarrow> parseState (JArray (map entry_json es)) = Inr es"
  by (simp add: parseState_def log_ok_def parse_entries_json)

lemma parse_entry_ok: "parse_entry seen raw = Some e \<Longrightarrow> entry_ok e \<and> e_capabilityId e \<notin> seen"
  by (auto simp: parse_entry_def entry_ok_def split: jsval.splits if_splits option.splits dest: safe_ms_Some)

lemma parse_entries_ok:
  "parse_entries seen raws = Inr es
    \<Longrightarrow> list_all entry_ok es \<and> distinct (map e_capabilityId es) \<and> e_capabilityId ` set es \<inter> seen = {}
      \<and> length es = length raws"
proof (induction raws arbitrary: seen es)
  case (Cons raw raws)
  then obtain e es' where e: "parse_entry seen raw = Some e" "es = e # es'"
    and es': "parse_entries (insert (e_capabilityId e) seen) raws = Inr es'"
    by (auto simp: and_then_Inr_iff split: option.splits)
  then show ?case using parse_entry_ok [OF e(1)] Cons.IH [OF es'] by auto
qed simp

lemma parseState_ok: "parseState v = Inr es \<Longrightarrow> log_ok es"
  by (auto simp: parseState_def log_ok_def split: jsval.splits if_splits dest: parse_entries_ok)

lemma load_ok: "load s = (s', Inr es) \<Longrightarrow> log_ok es"
  by (auto simp: load_def log_ok_def split: log_file.splits if_splits dest: parseState_ok)

end
