(* ===== verification/KeyStore.thy ===== *)
theory KeyStore
  imports ConsumedLog
begin

section \<open>The keyset overlay of the credential worker (providers/veniceKeyStore.ts, veniceKeys.ts)\<close>

text \<open>
  The provider keys of a worker: the keys it booted with and an overlay file of added keys and removed
  ids. The four values of \<open>stat\<close> the store compares are one \<open>stamp\<close>, which the environment changes with
  every write. The in-memory state is the overlay, the stamp it was read at (absent after a missing file)
  and whether an overlay was ever observed. As for the log of used capabilities, the outcome of a write
  is an argument.
\<close>

record venice_key =
  vk_id :: string
  vk_label :: "string option"
  vk_key :: string

record keyset_overlay =
  ov_added :: "venice_key list"
  ov_removedIds :: "string list"

text \<open>What the overlay file holds: \<open>None\<close> when it cannot be read as JSON.\<close>

datatype overlay_file = OvMissing | OvStatFails | OvFile nat "jsval option"

record key_store =
  ks_bootKeys :: "venice_key list"
  ks_overlay :: keyset_overlay
  ks_loadedStat :: "nat option"
  ks_observed :: bool

definition emptyOverlay :: keyset_overlay where
  "emptyOverlay = \<lparr> ov_added = [], ov_removedIds = [] \<rparr>"

definition key_state_unavailable :: err where
  "key_state_unavailable = App 503 ''provider_key_state_unavailable''"

definition newVeniceKeysetStore :: "venice_key list \<Rightarrow> key_store" where
  "newVeniceKeysetStore boot =
     \<lparr> ks_bootKeys = boot, ks_overlay = emptyOverlay, ks_loadedStat = None, ks_observed = False \<rparr>"

subsection \<open>Parsing\<close>

text \<open>\<open>label.trim() || null\<close>\<close>

definition trimmed_label :: "string \<Rightarrow> string option" where
  "trimmed_label l = (let t = js_trim l in if t = [] then None else Some t)"

definition parse_added :: "string set \<Rightarrow> jsval \<Rightarrow> venice_key option" where
  "parse_added seen entry =
     (case entry of
        JObject fs \<Rightarrow>
          if \<not> fst ` set fs \<subseteq> {''id'', ''label'', ''key''} then None
          else (case (object_field fs ''id'', object_field fs ''key'') of
                  (JString i, JString k) \<Rightarrow>
                    if \<not> CREDENTIAL_ID_PATTERN i \<or> i \<in> seen \<or> js_trim k = [] then None
                    else (case object_field fs ''label'' of
                            JString l \<Rightarrow> Some \<lparr> vk_id = i, vk_label = trimmed_label l, vk_key = js_trim k \<rparr>
                          | JUndefined \<Rightarrow> Some \<lparr> vk_id = i, vk_label = None, vk_key = js_trim k \<rparr>
                          | JNull \<Rightarrow> Some \<lparr> vk_id = i, vk_label = None, vk_key = js_trim k \<rparr>
                          | _ \<Rightarrow> None)
                | _ \<Rightarrow> None)
      | _ \<Rightarrow> None)"

fun parse_added_list :: "string set \<Rightarrow> jsval list \<Rightarrow> venice_key list option" where
  "parse_added_list seen [] = Some []"
| "parse_added_list seen (e # es) =
     (case parse_added seen e of
        None \<Rightarrow> None
      | Some k \<Rightarrow> map_option (Cons k) (parse_added_list (insert (vk_id k) seen) es))"

fun parse_removed :: "string set \<Rightarrow> jsval list \<Rightarrow> string list option" where
  "parse_removed seen [] = Some []"
| "parse_removed seen (JString i # is) =
     (if \<not> CREDENTIAL_ID_PATTERN i \<or> i \<in> seen then None
      else map_option (Cons i) (parse_removed (insert i seen) is))"
| "parse_removed seen (_ # is) = None"

definition parseOverlay :: "jsval \<Rightarrow> keyset_overlay result" where
  "parseOverlay v =
     (case v of
        JObject fs \<Rightarrow>
          (if \<not> fst ` set fs \<subseteq> {''added'', ''removedIds''} then Inl key_state_unavailable
           else (case (object_field fs ''added'', object_field fs ''removedIds'') of
                   (JArray adds, JArray rems) \<Rightarrow>
                     (case parse_added_list {} adds of
                        None \<Rightarrow> Inl key_state_unavailable
                      | Some added \<Rightarrow>
                          (case parse_removed (vk_id ` set added) rems of
                             None \<Rightarrow> Inl key_state_unavailable
                           | Some removed \<Rightarrow> Inr \<lparr> ov_added = added, ov_removedIds = removed \<rparr>))
                 | _ \<Rightarrow> Inl key_state_unavailable))
      | _ \<Rightarrow> Inl key_state_unavailable)"

definition key_json :: "venice_key \<Rightarrow> jsval" where
  "key_json k = JObject
     [(''id'', JString (vk_id k)),
      (''label'', case vk_label k of None \<Rightarrow> JNull | Some l \<Rightarrow> JString l),
      (''key'', JString (vk_key k))]"

definition overlay_json :: "keyset_overlay \<Rightarrow> jsval" where
  "overlay_json ov = JObject
     [(''added'', JArray (map key_json (ov_added ov))), (''removedIds'', JArray (map JString (ov_removedIds ov)))]"

subsection \<open>Operations\<close>

definition refresh :: "overlay_file \<Rightarrow> key_store \<Rightarrow> key_store result" where
  "refresh disk s =
     (case disk of
        OvStatFails \<Rightarrow> Inl key_state_unavailable
      | OvMissing \<Rightarrow>
          if ks_observed s then Inl key_state_unavailable
          else Inr (s\<lparr> ks_overlay := emptyOverlay, ks_loadedStat := None \<rparr>)
      | OvFile stamp contents \<Rightarrow>
          if ks_loadedStat s = Some stamp then Inr (s\<lparr> ks_observed := True \<rparr>)
          else (case contents of
                  None \<Rightarrow> Inl key_state_unavailable
                | Some v \<Rightarrow> (case parseOverlay v of
                               Inl _ \<Rightarrow> Inl key_state_unavailable
                             | Inr ov \<Rightarrow> Inr (s\<lparr> ks_overlay := ov, ks_loadedStat := Some stamp,
                                               ks_observed := True \<rparr>))))"

text \<open>The one change a failed refresh makes: a file that was seen stays seen.\<close>

definition after_failed_refresh :: "overlay_file \<Rightarrow> key_store \<Rightarrow> key_store" where
  "after_failed_refresh disk s = (case disk of OvFile _ _ \<Rightarrow> s\<lparr> ks_observed := True \<rparr> | _ \<Rightarrow> s)"

definition effective :: "key_store \<Rightarrow> venice_key list" where
  "effective s =
     (let shadowed = set (ov_removedIds (ks_overlay s)) \<union> vk_id ` set (ov_added (ks_overlay s)) in
      filter (\<lambda>k. vk_id k \<notin> shadowed) (ks_bootKeys s) @ ov_added (ks_overlay s))"

definition effectiveKeys :: "overlay_file \<Rightarrow> key_store \<Rightarrow> venice_key list result" where
  "effectiveKeys disk s = and_then (refresh disk s) (\<lambda>s'. Inr (effective s'))"

definition keyById :: "overlay_file \<Rightarrow> key_store \<Rightarrow> string \<Rightarrow> string option result" where
  "keyById disk s i =
     and_then (effectiveKeys disk s) (\<lambda>ks. Inr (map_option vk_key (find (\<lambda>k. vk_id k = i) ks)))"

definition defaultKey :: "overlay_file \<Rightarrow> key_store \<Rightarrow> string option result" where
  "defaultKey disk s =
     and_then (effectiveKeys disk s) (\<lambda>ks. Inr (case ks of [] \<Rightarrow> None | k # _ \<Rightarrow> Some (vk_key k)))"

text \<open>A write gets a new stamp. After a failed change of mode the file is new but the memory is not.\<close>

definition persist_overlay ::
    "persist_outcome \<Rightarrow> nat \<Rightarrow> keyset_overlay \<Rightarrow> overlay_file \<times> key_store \<Rightarrow> (overlay_file \<times> key_store) \<times> unit result" where
  "persist_overlay out stamp ov ds =
     (let file = OvFile stamp (Some (overlay_json ov)) in
      case out of
        Written \<Rightarrow> ((file, (snd ds)\<lparr> ks_overlay := ov, ks_loadedStat := Some stamp, ks_observed := True \<rparr>), Inr ())
      | WriteFails \<Rightarrow> (ds, Inl (Thrown ''fs''))
      | ModeFails \<Rightarrow> ((file, snd ds), Inl (Thrown ''fs'')))"

definition added_overlay :: "venice_key \<Rightarrow> keyset_overlay \<Rightarrow> keyset_overlay" where
  "added_overlay entry ov =
     \<lparr> ov_added = filter (\<lambda>k. vk_id k \<noteq> vk_id entry) (ov_added ov) @ [entry],
       ov_removedIds = filter (\<lambda>i. i \<noteq> vk_id entry) (ov_removedIds ov) \<rparr>"

definition addKey ::
    "persist_outcome \<Rightarrow> nat \<Rightarrow> venice_key \<Rightarrow> overlay_file \<times> key_store \<Rightarrow> (overlay_file \<times> key_store) \<times> unit result" where
  "addKey out stamp entry ds =
     (case refresh (fst ds) (snd ds) of
        Inl e \<Rightarrow> ((fst ds, after_failed_refresh (fst ds) (snd ds)), Inl e)
      | Inr s \<Rightarrow> persist_overlay out stamp (added_overlay entry (ks_overlay s)) (fst ds, s))"

definition isLastRemaining :: "overlay_file \<Rightarrow> key_store \<Rightarrow> string \<Rightarrow> bool result" where
  "isLastRemaining disk s i =
     and_then (effectiveKeys disk s) (\<lambda>ks. Inr (length ks = 1 \<and> vk_id (hd ks) = i))"

definition removed_overlay :: "venice_key list \<Rightarrow> string \<Rightarrow> keyset_overlay \<Rightarrow> keyset_overlay" where
  "removed_overlay boot i ov =
     \<lparr> ov_added = filter (\<lambda>k. vk_id k \<noteq> i) (ov_added ov),
       ov_removedIds =
         (if (\<exists>k \<in> set boot. vk_id k = i) \<and> i \<notin> set (ov_removedIds ov) then ov_removedIds ov @ [i]
          else ov_removedIds ov) \<rparr>"

definition removeKey ::
    "persist_outcome \<Rightarrow> nat \<Rightarrow> string \<Rightarrow> overlay_file \<times> key_store \<Rightarrow> (overlay_file \<times> key_store) \<times> bool result" where
  "removeKey out stamp i ds =
     (case refresh (fst ds) (snd ds) of
        Inl e \<Rightarrow> ((fst ds, after_failed_refresh (fst ds) (snd ds)), Inl e)
      | Inr s \<Rightarrow>
          if \<not> (\<exists>k \<in> set (effective s). vk_id k = i) then ((fst ds, s), Inr False)
          else (case persist_overlay out stamp (removed_overlay (ks_bootKeys s) i (ks_overlay s)) (fst ds, s) of
                  (ds', Inl e) \<Rightarrow> (ds', Inl e)
                | (ds', Inr _) \<Rightarrow> (ds', Inr True)))"

subsection \<open>Boot keysets\<close>

definition parse_keyset_entry :: "string set \<Rightarrow> jsval \<Rightarrow> venice_key option" where
  "parse_keyset_entry seen entry =
     (case entry of
        JObject fs \<Rightarrow>
          (case (object_field fs ''id'', object_field fs ''key'') of
             (JString i, JString k) \<Rightarrow>
               if \<not> CREDENTIAL_ID_PATTERN i \<or> i \<in> seen \<or> js_trim k = [] then None
               else (case object_field fs ''label'' of
                       JString l \<Rightarrow> Some \<lparr> vk_id = i, vk_label = trimmed_label l, vk_key = js_trim k \<rparr>
                     | JUndefined \<Rightarrow> Some \<lparr> vk_id = i, vk_label = None, vk_key = js_trim k \<rparr>
                     | _ \<Rightarrow> None)
           | _ \<Rightarrow> None)
      | _ \<Rightarrow> None)"

fun parse_keyset_list :: "string set \<Rightarrow> jsval list \<Rightarrow> venice_key list option" where
  "parse_keyset_list seen [] = Some []"
| "parse_keyset_list seen (e # es) =
     (case parse_keyset_entry seen e of
        None \<Rightarrow> None
      | Some k \<Rightarrow> map_option (Cons k) (parse_keyset_list (insert (vk_id k) seen) es))"

text \<open>The argument is the parsed JSON, absent when the text is none.\<close>

definition parseVeniceKeyset :: "jsval option \<Rightarrow> venice_key list result" where
  "parseVeniceKeyset v =
     (case v of
        Some (JArray (e # es)) \<Rightarrow>
          (case parse_keyset_list {} (e # es) of
             None \<Rightarrow> Inl (Thrown ''keyset'') | Some ks \<Rightarrow> Inr ks)
      | _ \<Rightarrow> Inl (Thrown ''keyset''))"

definition veniceKeyManifest :: "(string \<Rightarrow> string) \<Rightarrow> venice_key list \<Rightarrow> (string \<times> string option \<times> string) list" where
  "veniceKeyManifest sha256_hex ks = map (\<lambda>k. (vk_id k, vk_label k, take 12 (sha256_hex (vk_key k)))) ks"

end
