(* ===== verification/KeyStoreSpec.thy ===== *)
theory KeyStoreSpec
  imports KeyStore CapabilitySpec
begin

section \<open>The keyset overlay as a map\<close>

text \<open>
  A stored overlay parses back to itself, in the process that wrote it and in the next one; on the keys
  a reader sees, adding is a map update and removing a deletion.
\<close>

subsection \<open>Trimming\<close>

lemma js_trim_eq: "js_trim s = rev (dropWhile is_js_space (rev (dropWhile is_js_space s)))"
  by (simp add: js_trim_def)

lemma dropWhile_hd: "dropWhile P xs \<noteq> [] \<Longrightarrow> \<not> P (hd (dropWhile P xs))"
  by (rule hd_dropWhile)

lemma last_rev_dropWhile: "rev (dropWhile P (rev xs)) \<noteq> [] \<Longrightarrow> \<not> P (last (rev (dropWhile P (rev xs))))"
  by (simp add: last_rev hd_dropWhile)

lemma hd_rev_dropWhile: "rev (dropWhile P (rev xs)) \<noteq> [] \<Longrightarrow> hd (rev (dropWhile P (rev xs))) = hd xs"
proof -
  assume ne: "rev (dropWhile P (rev xs)) \<noteq> []"
  have "xs = rev (dropWhile P (rev xs)) @ rev (takeWhile P (rev xs))"
    by (metis rev_append rev_rev_ident takeWhile_dropWhile_id)
  with ne show ?thesis by (metis hd_append)
qed

lemma js_trim_idem [simp]: "js_trim (js_trim s) = js_trim s"
proof (rule js_trim_id)
  let ?d = "dropWhile is_js_space s"
  have "\<not> is_js_space (hd (js_trim s)) \<and> \<not> is_js_space (last (js_trim s))" if "js_trim s \<noteq> []"
  proof -
    have ne: "rev (dropWhile is_js_space (rev ?d)) \<noteq> []" using that unfolding js_trim_def .
    have "?d \<noteq> []"
    proof
      assume "?d = []"
      with ne show False by simp
    qed
    then show ?thesis
      using hd_rev_dropWhile [OF ne] last_rev_dropWhile [OF ne] dropWhile_hd [of is_js_space s]
      unfolding js_trim_def by simp
  qed
  then show "js_trim s = [] \<or> \<not> is_js_space (hd (js_trim s)) \<and> \<not> is_js_space (last (js_trim s))" by blast
qed

subsection \<open>Well-formed overlays are read back\<close>

definition key_ok :: "venice_key \<Rightarrow> bool" where
  "key_ok k \<longleftrightarrow> CREDENTIAL_ID_PATTERN (vk_id k) \<and> vk_key k \<noteq> [] \<and> js_trim (vk_key k) = vk_key k
     \<and> (case vk_label k of None \<Rightarrow> True | Some l \<Rightarrow> l \<noteq> [] \<and> js_trim l = l)"

definition overlay_ok :: "keyset_overlay \<Rightarrow> bool" where
  "overlay_ok ov \<longleftrightarrow> list_all key_ok (ov_added ov) \<and> distinct (map vk_id (ov_added ov))
     \<and> list_all CREDENTIAL_ID_PATTERN (ov_removedIds ov) \<and> distinct (ov_removedIds ov)
     \<and> vk_id ` set (ov_added ov) \<inter> set (ov_removedIds ov) = {}"

lemma parse_key_json: "key_ok k \<Longrightarrow> vk_id k \<notin> seen \<Longrightarrow> parse_added seen (key_json k) = Some k"
  by (cases k) (auto simp: parse_added_def key_json_def object_field_def key_ok_def trimmed_label_def Let_def
      split: option.splits)

lemma parse_added_json:
  "list_all key_ok ks \<Longrightarrow> distinct (map vk_id ks) \<Longrightarrow> vk_id ` set ks \<inter> seen = {}
    \<Longrightarrow> parse_added_list seen (map key_json ks) = Some ks"
  by (induction ks arbitrary: seen) (auto simp: parse_key_json)

lemma parse_removed_json:
  "list_all CREDENTIAL_ID_PATTERN is \<Longrightarrow> distinct is \<Longrightarrow> set is \<inter> seen = {}
    \<Longrightarrow> parse_removed seen (map JString is) = Some is"
  by (induction "is" arbitrary: seen) auto

lemma parse_overlay_json: "overlay_ok ov \<Longrightarrow> parseOverlay (overlay_json ov) = Inr ov"
  using parse_added_json [of "ov_added ov" "{}"]
    parse_removed_json [of "ov_removedIds ov" "vk_id ` set (ov_added ov)"]
  by (cases ov) (simp add: parseOverlay_def overlay_json_def object_field_def overlay_ok_def Int_commute)

lemma parse_added_ok: "parse_added seen v = Some k \<Longrightarrow> key_ok k \<and> vk_id k \<notin> seen"
  by (auto simp: parse_added_def key_ok_def trimmed_label_def Let_def split: jsval.splits if_splits)

lemma parse_added_list_ok:
  "parse_added_list seen vs = Some ks
    \<Longrightarrow> list_all key_ok ks \<and> distinct (map vk_id ks) \<and> vk_id ` set ks \<inter> seen = {}"
proof (induction vs arbitrary: seen ks)
  case (Cons v vs)
  then obtain k ks' where k: "parse_added seen v = Some k" "ks = k # ks'"
    and ks': "parse_added_list (insert (vk_id k) seen) vs = Some ks'"
    by (auto split: option.splits)
  then show ?case using parse_added_ok [OF k(1)] Cons.IH [OF ks'] by auto
qed simp

lemma parse_removed_ok:
  "parse_removed seen vs = Some is
    \<Longrightarrow> list_all CREDENTIAL_ID_PATTERN is \<and> distinct is \<and> set is \<inter> seen = {}"
  by (induction seen vs arbitrary: "is" rule: parse_removed.induct) (fastforce split: if_splits)+

lemma parse_overlay_ok: "parseOverlay v = Inr ov \<Longrightarrow> overlay_ok ov"
  by (auto simp: parseOverlay_def overlay_ok_def split: jsval.splits if_splits option.splits
      dest!: parse_added_list_ok parse_removed_ok)

lemma refresh_ok:
  "refresh disk s = Inr s' \<Longrightarrow> overlay_ok (ks_overlay s) \<Longrightarrow> overlay_ok (ks_overlay s') \<and> ks_bootKeys s' = ks_bootKeys s"
  by (auto simp: refresh_def emptyOverlay_def overlay_ok_def [of "\<lparr> ov_added = [], ov_removedIds = [] \<rparr>"]
      split: overlay_file.splits if_splits option.splits sum.splits dest: parse_overlay_ok)

subsection \<open>Adding and removing on the map of keys\<close>

text \<open>What a reader of a key list sees.\<close>

definition key_map :: "venice_key list \<Rightarrow> string \<rightharpoonup> string" where
  "key_map ks i = map_option vk_key (find (\<lambda>k. vk_id k = i) ks)"

definition ids_of :: "venice_key list \<Rightarrow> string set" where
  "ids_of ks = vk_id ` set ks"

lemma key_map_append: "key_map (xs @ ys) i = (case key_map xs i of None \<Rightarrow> key_map ys i | Some k \<Rightarrow> Some k)"
  by (induction xs) (simp_all add: key_map_def)

lemma key_map_None_iff: "key_map ks i = None \<longleftrightarrow> i \<notin> ids_of ks"
  by (auto simp: key_map_def ids_of_def find_None_iff)

lemma key_map_filter: "key_map (filter (\<lambda>k. P (vk_id k)) ks) i = (if P i then key_map ks i else None)"
  by (induction ks) (auto simp: key_map_def)

lemma key_map_effective:
  "key_map (effective s) i =
     (if i \<in> ids_of (ov_added (ks_overlay s)) then key_map (ov_added (ks_overlay s)) i
      else if i \<in> set (ov_removedIds (ks_overlay s)) then None
      else key_map (ks_bootKeys s) i)"
proof -
  let ?shadowed = "set (ov_removedIds (ks_overlay s)) \<union> vk_id ` set (ov_added (ks_overlay s))"
  have "key_map (effective s) i = (case (if i \<notin> ?shadowed then key_map (ks_bootKeys s) i else None) of
      None \<Rightarrow> key_map (ov_added (ks_overlay s)) i | Some k \<Rightarrow> Some k)"
    unfolding effective_def Let_def key_map_append key_map_filter [of "\<lambda>i. i \<notin> ?shadowed"] ..
  then show ?thesis
    by (auto simp: ids_of_def [symmetric] key_map_None_iff [symmetric] split: option.split)
qed

lemma effective_added:
  assumes "ks_overlay s' = added_overlay e (ks_overlay s)" and "ks_bootKeys s' = ks_bootKeys s"
  shows "key_map (effective s') = (key_map (effective s))(vk_id e \<mapsto> vk_key e)"
proof
  fix j
  have "key_map (filter (\<lambda>k. vk_id k \<noteq> vk_id e) ks @ [e]) j = (if j = vk_id e then Some (vk_key e) else key_map ks j)" for ks
  proof -
    have "key_map [e] j = (if j = vk_id e then Some (vk_key e) else None)" by (auto simp: key_map_def)
    then show ?thesis
      using key_map_filter [of "\<lambda>i. i \<noteq> vk_id e" ks j]
      by (auto simp: key_map_append split: option.split)
  qed
  moreover have "ids_of (filter (\<lambda>k. vk_id k \<noteq> vk_id e) ks @ [e]) = insert (vk_id e) (ids_of ks)" for ks
    by (auto simp: ids_of_def)
  ultimately show "key_map (effective s') j = ((key_map (effective s))(vk_id e \<mapsto> vk_key e)) j"
    unfolding key_map_effective by (auto simp: assms added_overlay_def)
qed

lemma effective_removed:
  assumes "ks_overlay s' = removed_overlay (ks_bootKeys s) i (ks_overlay s)" and "ks_bootKeys s' = ks_bootKeys s"
  shows "key_map (effective s') = (key_map (effective s))(i := None)"
proof
  fix j
  have "\<forall>k \<in> set (ks_bootKeys s). vk_id k \<noteq> i \<Longrightarrow> key_map (ks_bootKeys s) i = None"
    by (auto simp: key_map_None_iff ids_of_def)
  moreover have "ids_of (filter (\<lambda>k. vk_id k \<noteq> i) ks) = ids_of ks - {i}" for ks by (auto simp: ids_of_def)
  ultimately show "key_map (effective s') j = ((key_map (effective s))(i := None)) j"
    unfolding key_map_effective using key_map_filter [of "\<lambda>k. k \<noteq> i"]
    by (auto simp: assms removed_overlay_def ids_of_def)
qed

lemma added_overlay_ok: "overlay_ok ov \<Longrightarrow> key_ok e \<Longrightarrow> overlay_ok (added_overlay e ov)"
  by (auto simp: overlay_ok_def added_overlay_def list_all_iff key_ok_def distinct_map inj_on_def)

lemma removed_overlay_ok: "overlay_ok ov \<Longrightarrow> CREDENTIAL_ID_PATTERN i \<Longrightarrow> overlay_ok (removed_overlay boot i ov)"
  by (auto simp: overlay_ok_def removed_overlay_def list_all_iff distinct_map inj_on_def)

text \<open>After a write, this process and a fresh one over the same mount read the overlay that was written.\<close>

lemma persisted_reads:
  assumes "persist_overlay Written stamp ov (d, s) = ((d', s'), r)" and "overlay_ok ov"
  shows "refresh d' s' = Inr s'" and "ks_overlay s' = ov" and "ks_bootKeys s' = ks_bootKeys s" and "r = Inr ()"
    and "refresh d' (newVeniceKeysetStore (ks_bootKeys s)) = Inr s'"
  using assms
  by (auto simp: persist_overlay_def Let_def refresh_def newVeniceKeysetStore_def parse_overlay_json)

end
