(* ===== verification/CredentialAdmin.thy ===== *)
theory CredentialAdmin
  imports KeyStore
begin

section \<open>Credential administration in the workload (routes/internal/credentialAdmin.ts)\<close>

text \<open>
  The routes that install, rotate and revoke a provider key under a capability. A request carries its
  JSON body and what the platform contributes to it: the clock readings at the verification and at the
  consumption, the outcomes of the two writes and the answer of the provider to the probe. The state
  of the process is its log of used capabilities, the overlay file and the store, and the reports
  sent to control. Logging, the catalog sync and the time stamp of the answer are left out.
\<close>

record admin_config =
  ac_publicKeys :: "string \<rightharpoonup> string"
  ac_deploymentId :: string
  ac_provider :: string
  ac_probes :: bool

record admin_report =
  rp_capabilityId :: string
  rp_outcome :: string
  rp_outcomeCode :: string
  rp_fingerprint :: "string option"
  rp_label :: "string option"

record admin_state =
  ad_log :: log_state
  ad_disk :: overlay_file
  ad_store :: "key_store option"
  ad_reports :: "admin_report list"

datatype probe_answer = ProbeUnreachable | ProbeStatus nat

record admin_request =
  rq_body :: jsval
  rq_verifyMs :: int
  rq_consumeMs :: int
  rq_logOutcome :: persist_outcome
  rq_keyOutcome :: persist_outcome
  rq_probe :: probe_answer

record audit_view =
  av_capability_id :: string
  av_credential_id :: string
  av_label :: "string option"
  av_provider :: string
  av_action :: CapabilityAction
  av_status :: string
  av_fingerprint :: "string option"
  av_deployment_id :: string
  av_operator_id :: string

subsection \<open>Bodies\<close>

definition MAX_SECRET_LENGTH :: nat where
  "MAX_SECRET_LENGTH = 4096"

definition bounded_string :: "nat \<Rightarrow> nat \<Rightarrow> jsval \<Rightarrow> string option" where
  "bounded_string lo hi v =
     (case v of JString s \<Rightarrow> if lo \<le> length s \<and> length s \<le> hi then Some s else None | _ \<Rightarrow> None)"

definition strict_object :: "string list \<Rightarrow> jsval \<Rightarrow> (string \<times> jsval) list option" where
  "strict_object names v = (case v of JObject fs \<Rightarrow> if fst ` set fs \<subseteq> set names then Some fs else None | _ \<Rightarrow> None)"

definition signedCapabilitySchema :: "jsval \<Rightarrow> signed_capability option" where
  "signedCapabilitySchema v =
     Option.bind (strict_object [''capability'', ''signature'', ''keyId''] v) (\<lambda>fs.
     Option.bind (bounded_string 1 8192 (object_field fs ''capability'')) (\<lambda>c.
     Option.bind (bounded_string 1 256 (object_field fs ''signature'')) (\<lambda>g.
     Option.bind (bounded_string 3 64 (object_field fs ''keyId'')) (\<lambda>k.
       Some \<lparr> s_capability = c, s_signature = g, s_keyId = k \<rparr>))))"

definition installSchema :: "jsval \<Rightarrow> (signed_capability \<times> string) option" where
  "installSchema v =
     Option.bind (strict_object [''capability'', ''secret''] v) (\<lambda>fs.
     Option.bind (signedCapabilitySchema (object_field fs ''capability'')) (\<lambda>c.
     Option.bind (bounded_string 1 MAX_SECRET_LENGTH (object_field fs ''secret'')) (\<lambda>s. Some (c, s))))"

definition revokeSchema :: "jsval \<Rightarrow> signed_capability option" where
  "revokeSchema v =
     Option.bind (strict_object [''capability''] v) (\<lambda>fs. signedCapabilitySchema (object_field fs ''capability''))"

definition parseBody :: "(jsval \<Rightarrow> 'a option) \<Rightarrow> jsval \<Rightarrow> 'a result" where
  "parseBody schema v = (case schema v of None \<Rightarrow> Inl (App 400 ''invalid_request'') | Some x \<Rightarrow> Inr x)"

definition readLabel :: "jsval \<Rightarrow> string option" where
  "readLabel body =
     (case body of
        JObject fs \<Rightarrow>
          (case object_field fs ''label'' of
             JString l \<Rightarrow> if js_trim l = [] then None else Some (take 120 (js_trim l))
           | _ \<Rightarrow> None)
      | _ \<Rightarrow> None)"

text \<open>The full fingerprint of Venice is itself 12 digits; every other provider's is cut to 16.\<close>

definition fingerprintFor :: "(string \<Rightarrow> string) \<Rightarrow> string \<Rightarrow> string \<Rightarrow> string" where
  "fingerprintFor sha256_hex prov secret =
     take 16 (if prov = ''venice'' then take 12 (sha256_hex secret) else sha256_hex secret)"

subsection \<open>Authorization\<close>

definition codeFor :: "string \<Rightarrow> string" where
  "codeFor message =
     (if contains_text message ''unknown capability signing key id'' then ''capability_unknown_signer''
      else if contains_text message ''signature'' then ''capability_signature_invalid''
      else if contains_text message ''different deployment'' then ''capability_wrong_deployment''
      else if contains_text message ''different provider'' then ''capability_wrong_provider''
      else if contains_text message ''different credential id'' then ''capability_wrong_credential''
      else if contains_text message ''does not authorize this action'' then ''capability_action_not_permitted''
      else if contains_text message ''not yet valid'' then ''capability_not_yet_valid''
      else if contains_text message ''has expired'' then ''capability_expired''
      else if contains_text message ''already been used'' then ''capability_already_used''
      else if contains_text message ''lifetime exceeds'' then ''capability_ttl_too_long''
      else ''capability_malformed'')"

definition claimedBy :: "signed_capability \<Rightarrow> credential_capability result" where
  "claimedBy env =
     (case decodeCapability (fromBase64url (s_capability env)) of
        Inl _ \<Rightarrow> Inl (App 403 ''capability_malformed'')
      | Inr c \<Rightarrow> Inr c)"

text \<open>The log is read by the last check of the verifier only.\<close>

definition reached_log :: "credential_capability result \<Rightarrow> bool" where
  "reached_log v =
     (case v of
        Inr _ \<Rightarrow> True
      | Inl e \<Rightarrow> e = ConsumedLogError \<or> e = CapabilityError ''capability has already been used'')"

definition log_unavailable :: err where
  "log_unavailable = App 503 ''capability_replay_log_unavailable''"

definition verification_of ::
    "admin_config \<Rightarrow> admin_request \<Rightarrow> signed_capability \<Rightarrow> credential_capability \<Rightarrow> log_state \<Rightarrow> verification_input" where
  "verification_of cfg rq env claimed lg =
     \<lparr> v_signed = env, v_publicKeys = ac_publicKeys cfg, v_deploymentId = ac_deploymentId cfg,
       v_action = action claimed, v_provider = ac_provider cfg, v_credentialId = credentialId claimed,
       v_now = rq_verifyMs rq div 1000, v_isConsumed = \<lambda>i. snd (wasConsumed i lg) \<rparr>"

definition authorize ::
    "(string \<Rightarrow> nat list \<Rightarrow> nat list \<Rightarrow> bool) \<Rightarrow> admin_config \<Rightarrow> admin_request \<Rightarrow> signed_capability
      \<Rightarrow> CapabilityAction list \<Rightarrow> log_state \<Rightarrow> log_state \<times> credential_capability result" where
  "authorize edVerify cfg rq env allowed lg =
     (case claimedBy env of
        Inl e \<Rightarrow> (lg, Inl e)
      | Inr claimed \<Rightarrow>
          if action claimed \<notin> set allowed then (lg, Inl (App 403 ''capability_action_not_permitted''))
          else
            let v = verifyCapability edVerify (verification_of cfg rq env claimed lg);
                log1 = (if reached_log v then fst (load lg) else lg) in
            (case v of
               Inl ConsumedLogError \<Rightarrow> (log1, Inl log_unavailable)
             | Inl (CapabilityError m) \<Rightarrow>
                 (log1, Inl (App (if codeFor m = ''capability_already_used'' then 409 else 403) (codeFor m)))
             | Inl e \<Rightarrow> (log1, Inl e)
             | Inr c \<Rightarrow>
                 (case consume (rq_logOutcome rq) (rq_consumeMs rq) (capabilityId c) (expiresAt c) log1 of
                    (log2, Inl _) \<Rightarrow> (log2, Inl log_unavailable)
                  | (log2, Inr False) \<Rightarrow> (log2, Inl (App 409 ''capability_already_used''))
                  | (log2, Inr True) \<Rightarrow> (log2, Inr c))))"

subsection \<open>Reports\<close>

definition OUTCOME_CAPABILITY_ID :: "string \<Rightarrow> bool" where
  "OUTCOME_CAPABILITY_ID s \<longleftrightarrow> take 4 s = ''cap-'' \<and> length s = 28 \<and> list_all lower_hex (drop 4 s)"

definition OUTCOME_CODE :: "string \<Rightarrow> bool" where
  "OUTCOME_CODE s \<longleftrightarrow> 1 \<le> length s \<and> length s \<le> 48 \<and> list_all (\<lambda>c. lower_alnum c \<or> c = CHR ''_'') s"

definition OUTCOME_FINGERPRINT :: "string \<Rightarrow> bool" where
  "OUTCOME_FINGERPRINT s \<longleftrightarrow> 8 \<le> length s \<and> length s \<le> 32 \<and> list_all lower_hex s"

definition credentialOutcomeSchema :: "admin_report \<Rightarrow> bool" where
  "credentialOutcomeSchema r \<longleftrightarrow>
     OUTCOME_CAPABILITY_ID (rp_capabilityId r)
     \<and> rp_outcome r \<in> {''applied'', ''rejected'', ''failed''}
     \<and> OUTCOME_CODE (rp_outcomeCode r)
     \<and> (case rp_fingerprint r of None \<Rightarrow> True | Some f \<Rightarrow> OUTCOME_FINGERPRINT f)
     \<and> (case rp_label r of None \<Rightarrow> True | Some l \<Rightarrow> js_trim l \<noteq> [] \<and> length (js_trim l) \<le> 120)"

text \<open>A report that does not pass the schema of the boundary is dropped. Delivery is best effort.\<close>

definition reportOutcome :: "admin_report \<Rightarrow> admin_state \<Rightarrow> admin_state" where
  "reportOutcome r st =
     (if credentialOutcomeSchema r then st\<lparr> ad_reports := ad_reports st @ [r] \<rparr> else st)"

definition plain_report :: "credential_capability \<Rightarrow> string \<Rightarrow> string \<Rightarrow> admin_report" where
  "plain_report c outcome code =
     \<lparr> rp_capabilityId = capabilityId c, rp_outcome = outcome, rp_outcomeCode = code,
       rp_fingerprint = None, rp_label = None \<rparr>"

definition refused ::
    "credential_capability \<Rightarrow> string \<Rightarrow> string \<Rightarrow> err \<Rightarrow> admin_state \<Rightarrow> admin_state \<times> audit_view result" where
  "refused c outcome code e st = (reportOutcome (plain_report c outcome code) st, Inl e)"

definition auditView ::
    "admin_config \<Rightarrow> credential_capability \<Rightarrow> string option \<Rightarrow> string \<Rightarrow> string option \<Rightarrow> audit_view" where
  "auditView cfg c fingerprint status label =
     \<lparr> av_capability_id = capabilityId c, av_credential_id = credentialId c, av_label = label,
       av_provider = provider c, av_action = action c, av_status = status, av_fingerprint = fingerprint,
       av_deployment_id = ac_deploymentId cfg, av_operator_id = operatorId c \<rparr>"

subsection \<open>The store of a provider\<close>

definition providerCredentialStore :: "admin_state \<Rightarrow> string \<Rightarrow> key_store option" where
  "providerCredentialStore st prov = (if prov \<noteq> ''venice'' then None else ad_store st)"

text \<open>The stamp a write gets differs from that of the file it replaces.\<close>

definition next_stamp :: "overlay_file \<Rightarrow> nat" where
  "next_stamp d = (case d of OvFile n _ \<Rightarrow> Suc n | _ \<Rightarrow> 0)"

definition with_store :: "overlay_file \<times> key_store \<Rightarrow> admin_state \<Rightarrow> admin_state" where
  "with_store ds st = st\<lparr> ad_disk := fst ds, ad_store := Some (snd ds) \<rparr>"

text \<open>The probe refuses only on an explicit rejection.\<close>

definition probe_refusal :: "admin_config \<Rightarrow> probe_answer \<Rightarrow> (string \<times> string \<times> err) option" where
  "probe_refusal cfg a =
     (if \<not> ac_probes cfg \<or> ac_provider cfg \<noteq> ''venice'' then None
      else case a of
        ProbeUnreachable \<Rightarrow> Some (''failed'', ''provider_unreachable'', App 503 ''credential_verification_unavailable'')
      | ProbeStatus n \<Rightarrow>
          if n = 401 \<or> n = 403
          then Some (''rejected'', ''provider_rejected_credential'', App 400 ''credential_rejected_by_provider'')
          else None)"

definition install_key ::
    "(string \<Rightarrow> string) \<Rightarrow> admin_config \<Rightarrow> admin_request \<Rightarrow> credential_capability \<Rightarrow> string \<Rightarrow> string option
      \<Rightarrow> key_store \<Rightarrow> admin_state \<Rightarrow> admin_state \<times> audit_view result" where
  "install_key sha256_hex cfg rq c secret label store st =
     (case addKey (rq_keyOutcome rq) (next_stamp (ad_disk st))
             \<lparr> vk_id = credentialId c, vk_label = label, vk_key = secret \<rparr> (ad_disk st, store) of
        (ds, Inl e) \<Rightarrow> (with_store ds st, Inl e)
      | (ds, Inr _) \<Rightarrow>
          let fp = fingerprintFor sha256_hex (ac_provider cfg) secret in
          (reportOutcome
             \<lparr> rp_capabilityId = capabilityId c, rp_outcome = ''applied'',
               rp_outcomeCode = (if action c = Rotate then ''rotated'' else ''registered''),
               rp_fingerprint = Some fp, rp_label = label \<rparr> (with_store ds st),
           Inr (auditView cfg c (Some fp) ''active'' label)))"

definition post_secret ::
    "(string \<Rightarrow> nat list \<Rightarrow> nat list \<Rightarrow> bool) \<Rightarrow> (string \<Rightarrow> string) \<Rightarrow> admin_config \<Rightarrow> admin_request
      \<Rightarrow> admin_state \<Rightarrow> admin_state \<times> audit_view result" where
  "post_secret edVerify sha256_hex cfg rq st =
     (case parseBody installSchema (rq_body rq) of
        Inl e \<Rightarrow> (st, Inl e)
      | Inr (env, secret) \<Rightarrow>
          let label = readLabel (rq_body rq) in
          (case authorize edVerify cfg rq env [Register, Rotate] (ad_log st) of
             (lg, Inl e) \<Rightarrow> (st\<lparr> ad_log := lg \<rparr>, Inl e)
           | (lg, Inr c) \<Rightarrow>
               let st1 = st\<lparr> ad_log := lg \<rparr> in
               (case providerCredentialStore st1 (ac_provider cfg) of
                  None \<Rightarrow> refused c ''failed'' ''credential_store_unavailable''
                            (App 503 ''credential_store_unavailable'') st1
                | Some store \<Rightarrow>
                    if \<not> CREDENTIAL_ID_PATTERN (credentialId c)
                    then refused c ''rejected'' ''credential_id_invalid'' (App 400 ''credential_id_invalid'') st1
                    else (case probe_refusal cfg (rq_probe rq) of
                            Some (outcome, code, e) \<Rightarrow> refused c outcome code e st1
                          | None \<Rightarrow> install_key sha256_hex cfg rq c secret label store st1))))"

definition revoke_key ::
    "admin_config \<Rightarrow> admin_request \<Rightarrow> credential_capability \<Rightarrow> key_store \<Rightarrow> admin_state \<Rightarrow> admin_state \<times> audit_view result" where
  "revoke_key cfg rq c store st =
     (case refresh (ad_disk st) store of
        Inl e \<Rightarrow> (with_store (ad_disk st, after_failed_refresh (ad_disk st) store) st, Inl e)
      | Inr s \<Rightarrow>
          let st1 = with_store (ad_disk st, s) st in
          if isLastRemaining (ad_disk st) s (credentialId c) = Inr True
          then refused c ''rejected'' ''last_remaining_credential'' (App 409 ''credential_last_remaining'') st1
          else (case removeKey (rq_keyOutcome rq) (next_stamp (ad_disk st)) (credentialId c) (ad_disk st, s) of
                  (ds, Inl e) \<Rightarrow> (with_store ds st1, Inl e)
                | (ds, Inr False) \<Rightarrow>
                    refused c ''rejected'' ''credential_not_found'' (App 404 ''credential_not_found'') (with_store ds st1)
                | (ds, Inr True) \<Rightarrow>
                    (reportOutcome (plain_report c ''applied'' ''revoked'') (with_store ds st1),
                     Inr (auditView cfg c None ''revoked'' None))))"

definition post_revoke ::
    "(string \<Rightarrow> nat list \<Rightarrow> nat list \<Rightarrow> bool) \<Rightarrow> admin_config \<Rightarrow> admin_request
      \<Rightarrow> admin_state \<Rightarrow> admin_state \<times> audit_view result" where
  "post_revoke edVerify cfg rq st =
     (case parseBody revokeSchema (rq_body rq) of
        Inl e \<Rightarrow> (st, Inl e)
      | Inr env \<Rightarrow>
          (case authorize edVerify cfg rq env [Revoke] (ad_log st) of
             (lg, Inl e) \<Rightarrow> (st\<lparr> ad_log := lg \<rparr>, Inl e)
           | (lg, Inr c) \<Rightarrow>
               let st1 = st\<lparr> ad_log := lg \<rparr> in
               (case providerCredentialStore st1 (ac_provider cfg) of
                  None \<Rightarrow> refused c ''failed'' ''credential_store_unavailable''
                            (App 503 ''credential_store_unavailable'') st1
                | Some store \<Rightarrow> revoke_key cfg rq c store st1)))"

subsection \<open>Runs\<close>

datatype admin_op = PostSecret admin_request | PostRevoke admin_request | Restart

definition restart_process :: "admin_state \<Rightarrow> admin_state" where
  "restart_process st =
     st\<lparr> ad_log := restart_log (ad_log st),
         ad_store := map_option (\<lambda>s. newVeniceKeysetStore (ks_bootKeys s)) (ad_store st) \<rparr>"

fun admin_step ::
    "(string \<Rightarrow> nat list \<Rightarrow> nat list \<Rightarrow> bool) \<Rightarrow> (string \<Rightarrow> string) \<Rightarrow> admin_config \<Rightarrow> admin_op \<Rightarrow> admin_state \<Rightarrow> admin_state" where
  "admin_step edVerify sha cfg (PostSecret rq) st = fst (post_secret edVerify sha cfg rq st)"
| "admin_step edVerify sha cfg (PostRevoke rq) st = fst (post_revoke edVerify cfg rq st)"
| "admin_step edVerify sha cfg Restart st = restart_process st"

text \<open>The capability an operation was authorized by, whatever became of the operation.\<close>

fun authorized_by ::
    "(string \<Rightarrow> nat list \<Rightarrow> nat list \<Rightarrow> bool) \<Rightarrow> admin_config \<Rightarrow> admin_op \<Rightarrow> admin_state \<Rightarrow> credential_capability list" where
  "authorized_by edVerify cfg (PostSecret rq) st =
     (case installSchema (rq_body rq) of
        None \<Rightarrow> []
      | Some (env, _) \<Rightarrow>
          (case snd (authorize edVerify cfg rq env [Register, Rotate] (ad_log st)) of Inl _ \<Rightarrow> [] | Inr c \<Rightarrow> [c]))"
| "authorized_by edVerify cfg (PostRevoke rq) st =
     (case revokeSchema (rq_body rq) of
        None \<Rightarrow> []
      | Some env \<Rightarrow>
          (case snd (authorize edVerify cfg rq env [Revoke] (ad_log st)) of Inl _ \<Rightarrow> [] | Inr c \<Rightarrow> [c]))"
| "authorized_by edVerify cfg Restart st = []"

fun authorized_in ::
    "(string \<Rightarrow> nat list \<Rightarrow> nat list \<Rightarrow> bool) \<Rightarrow> (string \<Rightarrow> string) \<Rightarrow> admin_config \<Rightarrow> admin_op list \<Rightarrow> admin_state
      \<Rightarrow> credential_capability list" where
  "authorized_in edVerify sha cfg [] st = []"
| "authorized_in edVerify sha cfg (op # ops) st =
     authorized_by edVerify cfg op st @ authorized_in edVerify sha cfg ops (admin_step edVerify sha cfg op st)"

end
