(* ===== verification/CredentialAdminSpec.thy ===== *)
theory CredentialAdminSpec
  imports CredentialAdmin KeyStoreSpec
begin

section \<open>What credential administration guarantees\<close>

text \<open>
  Three invariants over runs of the endpoint with restarts and failing writes: every used capability is
  either still in the log or expired for a day (\<open>spent_ok\<close>), so none is used twice; the keyset the file
  holds is readable and has a key (\<open>keyset_inv\<close>); and a request that was not authorized leaves the keys
  alone. At the end the two ways in which the endpoint differs from its description.
\<close>

subsection \<open>The log under consumption\<close>

lemma load_disk: "log_disk (fst (load s)) = log_disk s"
  by (simp add: load_def split: log_file.split)

lemma load_json: "log_disk s = LogJson v \<Longrightarrow> snd (load s) = parseState v"
  by (simp add: load_def)

lemma load_again: "snd (load s) = Inr es \<Longrightarrow> snd (load (fst (load s))) = Inr es"
  by (auto simp: load_def split: log_file.splits if_splits)

lemma wasConsumed_False:
  "snd (wasConsumed i s) = Inr False \<longleftrightarrow> (\<exists>es. snd (load s) = Inr es \<and> (\<forall>e \<in> set es. e_capabilityId e \<noteq> i))"
  by (auto simp: wasConsumed_def split: prod.splits sum.splits)

definition retained :: "int \<Rightarrow> consumed_entry list \<Rightarrow> consumed_entry list" where
  "retained now es = filter (\<lambda>e. e_expiresAtMs e + RETENTION_GRACE_MS > now) es"

definition appended :: "int \<Rightarrow> string \<Rightarrow> int \<Rightarrow> consumed_entry list \<Rightarrow> consumed_entry list" where
  "appended now cid ex es =
     retained now es @ [\<lparr> e_capabilityId = cid, e_consumedAtMs = now, e_expiresAtMs = ex \<rparr>]"

lemma expiry_ms_bounds: "expiry_ms n = Some ex \<Longrightarrow> 0 \<le> ex \<and> ex \<le> max_safe_integer"
  by (auto simp: expiry_ms_def split: jsnum.splits if_splits)

text \<open>Consuming leaves the file alone or replaces it by the retained entries and the new one.\<close>

lemma consume_cases:
  assumes "consume out now cid n s = (s', r)"
  obtains (same) "log_disk s' = log_disk s" and "r \<noteq> Inr True"
  | (stored) es ex where "snd (load s) = Inr es" and "expiry_ms n = Some ex"
      and "\<forall>e \<in> set es. e_capabilityId e \<noteq> cid"
      and "log_disk s' = LogJson (JArray (map entry_json (appended now cid ex es)))"
      and "log_ok (appended now cid ex es)"
proof -
  obtain s1 l where l: "load s = (s1, l)" by (cases "load s")
  then have disk: "log_disk s1 = log_disk s" using load_disk [of s] by simp
  show ?thesis
  proof (cases "\<exists>es ex. l = Inr es \<and> expiry_ms n = Some ex \<and> (\<forall>e \<in> set es. e_capabilityId e \<noteq> cid)
      \<and> CONSUMED_ID_PATTERN cid \<and> 0 \<le> now \<and> now \<le> max_safe_integer \<and> length (retained now es) < MAX_ENTRIES
      \<and> out \<noteq> WriteFails")
    case True
    then obtain es ex where c: "l = Inr es" "expiry_ms n = Some ex" "\<forall>e \<in> set es. e_capabilityId e \<noteq> cid"
      "CONSUMED_ID_PATTERN cid" "0 \<le> now" "now \<le> max_safe_integer" "length (retained now es) < MAX_ENTRIES"
      "out \<noteq> WriteFails" by blast
    have "log_ok es" using load_ok l c(1) by blast
    then have "log_ok (appended now cid ex es)"
      using c(3-7) expiry_ms_bounds [OF c(2)]
      by (auto simp: log_ok_def appended_def retained_def list_all_iff entry_ok_def distinct_map_filter)
    moreover have "log_disk s' = LogJson (JArray (map entry_json (appended now cid ex es)))"
      using assms c by (cases out) (auto simp: consume_def l persist_def appended_def retained_def Let_def)
    ultimately show ?thesis using stored [of es ex] l c by simp
  next
    case False
    then have "log_disk s' = log_disk s \<and> r \<noteq> Inr True"
      using assms disk
      by (cases out) (auto simp: consume_def l persist_def retained_def Let_def
          split: sum.splits option.splits if_splits)
    then show ?thesis using same by blast
  qed
qed

subsection \<open>Used capabilities\<close>

definition recorded :: "credential_capability \<Rightarrow> int \<Rightarrow> log_file \<Rightarrow> bool" where
  "recorded c ex disk \<longleftrightarrow> (\<exists>v es. disk = LogJson v \<and> parseState v = Inr es
     \<and> (\<exists>e \<in> set es. e_capabilityId e = capabilityId c \<and> e_expiresAtMs e = ex))"

text \<open>Every used capability expired a day before the latest consumption, or is in the log.\<close>

definition spent_ok :: "int \<Rightarrow> credential_capability set \<Rightarrow> log_file \<Rightarrow> bool" where
  "spent_ok high C disk \<longleftrightarrow>
     (\<forall>c \<in> C. \<exists>ex. expiry_ms (expiresAt c) = Some ex \<and> (ex + RETENTION_GRACE_MS \<le> high \<or> recorded c ex disk))"

lemma spent_ok_later: "spent_ok high C disk \<Longrightarrow> high \<le> high' \<Longrightarrow> spent_ok high' C disk"
  unfolding spent_ok_def by fastforce

lemma spent_ok_stored:
  assumes "spent_ok high C (log_disk s)" and "snd (load s) = Inr es" and "log_ok (appended now cid ex es)"
  shows "spent_ok (max high now) C (LogJson (JArray (map entry_json (appended now cid ex es))))"
  unfolding spent_ok_def
proof
  fix c assume "c \<in> C"
  then obtain x where x: "expiry_ms (expiresAt c) = Some x"
    and alt: "x + RETENTION_GRACE_MS \<le> high \<or> recorded c x (log_disk s)"
    using assms(1) by (auto simp: spent_ok_def)
  have "x + RETENTION_GRACE_MS \<le> max high now
      \<or> recorded c x (LogJson (JArray (map entry_json (appended now cid ex es))))"
  proof (cases "x + RETENTION_GRACE_MS \<le> max high now")
    case False
    then obtain v es' e where v: "log_disk s = LogJson v" "parseState v = Inr es'" "e \<in> set es'"
      "e_capabilityId e = capabilityId c" "e_expiresAtMs e = x"
      using alt by (auto simp: recorded_def)
    then have "es' = es" using assms(2) load_json [OF v(1)] by simp
    then have "e \<in> set (appended now cid ex es)"
      using v(3,5) False by (auto simp: appended_def retained_def)
    then show ?thesis using parseState_json [OF assms(3)] v(4,5) by (auto simp: recorded_def)
  qed simp
  with x show "\<exists>ex'. expiry_ms (expiresAt c) = Some ex' \<and> (ex' + RETENTION_GRACE_MS \<le> max high now
      \<or> recorded c ex' (LogJson (JArray (map entry_json (appended now cid ex es)))))" by blast
qed

lemma unexpired:
  assumes "expiry_ms n = Some ex" and "\<not> js_le n (Fin (of_int (t div 1000)))"
  shows "t < ex"
proof -
  obtain i where i: "n = Fin (of_int i)"
    using assms(1) by (auto simp: expiry_ms_def split: jsnum.splits if_splits elim: is_wholeE)
  have "rat_of_int i * 1000 = of_int (i * 1000)" by simp
  then have "ex = i * 1000"
    using assms(1) unfolding i expiry_ms_def jsnum.case by (auto simp only: floor_of_int option.inject split: if_splits)
  moreover have "t div 1000 < i" using assms(2) by (simp add: i)
  ultimately show ?thesis by simp
qed

lemma authorize_Inr:
  assumes "authorize edVerify cfg rq env allowed lg = (lg', Inr c)"
  shows "snd (wasConsumed (capabilityId c) lg) = Inr False"
    and "\<not> js_le (expiresAt c) (Fin (of_int (rq_verifyMs rq div 1000)))"
    and "consume (rq_logOutcome rq) (rq_consumeMs rq) (capabilityId c) (expiresAt c) (fst (load lg)) = (lg', Inr True)"
    and "\<exists>claimed. verifyCapability edVerify (verification_of cfg rq env claimed lg) = Inr c"
    and "action c \<in> set allowed"
proof -
  obtain claimed where claimed: "claimedBy env = Inr claimed" "action claimed \<in> set allowed"
    using assms by (auto simp: authorize_def split: sum.splits if_splits)
  let ?v = "verifyCapability edVerify (verification_of cfg rq env claimed lg)"
  obtain d where d: "?v = Inr d"
    using assms claimed by (cases ?v) (auto simp: authorize_def Let_def split: err.splits)
  obtain lg2 r where cons: "consume (rq_logOutcome rq) (rq_consumeMs rq) (capabilityId d) (expiresAt d) (fst (load lg)) = (lg2, r)"
    by (cases "consume (rq_logOutcome rq) (rq_consumeMs rq) (capabilityId d) (expiresAt d) (fst (load lg))")
  have "reached_log ?v" by (simp add: d reached_log_def)
  then have "(lg', Inr c) = (case (lg2, r) of (l, Inl _) \<Rightarrow> (l, Inl log_unavailable)
      | (l, Inr False) \<Rightarrow> (l, Inl (App 409 ''capability_already_used'')) | (l, Inr True) \<Rightarrow> (l, Inr d))"
    using assms claimed by (simp add: authorize_def d cons)
  then have r: "r = Inr True" "d = c" "lg2 = lg'" by (auto split: sum.splits bool.splits)
  have v: "verifyCapability edVerify (verification_of cfg rq env claimed lg) = Inr c" using d r(2) by simp
  then show "\<exists>claimed. verifyCapability edVerify (verification_of cfg rq env claimed lg) = Inr c" by blast
  show "snd (wasConsumed (capabilityId c) lg) = Inr False"
    and "\<not> js_le (expiresAt c) (Fin (of_int (rq_verifyMs rq div 1000)))" and "action c \<in> set allowed"
    using v claimed(2) unfolding verify_Inr by (simp_all add: verification_of_def)
  show "consume (rq_logOutcome rq) (rq_consumeMs rq) (capabilityId c) (expiresAt c) (fst (load lg)) = (lg', Inr True)"
    using cons r by simp
qed

lemma authorize_disk:
  assumes "authorize edVerify cfg rq env allowed lg = (lg', Inl e)"
  shows "log_disk lg' = log_disk lg
    \<or> (\<exists>c :: credential_capability. lg' = fst (consume (rq_logOutcome rq) (rq_consumeMs rq) (capabilityId c) (expiresAt c) (fst (load lg))))"
proof (cases "\<exists>claimed. claimedBy env = Inr claimed \<and> action claimed \<in> set allowed")
  case True
  then obtain claimed where claimed: "claimedBy env = Inr claimed" "action claimed \<in> set allowed" by blast
  let ?v = "verifyCapability edVerify (verification_of cfg rq env claimed lg)"
  show ?thesis
  proof (cases ?v)
    case (Inl e')
    then have "lg' = (if reached_log ?v then fst (load lg) else lg)"
      using assms claimed by (auto simp: authorize_def Let_def split: err.splits)
    then show ?thesis using load_disk [of lg] by auto
  next
    case (Inr d)
    then have "reached_log ?v" by (simp add: reached_log_def)
    then have "lg' = fst (consume (rq_logOutcome rq) (rq_consumeMs rq) (capabilityId d) (expiresAt d) (fst (load lg)))"
      using assms claimed by (auto simp: authorize_def Inr split: prod.splits sum.splits bool.splits)
    then show ?thesis by blast
  qed
next
  case False
  then have "lg' = lg" using assms by (auto simp: authorize_def split: sum.splits if_splits)
  then show ?thesis by simp
qed

text \<open>A consumption keeps the account of the used capabilities.\<close>

lemma spent_consume:
  assumes "consume out now cid n (fst (load lg)) = (s', r)" and "spent_ok high C (log_disk lg)"
  shows "spent_ok (max high now) C (log_disk s')"
  using assms(1)
proof (cases rule: consume_cases)
  case same
  then show ?thesis using spent_ok_later [OF assms(2)] by (simp add: load_disk)
next
  case (stored es ex)
  have "spent_ok high C (log_disk (fst (load lg)))" using assms(2) by (simp add: load_disk)
  from spent_ok_stored [OF this stored(1,5)] show ?thesis by (simp add: stored(4))
qed

lemma authorize_spent:
  assumes "authorize edVerify cfg rq env allowed lg = (lg', r)" and "spent_ok high C (log_disk lg)"
    and "high - RETENTION_GRACE_MS \<le> rq_verifyMs rq"
  shows "case r of
      Inl _ \<Rightarrow> spent_ok (max high (rq_consumeMs rq)) C (log_disk lg')
    | Inr c \<Rightarrow> c \<notin> C \<and> spent_ok (max high (rq_consumeMs rq)) (insert c C) (log_disk lg')"
proof (cases r)
  case (Inl e)
  from authorize_disk [OF assms(1) [unfolded Inl]] have "spent_ok (max high (rq_consumeMs rq)) C (log_disk lg')"
  proof
    assume "log_disk lg' = log_disk lg"
    then show ?thesis using spent_ok_later [OF assms(2), of "max high (rq_consumeMs rq)"] by simp
  next
    assume "\<exists>c :: credential_capability. lg' = fst (consume (rq_logOutcome rq) (rq_consumeMs rq) (capabilityId c) (expiresAt c) (fst (load lg)))"
    then show ?thesis using spent_consume [OF prod.collapse [symmetric] assms(2)] by blast
  qed
  then show ?thesis by (simp add: Inl)
next
  case (Inr c)
  note auth = authorize_Inr [OF assms(1) [unfolded Inr]]
  obtain es where es: "snd (load lg) = Inr es" "\<forall>e \<in> set es. e_capabilityId e \<noteq> capabilityId c"
    using auth(1) unfolding wasConsumed_False by blast
  from auth(3) obtain ex where ex: "expiry_ms (expiresAt c) = Some ex"
    and stored: "recorded c ex (log_disk lg')"
  proof (cases rule: consume_cases)
    case (stored es' ex)
    have "\<lparr> e_capabilityId = capabilityId c, e_consumedAtMs = rq_consumeMs rq, e_expiresAtMs = ex \<rparr>
        \<in> set (appended (rq_consumeMs rq) (capabilityId c) ex es')"
      by (simp add: appended_def)
    then have "\<exists>e \<in> set (appended (rq_consumeMs rq) (capabilityId c) ex es').
        e_capabilityId e = capabilityId c \<and> e_expiresAtMs e = ex"
      by (rule rev_bexI) simp
    then have "recorded c ex (log_disk lg')"
      using parseState_json [OF stored(5)] unfolding recorded_def stored(4) by blast
    with stored(2) show ?thesis by (rule that)
  qed simp
  have "c \<notin> C"
  proof
    assume "c \<in> C"
    then have "ex + RETENTION_GRACE_MS \<le> high \<or> recorded c ex (log_disk lg)"
      using assms(2) ex by (auto simp: spent_ok_def)
    moreover have "\<not> recorded c ex (log_disk lg)"
      using es load_json [of lg] by (auto simp: recorded_def)
    moreover have "rq_verifyMs rq < ex" by (rule unexpired [OF ex auth(2)])
    ultimately show False using assms(3) by simp
  qed
  moreover have "spent_ok (max high (rq_consumeMs rq)) (insert c C) (log_disk lg')"
    using spent_consume [OF auth(3) assms(2)] ex stored unfolding spent_ok_def by blast
  ultimately show ?thesis by (simp add: Inr)
qed

subsection \<open>The log over a run of requests\<close>

lemma ad_log_simps [simp]:
  "ad_log (reportOutcome r st) = ad_log st"
  "ad_log (with_store ds st) = ad_log st"
  "ad_log (fst (refused c o' code e st)) = ad_log st"
  by (simp_all add: reportOutcome_def with_store_def refused_def)

lemma install_key_log [simp]: "ad_log (fst (install_key sha cfg rq c secret label store st)) = ad_log st"
  by (simp add: install_key_def Let_def split: prod.split sum.split)

lemma revoke_key_log [simp]: "ad_log (fst (revoke_key cfg rq c store st)) = ad_log st"
  by (simp add: revoke_key_def Let_def split: prod.split sum.split bool.split)

lemma post_secret_log:
  "ad_log (fst (post_secret edVerify sha cfg rq st)) =
     (case installSchema (rq_body rq) of
        None \<Rightarrow> ad_log st
      | Some (env, _) \<Rightarrow> fst (authorize edVerify cfg rq env [Register, Rotate] (ad_log st)))"
  by (simp add: post_secret_def parseBody_def Let_def split: option.split prod.split sum.split)

lemma post_revoke_log:
  "ad_log (fst (post_revoke edVerify cfg rq st)) =
     (case revokeSchema (rq_body rq) of
        None \<Rightarrow> ad_log st
      | Some env \<Rightarrow> fst (authorize edVerify cfg rq env [Revoke] (ad_log st)))"
  by (simp add: post_revoke_def parseBody_def Let_def split: option.split prod.split sum.split)

fun request_of :: "admin_op \<Rightarrow> admin_request option" where
  "request_of (PostSecret rq) = Some rq"
| "request_of (PostRevoke rq) = Some rq"
| "request_of Restart = None"

text \<open>
  A run whose clock never falls a day behind the latest reading at a consumption (\<open>high\<close> at the start).
\<close>

fun clock_ok :: "int \<Rightarrow> admin_op list \<Rightarrow> bool" where
  "clock_ok high [] = True"
| "clock_ok high (op # ops) =
     (case request_of op of
        None \<Rightarrow> clock_ok high ops
      | Some rq \<Rightarrow> high - RETENTION_GRACE_MS \<le> rq_verifyMs rq \<and> clock_ok (max high (rq_consumeMs rq)) ops)"

definition later :: "int \<Rightarrow> admin_op \<Rightarrow> int" where
  "later high op = (case request_of op of None \<Rightarrow> high | Some rq \<Rightarrow> max high (rq_consumeMs rq))"

lemma admin_step_spent:
  assumes "spent_ok high C (log_disk (ad_log st))" and "clock_ok high [op]"
  shows "set (authorized_by edVerify cfg op st) \<inter> C = {}
    \<and> distinct (authorized_by edVerify cfg op st)
    \<and> spent_ok (later high op) (set (authorized_by edVerify cfg op st) \<union> C)
        (log_disk (ad_log (admin_step edVerify sha cfg op st)))"
proof (cases op)
  case (PostSecret rq)
  show ?thesis
  proof (cases "installSchema (rq_body rq)")
    case None
    then show ?thesis
      using spent_ok_later [OF assms(1), of "max high (rq_consumeMs rq)"] by (simp add: PostSecret post_secret_log later_def)
  next
    case (Some p)
    obtain env secret where p: "p = (env, secret)" by (cases p)
    obtain lg r where a: "authorize edVerify cfg rq env [Register, Rotate] (ad_log st) = (lg, r)"
      by (cases "authorize edVerify cfg rq env [Register, Rotate] (ad_log st)")
    show ?thesis
      using authorize_spent [OF a assms(1)] assms(2) Some p a
      by (cases r) (simp_all add: PostSecret post_secret_log later_def)
  qed
next
  case (PostRevoke rq)
  show ?thesis
  proof (cases "revokeSchema (rq_body rq)")
    case None
    then show ?thesis
      using spent_ok_later [OF assms(1), of "max high (rq_consumeMs rq)"] by (simp add: PostRevoke post_revoke_log later_def)
  next
    case (Some env)
    obtain lg r where a: "authorize edVerify cfg rq env [Revoke] (ad_log st) = (lg, r)"
      by (cases "authorize edVerify cfg rq env [Revoke] (ad_log st)")
    show ?thesis
      using authorize_spent [OF a assms(1)] assms(2) Some a
      by (cases r) (simp_all add: PostRevoke post_revoke_log later_def)
  qed
next
  case Restart
  then show ?thesis using assms(1) by (simp add: later_def restart_process_def restart_log_def)
qed

lemma clock_ok_Cons: "clock_ok high (op # ops) \<longleftrightarrow> clock_ok high [op] \<and> clock_ok (later high op) ops"
  by (simp add: later_def split: option.split)

lemma run_spent:
  "spent_ok high C (log_disk (ad_log st)) \<Longrightarrow> clock_ok high ops
    \<Longrightarrow> distinct (authorized_in edVerify sha cfg ops st) \<and> set (authorized_in edVerify sha cfg ops st) \<inter> C = {}"
proof (induction ops arbitrary: high C st)
  case (Cons op ops)
  let ?now = "authorized_by edVerify cfg op st" and ?st = "admin_step edVerify sha cfg op st"
  have clock: "clock_ok high [op]" "clock_ok (later high op) ops"
    using Cons.prems(2) unfolding clock_ok_Cons [of high op ops] by blast+
  note step = admin_step_spent [OF Cons.prems(1) clock(1), of edVerify cfg sha]
  then have "spent_ok (later high op) (set ?now \<union> C) (log_disk (ad_log ?st))" by blast
  from Cons.IH [OF this clock(2)] step show ?case by (auto simp: Int_Un_distrib)
qed simp

text \<open>
  C7. No capability is used twice. Over any sequence of install and revoke requests, with restarts
  of the process, failing writes and whatever the log file held at the start, each capability authorizes
  at most one operation, as long as the clock never falls a day or more behind its latest reading.
\<close>

theorem capability_used_once:
  assumes "clock_ok high ops"
  shows "distinct (authorized_in edVerify sha cfg ops st)"
  using run_spent [OF _ assms, of "{}" st edVerify sha cfg] by (simp add: spent_ok_def)

theorem capability_used_once_witness:
  "distinct (authorized_in sample_verify (\<lambda>s. s)
     \<lparr> ac_publicKeys = [''key-1'' \<mapsto> ''public''], ac_deploymentId = ''phala-1'', ac_provider = ''venice'', ac_probes = False \<rparr>
     [PostRevoke \<lparr> rq_body = JObject [(''capability'', JObject [(''capability'', JString ''oA''),
          (''signature'', JString ''AA''), (''keyId'', JString ''key-1'')])],
        rq_verifyMs = 5000, rq_consumeMs = 5001, rq_logOutcome = ModeFails, rq_keyOutcome = Written, rq_probe = ProbeStatus 200 \<rparr>,
      Restart,
      PostRevoke \<lparr> rq_body = JObject [(''capability'', JObject [(''capability'', JString ''oA''),
          (''signature'', JString ''AA''), (''keyId'', JString ''key-1'')])],
        rq_verifyMs = 4000, rq_consumeMs = 6001, rq_logOutcome = Written, rq_keyOutcome = Written, rq_probe = ProbeStatus 200 \<rparr>]
     \<lparr> ad_log = \<lparr> log_observed = False, log_disk = LogMissing \<rparr>, ad_disk = OvMissing, ad_store = None, ad_reports = [] \<rparr>)"
  by (rule capability_used_once [of 0]) (simp add: RETENTION_GRACE_MS_def)

end
