(* ===== verification/KeysetInv.thy ===== *)
theory KeysetInv
  imports CredentialAdminSpec
begin

section \<open>The keys of the workload over a run\<close>

text \<open>
  The overlay file is always readable and leaves a key, and the memory of the process is consistent with
  it (\<open>keyset_inv\<close>). Under that invariant the endpoint implements a map from credential ids to secrets:
  an accepted install is an update, an accepted revocation a deletion, every refusal and a restart change
  nothing.
\<close>

definition keyset_inv :: "overlay_file \<Rightarrow> key_store \<Rightarrow> bool" where
  "keyset_inv d s \<longleftrightarrow>
     distinct (map vk_id (ks_bootKeys s)) \<and> overlay_ok (ks_overlay s)
     \<and> (case d of
          OvStatFails \<Rightarrow> False
        | OvMissing \<Rightarrow> \<not> ks_observed s \<and> ks_loadedStat s = None \<and> ks_bootKeys s \<noteq> []
        | OvFile n v \<Rightarrow>
            (\<exists>j ov. v = Some j \<and> parseOverlay j = Inr ov \<and> effective (s\<lparr> ks_overlay := ov \<rparr>) \<noteq> []
              \<and> (\<forall>m. ks_loadedStat s = Some m \<longrightarrow> m \<le> n)
              \<and> (ks_loadedStat s = Some n \<longrightarrow> ks_overlay s = ov)))"

lemma effective_cong:
  "ks_bootKeys s = ks_bootKeys s' \<Longrightarrow> ks_overlay s = ks_overlay s' \<Longrightarrow> effective s = effective s'"
  by (simp add: effective_def)

lemma overlay_ok_empty [simp]: "overlay_ok emptyOverlay"
  by (simp add: emptyOverlay_def overlay_ok_def)

lemma effective_empty: "ks_overlay s = emptyOverlay \<Longrightarrow> effective s = ks_bootKeys s"
  by (simp add: effective_def emptyOverlay_def)

text \<open>A store that was just refreshed.\<close>

definition fresh :: "overlay_file \<Rightarrow> key_store \<Rightarrow> bool" where
  "fresh d s \<longleftrightarrow> keyset_inv d s \<and> refresh d s = Inr s"

lemma refresh_inv:
  assumes "keyset_inv d s"
  shows "\<exists>s'. refresh d s = Inr s' \<and> fresh d s' \<and> effective s' \<noteq> [] \<and> ks_bootKeys s' = ks_bootKeys s"
proof (cases d)
  case OvMissing
  let ?s = "s\<lparr> ks_overlay := emptyOverlay, ks_loadedStat := None \<rparr>"
  have "refresh d s = Inr ?s" "fresh d ?s" "effective ?s \<noteq> []"
    using assms effective_empty [of ?s]
    by (simp_all add: refresh_def OvMissing keyset_inv_def fresh_def)
  then show ?thesis by auto
next
  case (OvFile n v)
  then obtain j ov where j: "v = Some j" "parseOverlay j = Inr ov" "effective (s\<lparr> ks_overlay := ov \<rparr>) \<noteq> []"
    "ks_loadedStat s = Some n \<longrightarrow> ks_overlay s = ov" "\<forall>m. ks_loadedStat s = Some m \<longrightarrow> m \<le> n"
    using assms by (auto simp: keyset_inv_def)
  let ?s = "s\<lparr> ks_overlay := ov, ks_loadedStat := Some n, ks_observed := True \<rparr>"
  have "refresh d s = Inr ?s"
  proof (cases "ks_loadedStat s = Some n")
    case True
    then have "s\<lparr> ks_observed := True \<rparr> = ?s" using j(4) by (cases s) simp
    then show ?thesis using True by (simp add: refresh_def OvFile)
  qed (simp add: refresh_def OvFile j(1,2))
  moreover have eff: "effective ?s = effective (s\<lparr> ks_overlay := ov \<rparr>)" by (rule effective_cong) simp_all
  moreover have "fresh d ?s"
    using assms j parse_overlay_ok [OF j(2)] eff
    by (simp add: fresh_def keyset_inv_def refresh_def OvFile effective_def)
  ultimately show ?thesis using j(3) by auto
next
  case OvStatFails
  then show ?thesis using assms by (simp add: keyset_inv_def)
qed

lemma fresh_nonempty: "fresh d s \<Longrightarrow> effective s \<noteq> []"
  using refresh_inv [of d s] by (auto simp: fresh_def)

lemma distinct_effective: "keyset_inv d s \<Longrightarrow> distinct (map vk_id (effective s))"
  by (auto simp: keyset_inv_def effective_def overlay_ok_def distinct_map_filter Let_def)

text \<open>Writing an overlay that leaves a key keeps the invariant, however the write ends.\<close>

lemma persist_inv:
  assumes "persist_overlay out (next_stamp d) ov (d, s) = (ds, r)" and "fresh d s"
    and "overlay_ok ov" and "effective (s\<lparr> ks_overlay := ov \<rparr>) \<noteq> []"
  shows "keyset_inv (fst ds) (snd ds)" and "ks_bootKeys (snd ds) = ks_bootKeys s"
    and "r = Inr () \<Longrightarrow> fresh (fst ds) (snd ds) \<and> ks_overlay (snd ds) = ov"
    and "r \<noteq> Inr () \<Longrightarrow> r = Inl (Thrown ''fs'')"
proof -
  have inv: "keyset_inv d s" using assms(2) by (simp add: fresh_def)
  have stale: "\<forall>m. ks_loadedStat s = Some m \<longrightarrow> m < next_stamp d"
    using inv by (auto simp: keyset_inv_def next_stamp_def split: overlay_file.splits)
  let ?file = "OvFile (next_stamp d) (Some (overlay_json ov))"
  let ?s = "s\<lparr> ks_overlay := ov, ks_loadedStat := Some (next_stamp d), ks_observed := True \<rparr>"
  have eff: "effective ?s = effective (s\<lparr> ks_overlay := ov \<rparr>)" by (rule effective_cong) simp_all
  have eff2: "effective (?s\<lparr> ks_overlay := ov \<rparr>) = effective (s\<lparr> ks_overlay := ov \<rparr>)" by (rule effective_cong) simp_all
  have new: "keyset_inv ?file ?s"
    using inv assms(3,4) eff2 by (simp add: keyset_inv_def parse_overlay_json)
  have mode: "keyset_inv ?file s"
    using inv assms(3,4) stale by (auto simp: keyset_inv_def parse_overlay_json)
  have cases: "ds = (?file, ?s) \<and> r = Inr () \<or> ds = (d, s) \<and> r = Inl (Thrown ''fs'')
      \<or> ds = (?file, s) \<and> r = Inl (Thrown ''fs'')"
    using assms(1) by (cases out) (auto simp: persist_overlay_def Let_def)
  show "keyset_inv (fst ds) (snd ds)" using cases new mode inv by auto
  show "ks_bootKeys (snd ds) = ks_bootKeys s" using cases by auto
  show "r = Inr () \<Longrightarrow> fresh (fst ds) (snd ds) \<and> ks_overlay (snd ds) = ov"
    using cases new by (auto simp: fresh_def refresh_def)
  show "r \<noteq> Inr () \<Longrightarrow> r = Inl (Thrown ''fs'')" using cases by auto
qed

text \<open>The map a reader of the keys sees.\<close>

definition seen :: "overlay_file \<Rightarrow> key_store \<Rightarrow> string \<rightharpoonup> string" where
  "seen d s = (case refresh d s of Inl _ \<Rightarrow> Map.empty | Inr s' \<Rightarrow> key_map (effective s'))"

lemma seen_fresh: "fresh d s \<Longrightarrow> seen d s = key_map (effective s)"
  by (simp add: seen_def fresh_def)

lemma seen_refresh: "refresh d s = Inr s' \<Longrightarrow> fresh d s' \<Longrightarrow> seen d s' = seen d s"
  by (simp add: seen_def fresh_def)

lemma addKey_inv:
  assumes "addKey out (next_stamp d) e (d, s) = (ds, r)" and "keyset_inv d s" and "key_ok e"
  shows "keyset_inv (fst ds) (snd ds)"
    and "r = Inr () \<Longrightarrow> seen (fst ds) (snd ds) = (seen d s)(vk_id e \<mapsto> vk_key e)"
    and "r \<noteq> Inr () \<Longrightarrow> r = Inl (Thrown ''fs'')"
    and "ks_bootKeys (snd ds) = ks_bootKeys s"
proof -
  obtain s' where s': "refresh d s = Inr s'" "fresh d s'" "ks_bootKeys s' = ks_bootKeys s"
    using refresh_inv [OF assms(2)] by blast
  have p: "persist_overlay out (next_stamp d) (added_overlay e (ks_overlay s')) (d, s') = (ds, r)"
    using assms(1) by (simp add: addKey_def s'(1))
  have ok: "overlay_ok (added_overlay e (ks_overlay s'))"
    using s'(2) assms(3) by (intro added_overlay_ok) (simp_all add: fresh_def keyset_inv_def)
  let ?s = "s'\<lparr> ks_overlay := added_overlay e (ks_overlay s') \<rparr>"
  have map: "key_map (effective ?s) = (key_map (effective s'))(vk_id e \<mapsto> vk_key e)"
    by (rule effective_added) simp_all
  then have ne: "effective ?s \<noteq> []" by (auto simp: key_map_def fun_eq_iff split: if_splits)
  note persisted = persist_inv [OF p s'(2) ok ne]
  show "keyset_inv (fst ds) (snd ds)" by (rule persisted(1))
  show "ks_bootKeys (snd ds) = ks_bootKeys s" using persisted(2) s'(3) by simp
  show "r \<noteq> Inr () \<Longrightarrow> r = Inl (Thrown ''fs'')" by (rule persisted(4))
  assume "r = Inr ()"
  with persisted(3) have "fresh (fst ds) (snd ds)" "ks_overlay (snd ds) = added_overlay e (ks_overlay s')" by blast+
  moreover from this persisted(2) have "effective (snd ds) = effective ?s" by (intro effective_cong) simp_all
  ultimately show "seen (fst ds) (snd ds) = (seen d s)(vk_id e \<mapsto> vk_key e)"
    using seen_refresh [OF s'(1,2)] map by (simp add: seen_fresh seen_fresh [OF s'(2), symmetric])
qed

lemma not_last_other:
  assumes "keyset_inv d s" and "k \<in> set (effective s)" and "vk_id k = i"
    and "\<not> (length (effective s) = 1 \<and> vk_id (hd (effective s)) = i)"
  shows "\<exists>j. j \<noteq> i \<and> key_map (effective s) j \<noteq> None"
proof (rule ccontr)
  assume "\<not> ?thesis"
  then have all: "\<forall>k \<in> set (effective s). vk_id k = i"
    by (auto simp: key_map_None_iff ids_of_def)
  then have "set (map vk_id (effective s)) \<subseteq> {i}" by auto
  then have "card (set (map vk_id (effective s))) \<le> 1" using card_mono [of "{i}"] by fastforce
  then have "length (effective s) \<le> 1" using distinct_card [OF distinct_effective [OF assms(1)]] by simp
  then have "length (effective s) = 1" using assms(2) by (cases "effective s") auto
  moreover have "hd (effective s) \<in> set (effective s)" using assms(2) by (intro hd_in_set) auto
  ultimately show False using all assms(4) by blast
qed

lemma removeKey_inv:
  assumes "removeKey out (next_stamp d) i (d, s) = (ds, r)" and "fresh d s" and "CREDENTIAL_ID_PATTERN i"
    and "isLastRemaining d s i \<noteq> Inr True"
  shows "keyset_inv (fst ds) (snd ds)" and "ks_bootKeys (snd ds) = ks_bootKeys s"
    and "r = Inr True \<Longrightarrow> seen d s i \<noteq> None \<and> seen (fst ds) (snd ds) = (seen d s)(i := None)"
    and "r = Inr False \<Longrightarrow> seen d s i = None \<and> ds = (d, s)"
    and "r = Inl e \<Longrightarrow> e = Thrown ''fs''"
proof -
  have inv: "keyset_inv d s" and ref: "refresh d s = Inr s" using assms(2) by (simp_all add: fresh_def)
  have "keyset_inv (fst ds) (snd ds) \<and> ks_bootKeys (snd ds) = ks_bootKeys s
    \<and> (r = Inr True \<longrightarrow> seen d s i \<noteq> None \<and> seen (fst ds) (snd ds) = (seen d s)(i := None))
    \<and> (r = Inr False \<longrightarrow> seen d s i = None \<and> ds = (d, s)) \<and> (\<forall>e. r = Inl e \<longrightarrow> e = Thrown ''fs'')"
  proof (cases "\<exists>k \<in> set (effective s). vk_id k = i")
    case False
    then have "r = Inr False" "ds = (d, s)" using assms(1) by (auto simp: removeKey_def ref)
    moreover have "seen d s i = None" using False by (auto simp: seen_fresh [OF assms(2)] key_map_None_iff ids_of_def)
    ultimately show ?thesis using inv by simp
  next
    case True
    then obtain k where k: "k \<in> set (effective s)" "vk_id k = i" by blast
    let ?ov = "removed_overlay (ks_bootKeys s) i (ks_overlay s)"
    let ?s = "s\<lparr> ks_overlay := ?ov \<rparr>"
    have map: "key_map (effective ?s) = (key_map (effective s))(i := None)"
      by (rule effective_removed) simp_all
    have "\<not> (length (effective s) = 1 \<and> vk_id (hd (effective s)) = i)"
      using assms(4) by (simp add: isLastRemaining_def effectiveKeys_def ref)
    from not_last_other [OF inv k this] obtain j where "j \<noteq> i" "key_map (effective s) j \<noteq> None" by blast
    then have "key_map (effective ?s) j \<noteq> None" by (simp add: map)
    then have ne: "effective ?s \<noteq> []" by (auto simp: key_map_def)
    have ok: "overlay_ok ?ov" using inv assms(3) by (intro removed_overlay_ok) (simp_all add: keyset_inv_def)
    obtain ds' q where p: "persist_overlay out (next_stamp d) ?ov (d, s) = (ds', q)"
      by (cases "persist_overlay out (next_stamp d) ?ov (d, s)")
    have r: "ds = ds'" "r = (case q of Inl e \<Rightarrow> Inl e | Inr _ \<Rightarrow> Inr True)"
      using assms(1) True by (auto simp: removeKey_def ref p split: sum.splits)
    note persisted = persist_inv [OF p assms(2) ok ne]
    have known: "seen d s i \<noteq> None"
      using k by (auto simp: seen_fresh [OF assms(2)] key_map_None_iff ids_of_def)
    show ?thesis
    proof (cases q)
      case (Inl e)
      then show ?thesis using persisted r by auto
    next
      case (Inr u)
      then have "fresh (fst ds') (snd ds')" "ks_overlay (snd ds') = ?ov" using persisted(3) by simp_all
      moreover from this persisted(2) have "effective (snd ds') = effective ?s" by (intro effective_cong) simp_all
      ultimately have "seen (fst ds') (snd ds') = (seen d s)(i := None)"
        using map by (simp add: seen_fresh seen_fresh [OF assms(2)])
      then show ?thesis using persisted(1,2) r Inr known by simp
    qed
  qed
  then show "keyset_inv (fst ds) (snd ds)" and "ks_bootKeys (snd ds) = ks_bootKeys s"
    and "r = Inr True \<Longrightarrow> seen d s i \<noteq> None \<and> seen (fst ds) (snd ds) = (seen d s)(i := None)"
    and "r = Inr False \<Longrightarrow> seen d s i = None \<and> ds = (d, s)"
    and "r = Inl e \<Longrightarrow> e = Thrown ''fs''" by blast+
qed

subsection \<open>The endpoint\<close>

lemma restart_inv:
  assumes "keyset_inv d s"
  shows "keyset_inv d (newVeniceKeysetStore (ks_bootKeys s))"
    and "seen d (newVeniceKeysetStore (ks_bootKeys s)) = seen d s"
proof -
  have eff: "effective (newVeniceKeysetStore (ks_bootKeys s)\<lparr> ks_overlay := ov \<rparr>) = effective (s\<lparr> ks_overlay := ov \<rparr>)" for ov
    by (rule effective_cong) (simp_all add: newVeniceKeysetStore_def)
  show inv: "keyset_inv d (newVeniceKeysetStore (ks_bootKeys s))"
    using assms eff by (auto simp: keyset_inv_def newVeniceKeysetStore_def split: overlay_file.splits)
  show "seen d (newVeniceKeysetStore (ks_bootKeys s)) = seen d s"
  proof (cases d)
    case (OvFile n v)
    then obtain j ov where "v = Some j" "parseOverlay j = Inr ov" "ks_loadedStat s = Some n \<longrightarrow> ks_overlay s = ov"
      using assms by (auto simp: keyset_inv_def)
    then show ?thesis
      by (auto simp: seen_def refresh_def OvFile newVeniceKeysetStore_def effective_def)
  qed (use assms in \<open>simp_all add: keyset_inv_def seen_def refresh_def newVeniceKeysetStore_def effective_def\<close>)
qed

text \<open>The install schema is strict, so a body it accepts has no label.\<close>

lemma installed_label: "installSchema body = Some (env, secret) \<Longrightarrow> readLabel body = None"
proof -
  assume "installSchema body = Some (env, secret)"
  then obtain fs where fs: "body = JObject fs" "fst ` set fs \<subseteq> {''capability'', ''secret''}"
    by (auto simp: installSchema_def strict_object_def bind_eq_Some_conv split: jsval.splits if_splits)
  then have "''label'' \<notin> fst ` set fs" by auto
  then have "object_field fs ''label'' = JUndefined" by (simp add: object_field_def map_of_eq_None_iff [THEN iffD2])
  then show ?thesis by (simp add: readLabel_def fs(1))
qed

lemma store_simps [simp]:
  "ad_disk (reportOutcome r st) = ad_disk st" "ad_store (reportOutcome r st) = ad_store st"
  "ad_disk (with_store ds st) = fst ds" "ad_store (with_store ds st) = Some (snd ds)"
  "ad_disk (fst (refused c o' code e st)) = ad_disk st" "ad_store (fst (refused c o' code e st)) = ad_store st"
  "snd (refused c o' code e st) = Inl e"
  by (simp_all add: reportOutcome_def with_store_def refused_def)

text \<open>What the keys of a state are.\<close>

definition keys_seen :: "admin_state \<Rightarrow> string \<rightharpoonup> string" where
  "keys_seen st = (case ad_store st of None \<Rightarrow> Map.empty | Some s \<Rightarrow> seen (ad_disk st) s)"

definition admin_inv :: "admin_state \<Rightarrow> bool" where
  "admin_inv st \<longleftrightarrow> (case ad_store st of None \<Rightarrow> True | Some s \<Rightarrow> keyset_inv (ad_disk st) s)"

lemma keys_seen_log [simp]: "keys_seen (st\<lparr> ad_log := l \<rparr>) = keys_seen st" "admin_inv (st\<lparr> ad_log := l \<rparr>) = admin_inv st"
  by (simp_all add: keys_seen_def admin_inv_def split: option.split)

lemma keys_seen_refused [simp]:
  "keys_seen (fst (refused c o' code e st)) = keys_seen st" "admin_inv (fst (refused c o' code e st)) = admin_inv st"
  by (simp_all add: keys_seen_def admin_inv_def split: option.split)

lemma keys_seen_store [simp]:
  "keys_seen (with_store ds st) = seen (fst ds) (snd ds)" "admin_inv (with_store ds st) = keyset_inv (fst ds) (snd ds)"
  "keys_seen (reportOutcome r st) = keys_seen st" "admin_inv (reportOutcome r st) = admin_inv st"
  by (simp_all add: keys_seen_def admin_inv_def split: option.split)

lemma install_key_ok:
  assumes "install_key sha cfg rq c secret None store st = (st', r)" and "ad_store st = Some store"
    and "admin_inv st" and "CREDENTIAL_ID_PATTERN (credentialId c)" and "secret \<noteq> []" and "js_trim secret = secret"
  shows "admin_inv st'"
    and "r = Inr v \<Longrightarrow> keys_seen st' = (keys_seen st)(credentialId c \<mapsto> secret) \<and> av_credential_id v = credentialId c"
    and "r = Inl e \<Longrightarrow> e = Thrown ''fs''"
proof -
  let ?e = "\<lparr> vk_id = credentialId c, vk_label = None, vk_key = secret \<rparr>"
  obtain ds q where q: "addKey (rq_keyOutcome rq) (next_stamp (ad_disk st)) ?e (ad_disk st, store) = (ds, q)"
    by (cases "addKey (rq_keyOutcome rq) (next_stamp (ad_disk st)) ?e (ad_disk st, store)")
  have "keyset_inv (ad_disk st) store" "keys_seen st = seen (ad_disk st) store"
    using assms(2,3) by (simp_all add: admin_inv_def keys_seen_def)
  moreover have "key_ok ?e" using assms(4-6) by (simp add: key_ok_def)
  ultimately have "admin_inv st' \<and> (\<forall>v. r = Inr v \<longrightarrow> keys_seen st' = (keys_seen st)(credentialId c \<mapsto> secret)
      \<and> av_credential_id v = credentialId c) \<and> (\<forall>e. r = Inl e \<longrightarrow> e = Thrown ''fs'')"
    using assms(1) addKey_inv [OF q]
    by (cases q) (auto simp: install_key_def q Let_def auditView_def)
  then show "admin_inv st'" and "r = Inl e \<Longrightarrow> e = Thrown ''fs''"
    and "r = Inr v \<Longrightarrow> keys_seen st' = (keys_seen st)(credentialId c \<mapsto> secret) \<and> av_credential_id v = credentialId c"
    by blast+
qed

lemma revoke_key_ok:
  assumes "revoke_key cfg rq c store st = (st', r)" and "ad_store st = Some store"
    and "admin_inv st" and "CREDENTIAL_ID_PATTERN (credentialId c)"
  shows "admin_inv st'"
    and "r = Inr v \<Longrightarrow> keys_seen st (credentialId c) \<noteq> None
           \<and> keys_seen st' = (keys_seen st)(credentialId c := None) \<and> av_credential_id v = credentialId c"
    and "r = Inl e \<Longrightarrow> e = Thrown ''fs'' \<or> keys_seen st' = keys_seen st"
proof -
  have inv: "keyset_inv (ad_disk st) store" "keys_seen st = seen (ad_disk st) store"
    using assms(2,3) by (simp_all add: admin_inv_def keys_seen_def)
  then obtain s where s: "refresh (ad_disk st) store = Inr s" "fresh (ad_disk st) s" using refresh_inv by blast
  then have seen: "seen (ad_disk st) s = keys_seen st" using inv(2) seen_refresh by simp
  have "admin_inv st' \<and> (\<forall>v. r = Inr v \<longrightarrow> keys_seen st (credentialId c) \<noteq> None
      \<and> keys_seen st' = (keys_seen st)(credentialId c := None) \<and> av_credential_id v = credentialId c)
      \<and> (\<forall>e. r = Inl e \<longrightarrow> e = Thrown ''fs'' \<or> keys_seen st' = keys_seen st)"
  proof (cases "isLastRemaining (ad_disk st) s (credentialId c) = Inr True")
    case True
    then have "(st', r) = refused c ''rejected'' ''last_remaining_credential'' (App 409 ''credential_last_remaining'')
        (with_store (ad_disk st, s) st)"
      using assms(1) by (simp add: revoke_key_def s(1) Let_def)
    then have "st' = fst (refused c ''rejected'' ''last_remaining_credential'' (App 409 ''credential_last_remaining'')
        (with_store (ad_disk st, s) st))" "r = Inl (App 409 ''credential_last_remaining'')"
      by (simp_all add: refused_def)
    then show ?thesis using s(2) seen by (simp add: fresh_def)
  next
    case False
    obtain ds q where q: "removeKey (rq_keyOutcome rq) (next_stamp (ad_disk st)) (credentialId c) (ad_disk st, s) = (ds, q)"
      by (cases "removeKey (rq_keyOutcome rq) (next_stamp (ad_disk st)) (credentialId c) (ad_disk st, s)")
    note removed = removeKey_inv [OF q s(2) assms(4) False]
    consider e where "q = Inl e" | "q = Inr True" | "q = Inr False" by (cases q) auto
    then show ?thesis
    proof cases
      case 1
      then show ?thesis
        using assms(1) False removed by (auto simp: revoke_key_def s(1) q Let_def)
    next
      case 2
      then show ?thesis
        using assms(1) False removed seen by (auto simp: revoke_key_def s(1) q Let_def auditView_def)
    next
      case 3
      then have "st' = fst (refused c ''rejected'' ''credential_not_found'' (App 404 ''credential_not_found'')
          (with_store ds (with_store (ad_disk st, s) st)))" "r = Inl (App 404 ''credential_not_found'')"
        using assms(1) False by (simp_all add: revoke_key_def s(1) q Let_def refused_def)
      then show ?thesis using removed 3 seen by simp
    qed
  qed
  then show "admin_inv st'" and "r = Inl e \<Longrightarrow> e = Thrown ''fs'' \<or> keys_seen st' = keys_seen st"
    and "r = Inr v \<Longrightarrow> keys_seen st (credentialId c) \<noteq> None
           \<and> keys_seen st' = (keys_seen st)(credentialId c := None) \<and> av_credential_id v = credentialId c"
    by blast+
qed

lemma authorized_credential:
  assumes "authorize edVerify cfg rq env allowed lg = (lg', Inr c)"
  shows "CREDENTIAL_ID_PATTERN (credentialId c)"
proof -
  obtain claimed where "verifyCapability edVerify (verification_of cfg rq env claimed lg) = Inr c"
    using authorize_Inr(4) [OF assms] by blast
  then have "decodeCapability (fromBase64url (s_capability env)) = Inr c"
    unfolding verify_Inr by (simp add: verification_of_def)
  then obtain es where "decode_fields es = Inr c"
    by (auto simp: decodeCapability_def split: sum.splits err.splits cbor.splits)
  then show ?thesis using decode_fields_form by (auto simp: well_named_def)
qed

text \<open>A request without surrounding space in its secret.\<close>

definition trimmed_secret :: "admin_request \<Rightarrow> bool" where
  "trimmed_secret rq \<longleftrightarrow> (\<forall>env secret. installSchema (rq_body rq) = Some (env, secret) \<longrightarrow> js_trim secret = secret)"

lemma post_secret_cases:
  assumes "post_secret edVerify sha cfg rq st = (st', r)"
  obtains (refusal) "keys_seen st' = keys_seen st" and "admin_inv st' = admin_inv st" and "\<forall>v. r \<noteq> Inr v"
  | (stored) env secret c lg store where "installSchema (rq_body rq) = Some (env, secret)"
      and "authorize edVerify cfg rq env [Register, Rotate] (ad_log st) = (lg, Inr c)"
      and "ad_store st = Some store" and "install_key sha cfg rq c secret None store (st\<lparr> ad_log := lg \<rparr>) = (st', r)"
proof (cases "installSchema (rq_body rq)")
  case None
  then show ?thesis using assms refusal by (auto simp: post_secret_def parseBody_def)
next
  case (Some p)
  obtain env secret where p: "p = (env, secret)" by (cases p)
  note label = installed_label [OF Some [unfolded p]]
  obtain lg q where a: "authorize edVerify cfg rq env [Register, Rotate] (ad_log st) = (lg, q)"
    by (cases "authorize edVerify cfg rq env [Register, Rotate] (ad_log st)")
  show ?thesis
  proof (cases q)
    case (Inl e)
    then show ?thesis using assms refusal Some p a by (simp add: post_secret_def parseBody_def Let_def) auto
  next
    case (Inr c)
    let ?st = "st\<lparr> ad_log := lg \<rparr>"
    have run: "(case providerCredentialStore ?st (ac_provider cfg) of
        None \<Rightarrow> refused c ''failed'' ''credential_store_unavailable'' (App 503 ''credential_store_unavailable'') ?st
      | Some store \<Rightarrow> if \<not> CREDENTIAL_ID_PATTERN (credentialId c)
          then refused c ''rejected'' ''credential_id_invalid'' (App 400 ''credential_id_invalid'') ?st
          else (case probe_refusal cfg (rq_probe rq) of
                  Some (outcome, code, e) \<Rightarrow> refused c outcome code e ?st
                | None \<Rightarrow> install_key sha cfg rq c secret None store ?st)) = (st', r)"
      using assms Some p a label Inr by (simp add: post_secret_def parseBody_def Let_def)
    have bounce: ?thesis if "refused c o' code e ?st = (st', r)" for o' code e
    proof (rule refusal)
      have "st' = fst (refused c o' code e ?st)" "r = snd (refused c o' code e ?st)" using that by simp_all
      then show "keys_seen st' = keys_seen st" "admin_inv st' = admin_inv st" "\<forall>v. r \<noteq> Inr v" by simp_all
    qed
    show ?thesis
    proof (cases "providerCredentialStore ?st (ac_provider cfg)")
      case None
      then show ?thesis using run bounce by simp
    next
      case store: (Some store)
      then have "ad_store st = Some store" by (simp add: providerCredentialStore_def split: if_splits)
      with run show ?thesis
        using bounce stored [OF Some [unfolded p] a [unfolded Inr]] authorized_credential [OF a [unfolded Inr]]
        by (cases "probe_refusal cfg (rq_probe rq)") (auto simp: store)
    qed
  qed
qed

lemma post_revoke_cases:
  assumes "post_revoke edVerify cfg rq st = (st', r)"
  obtains (refusal) "keys_seen st' = keys_seen st" and "admin_inv st' = admin_inv st" and "\<forall>v. r \<noteq> Inr v"
  | (revoked) env c lg store where "authorize edVerify cfg rq env [Revoke] (ad_log st) = (lg, Inr c)"
      and "ad_store st = Some store" and "revoke_key cfg rq c store (st\<lparr> ad_log := lg \<rparr>) = (st', r)"
proof (cases "revokeSchema (rq_body rq)")
  case None
  then show ?thesis using assms refusal by (auto simp: post_revoke_def parseBody_def)
next
  case (Some env)
  obtain lg q where a: "authorize edVerify cfg rq env [Revoke] (ad_log st) = (lg, q)"
    by (cases "authorize edVerify cfg rq env [Revoke] (ad_log st)")
  show ?thesis
  proof (cases q)
    case (Inl e)
    then show ?thesis using assms refusal Some a by (simp add: post_revoke_def parseBody_def Let_def) auto
  next
    case (Inr c)
    let ?st = "st\<lparr> ad_log := lg \<rparr>"
    show ?thesis
    proof (cases "providerCredentialStore ?st (ac_provider cfg)")
      case None
      then have "(st', r) = refused c ''failed'' ''credential_store_unavailable'' (App 503 ''credential_store_unavailable'') ?st"
        using assms Some a Inr by (simp add: post_revoke_def parseBody_def Let_def)
      then have "st' = fst (refused c ''failed'' ''credential_store_unavailable'' (App 503 ''credential_store_unavailable'') ?st)"
        "r = Inl (App 503 ''credential_store_unavailable'')" by (simp_all add: refused_def)
      then show ?thesis by (intro refusal) simp_all
    next
      case store: (Some store)
      then have "ad_store st = Some store" by (simp add: providerCredentialStore_def split: if_splits)
      then show ?thesis
        using revoked [OF a [unfolded Inr]] assms Some a Inr store by (simp add: post_revoke_def parseBody_def Let_def)
    qed
  qed
qed

lemma bounded_string_Some: "bounded_string lo hi v = Some s \<longleftrightarrow> v = JString s \<and> lo \<le> length s \<and> length s \<le> hi"
  by (auto simp: bounded_string_def split: jsval.split)

lemma schema_secret: "installSchema body = Some (env, secret) \<Longrightarrow> secret \<noteq> []"
  by (auto simp: installSchema_def bounded_string_Some bind_eq_Some_conv)

lemma post_secret_ok:
  assumes "post_secret edVerify sha cfg rq st = (st', r)" and "admin_inv st" and "trimmed_secret rq"
  shows "admin_inv st'"
    and "r = Inr v \<Longrightarrow> \<exists>env secret. installSchema (rq_body rq) = Some (env, secret)
           \<and> keys_seen st' = (keys_seen st)(av_credential_id v \<mapsto> secret)"
    and "r = Inl e \<Longrightarrow> e = Thrown ''fs'' \<or> keys_seen st' = keys_seen st"
proof -
  from assms(1) have "admin_inv st'
      \<and> (\<forall>v. r = Inr v \<longrightarrow> (\<exists>env secret. installSchema (rq_body rq) = Some (env, secret)
           \<and> keys_seen st' = (keys_seen st)(av_credential_id v \<mapsto> secret)))
      \<and> (\<forall>e. r = Inl e \<longrightarrow> e = Thrown ''fs'' \<or> keys_seen st' = keys_seen st)"
  proof (cases rule: post_secret_cases)
    case refusal
    then show ?thesis using assms(2) by auto
  next
    case (stored env secret c lg store)
    have "js_trim secret = secret" using assms(3) stored(1) by (simp add: trimmed_secret_def)
    moreover have "ad_store (st\<lparr> ad_log := lg \<rparr>) = Some store" "admin_inv (st\<lparr> ad_log := lg \<rparr>)"
      using stored(3) assms(2) by simp_all
    ultimately show ?thesis
      using install_key_ok [OF stored(4) _ _ authorized_credential [OF stored(2)] schema_secret [OF stored(1)]] stored(1)
      by auto
  qed
  then show "admin_inv st'" and "r = Inl e \<Longrightarrow> e = Thrown ''fs'' \<or> keys_seen st' = keys_seen st"
    and "r = Inr v \<Longrightarrow> \<exists>env secret. installSchema (rq_body rq) = Some (env, secret)
           \<and> keys_seen st' = (keys_seen st)(av_credential_id v \<mapsto> secret)" by blast+
qed

lemma post_revoke_ok:
  assumes "post_revoke edVerify cfg rq st = (st', r)" and "admin_inv st"
  shows "admin_inv st'"
    and "r = Inr v \<Longrightarrow> keys_seen st (av_credential_id v) \<noteq> None
           \<and> keys_seen st' = (keys_seen st)(av_credential_id v := None)"
    and "r = Inl e \<Longrightarrow> e = Thrown ''fs'' \<or> keys_seen st' = keys_seen st"
proof -
  from assms(1) have "admin_inv st'
      \<and> (\<forall>v. r = Inr v \<longrightarrow> keys_seen st (av_credential_id v) \<noteq> None
           \<and> keys_seen st' = (keys_seen st)(av_credential_id v := None))
      \<and> (\<forall>e. r = Inl e \<longrightarrow> e = Thrown ''fs'' \<or> keys_seen st' = keys_seen st)"
  proof (cases rule: post_revoke_cases)
    case refusal
    then show ?thesis using assms(2) by auto
  next
    case (revoked env c lg store)
    then have "ad_store (st\<lparr> ad_log := lg \<rparr>) = Some store" "admin_inv (st\<lparr> ad_log := lg \<rparr>)"
      using assms(2) by simp_all
    from revoke_key_ok [OF revoked(3) this authorized_credential [OF revoked(1)]] show ?thesis
      unfolding keys_seen_log by metis
  qed
  then show "admin_inv st'" and "r = Inl e \<Longrightarrow> e = Thrown ''fs'' \<or> keys_seen st' = keys_seen st"
    and "r = Inr v \<Longrightarrow> keys_seen st (av_credential_id v) \<noteq> None
           \<and> keys_seen st' = (keys_seen st)(av_credential_id v := None)" by blast+
qed

lemma reported_store: "ad_store st = Some s \<Longrightarrow> \<exists>s'. ad_store (fst (refused c o' code e st)) = Some s'" by simp

lemma install_key_store: "\<exists>s'. ad_store (fst (install_key sha cfg rq c secret l store st)) = Some s'"
  by (simp add: install_key_def Let_def split: prod.split sum.split)

lemma revoke_key_store: "\<exists>s'. ad_store (fst (revoke_key cfg rq c store st)) = Some s'"
  by (simp add: revoke_key_def Let_def split: prod.split sum.split bool.split)

lemma admin_step_store:
  assumes "ad_store st = Some s"
  shows "\<exists>s'. ad_store (admin_step edVerify sha cfg op st) = Some s'"
  using assms install_key_store revoke_key_store
  by (cases op) (auto simp: post_secret_def post_revoke_def parseBody_def Let_def restart_process_def
      split: option.split prod.split sum.split)

lemma restart_ok: "admin_inv st \<Longrightarrow> admin_inv (restart_process st) \<and> keys_seen (restart_process st) = keys_seen st"
  using restart_inv by (auto simp: admin_inv_def keys_seen_def restart_process_def split: option.splits)



subsection \<open>A worker with one boot key\<close>

definition sample_worker :: admin_state where
  "sample_worker =
     \<lparr> ad_log = \<lparr> log_observed = False, log_disk = LogMissing \<rparr>, ad_disk = OvMissing,
       ad_store = Some (newVeniceKeysetStore [\<lparr> vk_id = ''primary'', vk_label = None, vk_key = ''k-1'' \<rparr>]),
       ad_reports = [] \<rparr>"

definition sample_request :: admin_request where
  "sample_request =
     \<lparr> rq_body = JObject [(''capability'', JObject [(''capability'', JString ''oA''), (''signature'', JString ''AA''),
           (''keyId'', JString ''key-1'')]), (''secret'', JString ''k-2'')],
       rq_verifyMs = 5000, rq_consumeMs = 5001, rq_logOutcome = Written, rq_keyOutcome = ModeFails,
       rq_probe = ProbeUnreachable \<rparr>"

definition sample_admin_config :: admin_config where
  "sample_admin_config = \<lparr> ac_publicKeys = [''key-1'' \<mapsto> ''public''], ac_deploymentId = ''phala-1'',
     ac_provider = ''venice'', ac_probes = False \<rparr>"

lemma sample_worker_inv: "admin_inv sample_worker"
  by (simp add: admin_inv_def sample_worker_def keyset_inv_def newVeniceKeysetStore_def)

lemma sample_request_trimmed: "trimmed_secret sample_request"
proof -
  have "js_trim ''k-2'' = ''k-2''" by (simp add: js_trim_def is_js_space_def)
  then show ?thesis
    by (auto simp: trimmed_secret_def sample_request_def installSchema_def strict_object_def object_field_def
        bounded_string_Some bind_eq_Some_conv)
qed



end
