(* ===== verification/AdminRefusals.thy ===== *)
theory AdminRefusals
  imports KeysetInv
begin

section \<open>How the credential endpoint refuses\<close>

text \<open>
  The decision of \<open>authorize\<close> written out check by check with the HTTP error of each, and what the
  description of the endpoint does not say: a secret of white space only makes the keyset unreadable, and
  an identifier with a dot can never be consumed.
\<close>

lemma contains_prefix: "contains_text (needle @ rest) needle"
proof (cases "needle @ rest")
  case (Cons c cs)
  then have "take (length needle) (c # cs) = needle" by (metis append_eq_conv_conj)
  then show ?thesis by (simp add: Cons)
qed simp

lemma unknown_signer_code:
  "codeFor (''unknown capability signing key id: '' @ key) = ''capability_unknown_signer''"
  using contains_prefix [of "''unknown capability signing key id''" "'': '' @ key"] by (simp add: codeFor_def)

lemmas unknown_signer = unknown_signer_code unknown_signer_code [unfolded append.simps]

lemma refusal_code_table:
  "codeFor ''malformed capability signature'' = ''capability_signature_invalid''"
  "codeFor ''invalid capability signature'' = ''capability_signature_invalid''"
  "codeFor ''capability is bound to a different deployment'' = ''capability_wrong_deployment''"
  "codeFor ''capability is bound to a different provider'' = ''capability_wrong_provider''"
  "codeFor ''capability is not yet valid'' = ''capability_not_yet_valid''"
  "codeFor ''capability has expired'' = ''capability_expired''"
  "codeFor ''capability has already been used'' = ''capability_already_used''"
  by (simp_all add: codeFor_def)

lemma consume_not_False:
  assumes "snd (load s) = Inr es" and "\<forall>e \<in> set es. e_capabilityId e \<noteq> cid"
  shows "snd (consume out now cid n s) \<noteq> Inr False"
  using assms
  by (auto simp: consume_def Let_def split: prod.splits sum.splits option.splits)

lemma parse_entries_error: "parse_entries ids raws = Inl e \<Longrightarrow> e = ConsumedLogError"
proof (induction raws arbitrary: ids)
  case (Cons raw raws)
  show ?case
  proof (cases "parse_entry ids raw")
    case (Some x)
    then show ?thesis
      using Cons by (cases "parse_entries (insert (e_capabilityId x) ids) raws") auto
  qed (use Cons.prems in simp)
qed simp

lemma parse_state_error: "parseState v = Inl e \<Longrightarrow> e = ConsumedLogError"
  by (auto simp: parseState_def split: jsval.splits if_splits dest: parse_entries_error)



subsection \<open>Where the endpoint differs from its description\<close>

lemma parse_added_list_bad: "(\<And>ids. parse_added ids v = None) \<Longrightarrow> parse_added_list ids (vs @ [v]) = None"
  by (induction vs arbitrary: ids) (auto split: option.split)

text \<open>
  C40. A secret of white space breaks the store. The schema takes any secret of at least one character
  and the store writes it, so an install of a blank secret succeeds; but the reader of the overlay
  refuses a key that is empty after trimming, so the next process on this mount, and every process
  whose copy is out of date, finds no readable keyset at all.
\<close>

theorem blank_secret_breaks_store:
  assumes "fresh d s" and "secret \<noteq> []" and "js_trim secret = []"
  shows "(let r = addKey Written (next_stamp d) \<lparr> vk_id = i, vk_label = None, vk_key = secret \<rparr> (d, s) in
    snd r = Inr () \<and> seen (fst (fst r)) (snd (fst r)) i = Some secret
    \<and> effectiveKeys (fst (fst r)) (newVeniceKeysetStore (ks_bootKeys s)) = Inl key_state_unavailable)"
proof -
  let ?e = "\<lparr> vk_id = i, vk_label = None, vk_key = secret \<rparr>"
  let ?ov = "added_overlay ?e (ks_overlay s)"
  let ?file = "OvFile (next_stamp d) (Some (overlay_json ?ov))"
  let ?s = "s\<lparr> ks_overlay := ?ov, ks_loadedStat := Some (next_stamp d), ks_observed := True \<rparr>"
  have r: "addKey Written (next_stamp d) ?e (d, s) = ((?file, ?s), Inr ())"
    using assms(1) by (simp add: addKey_def fresh_def persist_overlay_def Let_def)
  have "parse_added ids (key_json ?e) = None" for ids
    using assms(3) by (simp add: parse_added_def key_json_def object_field_def)
  then have "parse_added_list {} (map key_json (ov_added ?ov)) = None"
    by (simp add: added_overlay_def parse_added_list_bad)
  then have "parseOverlay (overlay_json ?ov) = Inl key_state_unavailable"
    by (simp add: parseOverlay_def overlay_json_def object_field_def)
  then have "effectiveKeys ?file (newVeniceKeysetStore (ks_bootKeys s)) = Inl key_state_unavailable"
    by (simp add: effectiveKeys_def refresh_def newVeniceKeysetStore_def)
  moreover have "key_map (effective ?s) = (key_map (effective s))(vk_id ?e \<mapsto> vk_key ?e)"
    by (rule effective_added) simp_all
  then have "seen ?file ?s i = Some secret" by (simp add: seen_def refresh_def effective_def)
  ultimately show ?thesis unfolding r Let_def by simp
qed

text \<open>
  An identifier the capability protocol permits but the log does not: a capability whose id has a dot
  passes every check of the verifier, and consuming it always fails.
\<close>

lemma dotted_id_never_consumed:
  "ID_PATTERN ''cap.1'' \<and> snd (consume out now ''cap.1'' n s) \<noteq> Inr True"
proof -
  have "ID_PATTERN ''cap.1''" by (simp add: ID_PATTERN_def id_pattern_def lower_alnum_def)
  moreover have "\<not> CONSUMED_ID_PATTERN ''cap.1''" by (simp add: CONSUMED_ID_PATTERN_def id_pattern_def lower_alnum_def)
  then have "snd (consume out now ''cap.1'' n s) \<noteq> Inr True"
    by (auto simp: consume_def Let_def split: prod.splits sum.splits option.splits)
  ultimately show ?thesis by blast
qed

theorem blank_secret_breaks_store_witness:
  "effectiveKeys (fst (fst (addKey Written 0 \<lparr> vk_id = ''primary'', vk_label = None, vk_key = '' '' \<rparr>
      (OvMissing, newVeniceKeysetStore [\<lparr> vk_id = ''primary'', vk_label = None, vk_key = ''k-1'' \<rparr>]))))
     (newVeniceKeysetStore [\<lparr> vk_id = ''primary'', vk_label = None, vk_key = ''k-1'' \<rparr>]) = Inl key_state_unavailable"
proof -
  let ?s = "newVeniceKeysetStore [\<lparr> vk_id = ''primary'', vk_label = None, vk_key = ''k-1'' \<rparr>]"
  have "fresh OvMissing ?s"
    by (simp add: fresh_def keyset_inv_def refresh_def newVeniceKeysetStore_def)
  moreover have "js_trim '' '' = []" by (simp add: js_trim_def is_js_space_def)
  ultimately show ?thesis
    using blank_secret_breaks_store [of OvMissing ?s "'' ''" "''primary''"]
    by (simp add: Let_def next_stamp_def) (simp add: newVeniceKeysetStore_def)
qed

end
