(* ===== verification/Checks.thy ===== *)
theory Checks
  imports ConsumedLog
begin

section \<open>Attestation checks\<close>

text \<open>
  \<open>src/src/providers/attestation/checks.ts\<close> and the types it uses: the named checks every verifier
  collects, the comparison of hexadecimal identities, the nonce and freshness checks and the result that
  is put together from them. The free text a check may carry for display (\<open>detail\<close>) and a verification
  time as an ISO string are left out; times are numbers of milliseconds, text is 8-bit text.
\<close>

record AttestationCheck =
  c_name :: string
  c_passed :: bool
  c_required :: bool

datatype VerificationLevel = HardwareVerified | SdkVerified | ProviderAttested | Unverified | UnsupportedLevel

datatype HardwareType =
    IntelTdx | AmdSevSnp | NvidiaCc | IntelTdxNvidiaCc | AmdSevSnpNvidiaCc | UnknownHardware

datatype PrivacyModality = TeeModality | E2eeModality

record AttestationExpectations =
  x_provider :: string
  x_canonicalModel :: string
  x_upstreamModel :: string
  x_routeId :: string
  x_endpointIdentity :: string
  x_nonce :: string
  x_privacyModality :: PrivacyModality
  x_policySource :: "string option"
  x_now :: "rat option"
  x_maxEvidenceAgeMs :: "rat option"
  x_cacheTtlMs :: "rat option"

record AttestationEnvelope =
  env_fetchedAtMs :: jsnum
  env_endpointIdentity :: string
  env_payload :: jsval

record AssembleInput =
  in_hardwareType :: HardwareType
  in_requestedLevel :: VerificationLevel
  in_privacyModality :: PrivacyModality
  in_measurementIdentities :: "(string \<times> string) list"
  in_modelWeightIdentity :: "string option"
  in_attestedTlsSpki :: "string option"
  in_attestedEncryptionKey :: "string option"
  in_attestedSigningKey :: "string option"
  in_boundNonce :: "string option"
  in_verifierVersion :: string
  in_supportsClientOpaqueE2ee :: bool
  in_checks :: "AttestationCheck list"

record NormalizedAttestationResult =
  n_provider :: string
  n_canonicalModel :: string
  n_upstreamModel :: string
  n_routeId :: string
  n_endpointIdentity :: string
  n_hardwareType :: HardwareType
  n_verificationLevel :: VerificationLevel
  n_privacyModality :: PrivacyModality
  n_measurementIdentities :: "(string \<times> string) list"
  n_modelWeightIdentity :: "string option"
  n_attestedTlsSpki :: "string option"
  n_attestedEncryptionKey :: "string option"
  n_attestedSigningKey :: "string option"
  n_nonce :: "string option"
  n_verifiedAt :: rat
  n_expiresAt :: rat
  n_policySource :: "string option"
  n_verifierVersion :: string
  n_supportsClientOpaqueE2ee :: bool
  n_ok :: bool
  n_reason :: "string option"
  n_checks :: "AttestationCheck list"

subsection \<open>Checks\<close>

definition check :: "string \<Rightarrow> bool \<Rightarrow> bool \<Rightarrow> AttestationCheck" where
  "check name passed required = \<lparr> c_name = name, c_passed = passed, c_required = required \<rparr>"

definition allRequiredPassed :: "AttestationCheck list \<Rightarrow> bool" where
  "allRequiredPassed checks \<longleftrightarrow> list_all (\<lambda>c. \<not> c_required c \<or> c_passed c) checks"

definition firstRequiredFailure :: "AttestationCheck list \<Rightarrow> string option" where
  "firstRequiredFailure checks = map_option c_name (find (\<lambda>c. c_required c \<and> \<not> c_passed c) checks)"

text \<open>An evidence object without a payload key is taken as the payload itself.\<close>

definition readEnvelope :: "rat \<Rightarrow> jsval \<Rightarrow> AttestationExpectations \<Rightarrow> AttestationEnvelope" where
  "readEnvelope clock evidence x =
     (let now = case x_now x of Some n \<Rightarrow> n | None \<Rightarrow> clock;
          bare = \<lparr> env_fetchedAtMs = Fin now, env_endpointIdentity = x_endpointIdentity x, env_payload = evidence \<rparr> in
      case evidence of
        JObject fs \<Rightarrow>
          (if ''payload'' \<in> fst ` set fs
           then \<lparr> env_fetchedAtMs = (case object_field fs ''fetchedAtMs'' of JNumber t \<Rightarrow> t | _ \<Rightarrow> Fin now),
                  env_endpointIdentity =
                    (case object_field fs ''endpointIdentity'' of JString s \<Rightarrow> s | _ \<Rightarrow> x_endpointIdentity x),
                  env_payload = object_field fs ''payload'' \<rparr>
           else bare)
      | _ \<Rightarrow> bare)"

subsection \<open>Comparison of hexadecimal text\<close>

definition strip_0x :: "string \<Rightarrow> string" where
  "strip_0x s = (if take 2 s = ''0x'' then drop 2 s else s)"

text \<open>The exclusive ors of the character codes are collected, so the loop does not stop early.\<close>

definition differing_bits :: "string \<Rightarrow> string \<Rightarrow> int" where
  "differing_bits x y = foldl (\<lambda>diff (a, b). or diff (xor (of_char a) (of_char b))) 0 (zip x y)"

definition hexEqual :: "string option \<Rightarrow> string option \<Rightarrow> bool" where
  "hexEqual a b =
     (case (a, b) of
        (Some s, Some t) \<Rightarrow>
          s \<noteq> [] \<and> t \<noteq> [] \<and>
          (let x = strip_0x (toLowerCase s); y = strip_0x (toLowerCase t) in
           length x = length y \<and> x \<noteq> [] \<and> list_all lower_hex x \<and> list_all lower_hex y \<and> differing_bits x y = 0)
      | _ \<Rightarrow> False)"

definition nonce_shape :: "string \<Rightarrow> bool" where
  "nonce_shape s \<longleftrightarrow> 32 \<le> length s \<and> length s \<le> 128 \<and> list_all (\<lambda>c. hex_value c \<noteq> None) s"

definition nonceBindingCheck :: "string \<Rightarrow> string option \<Rightarrow> AttestationCheck" where
  "nonceBindingCheck expectedNonce boundNonce =
     (if \<not> nonce_shape expectedNonce then check ''nonce_binding'' False True
      else check ''nonce_binding'' (hexEqual (Some expectedNonce) boundNonce) True)"

subsection \<open>Freshness and the result\<close>

definition DEFAULT_EVIDENCE_MAX_AGE_MS :: rat where
  "DEFAULT_EVIDENCE_MAX_AGE_MS = 5 * 60000"

definition DEFAULT_CACHE_TTL_MS :: rat where
  "DEFAULT_CACHE_TTL_MS = 5 * 60000"

definition freshnessCheck :: "rat \<Rightarrow> jsnum option \<Rightarrow> AttestationExpectations \<Rightarrow> AttestationCheck" where
  "freshnessCheck clock evidenceEpochMs x =
     (let now = case x_now x of Some n \<Rightarrow> n | None \<Rightarrow> clock;
          maxAge = case x_maxEvidenceAgeMs x of Some m \<Rightarrow> m | None \<Rightarrow> DEFAULT_EVIDENCE_MAX_AGE_MS in
      case evidenceEpochMs of
        Some (Fin t) \<Rightarrow> check ''evidence_freshness'' (now - t \<ge> -30000 \<and> now - t \<le> maxAge) True
      | _ \<Rightarrow> check ''evidence_freshness'' False True)"

definition resolveLevel :: "VerificationLevel \<Rightarrow> AttestationCheck list \<Rightarrow> VerificationLevel" where
  "resolveLevel requestedLevel checks = (if \<not> allRequiredPassed checks then Unverified else requestedLevel)"

definition assembleResult ::
  "rat \<Rightarrow> AttestationExpectations \<Rightarrow> AssembleInput \<Rightarrow> NormalizedAttestationResult" where
  "assembleResult clock x input =
     (let now = case x_now x of Some n \<Rightarrow> n | None \<Rightarrow> clock;
          ttl = case x_cacheTtlMs x of Some t \<Rightarrow> t | None \<Rightarrow> DEFAULT_CACHE_TTL_MS;
          ok = allRequiredPassed (in_checks input) in
      \<lparr> n_provider = x_provider x,
        n_canonicalModel = x_canonicalModel x,
        n_upstreamModel = x_upstreamModel x,
        n_routeId = x_routeId x,
        n_endpointIdentity = x_endpointIdentity x,
        n_hardwareType = in_hardwareType input,
        n_verificationLevel = resolveLevel (in_requestedLevel input) (in_checks input),
        n_privacyModality = in_privacyModality input,
        n_measurementIdentities = in_measurementIdentities input,
        n_modelWeightIdentity = in_modelWeightIdentity input,
        n_attestedTlsSpki = in_attestedTlsSpki input,
        n_attestedEncryptionKey = in_attestedEncryptionKey input,
        n_attestedSigningKey = in_attestedSigningKey input,
        n_nonce = in_boundNonce input,
        n_verifiedAt = now,
        n_expiresAt = now + ttl,
        n_policySource = x_policySource x,
        n_verifierVersion = in_verifierVersion input,
        n_supportsClientOpaqueE2ee = in_supportsClientOpaqueE2ee input,
        n_ok = ok,
        n_reason = (if ok then None
                    else Some (case firstRequiredFailure (in_checks input) of
                                 Some r \<Rightarrow> r | None \<Rightarrow> ''verification_failed'')),
        n_checks = in_checks input \<rparr>)"

definition failedResult ::
  "rat \<Rightarrow> AttestationExpectations \<Rightarrow> string \<Rightarrow> VerificationLevel option \<Rightarrow> HardwareType option \<Rightarrow> bool option
    \<Rightarrow> NormalizedAttestationResult" where
  "failedResult clock x verifierVersion lvl hw opaque =
     assembleResult clock x
       \<lparr> in_hardwareType = (case hw of Some h \<Rightarrow> h | None \<Rightarrow> UnknownHardware),
         in_requestedLevel = (case lvl of Some l \<Rightarrow> l | None \<Rightarrow> Unverified),
         in_privacyModality = x_privacyModality x,
         in_measurementIdentities = [],
         in_modelWeightIdentity = None,
         in_attestedTlsSpki = None,
         in_attestedEncryptionKey = None,
         in_attestedSigningKey = None,
         in_boundNonce = None,
         in_verifierVersion = verifierVersion,
         in_supportsClientOpaqueE2ee = (case opaque of Some b \<Rightarrow> b | None \<Rightarrow> False),
         in_checks = [check ''evidence_present'' False True] \<rparr>"

subsection \<open>What the comparison and the verdict say\<close>

lemma check_simps [simp]:
  "c_name (check n p r) = n" "c_passed (check n p r) = p" "c_required (check n p r) = r"
  by (simp_all add: check_def)

lemma allRequiredPassed_simps [simp]:
  "allRequiredPassed []"
  "allRequiredPassed (c # cs) \<longleftrightarrow> (c_required c \<longrightarrow> c_passed c) \<and> allRequiredPassed cs"
  "allRequiredPassed (cs @ ds) \<longleftrightarrow> allRequiredPassed cs \<and> allRequiredPassed ds"
  by (auto simp: allRequiredPassed_def)

lemma firstRequiredFailure_None: "firstRequiredFailure checks = None \<longleftrightarrow> allRequiredPassed checks"
  by (auto simp: firstRequiredFailure_def allRequiredPassed_def find_None_iff list_all_iff)

lemma xor_zero_iff: "xor (i :: int) j = 0 \<longleftrightarrow> i = j"
proof
  assume "xor i j = 0"
  then have "xor i (xor i j) = i" by simp
  then show "i = j" by (simp flip: xor.assoc)
qed simp

lemma differing_bits_start:
  "foldl (\<lambda>diff (a, b). or diff (xor (of_char a) (of_char b))) d ps = (0 :: int)
     \<longleftrightarrow> d = 0 \<and> list_all (\<lambda>(a, b). a = b) ps"
proof (induction ps arbitrary: d)
  case (Cons p ps)
  obtain a b where p: "p = (a, b)" by (cases p)
  show ?case unfolding p foldl_Cons prod.case Cons.IH or_eq_0_iff xor_zero_iff by (simp add: conj_assoc)
qed simp

lemma differing_bits_zero: "length x = length y \<Longrightarrow> differing_bits x y = 0 \<longleftrightarrow> x = y"
  unfolding differing_bits_def differing_bits_start
  by (induction x y rule: list_induct2) auto

lemma hexEqual_iff:
  "hexEqual (Some s) (Some t) \<longleftrightarrow>
     strip_0x (toLowerCase s) = strip_0x (toLowerCase t) \<and> strip_0x (toLowerCase s) \<noteq> []
     \<and> list_all lower_hex (strip_0x (toLowerCase s))"
proof -
  have "u = [] \<Longrightarrow> strip_0x (toLowerCase u) = []" for u by (simp add: strip_0x_def toLowerCase_def)
  then show ?thesis by (auto simp: hexEqual_def Let_def differing_bits_zero)
qed

lemma hexEqual_None [simp]: "\<not> hexEqual None t" "\<not> hexEqual s None"
  by (auto simp: hexEqual_def split: option.splits)

lemma lower_hex_lower_char: "lower_hex c \<Longrightarrow> lower_char c = c"
  by (auto simp: lower_hex_def lower_char_def)

lemma toLowerCase_hex: "list_all lower_hex s \<Longrightarrow> toLowerCase s = s"
  by (induction s) (simp_all add: toLowerCase_def lower_hex_lower_char)

lemma lower_hex_x: "\<not> lower_hex (CHR ''x'')"
  by (simp add: lower_hex_def)

lemma strip_0x_hex: "list_all lower_hex s \<Longrightarrow> strip_0x s = s"
  by (cases s rule: list.exhaust; cases "tl s"; auto simp: strip_0x_def lower_hex_x)

lemmas normal_hex = toLowerCase_hex strip_0x_hex

lemma hexEqual_lower: "list_all lower_hex s \<Longrightarrow> list_all lower_hex t \<Longrightarrow> hexEqual (Some s) (Some t) \<longleftrightarrow> s = t \<and> s \<noteq> []"
  by (simp add: hexEqual_iff normal_hex)

lemma assembled_ok_iff:
  "n_ok (assembleResult clock x input) \<longleftrightarrow> n_reason (assembleResult clock x input) = None"
  "n_ok (assembleResult clock x input) \<longleftrightarrow> allRequiredPassed (in_checks input)"
  by (simp_all add: assembleResult_def Let_def)

end
