(* ===== verification/TdxQuote.thy ===== *)
theory TdxQuote
  imports Checks
begin

section \<open>Intel TDX quotes\<close>

text \<open>
  \<open>src/src/providers/attestation/tdxQuote.ts\<close>: a version 4 quote is read at fixed byte offsets. A
  buffer is a list of numbers below 256. \<open>JSON.parse\<close> is the parameter \<open>json_parse\<close> (\<open>None\<close>: it throws).
  The verifier of the signature chain is an interface without an implementation in the repository; its
  answer is a parameter of the verifiers that call it.
\<close>

record ParsedTdxQuote =
  q_version :: nat
  q_teeType :: nat
  q_mrTd :: string
  q_mrConfigId :: string
  q_rtmr0 :: string
  q_rtmr1 :: string
  q_rtmr2 :: string
  q_rtmr3 :: string
  q_reportData :: string
  q_tdAttributes :: string
  q_debugEnabled :: bool

record TdxMeasurementEntry =
  m_name :: string
  m_mrTd :: string
  m_rtmr0 :: string
  m_rtmr1 :: string
  m_rtmr2 :: string
  m_rtmr3 :: string

definition HEADER_LEN :: nat where "HEADER_LEN = 48"
definition BODY_LEN :: nat where "BODY_LEN = 584"
definition QUOTE_MIN_LEN :: nat where "QUOTE_MIN_LEN = HEADER_LEN + BODY_LEN"
definition OFF_TD_ATTRIBUTES :: nat where "OFF_TD_ATTRIBUTES = 48 + 16 + 48 + 48 + 8"
definition OFF_MR_TD :: nat where "OFF_MR_TD = 48 + 136"
definition OFF_MR_CONFIG_ID :: nat where "OFF_MR_CONFIG_ID = OFF_MR_TD + 48"
definition OFF_RTMR0 :: nat where "OFF_RTMR0 = OFF_MR_CONFIG_ID + 48 * 3"
definition OFF_REPORT_DATA :: nat where "OFF_REPORT_DATA = OFF_RTMR0 + 48 * 4"

lemmas offset_defs =
  HEADER_LEN_def BODY_LEN_def QUOTE_MIN_LEN_def OFF_TD_ATTRIBUTES_def OFF_MR_TD_def OFF_MR_CONFIG_ID_def
  OFF_RTMR0_def OFF_REPORT_DATA_def

definition decodeQuote :: "string \<Rightarrow> nat list option" where
  "decodeQuote input =
     (let clean = js_trim input in
      if clean \<noteq> [] \<and> list_all (\<lambda>c. hex_value c \<noteq> None) clean \<and> even (length clean) then Some (hex_bytes clean)
      else let buf = fromBase64url clean in if length buf \<ge> QUOTE_MIN_LEN then Some buf else None)"

definition subarray :: "nat list \<Rightarrow> nat \<Rightarrow> nat \<Rightarrow> nat list" where
  "subarray buf off len = take len (drop off buf)"

fun le_value :: "nat list \<Rightarrow> nat" where
  "le_value [] = 0"
| "le_value (b # bs) = b + 256 * le_value bs"

definition parseTdxQuote :: "jsval \<Rightarrow> ParsedTdxQuote option" where
  "parseTdxQuote input =
     (case input of
        JString s \<Rightarrow>
          if s = [] then None
          else (case decodeQuote s of
                  None \<Rightarrow> None
                | Some buf \<Rightarrow>
                    if length buf < QUOTE_MIN_LEN then None
                    else let hex = (\<lambda>off len. bytes_hex (subarray buf off len)) in
                      Some \<lparr> q_version = le_value (subarray buf 0 2),
                             q_teeType = le_value (subarray buf 4 4),
                             q_mrTd = hex OFF_MR_TD 48,
                             q_mrConfigId = hex OFF_MR_CONFIG_ID 48,
                             q_rtmr0 = hex OFF_RTMR0 48,
                             q_rtmr1 = hex (OFF_RTMR0 + 48) 48,
                             q_rtmr2 = hex (OFF_RTMR0 + 96) 48,
                             q_rtmr3 = hex (OFF_RTMR0 + 144) 48,
                             q_reportData = hex OFF_REPORT_DATA 64,
                             q_tdAttributes = hex OFF_TD_ATTRIBUTES 8,
                             q_debugEnabled = odd (buf ! OFF_TD_ATTRIBUTES) \<rparr>)
      | _ \<Rightarrow> None)"

definition dstackDeclaredGpuCount :: "(string \<Rightarrow> jsval option) \<Rightarrow> jsval \<Rightarrow> int option" where
  "dstackDeclaredGpuCount json_parse vmConfig =
     (case (case vmConfig of JString s \<Rightarrow> json_parse s | v \<Rightarrow> Some v) of
        Some (JObject fs) \<Rightarrow>
          (case object_field fs ''num_gpus'' of
             JNumber (Fin q) \<Rightarrow> if is_whole q \<and> q \<ge> 0 then Some \<lfloor>q\<rfloor> else None
           | _ \<Rightarrow> None)
      | _ \<Rightarrow> None)"

definition tdxHardwareTypeFor :: "int option \<Rightarrow> HardwareType" where
  "tdxHardwareTypeFor declaredGpuCount =
     (case declaredGpuCount of
        None \<Rightarrow> UnknownHardware
      | Some n \<Rightarrow> if n > 0 then IntelTdxNvidiaCc else IntelTdx)"

definition same_measurements :: "ParsedTdxQuote \<Rightarrow> TdxMeasurementEntry \<Rightarrow> bool" where
  "same_measurements q e \<longleftrightarrow>
     toLowerCase (q_mrTd q) = toLowerCase (m_mrTd e)
     \<and> toLowerCase (q_rtmr0 q) = toLowerCase (m_rtmr0 e)
     \<and> toLowerCase (q_rtmr1 q) = toLowerCase (m_rtmr1 e)
     \<and> toLowerCase (q_rtmr2 q) = toLowerCase (m_rtmr2 e)
     \<and> toLowerCase (q_rtmr3 q) = toLowerCase (m_rtmr3 e)"

definition matchMeasurementAllowlist :: "ParsedTdxQuote \<Rightarrow> TdxMeasurementEntry list \<Rightarrow> string option" where
  "matchMeasurementAllowlist q allowlist = map_option m_name (find (same_measurements q) allowlist)"

subsection \<open>The layout\<close>

text \<open>The TD report as the processor lays it out, field by field after a header of 48 bytes.\<close>

record td_report =
  td_header :: "nat list"
  td_tcb_svn :: "nat list"
  td_mr_seam :: "nat list"
  td_mr_signer_seam :: "nat list"
  td_seam_attributes :: "nat list"
  td_attributes :: "nat list"
  td_xfam :: "nat list"
  td_mr_td :: "nat list"
  td_mr_config_id :: "nat list"
  td_mr_owner :: "nat list"
  td_mr_owner_config :: "nat list"
  td_rtmr0 :: "nat list"
  td_rtmr1 :: "nat list"
  td_rtmr2 :: "nat list"
  td_rtmr3 :: "nat list"
  td_report_data :: "nat list"

definition report_fields :: "td_report \<Rightarrow> nat list list" where
  "report_fields r =
     [td_header r, td_tcb_svn r, td_mr_seam r, td_mr_signer_seam r, td_seam_attributes r, td_attributes r, td_xfam r,
      td_mr_td r, td_mr_config_id r, td_mr_owner r, td_mr_owner_config r, td_rtmr0 r, td_rtmr1 r, td_rtmr2 r,
      td_rtmr3 r, td_report_data r]"

definition report_sizes :: "nat list" where
  "report_sizes = [48, 16, 48, 48, 8, 8, 8, 48, 48, 48, 48, 48, 48, 48, 48, 64]"

definition report_ok :: "td_report \<Rightarrow> bool" where
  "report_ok r \<longleftrightarrow> map length (report_fields r) = report_sizes \<and> list_all (list_all is_byte) (report_fields r)"

lemma subarray_append:
  "length as \<le> off \<Longrightarrow> subarray (as @ bs) off len = subarray bs (off - length as) len"
  by (simp add: subarray_def)

lemma subarray_here: "length as = len \<Longrightarrow> subarray (as @ bs) 0 len = as"
  by (simp add: subarray_def)

lemma hex_value_lower: "lower_hex c \<Longrightarrow> hex_value c \<noteq> None"
  by (auto simp: lower_hex_def hex_value_def)

lemma lower_hex_not_space: "lower_hex c \<Longrightarrow> \<not> is_js_space c"
  by (auto simp: lower_hex_def is_js_space_def)

lemma js_trim_hex: "list_all lower_hex s \<Longrightarrow> js_trim s = s"
proof -
  assume s: "list_all lower_hex s"
  then have "dropWhile is_js_space s = s" by (cases s) (simp_all add: lower_hex_not_space)
  moreover have "dropWhile is_js_space (rev s) = rev s"
    using s by (cases s rule: rev_cases) (simp_all add: lower_hex_not_space)
  ultimately show ?thesis by (simp add: js_trim_def)
qed

lemma decodeQuote_hex:
  assumes "list_all is_byte bs" and "bs \<noteq> []"
  shows "decodeQuote (bytes_hex bs) = Some bs"
proof -
  have lower: "list_all lower_hex (bytes_hex bs)" using assms(1) by (rule bytes_hex_lower)
  have "bytes_hex bs \<noteq> []" using assms(2) by (cases bs) (simp_all add: bytes_hex_def)
  moreover have "list_all (\<lambda>c. hex_value c \<noteq> None) (bytes_hex bs)"
    using lower by (auto simp: list_all_iff dest: hex_value_lower)
  moreover have "hex_bytes (bytes_hex bs) = bs" using hex_bytes_hex [OF assms(1), of "[]"] by simp
  ultimately show ?thesis by (simp add: decodeQuote_def Let_def js_trim_hex [OF lower])
qed

subsection \<open>Every field is read from its place\<close>

lemma nth_hd_subarray: "off < length buf \<Longrightarrow> buf ! off = hd (subarray buf off 8)"
  by (simp add: subarray_def hd_drop_conv_nth hd_take)

lemma report_length: "report_ok r \<Longrightarrow> length (concat (report_fields r)) = QUOTE_MIN_LEN"
  by (simp add: report_ok_def length_concat report_sizes_def offset_defs)

lemma report_reads:
  fixes rest :: "nat list"
  assumes "report_ok r"
  defines "buf \<equiv> concat (report_fields r) @ rest"
  shows "subarray buf 0 2 = take 2 (td_header r)"
    and "subarray buf 4 4 = take 4 (drop 4 (td_header r))"
    and "subarray buf OFF_TD_ATTRIBUTES 8 = td_attributes r"
    and "subarray buf OFF_MR_TD 48 = td_mr_td r"
    and "subarray buf OFF_MR_CONFIG_ID 48 = td_mr_config_id r"
    and "subarray buf OFF_RTMR0 48 = td_rtmr0 r"
    and "subarray buf (OFF_RTMR0 + 48) 48 = td_rtmr1 r"
    and "subarray buf (OFF_RTMR0 + 96) 48 = td_rtmr2 r"
    and "subarray buf (OFF_RTMR0 + 144) 48 = td_rtmr3 r"
    and "subarray buf OFF_REPORT_DATA 64 = td_report_data r"
  using assms(1) unfolding buf_def report_ok_def report_sizes_def report_fields_def
  by (simp_all add: subarray_def offset_defs)

lemma parsed_report:
  assumes "report_ok r" and "list_all is_byte rest"
  shows "parseTdxQuote (JString (bytes_hex (concat (report_fields r) @ rest))) =
    Some \<lparr> q_version = le_value (take 2 (td_header r)),
           q_teeType = le_value (take 4 (drop 4 (td_header r))),
           q_mrTd = bytes_hex (td_mr_td r),
           q_mrConfigId = bytes_hex (td_mr_config_id r),
           q_rtmr0 = bytes_hex (td_rtmr0 r),
           q_rtmr1 = bytes_hex (td_rtmr1 r),
           q_rtmr2 = bytes_hex (td_rtmr2 r),
           q_rtmr3 = bytes_hex (td_rtmr3 r),
           q_reportData = bytes_hex (td_report_data r),
           q_tdAttributes = bytes_hex (td_attributes r),
           q_debugEnabled = odd (hd (td_attributes r)) \<rparr>"
proof -
  define buf where "buf = concat (report_fields r) @ rest"
  have len: "QUOTE_MIN_LEN \<le> length buf" using report_length [OF assms(1)] by (simp add: buf_def)
  then have "buf \<noteq> []" and off: "OFF_TD_ATTRIBUTES < length buf" by (auto simp: offset_defs)
  have bytes: "list_all is_byte buf" using assms by (auto simp: buf_def report_ok_def list_all_iff)
  have "bytes_hex buf \<noteq> []" using \<open>buf \<noteq> []\<close> by (metis length_bytes_hex length_0_conv mult_eq_0_iff zero_neq_numeral)
  then show ?thesis
    using decodeQuote_hex [OF bytes \<open>buf \<noteq> []\<close>] len report_reads [OF assms(1), of rest] nth_hd_subarray [OF off]
    by (simp add: parseTdxQuote_def Let_def flip: buf_def)
qed

text \<open>
  A quote is read correctly: for a TD report of the documented layout, followed by any signature
  data and sent in hexadecimal, every register, the report data and the attributes the parser returns are
  the report's own, the debug flag is bit 0 of the attributes, and the TEE type is the little-endian number
  at offset 4 of the header.
\<close>

theorem tdx_quote_layout:
  assumes "report_ok r" and "list_all is_byte rest"
  shows "parseTdxQuote (JString (bytes_hex (concat (report_fields r) @ rest))) =
    Some \<lparr> q_version = le_value (take 2 (td_header r)),
           q_teeType = le_value (take 4 (drop 4 (td_header r))),
           q_mrTd = bytes_hex (td_mr_td r),
           q_mrConfigId = bytes_hex (td_mr_config_id r),
           q_rtmr0 = bytes_hex (td_rtmr0 r),
           q_rtmr1 = bytes_hex (td_rtmr1 r),
           q_rtmr2 = bytes_hex (td_rtmr2 r),
           q_rtmr3 = bytes_hex (td_rtmr3 r),
           q_reportData = bytes_hex (td_report_data r),
           q_tdAttributes = bytes_hex (td_attributes r),
           q_debugEnabled = odd (hd (td_attributes r)) \<rparr>"
  using assms by (rule parsed_report)

definition sample_report :: td_report where
  "sample_report =
     \<lparr> td_header = [4, 0, 2, 0, 129, 0, 0, 0] @ replicate 40 0, td_tcb_svn = replicate 16 1, td_mr_seam = replicate 48 2,
       td_mr_signer_seam = replicate 48 3, td_seam_attributes = replicate 8 4, td_attributes = replicate 8 5,
       td_xfam = replicate 8 6, td_mr_td = replicate 48 7, td_mr_config_id = replicate 48 8, td_mr_owner = replicate 48 9,
       td_mr_owner_config = replicate 48 10, td_rtmr0 = replicate 48 11, td_rtmr1 = replicate 48 12,
       td_rtmr2 = replicate 48 13, td_rtmr3 = replicate 48 14, td_report_data = replicate 64 15 \<rparr>"

lemma sample_report_ok: "report_ok sample_report"
  by (simp add: report_ok_def report_fields_def report_sizes_def sample_report_def list_all_iff is_byte_def)

theorem tdx_quote_layout_witness:
  "\<exists>q. parseTdxQuote (JString (bytes_hex (concat (report_fields sample_report) @ [1, 2]))) = Some q
     \<and> q_teeType q = 0x81 \<and> q_debugEnabled q \<and> q_rtmr3 q = bytes_hex (replicate 48 14)"
  using tdx_quote_layout [OF sample_report_ok, of "[1, 2]"]
  by (simp add: is_byte_def) (simp add: sample_report_def)

end
