(* ===== verification/EventLog.thy ===== *)
theory EventLog
  imports TdxQuote
begin

section \<open>Replay of a dstack event log\<close>

text \<open>
  \<open>src/src/gateway/eventLog.ts\<close>. The quote carries the runtime registers as measured by hardware; the
  event log says in clear what was measured. The replay extends each register by the digests of the log
  and the caller compares the result with the quote. \<open>H\<close> is SHA-384 on byte lists and \<open>parse_bytes\<close> is
  \<open>JSON.parse\<close> of bytes read as UTF-8 (\<open>None\<close>: it throws); both are parameters. Text is 8-bit text.
\<close>

record DstackEventLogEntry =
  ev_imr :: nat
  ev_event_type :: jsnum
  ev_digest :: string
  ev_event :: string
  ev_event_payload :: string
  ev_preimage :: "string option"
  ev_version :: "jsnum option"

definition RTMR_COUNT :: nat where "RTMR_COUNT = 4"
definition DIGEST_BYTES :: nat where "DIGEST_BYTES = 48"
definition MAX_EVENTS :: nat where "MAX_EVENTS = 4096"

definition RTMR_INITIAL_VALUE :: string where
  "RTMR_INITIAL_VALUE = replicate 96 (CHR ''0'')"

subsection \<open>Parsing\<close>

definition any_hex :: "string \<Rightarrow> bool" where
  "any_hex s \<longleftrightarrow> list_all (\<lambda>c. hex_value c \<noteq> None) s"

definition register_index :: "jsval \<Rightarrow> nat option" where
  "register_index v =
     (case v of
        JNumber (Fin q) \<Rightarrow> if is_whole q \<and> 0 \<le> q \<and> q < of_nat RTMR_COUNT then Some (nat \<lfloor>q\<rfloor>) else None
      | _ \<Rightarrow> None)"

definition event_entry :: "nat \<Rightarrow> (string \<times> jsval) list \<Rightarrow> string \<Rightarrow> string option \<Rightarrow> DstackEventLogEntry" where
  "event_entry imr fs digest preimage =
     \<lparr> ev_imr = imr,
       ev_event_type = (case object_field fs ''event_type'' of JNumber n \<Rightarrow> n | _ \<Rightarrow> Fin (- 1)),
       ev_digest = toLowerCase digest,
       ev_event = (case object_field fs ''event'' of JString s \<Rightarrow> s | _ \<Rightarrow> []),
       ev_event_payload = (case object_field fs ''event_payload'' of JString s \<Rightarrow> toLowerCase s | _ \<Rightarrow> []),
       ev_preimage = preimage,
       ev_version = (case object_field fs ''version'' of JNumber n \<Rightarrow> Some n | _ \<Rightarrow> None) \<rparr>"

definition parse_event :: "jsval \<Rightarrow> DstackEventLogEntry result" where
  "parse_event entry =
     (case entry of
        JObject fs \<Rightarrow>
          (case register_index (object_field fs ''imr'') of
             None \<Rightarrow> Inl EventLogError
           | Some imr \<Rightarrow>
               (case object_field fs ''digest'' of
                  JString digest \<Rightarrow>
                    if \<not> any_hex digest \<or> odd (length digest) then Inl EventLogError
                    else if length digest > DIGEST_BYTES * 2 then Inl EventLogError
                    else (case object_field fs ''preimage'' of
                            JUndefined \<Rightarrow> Inr (event_entry imr fs digest None)
                          | JString p \<Rightarrow> Inr (event_entry imr fs digest (Some (toLowerCase p)))
                          | _ \<Rightarrow> Inl EventLogError)
                | _ \<Rightarrow> Inl EventLogError))
      | _ \<Rightarrow> Inl EventLogError)"

definition parseEventLog :: "(string \<Rightarrow> jsval option) \<Rightarrow> jsval \<Rightarrow> DstackEventLogEntry list result" where
  "parseEventLog json_parse input =
     (case (case input of JString s \<Rightarrow> json_parse s | v \<Rightarrow> Some v) of
        Some (JArray raw) \<Rightarrow>
          if length raw > MAX_EVENTS then Inl EventLogError else map_result parse_event raw
      | _ \<Rightarrow> Inl EventLogError)"

subsection \<open>Replay\<close>

definition pad_digest :: "nat list \<Rightarrow> nat list" where
  "pad_digest content =
     (if length content < DIGEST_BYTES then content @ replicate (DIGEST_BYTES - length content) 0 else content)"

definition replayRegister :: "(nat list \<Rightarrow> nat list) \<Rightarrow> string list \<Rightarrow> string" where
  "replayRegister H digests =
     bytes_hex (foldl (\<lambda>register digest. H (register @ pad_digest (hex_bytes digest)))
                 (hex_bytes RTMR_INITIAL_VALUE) digests)"

definition trunc :: "rat \<Rightarrow> int" where
  "trunc q = (if q < 0 then - \<lfloor>- q\<rfloor> else \<lfloor>q\<rfloor>)"

fun to_uint32 :: "jsnum \<Rightarrow> nat" where
  "to_uint32 (Fin q) = nat (trunc q mod 2 ^ 32)"
| "to_uint32 _ = 0"

definition u32_le :: "nat \<Rightarrow> nat list" where
  "u32_le n = [n mod 256, n div 256 mod 256, n div 65536 mod 256, n div 16777216 mod 256]"

definition utf8_char :: "char \<Rightarrow> nat list" where
  "utf8_char c = (let n = of_char c in if n < 128 then [n] else [192 + n div 64, 128 + n mod 64])"

definition utf8_text :: "string \<Rightarrow> nat list" where
  "utf8_text s = concat (map utf8_char s)"

definition colon :: nat where "colon = 58"

definition v1_bytes :: "DstackEventLogEntry \<Rightarrow> nat list" where
  "v1_bytes ev =
     u32_le (to_uint32 (ev_event_type ev)) @ [colon] @ utf8_text (ev_event ev) @ [colon] @ hex_bytes (ev_event_payload ev)"

definition computeRtmr3EventDigestV1 :: "(nat list \<Rightarrow> nat list) \<Rightarrow> DstackEventLogEntry \<Rightarrow> string" where
  "computeRtmr3EventDigestV1 H ev = bytes_hex (H (v1_bytes ev))"

definition names_event :: "jsval \<Rightarrow> DstackEventLogEntry \<Rightarrow> bool" where
  "names_event decoded ev \<longleftrightarrow>
     (case decoded of
        JObject fs \<Rightarrow>
          object_field fs ''name'' = JString (ev_event ev)
          \<and> (case object_field fs ''payload'' of
               JString p \<Rightarrow> strip_0x (toLowerCase p) = strip_0x (ev_event_payload ev)
             | _ \<Rightarrow> False)
          \<and> (case object_field fs ''type'' of
               JUndefined \<Rightarrow> True
             | JNumber n \<Rightarrow> n = ev_event_type ev \<and> n \<noteq> NaN
             | _ \<Rightarrow> False)
      | _ \<Rightarrow> False)"

definition v2DigestIsSelfConsistent ::
  "(nat list \<Rightarrow> nat list) \<Rightarrow> (nat list \<Rightarrow> jsval option) \<Rightarrow> DstackEventLogEntry \<Rightarrow> bool" where
  "v2DigestIsSelfConsistent H parse_bytes ev =
     (case ev_preimage ev of
        None \<Rightarrow> False
      | Some preimage \<Rightarrow>
          if \<not> list_all lower_hex preimage \<or> odd (length preimage) \<or> preimage = [] then False
          else if bytes_hex (H (hex_bytes preimage)) \<noteq> ev_digest ev then False
          else (case parse_bytes (hex_bytes preimage) of
                  None \<Rightarrow> False
                | Some decoded \<Rightarrow> names_event decoded ev))"

fun js_negative :: "jsnum \<Rightarrow> bool" where
  "js_negative (Fin q) = (q < 0)"
| "js_negative NegInf = True"
| "js_negative _ = False"

definition rtmr3EventDigest ::
  "(nat list \<Rightarrow> nat list) \<Rightarrow> (nat list \<Rightarrow> jsval option) \<Rightarrow> DstackEventLogEntry \<Rightarrow> string option" where
  "rtmr3EventDigest H parse_bytes ev =
     (if \<not> list_all lower_hex (ev_event_payload ev) \<or> odd (length (ev_event_payload ev)) then None
      else if ev_preimage ev \<noteq> None
           then (if v2DigestIsSelfConsistent H parse_bytes ev then Some (ev_digest ev) else None)
      else if js_negative (ev_event_type ev) then None
      else Some (computeRtmr3EventDigestV1 H ev))"

definition rtmr3EventDigestIsSelfConsistent ::
  "(nat list \<Rightarrow> nat list) \<Rightarrow> (nat list \<Rightarrow> jsval option) \<Rightarrow> DstackEventLogEntry \<Rightarrow> bool" where
  "rtmr3EventDigestIsSelfConsistent H parse_bytes ev =
     (case rtmr3EventDigest H parse_bytes ev of
        None \<Rightarrow> False
      | Some derived \<Rightarrow> if ev_digest ev = [] then True else derived = ev_digest ev)"

definition UNHASHABLE :: string where
  "UNHASHABLE = concat (replicate 48 ''ff'')"

definition replay_digest ::
  "(nat list \<Rightarrow> nat list) \<Rightarrow> (nat list \<Rightarrow> jsval option) \<Rightarrow> nat \<Rightarrow> DstackEventLogEntry \<Rightarrow> string" where
  "replay_digest H parse_bytes index ev =
     (if index = 3
      then (case rtmr3EventDigest H parse_bytes ev of Some d \<Rightarrow> d | None \<Rightarrow> UNHASHABLE)
      else ev_digest ev)"

definition replayRtmrs ::
  "(nat list \<Rightarrow> nat list) \<Rightarrow> (nat list \<Rightarrow> jsval option) \<Rightarrow> DstackEventLogEntry list \<Rightarrow> string list" where
  "replayRtmrs H parse_bytes events =
     map (\<lambda>index. replayRegister H (map (replay_digest H parse_bytes index) (filter (\<lambda>ev. ev_imr ev = index) events)))
       [0..<RTMR_COUNT]"

definition inconsistentRtmr3Events ::
  "(nat list \<Rightarrow> nat list) \<Rightarrow> (nat list \<Rightarrow> jsval option) \<Rightarrow> DstackEventLogEntry list \<Rightarrow> DstackEventLogEntry list" where
  "inconsistentRtmr3Events H parse_bytes events =
     filter (\<lambda>ev. ev_imr ev = 3 \<and> \<not> rtmr3EventDigestIsSelfConsistent H parse_bytes ev) events"

definition singleEventPayload ::
  "(nat list \<Rightarrow> nat list) \<Rightarrow> (nat list \<Rightarrow> jsval option) \<Rightarrow> DstackEventLogEntry list \<Rightarrow> string
    \<Rightarrow> string option result" where
  "singleEventPayload H parse_bytes events name =
     (case filter (\<lambda>ev. ev_event ev = name) events of
        [] \<Rightarrow> Inr None
      | [ev] \<Rightarrow>
          if ev_imr ev \<noteq> 3 then Inl EventLogError
          else if \<not> rtmr3EventDigestIsSelfConsistent H parse_bytes ev then Inl EventLogError
          else Inr (Some (ev_event_payload ev))
      | _ \<Rightarrow> Inl EventLogError)"

end
