(* ===== verification/GatewayBinding.thy ===== *)
theory GatewayBinding
  imports EventLog
begin

section \<open>The binding of the gateway attestation\<close>

text \<open>
  \<open>src/src/gateway/binding.ts\<close>: the object whose SHA-512 digest fills the report data of the quote, its
  validation and its canonical text. \<open>new URL\<close> is the parameter \<open>parse_url\<close> (\<open>None\<close>: it throws) and
  SHA-512 the parameter \<open>S\<close>. Text is 8-bit text; \<open>JSON.stringify\<close> of it is written out.
\<close>

datatype GatewayKeyAlgorithm = X25519 | Ed25519 | Secp256k1

datatype GatewayTransportBinding = InTeeTls | GatewayTls

record GatewayAttestationBinding =
  b_nonce :: string
  b_app_id :: string
  b_instance_id :: string
  b_compose_hash :: string
  b_release_id :: string
  b_origin :: string
  b_key_alg :: GatewayKeyAlgorithm
  b_public_key :: string
  b_transport :: GatewayTransportBinding
  b_tls_spki_sha256 :: "string option"

record url_parts =
  u_protocol :: string
  u_username :: string
  u_password :: string
  u_search :: string
  u_hash :: string
  u_pathname :: string
  u_origin :: string

text \<open>The version field is the constant 1 of every binding.\<close>

definition GATEWAY_BINDING_VERSION :: rat where "GATEWAY_BINDING_VERSION = 1"
definition GATEWAY_NONCE_HEX_LENGTH :: nat where "GATEWAY_NONCE_HEX_LENGTH = 32 * 2"

fun key_alg_text :: "GatewayKeyAlgorithm \<Rightarrow> string" where
  "key_alg_text X25519 = ''x25519''"
| "key_alg_text Ed25519 = ''ed25519''"
| "key_alg_text Secp256k1 = ''secp256k1''"

definition KEY_ALGORITHMS :: "GatewayKeyAlgorithm list" where
  "KEY_ALGORITHMS = [X25519, Ed25519, Secp256k1]"

fun transport_text :: "GatewayTransportBinding \<Rightarrow> string" where
  "transport_text InTeeTls = ''in-tee-tls''"
| "transport_text GatewayTls = ''gateway-tls''"

definition TRANSPORT_BINDINGS :: "GatewayTransportBinding list" where
  "TRANSPORT_BINDINGS = [InTeeTls, GatewayTls]"

definition CANONICAL_FIELD_ORDER :: "string list" where
  "CANONICAL_FIELD_ORDER =
     [''v'', ''nonce'', ''app_id'', ''instance_id'', ''compose_hash'', ''release_id'', ''origin'', ''key_alg'',
      ''public_key'', ''transport'', ''tls_spki_sha256'']"

subsection \<open>Validation\<close>

definition requireLowercaseHex :: "string \<Rightarrow> jsval \<Rightarrow> nat option \<Rightarrow> string result" where
  "requireLowercaseHex field v exactChars =
     (case v of
        JString s \<Rightarrow>
          if s = [] \<or> \<not> list_all lower_hex s then Inl (GatewayBindingError field)
          else (case exactChars of
                  Some n \<Rightarrow> if length s \<noteq> n then Inl (GatewayBindingError field) else Inr s
                | None \<Rightarrow> if length s = 0 \<or> length s > 512 then Inl (GatewayBindingError field) else Inr s)
      | _ \<Rightarrow> Inl (GatewayBindingError field))"

definition drop_final_slash :: "string \<Rightarrow> string" where
  "drop_final_slash s = (if s \<noteq> [] \<and> last s = CHR ''/'' then butlast s else s)"

definition canonicalGatewayOrigin :: "(string \<Rightarrow> url_parts option) \<Rightarrow> jsval \<Rightarrow> string result" where
  "canonicalGatewayOrigin parse_url v =
     (case v of
        JString s \<Rightarrow>
          if s = [] \<or> length s > 253 + 16 then Inl (GatewayBindingError ''origin'')
          else (case parse_url s of
                  None \<Rightarrow> Inl (GatewayBindingError ''origin'')
                | Some u \<Rightarrow>
                    if u_protocol u \<noteq> ''https:'' \<and> u_protocol u \<noteq> ''http:''
                    then Inl (GatewayBindingError ''origin'')
                    else if u_username u \<noteq> [] \<or> u_password u \<noteq> [] \<or> u_search u \<noteq> [] \<or> u_hash u \<noteq> []
                            \<or> u_pathname u \<noteq> ''/''
                    then Inl (GatewayBindingError ''origin'')
                    else if u_origin u \<noteq> drop_final_slash s then Inl (GatewayBindingError ''origin'')
                    else Inr (u_origin u))
      | _ \<Rightarrow> Inl (GatewayBindingError ''origin''))"

definition assertGatewayNonce :: "jsval \<Rightarrow> string result" where
  "assertGatewayNonce v =
     (case v of
        JString s \<Rightarrow> requireLowercaseHex ''nonce'' (JString (toLowerCase s)) (Some GATEWAY_NONCE_HEX_LENGTH)
      | _ \<Rightarrow> Inl (GatewayBindingError ''nonce''))"

text \<open>\<open>typeof x === "string" ? x.toLowerCase().replace(/^0x/, "") : x\<close>\<close>

definition lowered :: "jsval \<Rightarrow> jsval" where
  "lowered v = (case v of JString s \<Rightarrow> JString (toLowerCase s) | _ \<Rightarrow> v)"

definition lowered_0x :: "jsval \<Rightarrow> jsval" where
  "lowered_0x v = (case v of JString s \<Rightarrow> JString (strip_0x (toLowerCase s)) | _ \<Rightarrow> v)"

text \<open>\<open>/^[A-Za-z0-9._:@+-]{1,128}$/\<close>\<close>

definition release_char :: "char \<Rightarrow> bool" where
  "release_char c \<longleftrightarrow>
     (let n = of_char c :: nat in
      65 \<le> n \<and> n \<le> 90 \<or> 97 \<le> n \<and> n \<le> 122 \<or> 48 \<le> n \<and> n \<le> 57 \<or> c \<in> set ''._:@+-'')"

definition release_pattern :: "string \<Rightarrow> bool" where
  "release_pattern s \<longleftrightarrow> 1 \<le> length s \<and> length s \<le> 128 \<and> list_all release_char s"

definition read_name :: "string \<Rightarrow> ('a \<Rightarrow> string) \<Rightarrow> 'a list \<Rightarrow> jsval \<Rightarrow> 'a result" where
  "read_name field text choices v =
     (case v of
        JString s \<Rightarrow>
          (case find (\<lambda>x. text x = s) choices of None \<Rightarrow> Inl (GatewayBindingError field) | Some x \<Rightarrow> Inr x)
      | _ \<Rightarrow> Inl (GatewayBindingError field))"

definition read_tls :: "(string \<times> jsval) list \<Rightarrow> GatewayTransportBinding \<Rightarrow> string option result" where
  "read_tls fs transport =
     (let field = ''tls_spki_sha256'' in
      if field \<notin> fst ` set fs then Inl (GatewayBindingError field)
      else and_then
        (case object_field fs field of
           JNull \<Rightarrow> Inr None
         | v \<Rightarrow> and_then (requireLowercaseHex field (lowered v) (Some 64)) (\<lambda>s. Inr (Some s)))
        (\<lambda>tls. if transport = InTeeTls \<and> tls = None then Inl (GatewayBindingError field)
                else if transport = GatewayTls \<and> tls \<noteq> None then Inl (GatewayBindingError field)
                else Inr tls))"

definition normalize_fields ::
  "(string \<Rightarrow> url_parts option) \<Rightarrow> (string \<times> jsval) list \<Rightarrow> GatewayAttestationBinding result" where
  "normalize_fields parse_url fs =
     (if object_field fs ''v'' \<noteq> JNumber (Fin GATEWAY_BINDING_VERSION) then Inl (GatewayBindingError ''v'')
      else
        and_then (read_name ''key_alg'' key_alg_text KEY_ALGORITHMS (object_field fs ''key_alg'')) (\<lambda>alg.
        and_then (case object_field fs ''release_id'' of
                    JString s \<Rightarrow> if release_pattern s then Inr s else Inl (GatewayBindingError ''release_id'')
                  | _ \<Rightarrow> Inl (GatewayBindingError ''release_id'')) (\<lambda>release.
        and_then (read_name ''transport'' transport_text TRANSPORT_BINDINGS (object_field fs ''transport'')) (\<lambda>transport.
        and_then (read_tls fs transport) (\<lambda>tls.
        and_then (assertGatewayNonce (object_field fs ''nonce'')) (\<lambda>nonce.
        and_then (requireLowercaseHex ''app_id'' (lowered_0x (object_field fs ''app_id'')) None) (\<lambda>app.
        and_then (requireLowercaseHex ''instance_id'' (lowered_0x (object_field fs ''instance_id'')) None) (\<lambda>inst.
        and_then (requireLowercaseHex ''compose_hash'' (lowered_0x (object_field fs ''compose_hash'')) (Some 64)) (\<lambda>compose.
        and_then (canonicalGatewayOrigin parse_url (object_field fs ''origin'')) (\<lambda>origin.
        and_then (requireLowercaseHex ''public_key'' (lowered_0x (object_field fs ''public_key'')) None) (\<lambda>key.
          Inr \<lparr> b_nonce = nonce, b_app_id = app, b_instance_id = inst, b_compose_hash = compose,
                b_release_id = release, b_origin = origin, b_key_alg = alg, b_public_key = key,
                b_transport = transport, b_tls_spki_sha256 = tls \<rparr>)))))))))))"

definition normalizeGatewayBinding ::
  "(string \<Rightarrow> url_parts option) \<Rightarrow> jsval \<Rightarrow> GatewayAttestationBinding result" where
  "normalizeGatewayBinding parse_url v =
     (case v of
        JObject fs \<Rightarrow>
          (case find (\<lambda>k. k \<notin> set CANONICAL_FIELD_ORDER) (map fst fs) of
             Some k \<Rightarrow> Inl (GatewayBindingError k)
           | None \<Rightarrow> normalize_fields parse_url fs)
      | _ \<Rightarrow> Inl (GatewayBindingError ''binding''))"

subsection \<open>Canonical text\<close>

definition json_escape :: "char \<Rightarrow> string" where
  "json_escape c =
     (let n = of_char c :: nat in
      if n = 34 then [CHR 0x5C, CHR 0x22]
      else if n = 92 then [CHR 0x5C, CHR 0x5C]
      else if n = 8 then [CHR 0x5C, CHR ''b'']
      else if n = 9 then [CHR 0x5C, CHR ''t'']
      else if n = 10 then [CHR 0x5C, CHR ''n'']
      else if n = 12 then [CHR 0x5C, CHR ''f'']
      else if n = 13 then [CHR 0x5C, CHR ''r'']
      else if n < 32 then [CHR 0x5C, CHR ''u'', CHR ''0'', CHR ''0'', hex_digit (n div 16), hex_digit (n mod 16)]
      else [c])"

definition json_string :: "string \<Rightarrow> string" where
  "json_string s = [CHR 0x22] @ concat (map json_escape s) @ [CHR 0x22]"

definition binding_values :: "GatewayAttestationBinding \<Rightarrow> string list" where
  "binding_values b =
     [''1'', json_string (b_nonce b), json_string (b_app_id b), json_string (b_instance_id b),
      json_string (b_compose_hash b), json_string (b_release_id b), json_string (b_origin b),
      json_string (key_alg_text (b_key_alg b)), json_string (b_public_key b),
      json_string (transport_text (b_transport b)),
      (case b_tls_spki_sha256 b of None \<Rightarrow> ''null'' | Some s \<Rightarrow> json_string s)]"

definition binding_text :: "GatewayAttestationBinding \<Rightarrow> string" where
  "binding_text b =
     ''{'' @ join_commas (map (\<lambda>(f, t). json_string f @ '':'' @ t) (zip CANONICAL_FIELD_ORDER (binding_values b))) @ ''}''"

text \<open>The binding as the object the validation reads again before it is hashed.\<close>

definition binding_object :: "GatewayAttestationBinding \<Rightarrow> jsval" where
  "binding_object b = JObject
     [(''v'', JNumber (Fin GATEWAY_BINDING_VERSION)),
      (''nonce'', JString (b_nonce b)),
      (''app_id'', JString (b_app_id b)),
      (''instance_id'', JString (b_instance_id b)),
      (''compose_hash'', JString (b_compose_hash b)),
      (''release_id'', JString (b_release_id b)),
      (''origin'', JString (b_origin b)),
      (''key_alg'', JString (key_alg_text (b_key_alg b))),
      (''public_key'', JString (b_public_key b)),
      (''transport'', JString (transport_text (b_transport b))),
      (''tls_spki_sha256'', (case b_tls_spki_sha256 b of None \<Rightarrow> JNull | Some s \<Rightarrow> JString s))]"

definition canonicalGatewayBindingJson ::
  "(string \<Rightarrow> url_parts option) \<Rightarrow> GatewayAttestationBinding \<Rightarrow> string result" where
  "canonicalGatewayBindingJson parse_url b =
     and_then (normalizeGatewayBinding parse_url (binding_object b)) (\<lambda>n. Inr (binding_text n))"

definition gatewayBindingDigest ::
  "(string \<Rightarrow> url_parts option) \<Rightarrow> (nat list \<Rightarrow> nat list) \<Rightarrow> GatewayAttestationBinding \<Rightarrow> nat list result" where
  "gatewayBindingDigest parse_url S b =
     and_then (canonicalGatewayBindingJson parse_url b) (\<lambda>json. Inr (S (utf8_text json)))"

definition gatewayBindingHash ::
  "(string \<Rightarrow> url_parts option) \<Rightarrow> (nat list \<Rightarrow> nat list) \<Rightarrow> GatewayAttestationBinding \<Rightarrow> string result" where
  "gatewayBindingHash parse_url S b =
     and_then (gatewayBindingDigest parse_url S b) (\<lambda>bytes. Inr (bytes_hex bytes))"

end
