(* ===== verification/GatewayPolicy.thy ===== *)
theory GatewayPolicy
  imports GatewayBinding
begin

section \<open>The measurement policy of the gateway\<close>

text \<open>
  \<open>src/src/gateway/policy.ts\<close>: the pinned policy a verifying client ships with, read from a JSON value.
\<close>

record GatewayPlatformMeasurements =
  p_mrTd :: "string list"
  p_mrConfigId :: "string list"
  p_rtmr0 :: "string list"
  p_rtmr1 :: "string list"
  p_rtmr2 :: "string list"
  p_osImageHash :: "string list"

record GatewayMeasurementPolicy =
  gp_source :: string
  gp_version :: string
  gp_origins :: "string list"
  gp_appIds :: "string list"
  gp_composeHashes :: "string list"
  gp_releaseIds :: "string list"
  gp_keyProviderId :: "string option"
  gp_platform :: "GatewayPlatformMeasurements option"
  gp_requireInTeeTls :: bool
  gp_requirePrivateLogs :: bool
  gp_requireDigestPinnedImages :: bool
  gp_requireHardwareVerified :: bool
  gp_maxEvidenceAgeMs :: rat

definition hex_entry :: "nat option \<Rightarrow> jsval \<Rightarrow> string result" where
  "hex_entry exactChars entry =
     (case entry of
        JString s \<Rightarrow>
          (let normalized = strip_0x (toLowerCase (js_trim s)) in
           if normalized = [] \<or> \<not> list_all lower_hex normalized then Inl GatewayPolicyError
           else (case exactChars of
                   Some n \<Rightarrow> if length normalized \<noteq> n then Inl GatewayPolicyError else Inr normalized
                 | None \<Rightarrow> Inr normalized))
      | _ \<Rightarrow> Inl GatewayPolicyError)"

definition hexList :: "nat option \<Rightarrow> jsval \<Rightarrow> string list result" where
  "hexList exactChars v =
     (case v of
        JArray entries \<Rightarrow>
          if entries = [] then Inl GatewayPolicyError
          else if length entries > 64 then Inl GatewayPolicyError
          else map_result (hex_entry exactChars) entries
      | _ \<Rightarrow> Inl GatewayPolicyError)"

definition text_entry :: "jsval \<Rightarrow> string result" where
  "text_entry entry =
     (case entry of
        JString s \<Rightarrow> if js_trim s = [] then Inl GatewayPolicyError else Inr (js_trim s)
      | _ \<Rightarrow> Inl GatewayPolicyError)"

definition stringList :: "jsval \<Rightarrow> string list result" where
  "stringList v =
     (case v of
        JArray entries \<Rightarrow>
          if entries = [] then Inl GatewayPolicyError
          else if length entries > 64 then Inl GatewayPolicyError
          else map_result text_entry entries
      | _ \<Rightarrow> Inl GatewayPolicyError)"

definition requiredBoolean :: "jsval \<Rightarrow> bool result" where
  "requiredBoolean v = (case v of JBool b \<Rightarrow> Inr b | _ \<Rightarrow> Inl GatewayPolicyError)"

definition read_max_age :: "jsval \<Rightarrow> rat result" where
  "read_max_age v =
     (case v of
        JNumber (Fin q) \<Rightarrow> if q \<le> 0 \<or> q > 3600000 then Inl GatewayPolicyError else Inr q
      | _ \<Rightarrow> Inl GatewayPolicyError)"

definition read_platform :: "jsval \<Rightarrow> GatewayPlatformMeasurements option result" where
  "read_platform v =
     (case v of
        JUndefined \<Rightarrow> Inr None
      | JObject p \<Rightarrow>
          and_then (hexList (Some 96) (object_field p ''mrTd'')) (\<lambda>mrTd.
          and_then (hexList (Some 96) (object_field p ''mrConfigId'')) (\<lambda>mrConfigId.
          and_then (hexList (Some 96) (object_field p ''rtmr0'')) (\<lambda>rtmr0.
          and_then (hexList (Some 96) (object_field p ''rtmr1'')) (\<lambda>rtmr1.
          and_then (hexList (Some 96) (object_field p ''rtmr2'')) (\<lambda>rtmr2.
          and_then (hexList (Some 64) (object_field p ''osImageHash'')) (\<lambda>osImageHash.
            Inr (Some \<lparr> p_mrTd = mrTd, p_mrConfigId = mrConfigId, p_rtmr0 = rtmr0, p_rtmr1 = rtmr1, p_rtmr2 = rtmr2,
                        p_osImageHash = osImageHash \<rparr>)))))))
      | _ \<Rightarrow> Inl GatewayPolicyError)"

definition loadGatewayPolicy ::
  "(string \<Rightarrow> url_parts option) \<Rightarrow> jsval \<Rightarrow> GatewayMeasurementPolicy result" where
  "loadGatewayPolicy parse_url input =
     (case input of
        JObject raw \<Rightarrow>
          and_then (text_entry (object_field raw ''source'')) (\<lambda>source.
          and_then (text_entry (object_field raw ''version'')) (\<lambda>version.
          and_then (read_max_age (object_field raw ''maxEvidenceAgeMs'')) (\<lambda>maxAge.
          and_then (read_platform (object_field raw ''platform'')) (\<lambda>platform.
          and_then (stringList (object_field raw ''origins'')) (\<lambda>listed.
          and_then (map_result (\<lambda>s. canonicalGatewayOrigin parse_url (JString s)) listed) (\<lambda>origins.
          and_then (hexList None (object_field raw ''appIds'')) (\<lambda>appIds.
          and_then (hexList (Some 64) (object_field raw ''composeHashes'')) (\<lambda>composeHashes.
          and_then (stringList (object_field raw ''releaseIds'')) (\<lambda>releaseIds.
          and_then (case object_field raw ''keyProviderId'' of
                      JUndefined \<Rightarrow> Inr None
                    | v \<Rightarrow> and_then (hexList None (JArray [v])) (\<lambda>ids. Inr (Some (hd ids)))) (\<lambda>keyProviderId.
          and_then (requiredBoolean (object_field raw ''requireInTeeTls'')) (\<lambda>inTee.
          and_then (requiredBoolean (object_field raw ''requirePrivateLogs'')) (\<lambda>privateLogs.
          and_then (requiredBoolean (object_field raw ''requireDigestPinnedImages'')) (\<lambda>pinned.
          and_then (requiredBoolean (object_field raw ''requireHardwareVerified'')) (\<lambda>hardware.
            Inr \<lparr> gp_source = source, gp_version = version, gp_origins = origins, gp_appIds = appIds,
                  gp_composeHashes = composeHashes, gp_releaseIds = releaseIds, gp_keyProviderId = keyProviderId,
                  gp_platform = platform, gp_requireInTeeTls = inTee, gp_requirePrivateLogs = privateLogs,
                  gp_requireDigestPinnedImages = pinned, gp_requireHardwareVerified = hardware,
                  gp_maxEvidenceAgeMs = maxAge \<rparr>))))))))))))))
      | _ \<Rightarrow> Inl GatewayPolicyError)"

subsection \<open>Every accepted policy pins something\<close>

definition pins_hex :: "nat option \<Rightarrow> string list \<Rightarrow> bool" where
  "pins_hex n xs \<longleftrightarrow>
     xs \<noteq> [] \<and> length xs \<le> 64 \<and>
     list_all (\<lambda>s. s \<noteq> [] \<and> list_all lower_hex s \<and> (case n of Some k \<Rightarrow> length s = k | None \<Rightarrow> True)) xs"

definition policy_ok :: "GatewayMeasurementPolicy \<Rightarrow> bool" where
  "policy_ok p \<longleftrightarrow>
     gp_source p \<noteq> [] \<and> gp_version p \<noteq> [] \<and> gp_origins p \<noteq> [] \<and> gp_releaseIds p \<noteq> []
     \<and> pins_hex None (gp_appIds p) \<and> pins_hex (Some 64) (gp_composeHashes p)
     \<and> (case gp_keyProviderId p of Some k \<Rightarrow> pins_hex None [k] | None \<Rightarrow> True)
     \<and> (case gp_platform p of
          Some m \<Rightarrow> list_all (pins_hex (Some 96)) [p_mrTd m, p_mrConfigId m, p_rtmr0 m, p_rtmr1 m, p_rtmr2 m]
                    \<and> pins_hex (Some 64) (p_osImageHash m)
        | None \<Rightarrow> True)
     \<and> 0 < gp_maxEvidenceAgeMs p \<and> gp_maxEvidenceAgeMs p \<le> 3600000"

lemma hex_entry_Inr:
  "hex_entry n v = Inr s \<Longrightarrow> s \<noteq> [] \<and> list_all lower_hex s \<and> (case n of Some k \<Rightarrow> length s = k | None \<Rightarrow> True)"
  by (cases v) (auto simp: hex_entry_def Let_def split: if_split_asm option.splits)

lemma map_result_all:
  assumes "map_result f xs = Inr ys" and "\<And>x y. f x = Inr y \<Longrightarrow> Q y"
  shows "length ys = length xs \<and> list_all Q ys"
proof -
  have "list_all2 (\<lambda>x y. f x = Inr y) xs ys" using assms(1) by (simp add: map_result_Inr_iff)
  then have "length ys = length xs" by (simp add: list_all2_lengthD)
  moreover have "list_all Q ys"
    using \<open>list_all2 _ xs ys\<close> by (induction rule: list_all2_induct) (simp_all add: assms(2))
  ultimately show ?thesis by simp
qed

lemma hexList_Inr: "hexList n v = Inr xs \<Longrightarrow> pins_hex n xs"
  by (cases v) (auto simp: hexList_def pins_hex_def dest!: map_result_all [OF _ hex_entry_Inr] split: if_split_asm)

lemma text_entry_Inr: "text_entry v = Inr s \<Longrightarrow> s \<noteq> []"
  by (cases v) (auto simp: text_entry_def split: if_split_asm)

lemma stringList_Inr: "stringList v = Inr xs \<Longrightarrow> xs \<noteq> []"
  by (cases v) (auto simp: stringList_def dest!: map_result_all [OF _ text_entry_Inr] split: if_split_asm)

lemma read_max_age_Inr: "read_max_age v = Inr q \<Longrightarrow> 0 < q \<and> q \<le> 3600000"
  by (auto simp: read_max_age_def split: jsval.split_asm jsnum.split_asm if_split_asm)

lemma read_platform_Inr:
  "read_platform v = Inr (Some m) \<Longrightarrow>
     list_all (pins_hex (Some 96)) [p_mrTd m, p_mrConfigId m, p_rtmr0 m, p_rtmr1 m, p_rtmr2 m]
     \<and> pins_hex (Some 64) (p_osImageHash m)"
  by (cases v) (auto simp: read_platform_def and_then_Inr_iff dest!: hexList_Inr)

lemma key_provider_Inr:
  "(case v of JUndefined \<Rightarrow> Inr None | w \<Rightarrow> and_then (hexList None (JArray [w])) (\<lambda>ids. Inr (Some (hd ids)))) = Inr k \<Longrightarrow>
     (case k of Some s \<Rightarrow> pins_hex None [s] | None \<Rightarrow> True)"
proof -
  have single: "hexList None (JArray [w]) = Inr ids \<Longrightarrow> pins_hex None [hd ids]" for w ids
    by (cases ids) (auto simp: pins_hex_def dest: hexList_Inr)
  assume "(case v of JUndefined \<Rightarrow> Inr None | w \<Rightarrow> and_then (hexList None (JArray [w])) (\<lambda>ids. Inr (Some (hd ids)))) = Inr k"
  then show ?thesis by (cases v) (auto simp: and_then_Inr_iff dest: single)
qed

text \<open>
  C35. A loaded policy cannot be weaker than it looks: every switch is a boolean the document states (none
  has a default), the lists of app ids, compose hashes, releases and origins are not empty, every pinned value is
  lower-case hexadecimal of its length, and the evidence age is at most an hour.
\<close>

theorem loaded_policy_ok:
  assumes "loadGatewayPolicy parse_url input = Inr p"
  shows "policy_ok p \<and>
    (\<exists>raw. input = JObject raw
       \<and> object_field raw ''requireInTeeTls'' = JBool (gp_requireInTeeTls p)
       \<and> object_field raw ''requirePrivateLogs'' = JBool (gp_requirePrivateLogs p)
       \<and> object_field raw ''requireDigestPinnedImages'' = JBool (gp_requireDigestPinnedImages p)
       \<and> object_field raw ''requireHardwareVerified'' = JBool (gp_requireHardwareVerified p))"
proof -
  have bool: "requiredBoolean v = Inr b \<Longrightarrow> v = JBool b" for v b by (cases v) (simp_all add: requiredBoolean_def)
  from assms obtain raw where raw: "input = JObject raw" by (cases input) (simp_all add: loadGatewayPolicy_def)
  from assms[unfolded raw loadGatewayPolicy_def, simplified]
  obtain source version age plat listed origins apps composes releases k t l d h where f:
      "text_entry (object_field raw ''source'') = Inr source" "text_entry (object_field raw ''version'') = Inr version"
      "read_max_age (object_field raw ''maxEvidenceAgeMs'') = Inr age"
      "read_platform (object_field raw ''platform'') = Inr plat" "stringList (object_field raw ''origins'') = Inr listed"
      "map_result (\<lambda>s. canonicalGatewayOrigin parse_url (JString s)) listed = Inr origins"
      "hexList None (object_field raw ''appIds'') = Inr apps"
      "hexList (Some 64) (object_field raw ''composeHashes'') = Inr composes"
      "stringList (object_field raw ''releaseIds'') = Inr releases"
    and k: "(case object_field raw ''keyProviderId'' of JUndefined \<Rightarrow> Inr None
        | v \<Rightarrow> and_then (hexList None (JArray [v])) (\<lambda>ids. Inr (Some (hd ids)))) = Inr k"
    and b: "requiredBoolean (object_field raw ''requireInTeeTls'') = Inr t"
      "requiredBoolean (object_field raw ''requirePrivateLogs'') = Inr l"
      "requiredBoolean (object_field raw ''requireDigestPinnedImages'') = Inr d"
      "requiredBoolean (object_field raw ''requireHardwareVerified'') = Inr h"
    and p: "p = \<lparr> gp_source = source, gp_version = version, gp_origins = origins, gp_appIds = apps,
                  gp_composeHashes = composes, gp_releaseIds = releases, gp_keyProviderId = k,
                  gp_platform = plat, gp_requireInTeeTls = t, gp_requirePrivateLogs = l,
                  gp_requireDigestPinnedImages = d, gp_requireHardwareVerified = h, gp_maxEvidenceAgeMs = age \<rparr>"
    by (auto simp only: and_then_Inr_iff sum.inject)
  have "length origins = length listed" using map_result_all [OF f(6), of "\<lambda>_. True"] by simp
  then have "origins \<noteq> []" using stringList_Inr [OF f(5)] by auto
  moreover have "case plat of Some m \<Rightarrow> list_all (pins_hex (Some 96)) [p_mrTd m, p_mrConfigId m, p_rtmr0 m, p_rtmr1 m, p_rtmr2 m]
      \<and> pins_hex (Some 64) (p_osImageHash m) | None \<Rightarrow> True"
    using f(4) by (cases plat) (auto dest: read_platform_Inr)
  ultimately have "policy_ok p"
    using text_entry_Inr [OF f(1)] text_entry_Inr [OF f(2)] read_max_age_Inr [OF f(3)] hexList_Inr [OF f(7)]
      hexList_Inr [OF f(8)] stringList_Inr [OF f(9)] key_provider_Inr [OF k]
    unfolding policy_ok_def p by simp
  then show ?thesis using bool b raw by (simp add: p)
qed

end
