(* ===== verification/AppCompose.thy ===== *)
theory AppCompose
  imports GatewayBinding
begin

section \<open>The attested app-compose manifest\<close>

text \<open>
  \<open>src/src/gateway/appCompose.ts\<close>. The regular expression \<open>IMAGE_LINE\<close> is written out as a matcher that
  lists the ways to match in the order in which JavaScript tries them; the first one counts. SHA-256 is the
  parameter \<open>sha256\<close>, \<open>JSON.parse\<close> the parameter \<open>json_parse\<close>; text is 8-bit text, in which the line
  terminators are line feed and carriage return.
\<close>

record AttestedImageReference =
  i_reference :: string
  i_digestPinned :: bool

record AttestedAppCompose =
  ac_composeHash :: string
  ac_name :: "string option"
  ac_runner :: "string option"
  ac_publicLogs :: "bool option"
  ac_publicSysinfo :: "bool option"
  ac_kmsEnabled :: "bool option"
  ac_gatewayEnabled :: "bool option"
  ac_allowedEnvs :: "string list"
  ac_dockerComposeFile :: "string option"
  ac_images :: "AttestedImageReference list"

definition MAX_MANIFEST_BYTES :: nat where "MAX_MANIFEST_BYTES = 1000000"

subsection \<open>The line pattern\<close>

definition line_end :: "char \<Rightarrow> bool" where
  "line_end c \<longleftrightarrow> (of_char c :: nat) \<in> {10, 13}"

definition indent_char :: "char \<Rightarrow> bool" where
  "indent_char c \<longleftrightarrow> (of_char c :: nat) \<in> {9, 32, 45}"

definition quote_char :: "char \<Rightarrow> bool" where
  "quote_char c \<longleftrightarrow> (of_char c :: nat) \<in> {34, 39}"

definition reference_char :: "char \<Rightarrow> bool" where
  "reference_char c \<longleftrightarrow> \<not> quote_char c \<and> \<not> line_end c \<and> c \<noteq> CHR ''#''"

text \<open>\<open>[p]*\<close>, the longest prefix first, and \<open>[p]+?\<close>, the shortest first.\<close>

definition greedy :: "(char \<Rightarrow> bool) \<Rightarrow> string \<Rightarrow> string list" where
  "greedy p s = map (\<lambda>k. drop k s) (rev [0..<Suc (length (takeWhile p s))])"

definition lazy :: "(char \<Rightarrow> bool) \<Rightarrow> string \<Rightarrow> (string \<times> string) list" where
  "lazy p s = map (\<lambda>k. (take k s, drop k s)) [1..<Suc (length (takeWhile p s))]"

definition optional_quote :: "string \<Rightarrow> string list" where
  "optional_quote s = (case s of c # cs \<Rightarrow> if quote_char c then [cs, s] else [s] | [] \<Rightarrow> [s])"

definition optional_comment :: "string \<Rightarrow> string list" where
  "optional_comment s =
     (case s of c # cs \<Rightarrow> if c = CHR ''#'' then greedy (\<lambda>d. \<not> line_end d) cs @ [s] else [s] | [] \<Rightarrow> [s])"

definition at_line_end :: "string \<Rightarrow> bool" where
  "at_line_end s \<longleftrightarrow> (case s of [] \<Rightarrow> True | c # _ \<Rightarrow> line_end c)"

definition key_prefix :: "string \<Rightarrow> string list" where
  "key_prefix s = (if take 6 s = ''image:'' then [drop 6 s] else [])"

definition after_reference :: "string \<Rightarrow> string list" where
  "after_reference s =
     filter at_line_end (concat (map optional_comment (concat (map (greedy is_js_space) (optional_quote s)))))"

definition reference_matches :: "string \<Rightarrow> (string \<times> string) list" where
  "reference_matches s = concat (map (\<lambda>(ref, r). map (Pair ref) (after_reference r)) (lazy reference_char s))"

definition line_matches :: "string \<Rightarrow> (string \<times> string) list" where
  "line_matches s =
     concat (map reference_matches
       (concat (map optional_quote
         (concat (map (greedy is_js_space)
           (concat (map key_prefix (greedy indent_char s))))))))"

definition at_line_start :: "char option \<Rightarrow> bool" where
  "at_line_start prev \<longleftrightarrow> (case prev of None \<Rightarrow> True | Some c \<Rightarrow> line_end c)"

lemma set_greedy: "t \<in> set (greedy p s) \<Longrightarrow> length t \<le> length s"
  by (auto simp: greedy_def)

lemma set_optional_quote: "t \<in> set (optional_quote s) \<Longrightarrow> length t \<le> length s"
  by (auto simp: optional_quote_def split: list.splits if_splits)

lemma set_optional_comment: "t \<in> set (optional_comment s) \<Longrightarrow> length t \<le> length s"
  by (auto simp: optional_comment_def split: list.splits if_splits dest!: set_greedy)

lemma set_after_reference: "t \<in> set (after_reference s) \<Longrightarrow> length t \<le> length s"
  by (auto simp: after_reference_def dest!: set_optional_comment set_greedy set_optional_quote)

lemma set_reference_matches: "(ref, t) \<in> set (reference_matches s) \<Longrightarrow> length t \<le> length s"
  by (auto simp: reference_matches_def lazy_def dest!: set_after_reference)

lemma line_match_shorter:
  assumes "(ref, t) \<in> set (line_matches s)"
  shows "length t < length s"
proof -
  from assms obtain a b c d where "a \<in> set (greedy indent_char s)" "b \<in> set (key_prefix a)"
      "c \<in> set (greedy is_js_space b)" "d \<in> set (optional_quote c)" "(ref, t) \<in> set (reference_matches d)"
    by (auto simp: line_matches_def)
  moreover from this(2) have "length b < length a" by (cases a) (auto simp: key_prefix_def split: if_splits)
  ultimately show ?thesis
    using set_greedy set_optional_quote set_reference_matches by (meson le_trans not_less)
qed

text \<open>\<open>matchAll\<close>: after a match the scan goes on where the match ended.\<close>

function image_refs :: "char option \<Rightarrow> string \<Rightarrow> string list" where
  "image_refs prev s =
     (case (if at_line_start prev then line_matches s else []) of
        (ref, rest) # _ \<Rightarrow> ref # image_refs (Some (s ! (length s - length rest - 1))) rest
      | [] \<Rightarrow> (case s of [] \<Rightarrow> [] | c # cs \<Rightarrow> image_refs (Some c) cs))"
  by pat_completeness auto
termination
  by (relation "measure (length \<circ> snd)")
     (auto intro: line_match_shorter split: if_splits)

declare image_refs.simps [simp del]

definition digest_suffix :: "string \<Rightarrow> bool" where
  "digest_suffix s \<longleftrightarrow>
     72 \<le> length s \<and> take 8 (drop (length s - 72) s) = ''@sha256:'' \<and> list_all lower_hex (drop (length s - 64) s)"

fun new_images :: "string set \<Rightarrow> string list \<Rightarrow> AttestedImageReference list" where
  "new_images seen [] = []"
| "new_images seen (match # matches) =
     (let reference = js_trim match in
      if reference = [] \<or> reference \<in> seen then new_images seen matches
      else \<lparr> i_reference = reference, i_digestPinned = digest_suffix reference \<rparr>
             # new_images (insert reference seen) matches)"

definition extractComposeImages :: "string \<Rightarrow> AttestedImageReference list" where
  "extractComposeImages dockerComposeFile = new_images {} (image_refs None dockerComposeFile)"

subsection \<open>The manifest\<close>

definition optionalBoolean :: "jsval \<Rightarrow> bool option" where
  "optionalBoolean v = (case v of JBool b \<Rightarrow> Some b | _ \<Rightarrow> None)"

definition optionalString :: "jsval \<Rightarrow> string option" where
  "optionalString v = (case v of JString s \<Rightarrow> Some s | _ \<Rightarrow> None)"

definition readAttestedAppCompose ::
  "(string \<Rightarrow> jsval option) \<Rightarrow> (nat list \<Rightarrow> nat list) \<Rightarrow> jsval \<Rightarrow> AttestedAppCompose result" where
  "readAttestedAppCompose json_parse sha256 v =
     (case v of
        JString manifest \<Rightarrow>
          if manifest = [] then Inl AppComposeError
          else if length (utf8_text manifest) > MAX_MANIFEST_BYTES then Inl AppComposeError
          else (case json_parse manifest of
                  Some (JObject raw) \<Rightarrow>
                    (let dockerComposeFile = optionalString (object_field raw ''docker_compose_file'') in
                     Inr \<lparr> ac_composeHash = bytes_hex (sha256 (utf8_text manifest)),
                           ac_name = optionalString (object_field raw ''name''),
                           ac_runner = optionalString (object_field raw ''runner''),
                           ac_publicLogs = optionalBoolean (object_field raw ''public_logs''),
                           ac_publicSysinfo = optionalBoolean (object_field raw ''public_sysinfo''),
                           ac_kmsEnabled = optionalBoolean (object_field raw ''kms_enabled''),
                           ac_gatewayEnabled = optionalBoolean (object_field raw ''gateway_enabled''),
                           ac_allowedEnvs =
                             (case object_field raw ''allowed_envs'' of
                                JArray xs \<Rightarrow> List.map_filter optionalString xs
                              | _ \<Rightarrow> []),
                           ac_dockerComposeFile = dockerComposeFile,
                           ac_images =
                             (case dockerComposeFile of
                                None \<Rightarrow> []
                              | Some d \<Rightarrow> if d = [] then [] else extractComposeImages d) \<rparr>)
                | _ \<Rightarrow> Inl AppComposeError)
      | _ \<Rightarrow> Inl AppComposeError)"

end
