(* ===== verification/GatewayVerify.thy ===== *)
theory GatewayVerify
  imports EventLog GatewayPolicy AppCompose
begin

section \<open>Verification of a gateway attestation\<close>

text \<open>
  \<open>src/src/gateway/verify.ts\<close>, the client side of the gateway attestation. The evidence is untrusted JSON.
  What is not in the repository is a parameter of the environment: the URL and JSON parsers and the three
  hashes. The verifier of the signature chain, when one is given, is a function of the quote. A key
  provider id is hexadecimal text, and such text occurs in decoded UTF-8 exactly where it occurs among the bytes.
\<close>

record verify_env =
  v_parse_url :: "string \<Rightarrow> url_parts option"
  v_json_parse :: "string \<Rightarrow> jsval option"
  v_parse_bytes :: "nat list \<Rightarrow> jsval option"
  v_sha256 :: "nat list \<Rightarrow> nat list"
  v_sha384 :: "nat list \<Rightarrow> nat list"
  v_sha512 :: "nat list \<Rightarrow> nat list"

record GatewayAttestationEvidence =
  g_binding :: jsval
  g_quote :: jsval
  g_event_log :: jsval
  g_app_compose :: jsval
  g_issued_at_ms :: jsval
  g_vm_config :: jsval

text \<open>The observed certificate is undefined (\<open>None\<close>), null (\<open>Some None\<close>) or a digest.\<close>

record GatewayVerificationExpectations =
  e_nonce :: string
  e_origin :: string
  e_policy :: GatewayMeasurementPolicy
  e_now :: rat
  e_observedTlsSpkiSha256 :: "string option option"
  e_chainVerifier :: "(jsval \<Rightarrow> bool \<times> string option) option"

record gateway_measurements =
  gm_mrTd :: string
  gm_mrConfigId :: string
  gm_rtmr0 :: string
  gm_rtmr1 :: string
  gm_rtmr2 :: string
  gm_rtmr3 :: string

record GatewayVerificationResult =
  r_ok :: bool
  r_verificationLevel :: VerificationLevel
  r_checks :: "AttestationCheck list"
  r_failure :: "string option"
  r_binding :: "GatewayAttestationBinding option"
  r_appCompose :: "AttestedAppCompose option"
  r_measurements :: "gateway_measurements option"
  r_tcbStatus :: "string option"
  r_policySource :: string
  r_policyVersion :: string
  r_verifiedAtMs :: rat

definition TEE_TYPE_TDX :: nat where "TEE_TYPE_TDX = 0x81"
definition MAX_VM_CONFIG_CHARS :: nat where "MAX_VM_CONFIG_CHARS = 65536"

definition readVmConfigOsImageHash :: "(string \<Rightarrow> jsval option) \<Rightarrow> jsval \<Rightarrow> string option" where
  "readVmConfigOsImageHash json_parse raw =
     (case raw of
        JString s \<Rightarrow>
          if s = [] \<or> length s > MAX_VM_CONFIG_CHARS then None
          else (case json_parse s of
                  Some (JObject fs) \<Rightarrow>
                    (case object_field fs ''os_image_hash'' of
                       JString v \<Rightarrow>
                         (let normalized = strip_0x (toLowerCase (js_trim v)) in
                          if length normalized = 64 \<and> list_all lower_hex normalized then Some normalized else None)
                     | _ \<Rightarrow> None)
                | _ \<Rightarrow> None)
      | _ \<Rightarrow> None)"

definition failed ::
  "AttestationCheck list \<Rightarrow> GatewayVerificationExpectations \<Rightarrow> GatewayAttestationBinding option
    \<Rightarrow> AttestedAppCompose option \<Rightarrow> gateway_measurements option \<Rightarrow> string option \<Rightarrow> GatewayVerificationResult" where
  "failed checks x binding appCompose measurements tcb =
     \<lparr> r_ok = False, r_verificationLevel = Unverified, r_checks = checks,
       r_failure = Some (case firstRequiredFailure checks of Some n \<Rightarrow> n | None \<Rightarrow> ''verification_failed''),
       r_binding = binding, r_appCompose = appCompose, r_measurements = measurements, r_tcbStatus = tcb,
       r_policySource = gp_source (e_policy x), r_policyVersion = gp_version (e_policy x),
       r_verifiedAtMs = e_now x \<rparr>"

subsection \<open>The event log\<close>

record event_reading =
  er_checks :: "AttestationCheck list"
  er_composeHash :: "string option"
  er_instanceId :: "string option"
  er_appId :: "string option"
  er_keyProvider :: "string option"
  er_osImageHash :: "string option"
  er_read :: bool

text \<open>The payloads are read in this order; the first that throws leaves the later ones null.\<close>

definition read_payloads ::
  "(string \<Rightarrow> string option result) \<Rightarrow> AttestationCheck list \<Rightarrow> AttestationCheck list \<Rightarrow> event_reading" where
  "read_payloads payload passed thrown =
     (let stopped = \<lparr> er_checks = passed @ thrown, er_composeHash = None, er_instanceId = None, er_appId = None,
                      er_keyProvider = None, er_osImageHash = None, er_read = False \<rparr> in
      case payload ''compose-hash'' of Inl _ \<Rightarrow> stopped | Inr c \<Rightarrow>
     (let with_c = stopped\<lparr> er_composeHash := c \<rparr> in
      case payload ''instance-id'' of Inl _ \<Rightarrow> with_c | Inr i \<Rightarrow>
     (let with_i = with_c\<lparr> er_instanceId := i \<rparr> in
      case payload ''app-id'' of Inl _ \<Rightarrow> with_i | Inr a \<Rightarrow>
     (let with_a = with_i\<lparr> er_appId := a \<rparr> in
      case payload ''key-provider'' of Inl _ \<Rightarrow> with_a | Inr k \<Rightarrow>
     (let with_k = with_a\<lparr> er_keyProvider := k \<rparr> in
      case payload ''os-image-hash'' of Inl _ \<Rightarrow> with_k | Inr s \<Rightarrow>
        with_k\<lparr> er_osImageHash := s, er_read := True, er_checks := passed \<rparr>)))))"

definition log_checks :: "verify_env \<Rightarrow> DstackEventLogEntry list \<Rightarrow> ParsedTdxQuote \<Rightarrow> AttestationCheck list" where
  "log_checks V events quote =
     (let replayed = replayRtmrs (v_sha384 V) (v_parse_bytes V) events;
          replays = hexEqual (Some (replayed ! 0)) (Some (q_rtmr0 quote))
                    \<and> hexEqual (Some (replayed ! 1)) (Some (q_rtmr1 quote))
                    \<and> hexEqual (Some (replayed ! 2)) (Some (q_rtmr2 quote))
                    \<and> hexEqual (Some (replayed ! 3)) (Some (q_rtmr3 quote)) in
      [check ''event_log_replays_rtmrs'' replays True,
       check ''event_digests_commit_to_payloads''
         (inconsistentRtmr3Events (v_sha384 V) (v_parse_bytes V) events = []) True])"

definition thrown_checks :: "AttestationCheck list" where
  "thrown_checks =
     [check ''event_log_replays_rtmrs'' False True, check ''event_digests_commit_to_payloads'' False True]"

definition read_event_log :: "verify_env \<Rightarrow> jsval \<Rightarrow> ParsedTdxQuote \<Rightarrow> event_reading" where
  "read_event_log V event_log quote =
     (case parseEventLog (v_json_parse V) event_log of
        Inl _ \<Rightarrow> \<lparr> er_checks = thrown_checks, er_composeHash = None, er_instanceId = None, er_appId = None,
                   er_keyProvider = None, er_osImageHash = None, er_read = False \<rparr>
      | Inr events \<Rightarrow>
          read_payloads (singleEventPayload (v_sha384 V) (v_parse_bytes V) events) (log_checks V events quote)
            thrown_checks)"

definition ascii_text :: "nat list \<Rightarrow> string" where
  "ascii_text bytes = toLowerCase (map char_of bytes)"

definition measured_checks ::
  "verify_env \<Rightarrow> GatewayAttestationEvidence \<Rightarrow> GatewayMeasurementPolicy \<Rightarrow> GatewayAttestationBinding \<Rightarrow> event_reading
    \<Rightarrow> AttestationCheck list" where
  "measured_checks V ev policy b er =
     [check ''compose_hash_measured_in_rtmr3''
        (er_composeHash er \<noteq> None \<and> hexEqual (er_composeHash er) (Some (b_compose_hash b))) True,
      check ''instance_id_measured''
        (er_read er \<and> (er_instanceId er = None \<or> hexEqual (er_instanceId er) (Some (b_instance_id b)))) True,
      check ''app_id_measured''
        (er_read er \<and> er_appId er \<noteq> None \<and> hexEqual (er_appId er) (Some (b_app_id b))) True,
      (case gp_keyProviderId policy of
         Some k \<Rightarrow>
           if k = [] then check ''key_provider_pinned'' False False
           else check ''key_provider_pinned''
                  (contains_text (case er_keyProvider er of None \<Rightarrow> [] | Some p \<Rightarrow> ascii_text (hex_bytes p)) (toLowerCase k)) True
       | None \<Rightarrow> check ''key_provider_pinned'' False False),
      (let vmConfigOsImage = readVmConfigOsImageHash (v_json_parse V) (g_vm_config ev) in
       if er_osImageHash er \<noteq> None \<and> vmConfigOsImage \<noteq> None
       then check ''vm_config_matches_measured_os_image'' (hexEqual (er_osImageHash er) vmConfigOsImage) True
       else check ''vm_config_matches_measured_os_image'' False False)]"

subsection \<open>Manifest, policy, transport and chain\<close>

definition manifest_checks ::
  "GatewayMeasurementPolicy \<Rightarrow> GatewayAttestationBinding \<Rightarrow> AttestedAppCompose option \<Rightarrow> AttestationCheck list" where
  "manifest_checks policy b appCompose =
     [check ''app_compose_parsed'' (appCompose \<noteq> None) True,
      check ''app_compose_matches_measurement''
        (case appCompose of None \<Rightarrow> False | Some a \<Rightarrow> hexEqual (Some (ac_composeHash a)) (Some (b_compose_hash b))) True]
     @ (if gp_requirePrivateLogs policy
        then [check ''compose_public_logs_disabled''
                (case appCompose of None \<Rightarrow> False | Some a \<Rightarrow> ac_publicLogs a = Some False) True]
        else [])
     @ (if gp_requireDigestPinnedImages policy
        then [check ''compose_images_digest_pinned''
                (case appCompose of
                   None \<Rightarrow> False
                 | Some a \<Rightarrow> ac_images a \<noteq> [] \<and> filter (\<lambda>i. \<not> i_digestPinned i) (ac_images a) = []) True]
        else [])"

definition some_equal :: "string list \<Rightarrow> string \<Rightarrow> bool" where
  "some_equal values s \<longleftrightarrow> list_ex (\<lambda>v. hexEqual (Some v) (Some s)) values"

definition pinned_checks ::
  "GatewayMeasurementPolicy \<Rightarrow> GatewayAttestationBinding \<Rightarrow> ParsedTdxQuote \<Rightarrow> event_reading \<Rightarrow> AttestationCheck list" where
  "pinned_checks policy b quote er =
     [check ''app_id_pinned'' (some_equal (gp_appIds policy) (b_app_id b)) True,
      check ''compose_hash_pinned'' (some_equal (gp_composeHashes policy) (b_compose_hash b)) True,
      check ''release_pinned'' (b_release_id b \<in> set (gp_releaseIds policy)) True,
      check ''origin_pinned'' (b_origin b \<in> set (gp_origins policy)) True]
     @ (case gp_platform policy of
          None \<Rightarrow> []
        | Some m \<Rightarrow>
            [check ''platform_measurements_pinned''
               (some_equal (p_mrTd m) (q_mrTd quote) \<and> some_equal (p_mrConfigId m) (q_mrConfigId quote)
                \<and> some_equal (p_rtmr0 m) (q_rtmr0 quote) \<and> some_equal (p_rtmr1 m) (q_rtmr1 quote)
                \<and> some_equal (p_rtmr2 m) (q_rtmr2 quote)) True,
             check ''os_image_pinned''
               (case er_osImageHash er of None \<Rightarrow> False | Some s \<Rightarrow> some_equal (p_osImageHash m) s) True])"

definition transport_checks ::
  "GatewayVerificationExpectations \<Rightarrow> GatewayAttestationBinding \<Rightarrow> AttestationCheck list" where
  "transport_checks x b =
     (if gp_requireInTeeTls (e_policy x)
      then [check ''transport_terminates_in_tee'' (b_transport b = InTeeTls) True,
            (case e_observedTlsSpkiSha256 x of
               Some observed \<Rightarrow> check ''tls_certificate_bound_to_quote'' (hexEqual observed (b_tls_spki_sha256 b)) True
             | None \<Rightarrow> check ''tls_certificate_bound_to_quote'' False False)]
      else [check ''transport_terminates_in_tee'' (b_transport b = InTeeTls) False])"

definition age_check :: "GatewayAttestationEvidence \<Rightarrow> GatewayVerificationExpectations \<Rightarrow> AttestationCheck" where
  "age_check ev x =
     check ''evidence_recent''
       (case g_issued_at_ms ev of
          JNumber (Fin t) \<Rightarrow> e_now x - t \<ge> -60000 \<and> e_now x - t \<le> gp_maxEvidenceAgeMs (e_policy x)
        | _ \<Rightarrow> False) False"

definition chain_outcome :: "GatewayAttestationEvidence \<Rightarrow> GatewayVerificationExpectations \<Rightarrow> bool \<times> string option" where
  "chain_outcome ev x = (case e_chainVerifier x of None \<Rightarrow> (False, None) | Some verify \<Rightarrow> verify (g_quote ev))"

definition chain_check :: "GatewayAttestationEvidence \<Rightarrow> GatewayVerificationExpectations \<Rightarrow> AttestationCheck" where
  "chain_check ev x =
     (case e_chainVerifier x of
        Some verify \<Rightarrow> check ''quote_signature_chain'' (fst (verify (g_quote ev))) True
      | None \<Rightarrow> check ''quote_signature_chain'' False (gp_requireHardwareVerified (e_policy x)))"

definition identity_checks ::
  "verify_env \<Rightarrow> GatewayVerificationExpectations \<Rightarrow> GatewayAttestationBinding \<Rightarrow> ParsedTdxQuote \<Rightarrow> string
    \<Rightarrow> AttestationCheck list" where
  "identity_checks V x b quote bindingHash =
     [check ''report_data_binds_binding'' (hexEqual (Some (q_reportData quote)) (Some bindingHash)) True,
      check ''nonce_matches_request'' (b_nonce b = toLowerCase (e_nonce x)) True,
      check ''origin_matches_connection''
        (case canonicalGatewayOrigin (v_parse_url V) (JString (e_origin x)) of
           Inl _ \<Rightarrow> False | Inr expected \<Rightarrow> b_origin b = expected) True]"

definition quote_measurements :: "ParsedTdxQuote \<Rightarrow> gateway_measurements" where
  "quote_measurements q =
     \<lparr> gm_mrTd = q_mrTd q, gm_mrConfigId = q_mrConfigId q, gm_rtmr0 = q_rtmr0 q, gm_rtmr1 = q_rtmr1 q,
       gm_rtmr2 = q_rtmr2 q, gm_rtmr3 = q_rtmr3 q \<rparr>"

subsection \<open>The verdict\<close>

definition all_checks ::
  "verify_env \<Rightarrow> GatewayAttestationEvidence \<Rightarrow> GatewayVerificationExpectations \<Rightarrow> GatewayAttestationBinding
    \<Rightarrow> ParsedTdxQuote \<Rightarrow> string \<Rightarrow> AttestedAppCompose option \<Rightarrow> AttestationCheck list" where
  "all_checks V ev x b quote bindingHash appCompose =
     (let er = read_event_log V (g_event_log ev) quote in
      [check ''binding_wellformed'' True True, check ''quote_parsed'' True True,
       check ''quote_is_tdx'' (q_teeType quote = TEE_TYPE_TDX) True,
       check ''quote_not_debug'' (\<not> q_debugEnabled quote) True]
      @ identity_checks V x b quote bindingHash
      @ er_checks er
      @ measured_checks V ev (e_policy x) b er
      @ manifest_checks (e_policy x) b appCompose
      @ pinned_checks (e_policy x) b quote er
      @ transport_checks x b
      @ [age_check ev x, chain_check ev x])"

definition verdict ::
  "verify_env \<Rightarrow> GatewayAttestationEvidence \<Rightarrow> GatewayVerificationExpectations \<Rightarrow> GatewayAttestationBinding
    \<Rightarrow> ParsedTdxQuote \<Rightarrow> string \<Rightarrow> GatewayVerificationResult" where
  "verdict V ev x b quote bindingHash =
     (let appCompose = (case readAttestedAppCompose (v_json_parse V) (v_sha256 V) (g_app_compose ev) of
                          Inl _ \<Rightarrow> None | Inr a \<Rightarrow> Some a);
          checks = all_checks V ev x b quote bindingHash appCompose;
          (chainVerified, tcb) = chain_outcome ev x in
      if firstRequiredFailure checks \<noteq> None
      then failed checks x (Some b) appCompose (Some (quote_measurements quote)) tcb
      else \<lparr> r_ok = True,
             r_verificationLevel = (if chainVerified then HardwareVerified else ProviderAttested),
             r_checks = checks, r_failure = None, r_binding = Some b, r_appCompose = appCompose,
             r_measurements = Some (quote_measurements quote), r_tcbStatus = tcb,
             r_policySource = gp_source (e_policy x), r_policyVersion = gp_version (e_policy x),
             r_verifiedAtMs = e_now x \<rparr>)"

definition verifyGatewayAttestation ::
  "verify_env \<Rightarrow> GatewayAttestationEvidence \<Rightarrow> GatewayVerificationExpectations \<Rightarrow> GatewayVerificationResult" where
  "verifyGatewayAttestation V ev x =
     (case normalizeGatewayBinding (v_parse_url V) (g_binding ev) of
        Inl _ \<Rightarrow> failed [check ''binding_wellformed'' False True] x None None None None
      | Inr b \<Rightarrow>
          (case parseTdxQuote (g_quote ev) of
             None \<Rightarrow> failed [check ''binding_wellformed'' True True, check ''quote_parsed'' False True] x (Some b) None None None
           | Some quote \<Rightarrow>
               (case gatewayBindingHash (v_parse_url V) (v_sha512 V) b of
                  Inl _ \<Rightarrow>
                    failed [check ''binding_wellformed'' True True, check ''quote_parsed'' True True,
                            check ''quote_is_tdx'' (q_teeType quote = TEE_TYPE_TDX) True,
                            check ''quote_not_debug'' (\<not> q_debugEnabled quote) True,
                            check ''binding_hash_computed'' False True]
                      x (Some b) None (Some (quote_measurements quote)) None
                | Inr bindingHash \<Rightarrow> verdict V ev x b quote bindingHash)))"

end
