(* ===== verification/EventLogSpec.thy ===== *)
theory EventLogSpec
  imports EventLog
begin

section \<open>What a replayed event log proves\<close>

text \<open>
  The guest extends register 3 by the hash of each event's serialization; \<open>hardware_rtmr\<close> is the value the
  processor then holds. An accepted log has the same serializations in the same order. Names without a
  colon are then genuine with their payloads; the split of a serialization at a colon is not, and that is
  enough to hide a duplicate event.
\<close>

definition hardware_rtmr :: "(nat list \<Rightarrow> nat list) \<Rightarrow> nat list list \<Rightarrow> nat list" where
  "hardware_rtmr H contents = foldl (\<lambda>r c. H (r @ H c)) (replicate 48 0) contents"

fun rtmr_inputs :: "(nat list \<Rightarrow> nat list) \<Rightarrow> nat list \<Rightarrow> nat list list \<Rightarrow> nat list set" where
  "rtmr_inputs H r [] = {}"
| "rtmr_inputs H r (c # cs) = insert c (insert (r @ H c) (rtmr_inputs H (H (r @ H c)) cs))"

text \<open>Everything that is hashed to extend the register by these contents.\<close>

definition hashed :: "(nat list \<Rightarrow> nat list) \<Rightarrow> nat list list \<Rightarrow> nat list set" where
  "hashed H contents = rtmr_inputs H (replicate 48 0) contents"

definition digest_function :: "(nat list \<Rightarrow> nat list) \<Rightarrow> bool" where
  "digest_function H \<longleftrightarrow> (\<forall>x. length (H x) = 48 \<and> list_all is_byte (H x))"

definition measured_bytes :: "DstackEventLogEntry \<Rightarrow> nat list" where
  "measured_bytes ev = (case ev_preimage ev of Some p \<Rightarrow> hex_bytes p | None \<Rightarrow> v1_bytes ev)"

definition rtmr3_events :: "DstackEventLogEntry list \<Rightarrow> DstackEventLogEntry list" where
  "rtmr3_events events = filter (\<lambda>ev. ev_imr ev = 3) events"

text \<open>A runtime event of dstack: type \<open>0x08000001\<close>, a name without a colon, a payload of whole bytes.\<close>

definition dstack_event :: "DstackEventLogEntry \<Rightarrow> bool" where
  "dstack_event ev \<longleftrightarrow>
     ev_imr ev = 3 \<and> ev_event_type ev = Fin 134217729 \<and> CHR '':'' \<notin> set (ev_event ev)
     \<and> list_all lower_hex (ev_event_payload ev) \<and> even (length (ev_event_payload ev)) \<and> ev_preimage ev = None"

subsection \<open>The chain of hashes\<close>

lemma hardware_rtmr_snoc: "hardware_rtmr H (cs @ [c]) = H (hardware_rtmr H cs @ H c)"
  by (simp add: hardware_rtmr_def)

lemma hardware_rtmr_length: "digest_function H \<Longrightarrow> length (hardware_rtmr H cs) = 48"
  by (cases cs rule: rev_cases) (simp_all add: hardware_rtmr_snoc digest_function_def, simp add: hardware_rtmr_def)

lemma hardware_rtmr_bytes: "digest_function H \<Longrightarrow> list_all is_byte (hardware_rtmr H cs)"
  by (cases cs rule: rev_cases)
     (simp_all add: hardware_rtmr_snoc digest_function_def, simp add: hardware_rtmr_def list_all_iff is_byte_def)

lemma rtmr_inputs_append:
  "rtmr_inputs H r (cs @ ds) = rtmr_inputs H r cs \<union> rtmr_inputs H (foldl (\<lambda>r c. H (r @ H c)) r cs) ds"
  by (induction cs arbitrary: r) auto

lemma hashed_snoc: "hashed H (cs @ [c]) = insert c (insert (hardware_rtmr H cs @ H c) (hashed H cs))"
  by (auto simp: hashed_def rtmr_inputs_append hardware_rtmr_def)

theorem hardware_rtmr_binds:
  assumes "digest_function H"
    and "inj_on H (hashed H cs \<union> hashed H ds)"
    and "replicate 48 0 \<notin> H ` (hashed H cs \<union> hashed H ds)"
    and "hardware_rtmr H cs = hardware_rtmr H ds"
  shows "cs = ds"
  using assms(2-4)
proof (induction cs arbitrary: ds rule: rev_induct)
  case Nil
  then show ?case
    by (cases ds rule: rev_cases) (auto simp: hashed_snoc hardware_rtmr_snoc, auto simp: hardware_rtmr_def)
next
  case (snoc c cs)
  show ?case
  proof (cases ds rule: rev_cases)
    case Nil
    then have "replicate 48 0 = H (hardware_rtmr H cs @ H c)"
      using snoc.prems(3) by (simp add: hardware_rtmr_snoc) (simp add: hardware_rtmr_def)
    then show ?thesis using snoc.prems(2) by (simp add: hashed_snoc image_iff)
  next
    case (snoc ds' d)
    note inj = snoc.prems(1)[unfolded snoc hashed_snoc]
    have "hardware_rtmr H cs @ H c = hardware_rtmr H ds' @ H d"
      by (rule inj_onD [OF inj]) (use snoc.prems(3) snoc in \<open>simp_all add: hardware_rtmr_snoc\<close>)
    then have regs: "hardware_rtmr H cs = hardware_rtmr H ds'" and "H c = H d"
      using hardware_rtmr_length [OF assms(1)] by simp_all
    then have "c = d" using inj_onD [OF inj, of c d] by simp
    have "inj_on H (hashed H cs \<union> hashed H ds')" by (rule inj_on_subset [OF inj]) auto
    moreover have "replicate 48 0 \<notin> H ` (hashed H cs \<union> hashed H ds')"
      using snoc.prems(2) by (auto simp: snoc hashed_snoc)
    ultimately have "cs = ds'" using snoc.IH regs by blast
    then show ?thesis by (simp add: snoc \<open>c = d\<close>)
  qed
qed

subsection \<open>The replay computes the same chain\<close>

lemma derived_digest:
  "rtmr3EventDigest H parse_bytes ev = Some d \<Longrightarrow> d = bytes_hex (H (measured_bytes ev))"
  by (auto simp: rtmr3EventDigest_def v2DigestIsSelfConsistent_def measured_bytes_def
        computeRtmr3EventDigestV1_def split: if_splits option.splits)

lemma self_consistent_derives:
  "rtmr3EventDigestIsSelfConsistent H parse_bytes ev \<Longrightarrow>
     rtmr3EventDigest H parse_bytes ev = Some (bytes_hex (H (measured_bytes ev)))"
  by (auto simp: rtmr3EventDigestIsSelfConsistent_def dest: derived_digest split: option.splits)

lemma hex_bytes_initial: "hex_bytes RTMR_INITIAL_VALUE = replicate 48 0"
  by (simp add: RTMR_INITIAL_VALUE_def numeral_eq_Suc hex_value_def)

lemma hex_bytes_digest: "digest_function H \<Longrightarrow> hex_bytes (bytes_hex (H x)) = H x"
  using hex_bytes_hex [of "H x" "[]"] by (simp add: digest_function_def)

lemma pad_full_digest: "digest_function H \<Longrightarrow> pad_digest (H x) = H x"
  by (simp add: pad_digest_def DIGEST_BYTES_def digest_function_def)

lemma replayRegister_derived:
  assumes "digest_function H"
  shows "replayRegister H (map (\<lambda>ev. bytes_hex (H (measured_bytes ev))) events)
           = bytes_hex (hardware_rtmr H (map measured_bytes events))"
  unfolding replayRegister_def hardware_rtmr_def hex_bytes_initial foldl_map
  by (simp add: hex_bytes_digest pad_full_digest assms)

lemma replayRtmrs_nth: "i < 4 \<Longrightarrow> replayRtmrs H parse_bytes events ! i =
    replayRegister H (map (replay_digest H parse_bytes i) (filter (\<lambda>ev. ev_imr ev = i) events))"
  by (simp add: replayRtmrs_def RTMR_COUNT_def)

lemma consistent_events:
  "inconsistentRtmr3Events H parse_bytes events = [] \<Longrightarrow> ev \<in> set (rtmr3_events events) \<Longrightarrow>
     rtmr3EventDigestIsSelfConsistent H parse_bytes ev"
  by (auto simp: inconsistentRtmr3Events_def rtmr3_events_def filter_empty_conv)

lemma replay_consistent:
  assumes "digest_function H" and "inconsistentRtmr3Events H parse_bytes events = []"
  shows "replayRtmrs H parse_bytes events ! 3
           = bytes_hex (hardware_rtmr H (map measured_bytes (rtmr3_events events)))"
proof -
  have derived: "map (replay_digest H parse_bytes 3) (rtmr3_events events)
      = map (\<lambda>ev. bytes_hex (H (measured_bytes ev))) (rtmr3_events events)"
    using consistent_events [OF assms(2)] by (simp add: replay_digest_def self_consistent_derives)
  have "replayRtmrs H parse_bytes events ! 3
      = replayRegister H (map (replay_digest H parse_bytes 3) (rtmr3_events events))"
    by (simp add: replayRtmrs_nth rtmr3_events_def)
  then show ?thesis by (simp only: derived replayRegister_derived [OF assms(1)])
qed

subsection \<open>The serialization\<close>

lemma utf8_char_cancel: "utf8_char c @ xs = utf8_char d @ ys \<Longrightarrow> c = d \<and> xs = ys"
proof -
  assume eq: "utf8_char c @ xs = utf8_char d @ ys"
  have "(of_char c :: nat) = of_char d"
  proof (cases "(of_char c :: nat) < 128 \<or> (of_char d :: nat) < 128")
    case True
    then show ?thesis using eq by (auto simp: utf8_char_def Let_def split: if_splits)
  next
    case False
    then have "(of_char c :: nat) div 64 = of_char d div 64" "(of_char c :: nat) mod 64 = of_char d mod 64"
      using eq by (simp_all add: utf8_char_def Let_def)
    then show ?thesis by (metis div_mult_mod_eq)
  qed
  then have "c = d" by simp
  then show ?thesis using eq by simp
qed

lemma utf8_char_not_Nil [simp]: "utf8_char c \<noteq> []"
  by (simp add: utf8_char_def Let_def)

lemma utf8_text_inj: "utf8_text s = utf8_text t \<Longrightarrow> s = t"
proof (induction s arbitrary: t)
  case (Cons c s)
  then show ?case by (cases t) (auto simp: utf8_text_def dest!: utf8_char_cancel)
qed (auto simp: utf8_text_def)

lemma of_char_colon: "of_char c = (58 :: nat) \<longleftrightarrow> c = CHR '':''"
proof -
  have "of_char (CHR '':'') = (58 :: nat)" by simp
  then show ?thesis by (metis of_char_eq_iff)
qed

lemma colon_in_utf8: "colon \<in> set (utf8_text s) \<longleftrightarrow> CHR '':'' \<in> set s"
proof -
  have "colon \<in> set (utf8_char c) \<longleftrightarrow> c = CHR '':''" for c
    by (auto simp: utf8_char_def colon_def Let_def of_char_colon)
  then show ?thesis by (auto simp: utf8_text_def)
qed

lemma first_colon:
  assumes "xs @ colon # ys = xs' @ colon # ys'" and "colon \<notin> set xs" and "colon \<notin> set xs'"
  shows "xs = xs' \<and> ys = ys'"
  using assms by (induction xs arbitrary: xs') (case_tac [!] xs', auto)

lemma u32_le_length [simp]: "length (u32_le n) = 4"
  by (simp add: u32_le_def)

lemma dstack_event_starts: "dstack_event ev \<Longrightarrow> \<exists>bs. v1_bytes ev = 1 # 0 # 0 # 8 # bs"
  by (simp add: dstack_event_def v1_bytes_def u32_le_def trunc_def)

lemma v1_bytes_binds:
  assumes "v1_bytes a = v1_bytes b" and "CHR '':'' \<notin> set (ev_event a)" and "CHR '':'' \<notin> set (ev_event b)"
    and "list_all lower_hex (ev_event_payload a)" "even (length (ev_event_payload a))"
    and "list_all lower_hex (ev_event_payload b)" "even (length (ev_event_payload b))"
  shows "ev_event a = ev_event b \<and> ev_event_payload a = ev_event_payload b"
proof -
  have "utf8_text (ev_event a) @ colon # hex_bytes (ev_event_payload a)
      = utf8_text (ev_event b) @ colon # hex_bytes (ev_event_payload b)"
    using assms(1) by (simp add: v1_bytes_def)
  then have "utf8_text (ev_event a) = utf8_text (ev_event b)"
    and "hex_bytes (ev_event_payload a) = hex_bytes (ev_event_payload b)"
    using first_colon assms(2,3) colon_in_utf8 by blast+
  then show ?thesis using utf8_text_inj hex_bytes_inj assms(4-7) by blast
qed

subsection \<open>No payload is made up\<close>

lemma shown_payload:
  assumes "singleEventPayload H parse_bytes events name = Inr (Some p)"
  obtains ev where "ev \<in> set (rtmr3_events events)" "ev_event ev = name" "ev_event_payload ev = p"
    "rtmr3EventDigestIsSelfConsistent H parse_bytes ev"
proof -
  from assms obtain ev where ev: "filter (\<lambda>ev. ev_event ev = name) events = [ev]" "ev_imr ev = 3"
      "rtmr3EventDigestIsSelfConsistent H parse_bytes ev" "ev_event_payload ev = p"
    by (auto simp: singleEventPayload_def split: list.splits if_splits)
  from ev(1) have "ev \<in> set (filter (\<lambda>ev. ev_event ev = name) events)" by simp
  then have "ev \<in> set events \<and> ev_event ev = name" by simp
  then show ?thesis using ev by (intro that [of ev]) (simp_all add: rtmr3_events_def)
qed

lemma self_consistent_hex:
  "rtmr3EventDigestIsSelfConsistent H parse_bytes ev \<Longrightarrow>
     list_all lower_hex (ev_event_payload ev) \<and> even (length (ev_event_payload ev))"
  by (auto simp: rtmr3EventDigestIsSelfConsistent_def rtmr3EventDigest_def split: option.splits if_splits)

lemma self_consistent_decodes:
  "rtmr3EventDigestIsSelfConsistent H parse_bytes ev \<Longrightarrow> ev_preimage ev = Some p \<Longrightarrow> parse_bytes (hex_bytes p) \<noteq> None"
  by (auto simp: rtmr3EventDigestIsSelfConsistent_def rtmr3EventDigest_def v2DigestIsSelfConsistent_def
      split: option.splits if_splits)

text \<open>
  An accepted event log cannot invent a measurement: if the log replays to the register the guest
  really extended by its events (names without a colon), and no event is inconsistent, then the payload
  read for a name without a colon is the payload of an event of that name which the guest measured. SHA-384
  is assumed collision-free on what these two logs hash and never to yield the reset value; \<open>JSON.parse\<close> is
  assumed to reject text that starts with the byte 1.
\<close>

theorem shown_payload_was_measured:
  assumes "digest_function H"
    and "inj_on H (hashed H (map v1_bytes measured) \<union> hashed H (map measured_bytes (rtmr3_events shown)))"
    and "replicate 48 0 \<notin> H ` (hashed H (map v1_bytes measured) \<union> hashed H (map measured_bytes (rtmr3_events shown)))"
    and "\<And>bs. parse_bytes (1 # bs) = None"
    and "list_all dstack_event measured"
    and "replayRtmrs H parse_bytes shown ! 3 = bytes_hex (hardware_rtmr H (map v1_bytes measured))"
    and "inconsistentRtmr3Events H parse_bytes shown = []"
    and "CHR '':'' \<notin> set name"
    and "singleEventPayload H parse_bytes shown name = Inr (Some p)"
  shows "\<exists>ev \<in> set measured. ev_event ev = name \<and> ev_event_payload ev = p"
proof -
  have "bytes_hex (hardware_rtmr H (map v1_bytes measured))
      = bytes_hex (hardware_rtmr H (map measured_bytes (rtmr3_events shown)))"
    using assms(6) replay_consistent [OF assms(1,7)] by simp
  then have "hardware_rtmr H (map v1_bytes measured) = hardware_rtmr H (map measured_bytes (rtmr3_events shown))"
    using bytes_hex_inj hardware_rtmr_bytes [OF assms(1)] by blast
  then have same: "map v1_bytes measured = map measured_bytes (rtmr3_events shown)"
    by (rule hardware_rtmr_binds [OF assms(1-3)])
  obtain ev where ev: "ev \<in> set (rtmr3_events shown)" "ev_event ev = name" "ev_event_payload ev = p"
      "rtmr3EventDigestIsSelfConsistent H parse_bytes ev"
    using shown_payload [OF assms(9)] .
  have "measured_bytes ev \<in> set (map v1_bytes measured)" unfolding same using ev(1) by simp
  then obtain m where m: "m \<in> set measured" "v1_bytes m = measured_bytes ev" by auto
  have dm: "dstack_event m" using assms(5) m(1) by (simp add: list_all_iff)
  have "ev_preimage ev = None"
  proof (cases "ev_preimage ev")
    case (Some q)
    then have "parse_bytes (v1_bytes m) \<noteq> None"
      using self_consistent_decodes [OF ev(4)] m(2) by (simp add: measured_bytes_def)
    then show ?thesis using dstack_event_starts [OF dm] assms(4) by auto
  qed
  then have "v1_bytes m = v1_bytes ev" using m(2) by (simp add: measured_bytes_def)
  then have "ev_event m = name \<and> ev_event_payload m = p"
    using v1_bytes_binds [of m ev] dm self_consistent_hex [OF ev(4)] assms(8) ev(2,3) by (simp add: dstack_event_def)
  then show ?thesis using m(1) by blast
qed

subsection \<open>A duplicate can be hidden\<close>

definition runtime_event :: "string \<Rightarrow> string \<Rightarrow> DstackEventLogEntry" where
  "runtime_event name payload =
     \<lparr> ev_imr = 3, ev_event_type = Fin 134217729, ev_digest = [], ev_event = name, ev_event_payload = payload,
       ev_preimage = None, ev_version = None \<rparr>"

lemma utf8_text_append: "utf8_text (s @ t) = utf8_text s @ utf8_text t"
  by (simp add: utf8_text_def)

lemma utf8_text_bytes: "list_all is_byte (utf8_text s)"
proof -
  have "list_all is_byte (utf8_char c)" for c
  proof -
    have "(of_char c :: nat) div 64 < 4" using nat_of_char_less_256 [of c] by (simp add: less_mult_imp_div_less)
    moreover have "(of_char c :: nat) mod 64 < 64" by simp
    ultimately show ?thesis unfolding utf8_char_def Let_def is_byte_def by auto
  qed
  then show ?thesis by (induction s) (simp_all add: utf8_text_def)
qed

lemma v1_bytes_split_moves:
  assumes "list_all is_byte post"
  shows "v1_bytes (runtime_event name (bytes_hex (utf8_text pre @ colon # post)))
       = v1_bytes (runtime_event (name @ CHR '':'' # pre) (bytes_hex post))"
proof -
  have "list_all is_byte (utf8_text pre @ colon # post)"
    using assms by (simp add: utf8_text_bytes is_byte_def colon_def)
  then have "hex_bytes (bytes_hex (utf8_text pre @ colon # post)) = utf8_text pre @ colon # post"
    using hex_bytes_hex [of _ "[]"] by simp
  moreover have "hex_bytes (bytes_hex post) = post" using assms hex_bytes_hex [of post "[]"] by simp
  moreover have "utf8_text (CHR '':'' # pre) = colon # utf8_text pre"
    by (simp add: utf8_text_def utf8_char_def colon_def)
  ultimately show ?thesis by (simp add: v1_bytes_def runtime_event_def utf8_text_append)
qed

lemma runtime_event_digest:
  "list_all lower_hex payload \<Longrightarrow> even (length payload) \<Longrightarrow>
     rtmr3EventDigest H parse_bytes (runtime_event name payload)
       = Some (bytes_hex (H (v1_bytes (runtime_event name payload))))"
  by (simp add: rtmr3EventDigest_def computeRtmr3EventDigestV1_def runtime_event_def)

lemma runtime_event_consistent:
  "list_all lower_hex payload \<Longrightarrow> even (length payload) \<Longrightarrow>
     rtmr3EventDigestIsSelfConsistent H parse_bytes (runtime_event name payload)"
  by (simp add: rtmr3EventDigestIsSelfConsistent_def runtime_event_digest) (simp add: runtime_event_def)

lemma runtime_event_fields [simp]:
  "ev_imr (runtime_event n p) = 3" "ev_event (runtime_event n p) = n" "ev_event_payload (runtime_event n p) = p"
  by (simp_all add: runtime_event_def)



subsection \<open>A parsed log is well formed and complete\<close>

definition entry_ok :: "DstackEventLogEntry \<Rightarrow> bool" where
  "entry_ok ev \<longleftrightarrow>
     ev_imr ev < 4 \<and> list_all lower_hex (ev_digest ev) \<and> even (length (ev_digest ev)) \<and> length (ev_digest ev) \<le> 96"

lemma lower_any_hex: "any_hex s \<Longrightarrow> list_all lower_hex (toLowerCase s)"
  by (auto simp: any_hex_def toLowerCase_def list_all_iff lower_char_hex)

lemma length_toLowerCase [simp]: "length (toLowerCase s) = length s"
  by (simp add: toLowerCase_def)

lemma register_index_bound:
  assumes "register_index v = Some i"
  shows "i < 4"
proof -
  from assms obtain q :: rat where "q < of_nat 4" "i = nat \<lfloor>q\<rfloor>"
    by (simp add: register_index_def RTMR_COUNT_def split: jsval.split_asm jsnum.split_asm if_split_asm)
  then have "\<lfloor>q\<rfloor> < 4" by (simp add: floor_less_iff)
  then have "nat \<lfloor>q\<rfloor> < 4" by linarith
  then show ?thesis by (simp only: \<open>i = nat \<lfloor>q\<rfloor>\<close>)
qed

lemma parse_event_Inr:
  assumes "parse_event v = Inr ev"
  obtains fs i digest p where "register_index (object_field fs ''imr'') = Some i" "any_hex digest"
    "even (length digest)" "length digest \<le> 96" "ev = event_entry i fs digest p"
proof (cases v)
  case (JObject fs)
  with assms obtain i where i: "register_index (object_field fs ''imr'') = Some i"
    by (simp add: parse_event_def split: option.split_asm)
  with assms JObject obtain digest where d: "object_field fs ''digest'' = JString digest"
    by (simp add: parse_event_def split: jsval.split_asm)
  with assms JObject i have "any_hex digest" "even (length digest)" "length digest \<le> 96"
    by (simp_all add: parse_event_def DIGEST_BYTES_def split: if_split_asm)
  moreover from this assms JObject i d have "\<exists>p. ev = event_entry i fs digest p"
    by (auto simp: parse_event_def DIGEST_BYTES_def split: jsval.split_asm)
  ultimately show ?thesis using that i by blast
qed (use assms in \<open>simp_all add: parse_event_def\<close>)

lemma parse_event_ok: "parse_event v = Inr ev \<Longrightarrow> entry_ok ev"
  by (elim parse_event_Inr) (simp add: entry_ok_def event_entry_def lower_any_hex register_index_bound)

text \<open>
  Parsing an event log keeps every entry or fails: a log of at most 4096 entries comes out with as
  many entries as went in, each in one of the registers 0 to 3 with a digest of at most 48 whole bytes in
  lower-case hexadecimal, and a longer log is refused.
\<close>

theorem parsed_log_complete:
  "(parseEventLog json_parse (JArray raw) = Inr events \<longrightarrow>
     length events = length raw \<and> length events \<le> 4096 \<and> list_all entry_ok events)
   \<and> (4096 < length raw \<longrightarrow> parseEventLog json_parse (JArray raw) = Inl EventLogError)"
proof (rule conjI; rule impI)
  assume "parseEventLog json_parse (JArray raw) = Inr events"
  then have "list_all2 (\<lambda>v ev. parse_event v = Inr ev) raw events" and "length raw \<le> 4096"
    by (simp_all add: parseEventLog_def MAX_EVENTS_def map_result_Inr_iff split: if_splits)
  moreover from this(1) have "list_all entry_ok events"
    by (induction rule: list_all2_induct) (simp_all add: parse_event_ok)
  ultimately show "length events = length raw \<and> length events \<le> 4096 \<and> list_all entry_ok events"
    by (simp add: list_all2_lengthD)
qed (simp add: parseEventLog_def MAX_EVENTS_def)

theorem parsed_log_complete_witness:
  "\<exists>events. parseEventLog (\<lambda>_. None) (JArray [JObject [(''imr'', JNumber (Fin 3)), (''digest'', JString ''AB'')]]) = Inr events
     \<and> list_all entry_ok events \<and> parseEventLog (\<lambda>_. None) (JArray (replicate 5000 JNull)) = Inl EventLogError"
proof -
  define v where "v = JObject [(''imr'', JNumber (Fin 3)), (''digest'', JString ''AB'')]"
  have "is_whole (3 :: rat)" using is_whole_of_int [of 3] by simp
  then have "parse_event v = Inr (event_entry 3 [(''imr'', JNumber (Fin 3)), (''digest'', JString ''AB'')] ''AB'' None)"
    by (simp add: v_def parse_event_def object_field_def register_index_def RTMR_COUNT_def DIGEST_BYTES_def any_hex_def
        hex_value_def)
  then obtain ev where "parseEventLog (\<lambda>_. None) (JArray [v]) = Inr [ev]" by (simp add: parseEventLog_def MAX_EVENTS_def)
  then show ?thesis
    using parsed_log_complete [of "\<lambda>_. None" "[v]" "[ev]"] parsed_log_complete [of "\<lambda>_. None" "replicate 5000 JNull" "[]"]
    unfolding v_def by auto
qed

end
