(* ===== verification/GatewayBindingSpec.thy ===== *)
theory GatewayBindingSpec
  imports GatewayBinding
begin

section \<open>The binding text determines the binding\<close>

text \<open>
  Canonical texts of bindings are equal only for equal bindings, and a validated binding is validated to
  itself, so the text that is hashed is the text of the binding that was read. From the URL standard this
  uses that the origin of an http or https URL parses to itself.
\<close>

subsection \<open>JSON strings can be taken off the front of a text\<close>

lemma hex_digit_inj: "hex_digit m = hex_digit n \<Longrightarrow> m < 16 \<Longrightarrow> n < 16 \<Longrightarrow> m = n"
  by (metis hex_digits_table option.inject)

lemma json_escape_plain: "32 \<le> (of_char c :: nat) \<Longrightarrow> (of_char c :: nat) \<notin> {34, 92} \<Longrightarrow> json_escape c = [c]"
  by (simp add: json_escape_def)

lemma json_escape_special:
  "\<not> (32 \<le> (of_char c :: nat) \<and> (of_char c :: nat) \<notin> {34, 92}) \<Longrightarrow> \<exists>e. json_escape c = CHR 0x5C # e \<and> e \<noteq> []"
  by (auto simp: json_escape_def Let_def)

lemma of_char_92: "(of_char c :: nat) \<noteq> 92 \<Longrightarrow> c \<noteq> CHR 0x5C"
  by auto

lemma of_char_34: "(of_char c :: nat) \<noteq> 34 \<Longrightarrow> c \<noteq> CHR 0x22"
  by auto

definition short_escape :: "nat \<Rightarrow> char option" where
  "short_escape n = map_of [(34, CHR 0x22), (92, CHR 0x5C), (8, CHR ''b''), (9, CHR ''t''), (10, CHR ''n''),
     (12, CHR ''f''), (13, CHR ''r'')] n"

lemma short_escape_inj: "short_escape m = Some e \<Longrightarrow> short_escape n = Some e \<Longrightarrow> m = n"
  by (auto simp: short_escape_def split: if_splits)

lemma short_escape_not_u: "short_escape m \<noteq> Some (CHR ''u'')"
  by (auto simp: short_escape_def split: if_splits)

lemma json_escape_cases:
  obtains (plain) "json_escape c = [c]" "c \<noteq> CHR 0x5C" "c \<noteq> CHR 0x22"
  | (short) e where "json_escape c = [CHR 0x5C, e]" "short_escape (of_char c) = Some e"
  | (long) "json_escape c = [CHR 0x5C, CHR ''u'', CHR ''0'', CHR ''0'', hex_digit (of_char c div 16), hex_digit (of_char c mod 16)]"
      "(of_char c :: nat) < 32"
proof -
  let ?n = "of_char c :: nat"
  consider "?n \<in> {34, 92, 8, 9, 10, 12, 13}" | "?n \<notin> {34, 92, 8, 9, 10, 12, 13}" "?n < 32"
    | "?n \<notin> {34, 92, 8, 9, 10, 12, 13}" "32 \<le> ?n" by force
  then show thesis
  proof cases
    case 1
    then have "\<exists>e. json_escape c = [CHR 0x5C, e] \<and> short_escape ?n = Some e"
      unfolding json_escape_def short_escape_def Let_def by auto
    then show ?thesis using short by blast
  next
    case 2
    then show ?thesis using long by (simp add: json_escape_def Let_def)
  next
    case 3
    then show ?thesis using plain json_escape_plain [of c] of_char_92 [of c] of_char_34 [of c] by simp
  qed
qed

lemma json_escape_cancel: "json_escape c @ x = json_escape d @ y \<Longrightarrow> c = d \<and> x = y"
proof -
  assume eq: "json_escape c @ x = json_escape d @ y"
  have "c = d"
  proof (cases c rule: json_escape_cases)
    case plain
    then show ?thesis using eq by (cases d rule: json_escape_cases) auto
  next
    case (short e)
    then show ?thesis
      using eq short_escape_inj [of "of_char c" e "of_char d"] short_escape_not_u [of "of_char c"]
      by (cases d rule: json_escape_cases) auto
  next
    case long
    show ?thesis
    proof (cases d rule: json_escape_cases)
      case long': long
      have "hex_digit (of_char c div 16) = hex_digit (of_char d div 16)"
        and "hex_digit (of_char c mod 16) = hex_digit (of_char d mod 16)"
        using eq long(1) long'(1) by simp_all
      then have "(of_char c :: nat) div 16 = of_char d div 16" "(of_char c :: nat) mod 16 = of_char d mod 16"
        using hex_digit_inj long(2) long'(2) by simp_all
      then have "(of_char c :: nat) = of_char d" by (metis div_mult_mod_eq)
      then show ?thesis by simp
    qed (use eq long short_escape_not_u [of "of_char d"] in auto)
  qed
  then show ?thesis using eq by simp
qed

lemma json_escape_hd: "json_escape c @ x \<noteq> CHR 0x22 # y"
  by (cases c rule: json_escape_cases) auto

lemma json_string_cancel [simp]: "json_string s @ x = json_string t @ y \<longleftrightarrow> s = t \<and> x = y"
proof
  assume "json_string s @ x = json_string t @ y"
  then have "concat (map json_escape s) @ CHR 0x22 # x = concat (map json_escape t) @ CHR 0x22 # y"
    by (simp add: json_string_def)
  then show "s = t \<and> x = y"
  proof (induction s arbitrary: t)
    case Nil
    show ?case
    proof (cases t)
      case (Cons d ds)
      then show ?thesis using Nil json_escape_hd [of d "concat (map json_escape ds) @ CHR 0x22 # y" x] by simp
    qed (use Nil in simp)
  next
    case (Cons c cs)
    show ?case
    proof (cases t)
      case Nil
      then show ?thesis using Cons.prems json_escape_hd [of c "concat (map json_escape cs) @ CHR 0x22 # x" y] by simp
    next
      case (Cons d ds)
      then have "json_escape c @ (concat (map json_escape cs) @ CHR 0x22 # x)
          = json_escape d @ (concat (map json_escape ds) @ CHR 0x22 # y)" using Cons.prems by simp
      then have "c = d" "concat (map json_escape cs) @ CHR 0x22 # x = concat (map json_escape ds) @ CHR 0x22 # y"
        using json_escape_cancel by blast+
      then show ?thesis using Cons.IH [of ds] Cons by simp
    qed
  qed
qed simp

lemma json_string_inj [simp]: "json_string s = json_string t \<longleftrightarrow> s = t"
  using json_string_cancel [of s "[]" t "[]"] by simp

lemma json_string_not_null: "json_string s \<noteq> ''null''" "''null'' \<noteq> json_string s"
  by (simp_all add: json_string_def)

lemma key_alg_text_inj: "key_alg_text a = key_alg_text b \<longleftrightarrow> a = b"
  by (cases a; cases b) simp_all

lemma transport_text_inj: "transport_text a = transport_text b \<longleftrightarrow> a = b"
  by (cases a; cases b) simp_all

subsection \<open>Canonical texts\<close>

theorem binding_text_inj: "binding_text a = binding_text b \<Longrightarrow> a = b"
proof -
  assume "binding_text a = binding_text b"
  then have "b_nonce a = b_nonce b \<and> b_app_id a = b_app_id b \<and> b_instance_id a = b_instance_id b
      \<and> b_compose_hash a = b_compose_hash b \<and> b_release_id a = b_release_id b \<and> b_origin a = b_origin b
      \<and> b_key_alg a = b_key_alg b \<and> b_public_key a = b_public_key b \<and> b_transport a = b_transport b
      \<and> (case b_tls_spki_sha256 a of None \<Rightarrow> ''null'' | Some s \<Rightarrow> json_string s) @ ''}''
        = (case b_tls_spki_sha256 b of None \<Rightarrow> ''null'' | Some s \<Rightarrow> json_string s) @ ''}''"
    by (simp add: binding_text_def CANONICAL_FIELD_ORDER_def binding_values_def key_alg_text_inj transport_text_inj)
  then show "a = b"
    by (cases "b_tls_spki_sha256 a"; cases "b_tls_spki_sha256 b") (simp_all add: json_string_not_null)
qed

subsection \<open>Validated bindings\<close>

definition url_stable :: "(string \<Rightarrow> url_parts option) \<Rightarrow> bool" where
  "url_stable parse_url \<longleftrightarrow>
     (\<forall>s u. parse_url s = Some u \<longrightarrow> u_protocol u \<in> {''https:'', ''http:''} \<longrightarrow>
        u_origin u \<noteq> [] \<and> last (u_origin u) \<noteq> CHR ''/'' \<and>
        (\<exists>v. parse_url (u_origin u) = Some v \<and> u_protocol v = u_protocol u \<and> u_username v = [] \<and> u_password v = []
           \<and> u_search v = [] \<and> u_hash v = [] \<and> u_pathname v = ''/'' \<and> u_origin v = u_origin u))"

definition hex_field :: "string \<Rightarrow> nat option \<Rightarrow> bool" where
  "hex_field s n \<longleftrightarrow> s \<noteq> [] \<and> list_all lower_hex s \<and> (case n of Some k \<Rightarrow> length s = k | None \<Rightarrow> length s \<le> 512)"

definition tls_ok :: "GatewayTransportBinding \<Rightarrow> string option \<Rightarrow> bool" where
  "tls_ok transport tls \<longleftrightarrow>
     (case tls of None \<Rightarrow> transport = GatewayTls | Some s \<Rightarrow> transport = InTeeTls \<and> hex_field s (Some 64))"

definition binding_ok :: "(string \<Rightarrow> url_parts option) \<Rightarrow> GatewayAttestationBinding \<Rightarrow> bool" where
  "binding_ok parse_url b \<longleftrightarrow>
     hex_field (b_nonce b) (Some 64) \<and> hex_field (b_app_id b) None \<and> hex_field (b_instance_id b) None
     \<and> hex_field (b_compose_hash b) (Some 64) \<and> hex_field (b_public_key b) None \<and> release_pattern (b_release_id b)
     \<and> canonicalGatewayOrigin parse_url (JString (b_origin b)) = Inr (b_origin b)
     \<and> tls_ok (b_transport b) (b_tls_spki_sha256 b)"

lemma requireLowercaseHex_Inr:
  "requireLowercaseHex field v n = Inr s \<longleftrightarrow> v = JString s \<and> hex_field s n"
  by (auto simp: requireLowercaseHex_def hex_field_def split: jsval.splits option.splits)

lemma assertGatewayNonce_Inr: "assertGatewayNonce v = Inr s \<Longrightarrow> hex_field s (Some 64)"
  by (auto simp: assertGatewayNonce_def requireLowercaseHex_Inr GATEWAY_NONCE_HEX_LENGTH_def split: jsval.splits)

lemma canonicalGatewayOrigin_Inr:
  "canonicalGatewayOrigin parse_url v = Inr t \<Longrightarrow>
     \<exists>s u. v = JString s \<and> length s \<le> 269 \<and> parse_url s = Some u \<and> u_protocol u \<in> {''https:'', ''http:''}
       \<and> t = u_origin u \<and> t = drop_final_slash s"
  by (auto simp: canonicalGatewayOrigin_def split: jsval.splits option.splits if_splits)

lemma canonical_origin_stable:
  assumes "url_stable parse_url" and "canonicalGatewayOrigin parse_url v = Inr t"
  shows "canonicalGatewayOrigin parse_url (JString t) = Inr t"
proof -
  obtain s u where u: "length s \<le> 269" "parse_url s = Some u" "u_protocol u \<in> {''https:'', ''http:''}"
      "t = u_origin u" "t = drop_final_slash s"
    using canonicalGatewayOrigin_Inr [OF assms(2)] by blast
  note origin = assms(1)[unfolded url_stable_def, rule_format, OF u(2,3), folded u(4)]
  have t: "t \<noteq> []" "last t \<noteq> CHR ''/''" using origin by simp_all
  have "length t \<le> 269" using u(1,5) by (auto simp: drop_final_slash_def split: if_split_asm)
  obtain w where "parse_url t = Some w" "u_protocol w = u_protocol u" "u_username w = []" "u_password w = []"
      "u_search w = []" "u_hash w = []" "u_pathname w = ''/''" "u_origin w = t"
    using origin by blast
  then show ?thesis using t \<open>length t \<le> 269\<close> u(3) by (auto simp: canonicalGatewayOrigin_def drop_final_slash_def)
qed

lemma requireLowercaseHex_ok: "hex_field s n \<Longrightarrow> requireLowercaseHex field (JString s) n = Inr s"
  by (simp add: requireLowercaseHex_Inr)

lemma read_tls_Inr:
  assumes "read_tls fs transport = Inr tls"
  shows "tls_ok transport tls"
proof (cases tls)
  case None
  then show ?thesis
    using assms by (cases transport) (auto simp: tls_ok_def read_tls_def Let_def and_then_Inr_iff split: if_split_asm)
next
  case (Some s)
  then have "transport = InTeeTls"
    using assms by (cases transport) (auto simp: read_tls_def Let_def and_then_Inr_iff split: if_split_asm)
  moreover have "hex_field s (Some 64)"
    using assms Some
    by (cases "object_field fs ''tls_spki_sha256''")
       (auto simp: read_tls_def Let_def and_then_Inr_iff requireLowercaseHex_Inr split: if_split_asm)
  ultimately show ?thesis by (simp add: tls_ok_def Some)
qed

theorem normalize_binding_ok:
  assumes "url_stable parse_url" and "normalizeGatewayBinding parse_url v = Inr b"
  shows "binding_ok parse_url b"
proof -
  from assms(2) obtain fs where "normalize_fields parse_url fs = Inr b"
    by (auto simp: normalizeGatewayBinding_def split: jsval.splits option.splits)
  then show ?thesis
    by (auto simp: normalize_fields_def and_then_Inr_iff requireLowercaseHex_Inr binding_ok_def
        dest: assertGatewayNonce_Inr read_tls_Inr canonical_origin_stable [OF assms(1)]
        split: if_split_asm jsval.split_asm)
qed

lemma read_name_text:
  "(\<And>x y. text x = text y \<Longrightarrow> x = y) \<Longrightarrow> x \<in> set choices \<Longrightarrow> read_name field text choices (JString (text x)) = Inr x"
  by (induction choices) (auto simp: read_name_def)

lemma lowered_hex: "hex_field s n \<Longrightarrow> lowered_0x (JString s) = JString s" "hex_field s n \<Longrightarrow> lowered (JString s) = JString s"
  by (simp_all add: lowered_0x_def lowered_def hex_field_def normal_hex)

lemma read_tls_written:
  assumes "tls_ok transport tls" and "map_of fs ''tls_spki_sha256'' = Some (case tls of None \<Rightarrow> JNull | Some s \<Rightarrow> JString s)"
  shows "read_tls fs transport = Inr tls"
proof -
  from assms(2) have "''tls_spki_sha256'' \<in> fst ` set fs" by (metis map_of_eq_None_iff option.distinct(1))
  then show ?thesis
    using assms by (cases tls; cases transport)
      (simp_all add: tls_ok_def read_tls_def Let_def object_field_def lowered_hex requireLowercaseHex_ok)
qed

theorem normalize_binding_object:
  assumes "binding_ok parse_url b"
  shows "normalizeGatewayBinding parse_url (binding_object b) = Inr b"
proof -
  note ok = assms[unfolded binding_ok_def]
  obtain fs where fs: "binding_object b = JObject fs" by (simp add: binding_object_def)
  have "read_name ''key_alg'' key_alg_text KEY_ALGORITHMS (JString (key_alg_text (b_key_alg b))) = Inr (b_key_alg b)"
    by (rule read_name_text) (auto simp: key_alg_text_inj KEY_ALGORITHMS_def intro: GatewayKeyAlgorithm.exhaust)
  moreover have "read_name ''transport'' transport_text TRANSPORT_BINDINGS (JString (transport_text (b_transport b)))
      = Inr (b_transport b)"
    by (rule read_name_text) (auto simp: transport_text_inj TRANSPORT_BINDINGS_def intro: GatewayTransportBinding.exhaust)
  moreover have "assertGatewayNonce (JString (b_nonce b)) = Inr (b_nonce b)"
    using ok by (simp add: assertGatewayNonce_def requireLowercaseHex_Inr GATEWAY_NONCE_HEX_LENGTH_def hex_field_def
        toLowerCase_hex)
  moreover have "requireLowercaseHex f (lowered_0x (JString s)) n = Inr s" if "hex_field s n" for f s n
    using that by (simp add: lowered_hex requireLowercaseHex_Inr)
  moreover have "read_tls fs (b_transport b) = Inr (b_tls_spki_sha256 b)"
    by (rule read_tls_written) (use ok fs in \<open>auto simp: binding_object_def\<close>)
  moreover have "find (\<lambda>k. k \<notin> set CANONICAL_FIELD_ORDER) (map fst fs) = None"
    using fs by (auto simp: find_None_iff binding_object_def CANONICAL_FIELD_ORDER_def)
  moreover have "object_field fs ''v'' = JNumber (Fin GATEWAY_BINDING_VERSION)"
      "object_field fs ''nonce'' = JString (b_nonce b)" "object_field fs ''app_id'' = JString (b_app_id b)"
      "object_field fs ''instance_id'' = JString (b_instance_id b)"
      "object_field fs ''compose_hash'' = JString (b_compose_hash b)"
      "object_field fs ''release_id'' = JString (b_release_id b)" "object_field fs ''origin'' = JString (b_origin b)"
      "object_field fs ''key_alg'' = JString (key_alg_text (b_key_alg b))"
      "object_field fs ''public_key'' = JString (b_public_key b)"
      "object_field fs ''transport'' = JString (transport_text (b_transport b))"
    using fs by (auto simp: binding_object_def object_field_def)
  ultimately show ?thesis
    using ok by (simp add: fs normalizeGatewayBinding_def normalize_fields_def)
qed

end
