(* ===== verification/AppComposeSpec.thy ===== *)
theory AppComposeSpec
  imports AppCompose
begin

section \<open>What the image scan sees\<close>

text \<open>
  The scan looks only at lines that start, after blanks and dashes, with the bare key \<open>image:\<close>. Such a line
  is reported with its reference; any other line adds nothing, whatever image it names.
\<close>

definition plain_line :: "string \<Rightarrow> bool" where
  "plain_line x \<longleftrightarrow> list_all (\<lambda>c. \<not> line_end c) x"

definition image_line :: "string \<Rightarrow> bool" where
  "image_line x \<longleftrightarrow> take 6 (dropWhile indent_char x) = ''image:''"

definition text_lines :: "string list \<Rightarrow> string" where
  "text_lines xs = concat (map (\<lambda>x. x @ [CHR 0x0A]) xs)"

lemma greedy_first: "greedy p s = dropWhile p s # map (\<lambda>k. drop k s) (rev [0..<length (takeWhile p s)])"
  by (simp add: greedy_def dropWhile_eq_drop)

lemma key_prefix_indent: "k < length (takeWhile indent_char s) \<Longrightarrow> key_prefix (drop k s) = []"
proof -
  assume k: "k < length (takeWhile indent_char s)"
  then have "k < length s" by (meson length_takeWhile_le less_le_trans)
  have "indent_char (s ! k)" using k by (metis nth_mem set_takeWhileD takeWhile_nth)
  then have "s ! k \<noteq> CHR ''i''" by (auto simp: indent_char_def)
  moreover have "drop k s = s ! k # drop (Suc k) s" using \<open>k < length s\<close> by (simp add: Cons_nth_drop_Suc)
  ultimately show ?thesis by (simp add: key_prefix_def)
qed

lemma key_positions: "concat (map key_prefix (greedy indent_char s)) = key_prefix (dropWhile indent_char s)"
proof -
  have "concat (map key_prefix (map (\<lambda>k. drop k s) (rev [0..<length (takeWhile indent_char s)]))) = []"
    by (auto simp: key_prefix_indent)
  then show ?thesis unfolding greedy_first by simp
qed

lemma image_refs_start: "at_line_start p = at_line_start q \<Longrightarrow> image_refs p s = image_refs q s"
  by (subst image_refs.simps, subst (2) image_refs.simps) simp

lemma image_refs_inside:
  "plain_line x \<Longrightarrow> line_end d \<Longrightarrow> \<not> at_line_start prev \<Longrightarrow> image_refs prev (x @ d # rest) = image_refs (Some d) rest"
  by (induction x arbitrary: prev; subst image_refs.simps) (simp_all add: plain_line_def at_line_start_def)

lemma no_image_key:
  assumes "plain_line x" and "\<not> image_line x" and "line_end d"
  shows "line_matches (x @ d # rest) = []"
proof -
  have d: "\<not> indent_char d" "d \<notin> set ''image:''" using assms(3) by (auto simp: line_end_def indent_char_def)
  let ?y = "dropWhile indent_char x"
  have drop: "dropWhile indent_char (x @ d # rest) = ?y @ d # rest"
    using d(1) by (induction x) simp_all
  have "take 6 (?y @ d # rest) \<noteq> ''image:''"
  proof (cases "6 \<le> length ?y")
    case True
    then show ?thesis using assms(2) by (simp add: image_line_def)
  next
    case False
    then obtain n where "6 - length ?y = Suc n" by (metis Suc_diff_Suc not_le)
    then have "d \<in> set (take 6 (?y @ d # rest))" by simp
    then show ?thesis using d(2) by metis
  qed
  then have "key_prefix (dropWhile indent_char (x @ d # rest)) = []" unfolding drop key_prefix_def by simp
  then show ?thesis by (simp add: line_matches_def key_positions)
qed

lemma line_skipped:
  assumes "plain_line x" and "\<not> image_line x" and "line_end d" and "at_line_start prev"
  shows "image_refs prev (x @ d # rest) = image_refs (Some d) rest"
proof (cases x)
  case Nil
  then show ?thesis using no_image_key [OF assms(1-3)] by (subst image_refs.simps) simp
next
  case (Cons c cs)
  then have "plain_line cs" "\<not> at_line_start (Some c)" using assms(1) by (simp_all add: plain_line_def at_line_start_def)
  moreover have "image_refs prev (x @ d # rest) = image_refs (Some c) (cs @ d # rest)"
    using no_image_key [OF assms(1-3)] Cons by (subst image_refs.simps) simp
  ultimately show ?thesis using image_refs_inside assms(3) by simp
qed

lemma lines_skipped:
  "list_all plain_line xs \<Longrightarrow> list_all (\<lambda>x. \<not> image_line x) xs \<Longrightarrow> at_line_start prev \<Longrightarrow>
     image_refs prev (text_lines xs @ rest) = image_refs None rest"
proof (induction xs arbitrary: prev)
  case Nil
  then show ?case by (simp add: text_lines_def) (rule image_refs_start, simp add: at_line_start_def)
next
  case (Cons x xs)
  have "line_end (CHR 0x0A)" by (simp add: line_end_def)
  then have "image_refs prev (x @ CHR 0x0A # (text_lines xs @ rest)) = image_refs (Some (CHR 0x0A)) (text_lines xs @ rest)"
    using Cons.prems by (intro line_skipped) simp_all
  also have "\<dots> = image_refs None rest"
    using Cons by (simp add: at_line_start_def \<open>line_end (CHR 0x0A)\<close>)
  finally show ?case by (simp add: text_lines_def)
qed



subsection \<open>A bare image line is reported\<close>

definition bare_reference :: "string \<Rightarrow> bool" where
  "bare_reference ref \<longleftrightarrow> ref \<noteq> [] \<and> list_all (\<lambda>c. reference_char c \<and> \<not> is_js_space c) ref"

lemma greedy_stuck: "\<not> p c \<Longrightarrow> greedy p (c # cs) = [c # cs]"
  by (simp add: greedy_def)

lemma after_reference_stuck:
  "reference_char c \<Longrightarrow> \<not> is_js_space c \<Longrightarrow> after_reference (c # cs) = []"
  by (simp add: after_reference_def optional_quote_def reference_char_def greedy_stuck optional_comment_def at_line_end_def)

lemma after_reference_end:
  assumes "at_line_end tail"
  shows "tail \<in> set (after_reference tail)"
proof -
  have "tail \<in> set (optional_quote tail)" by (auto simp: optional_quote_def split: list.split)
  moreover have "tail \<in> set (greedy is_js_space tail)" unfolding greedy_def set_map by (rule image_eqI [of _ _ 0]) simp_all
  moreover have "tail \<in> set (optional_comment tail)" by (auto simp: optional_comment_def split: list.split)
  ultimately show ?thesis using assms unfolding after_reference_def set_filter set_concat set_map by blast
qed

lemma first_reference:
  assumes "bare_reference ref" and "at_line_end tail"
  shows "\<exists>t ms. reference_matches (ref @ tail) = (ref, t) # ms"
proof -
  let ?n = "length ref" let ?f = "\<lambda>k. map (Pair (take k (ref @ tail))) (after_reference (drop k (ref @ tail)))"
  have "takeWhile reference_char (ref @ tail) = ref"
    using assms by (cases tail)
      (auto simp: bare_reference_def list_all_iff at_line_end_def reference_char_def takeWhile_tail takeWhile_eq_all_conv)
  then have "lazy reference_char (ref @ tail) = map (\<lambda>k. (take k (ref @ tail), drop k (ref @ tail))) ([1..<?n] @ [?n])"
    using assms(1) by (cases ref) (simp_all add: lazy_def bare_reference_def)
  then have all: "reference_matches (ref @ tail) = concat (map ?f [1..<?n]) @ ?f ?n"
    by (simp add: reference_matches_def comp_def)
  have "?f k = []" if "k < ?n" for k
  proof -
    have "drop k (ref @ tail) = ref ! k # drop (Suc k) ref @ tail" using that by (simp add: Cons_nth_drop_Suc)
    then show ?thesis
      using assms(1) that after_reference_stuck [of "ref ! k"] by (simp add: bare_reference_def list_all_length)
  qed
  then have earlier: "concat (map ?f [1..<?n]) = []" by auto
  obtain t ts where "after_reference tail = t # ts"
    using after_reference_end [OF assms(2)] by (cases "after_reference tail") auto
  then show ?thesis unfolding all earlier by simp
qed

lemma image_line_matches:
  assumes "list_all indent_char ind" and "bare_reference ref" and "at_line_end tail"
  shows "\<exists>t ms. line_matches (ind @ ''image: '' @ ref @ tail) = (ref, t) # ms"
proof -
  obtain c cs where ref: "ref = c # cs" using assms(2) by (cases ref) (auto simp: bare_reference_def)
  then have c: "\<not> is_js_space c" "\<not> quote_char c" using assms(2) by (simp_all add: bare_reference_def reference_char_def)
  have "dropWhile indent_char (ind @ ''image: '' @ ref @ tail) = ''image: '' @ ref @ tail"
    using assms(1) by (induction ind) (simp_all add: indent_char_def)
  then have key: "concat (map key_prefix (greedy indent_char (ind @ ''image: '' @ ref @ tail))) = ['' '' @ ref @ tail]"
    by (simp add: key_positions key_prefix_def)
  have "dropWhile is_js_space ('' '' @ ref @ tail) = ref @ tail" using c ref by (simp add: is_js_space_def)
  moreover have "optional_quote (ref @ tail) = [ref @ tail]" using c ref by (simp add: optional_quote_def)
  ultimately obtain rs where "concat (map optional_quote (greedy is_js_space ('' '' @ ref @ tail))) = (ref @ tail) # rs"
    by (simp add: greedy_first)
  then show ?thesis
    using first_reference [OF assms(2,3)] unfolding line_matches_def key by auto
qed

lemma js_trim_bare: "bare_reference ref \<Longrightarrow> js_trim ref = ref"
proof -
  assume ref: "bare_reference ref"
  then have "dropWhile is_js_space ref = ref" by (cases ref) (simp_all add: bare_reference_def)
  moreover have "dropWhile is_js_space (rev ref) = rev ref"
    using ref by (cases ref rule: rev_cases) (simp_all add: bare_reference_def)
  ultimately show ?thesis by (simp add: js_trim_def)
qed

text \<open>
  A bare image line is never missed: in a document whose earlier lines have no bare image key, a line
  of blanks or dashes, \<open>image: \<close> and a reference without quotes, spaces or comment is reported first, with exactly
  that reference, and as pinned only if it ends in a SHA-256 digest.
\<close>

theorem image_line_reported:
  assumes "list_all plain_line xs" and "list_all (\<lambda>x. \<not> image_line x) xs"
    and "list_all indent_char ind" and "bare_reference ref" and "at_line_end tail"
  shows "\<exists>others. extractComposeImages (text_lines xs @ ind @ ''image: '' @ ref @ tail)
           = \<lparr> i_reference = ref, i_digestPinned = digest_suffix ref \<rparr> # others"
proof -
  obtain t ms where "line_matches (ind @ ''image: '' @ ref @ tail) = (ref, t) # ms"
    using image_line_matches [OF assms(3-5)] by blast
  then have "\<exists>rs. image_refs None (ind @ ''image: '' @ ref @ tail) = ref # rs"
    by (subst image_refs.simps) (simp add: at_line_start_def)
  then obtain rs where "image_refs None (text_lines xs @ ind @ ''image: '' @ ref @ tail) = ref # rs"
    using lines_skipped [OF assms(1,2), of None "ind @ ''image: '' @ ref @ tail"] by (auto simp: at_line_start_def)
  moreover have "ref \<noteq> []" using assms(4) by (simp add: bare_reference_def)
  ultimately show ?thesis by (simp add: extractComposeImages_def js_trim_bare [OF assms(4)] Let_def)
qed

theorem image_line_reported_witness:
  "\<exists>others. extractComposeImages (text_lines [''services:'', ''  web:''] @ ''    '' @ ''image: '' @ ''nginx:latest'' @ [CHR 0x0A])
     = \<lparr> i_reference = ''nginx:latest'', i_digestPinned = digest_suffix ''nginx:latest'' \<rparr> # others"
  by (rule image_line_reported)
     (simp_all add: plain_line_def image_line_def line_end_def indent_char_def bare_reference_def reference_char_def
       quote_char_def is_js_space_def at_line_end_def)

end
