(* ===== verification/GatewaySpec.thy ===== *)
theory GatewaySpec
  imports GatewayVerify EventLogSpec GatewayBindingSpec AppComposeSpec
begin

section \<open>What an accepted gateway attestation proves\<close>

text \<open>
  The verdict is its checks: it fails closed, and each reason is the first required check that failed. An
  accepted document is tied to the TD twice: the report data fixes the whole binding, and the runtime
  register fixes the events, so the manifest that was inspected is the one the guest measured.
\<close>

definition manifest_of :: "verify_env \<Rightarrow> GatewayAttestationEvidence \<Rightarrow> AttestedAppCompose option" where
  "manifest_of V ev =
     (case readAttestedAppCompose (v_json_parse V) (v_sha256 V) (g_app_compose ev) of Inl _ \<Rightarrow> None | Inr a \<Rightarrow> Some a)"

lemma verdict_checks:
  "r_checks (verdict V ev x b q h) = all_checks V ev x b q h (manifest_of V ev)"
  "r_ok (verdict V ev x b q h) \<longleftrightarrow> allRequiredPassed (all_checks V ev x b q h (manifest_of V ev))"
  "r_failure (verdict V ev x b q h) = firstRequiredFailure (all_checks V ev x b q h (manifest_of V ev))"
  "r_verificationLevel (verdict V ev x b q h) =
     (if allRequiredPassed (all_checks V ev x b q h (manifest_of V ev))
      then if fst (chain_outcome ev x) then HardwareVerified else ProviderAttested else Unverified)"
  "r_binding (verdict V ev x b q h) = Some b"
  unfolding verdict_def manifest_of_def [symmetric]
  by (simp_all add: Let_def failed_def split: prod.split option.split flip: firstRequiredFailure_None)

lemma failed_fields [simp]:
  "r_ok (failed cs x b a m t) = False" "r_checks (failed cs x b a m t) = cs"
  "r_verificationLevel (failed cs x b a m t) = Unverified"
  "r_failure (failed cs x b a m t) = Some (case firstRequiredFailure cs of Some n \<Rightarrow> n | None \<Rightarrow> ''verification_failed'')"
  by (simp_all add: failed_def)

text \<open>
  The verdict fails closed, whatever the evidence: it is ok exactly when every required check passed,
  the reason is the name of the first required check that failed, and only an ok verdict has a level above unverified.
\<close>

theorem verdict_fails_closed:
  "r_ok (verifyGatewayAttestation V ev x) = allRequiredPassed (r_checks (verifyGatewayAttestation V ev x))
   \<and> r_failure (verifyGatewayAttestation V ev x) = firstRequiredFailure (r_checks (verifyGatewayAttestation V ev x))
   \<and> (r_verificationLevel (verifyGatewayAttestation V ev x) = Unverified) = (\<not> r_ok (verifyGatewayAttestation V ev x))
   \<and> (r_verificationLevel (verifyGatewayAttestation V ev x) = HardwareVerified)
       = (r_ok (verifyGatewayAttestation V ev x) \<and> fst (chain_outcome ev x))"
  unfolding verifyGatewayAttestation_def
  by (simp add: verdict_checks firstRequiredFailure_def split: sum.split option.split)

subsection \<open>Reading an accepted document\<close>

lemma accepted:
  assumes "r_ok (verifyGatewayAttestation V ev x)"
  obtains b q h where "normalizeGatewayBinding (v_parse_url V) (g_binding ev) = Inr b"
    "parseTdxQuote (g_quote ev) = Some q" "gatewayBindingHash (v_parse_url V) (v_sha512 V) b = Inr h"
    "verifyGatewayAttestation V ev x = verdict V ev x b q h"
    "allRequiredPassed (all_checks V ev x b q h (manifest_of V ev))"
  using assms unfolding verifyGatewayAttestation_def by (auto simp: verdict_checks split: sum.split_asm option.split_asm)

lemma payloads_read:
  assumes "er_read (read_payloads payload passed thrown)"
  shows "er_checks (read_payloads payload passed thrown) = passed
    \<and> payload ''compose-hash'' = Inr (er_composeHash (read_payloads payload passed thrown))
    \<and> payload ''app-id'' = Inr (er_appId (read_payloads payload passed thrown))"
  using assms by (auto simp: read_payloads_def Let_def split: sum.splits)

lemma log_read:
  assumes "er_read (read_event_log V el q)" and "allRequiredPassed (er_checks (read_event_log V el q))"
  obtains events where "parseEventLog (v_json_parse V) el = Inr events"
    "hexEqual (Some (replayRtmrs (v_sha384 V) (v_parse_bytes V) events ! 3)) (Some (q_rtmr3 q))"
    "inconsistentRtmr3Events (v_sha384 V) (v_parse_bytes V) events = []"
    "singleEventPayload (v_sha384 V) (v_parse_bytes V) events ''compose-hash'' = Inr (er_composeHash (read_event_log V el q))"
    "singleEventPayload (v_sha384 V) (v_parse_bytes V) events ''app-id'' = Inr (er_appId (read_event_log V el q))"
proof (cases "parseEventLog (v_json_parse V) el")
  case (Inl e)
  then show ?thesis using assms(1) by (simp add: read_event_log_def)
next
  case (Inr events)
  let ?payload = "singleEventPayload (v_sha384 V) (v_parse_bytes V) events"
  have r: "read_event_log V el q = read_payloads ?payload (log_checks V events q) thrown_checks"
    using Inr by (simp add: read_event_log_def)
  note got = payloads_read [OF assms(1)[unfolded r]]
  then have "allRequiredPassed (log_checks V events q)" using assms(2) by (simp add: r)
  then have "hexEqual (Some (replayRtmrs (v_sha384 V) (v_parse_bytes V) events ! 3)) (Some (q_rtmr3 q))"
    and "inconsistentRtmr3Events (v_sha384 V) (v_parse_bytes V) events = []"
    by (simp_all add: log_checks_def Let_def)
  then show ?thesis using that [of events] Inr got by (simp add: r)
qed

lemma all_checks_passed:
  assumes "allRequiredPassed (all_checks V ev x b q h a)"
  defines "er \<equiv> read_event_log V (g_event_log ev) q"
  shows "q_teeType q = TEE_TYPE_TDX" "\<not> q_debugEnabled q" "allRequiredPassed (identity_checks V x b q h)"
    "allRequiredPassed (er_checks er)" "allRequiredPassed (measured_checks V ev (e_policy x) b er)"
    "allRequiredPassed (manifest_checks (e_policy x) b a)" "allRequiredPassed (pinned_checks (e_policy x) b q er)"
    "allRequiredPassed (transport_checks x b)" "allRequiredPassed [chain_check ev x]"
  using assms(1) unfolding all_checks_def Let_def er_def by simp_all

lemma binding_hash_text:
  assumes "binding_ok parse_url b"
  shows "gatewayBindingHash parse_url S b = Inr (bytes_hex (S (utf8_text (binding_text b))))"
  by (simp add: gatewayBindingHash_def gatewayBindingDigest_def canonicalGatewayBindingJson_def
      normalize_binding_object [OF assms])

subsection \<open>The report data fixes the binding\<close>

text \<open>
  C11. An accepted attestation is an assertion of the TD about this very request: if the TD put the digest
  of its own binding into the report data, and SHA-512 does not collide on that binding and the one in the
  evidence, then the binding shown is the TD's own; it carries the client's nonce and canonical origin, its app,
  compose hash, release and origin are pinned by the local policy, the quote is a TDX quote of a TD that is not in
  debug mode, and what the policy requires of transport and signature chain holds.
\<close>

theorem accepted_binding_is_asserted:
  assumes "url_stable (v_parse_url V)"
    and "r_ok (verifyGatewayAttestation V ev x)"
    and "parseTdxQuote (g_quote ev) = Some q"
    and "binding_ok (v_parse_url V) b0"
    and "q_reportData q = bytes_hex (v_sha512 V (utf8_text (binding_text b0)))"
    and "\<And>bs. list_all is_byte (v_sha512 V bs) \<and> length (v_sha512 V bs) = 64"
    and "\<And>b. normalizeGatewayBinding (v_parse_url V) (g_binding ev) = Inr b \<Longrightarrow>
           inj_on (v_sha512 V) {utf8_text (binding_text b), utf8_text (binding_text b0)}"
  shows "r_binding (verifyGatewayAttestation V ev x) = Some b0
    \<and> b_nonce b0 = toLowerCase (e_nonce x)
    \<and> canonicalGatewayOrigin (v_parse_url V) (JString (e_origin x)) = Inr (b_origin b0)
    \<and> b_origin b0 \<in> set (gp_origins (e_policy x)) \<and> b_release_id b0 \<in> set (gp_releaseIds (e_policy x))
    \<and> some_equal (gp_appIds (e_policy x)) (b_app_id b0) \<and> some_equal (gp_composeHashes (e_policy x)) (b_compose_hash b0)
    \<and> q_teeType q = TEE_TYPE_TDX \<and> \<not> q_debugEnabled q
    \<and> (gp_requireInTeeTls (e_policy x) \<longrightarrow> b_transport b0 = InTeeTls
         \<and> (\<forall>seen. e_observedTlsSpkiSha256 x = Some seen \<longrightarrow> hexEqual seen (b_tls_spki_sha256 b0)))
    \<and> (gp_requireHardwareVerified (e_policy x) \<longrightarrow>
         r_verificationLevel (verifyGatewayAttestation V ev x) = HardwareVerified)"
proof -
  obtain b q' h where b: "normalizeGatewayBinding (v_parse_url V) (g_binding ev) = Inr b"
      and q': "parseTdxQuote (g_quote ev) = Some q'"
      and h: "gatewayBindingHash (v_parse_url V) (v_sha512 V) b = Inr h"
      and r: "verifyGatewayAttestation V ev x = verdict V ev x b q' h"
      and ok: "allRequiredPassed (all_checks V ev x b q' h (manifest_of V ev))"
    using accepted [OF assms(2)] .
  have q: "q' = q" using q' assms(3) by simp
  have hash: "h = bytes_hex (v_sha512 V (utf8_text (binding_text b)))"
    using h binding_hash_text [OF normalize_binding_ok [OF assms(1) b]] by simp
  note ok' = all_checks_passed [OF ok, unfolded q]
  have passed: "hexEqual (Some (q_reportData q)) (Some h)" "b_nonce b = toLowerCase (e_nonce x)"
      "canonicalGatewayOrigin (v_parse_url V) (JString (e_origin x)) = Inr (b_origin b)"
    using ok'(3) by (simp_all add: identity_checks_def split: sum.split_asm)
  have pinned: "b_origin b \<in> set (gp_origins (e_policy x))" "b_release_id b \<in> set (gp_releaseIds (e_policy x))"
      "some_equal (gp_appIds (e_policy x)) (b_app_id b)" "some_equal (gp_composeHashes (e_policy x)) (b_compose_hash b)"
    using ok'(7) by (simp_all add: pinned_checks_def)
  have transport: "gp_requireInTeeTls (e_policy x) \<Longrightarrow> b_transport b = InTeeTls"
      "gp_requireInTeeTls (e_policy x) \<Longrightarrow> e_observedTlsSpkiSha256 x = Some seen \<Longrightarrow> hexEqual seen (b_tls_spki_sha256 b)" for seen
    using ok'(8) by (simp_all add: transport_checks_def)
  have chain: "gp_requireHardwareVerified (e_policy x) \<Longrightarrow> fst (chain_outcome ev x)"
    using ok'(9) by (simp add: chain_check_def chain_outcome_def split: option.split_asm)
  have "bytes_hex (v_sha512 V (utf8_text (binding_text b0))) = bytes_hex (v_sha512 V (utf8_text (binding_text b)))"
    using passed(1) hexEqual_lower bytes_hex_lower assms(6) unfolding hash assms(5) by blast
  then have "v_sha512 V (utf8_text (binding_text b)) = v_sha512 V (utf8_text (binding_text b0))"
    using bytes_hex_inj assms(6) by metis
  then have "utf8_text (binding_text b) = utf8_text (binding_text b0)"
    by (rule inj_onD [OF assms(7) [OF b]]) simp_all
  then have "b = b0" using utf8_text_inj binding_text_inj by blast
  then show ?thesis
    using passed pinned transport chain ok ok'(1,2) unfolding r q by (simp add: verdict_checks)
qed

subsection \<open>The register fixes the manifest\<close>

lemma manifest_read:
  assumes "readAttestedAppCompose jp sha v = Inr a"
  obtains m raw where "v = JString m" "jp m = Some (JObject raw)" "ac_composeHash a = bytes_hex (sha (utf8_text m))"
    "ac_publicLogs a = optionalBoolean (object_field raw ''public_logs'')"
    "ac_images a = (case optionalString (object_field raw ''docker_compose_file'') of
       None \<Rightarrow> [] | Some d \<Rightarrow> if d = [] then [] else extractComposeImages d)"
proof (cases v)
  case (JString m)
  with assms obtain w where w: "jp m = Some w" by (auto simp: readAttestedAppCompose_def split: if_split_asm option.split_asm)
  with assms JString obtain raw where "w = JObject raw"
    by (cases w) (auto simp: readAttestedAppCompose_def split: if_split_asm)
  then show ?thesis
    using assms JString w by (intro that [of m raw]) (auto simp: readAttestedAppCompose_def Let_def split: if_split_asm)
qed (use assms in \<open>simp_all add: readAttestedAppCompose_def\<close>)

lemma optionalBoolean_Some: "optionalBoolean v = Some b \<longleftrightarrow> v = JBool b"
  by (cases v) (simp_all add: optionalBoolean_def)

lemma optionalString_Some: "optionalString v = Some s \<longleftrightarrow> v = JString s"
  by (cases v) (simp_all add: optionalString_def)

lemma hexEqual_trans: "hexEqual (Some s) (Some t) \<Longrightarrow> hexEqual (Some u) (Some t) \<Longrightarrow> hexEqual (Some s) (Some u)"
  by (auto simp: hexEqual_iff)

lemma manifest_accepted:
  assumes "allRequiredPassed (manifest_checks policy b (manifest_of V ev))"
  obtains manifest raw where "g_app_compose ev = JString manifest" "v_json_parse V manifest = Some (JObject raw)"
    "hexEqual (Some (bytes_hex (v_sha256 V (utf8_text manifest)))) (Some (b_compose_hash b))"
    "gp_requirePrivateLogs policy \<longrightarrow> object_field raw ''public_logs'' = JBool False"
    "gp_requireDigestPinnedImages policy \<longrightarrow>
       (\<exists>doc. object_field raw ''docker_compose_file'' = JString doc \<and> extractComposeImages doc \<noteq> []
          \<and> list_all i_digestPinned (extractComposeImages doc))"
proof -
  obtain man where man: "manifest_of V ev = Some man" "hexEqual (Some (ac_composeHash man)) (Some (b_compose_hash b))"
    using assms by (auto simp: manifest_checks_def)
  then have "readAttestedAppCompose (v_json_parse V) (v_sha256 V) (g_app_compose ev) = Inr man"
    by (simp add: manifest_of_def split: sum.split_asm)
  then obtain manifest raw where v: "g_app_compose ev = JString manifest" "v_json_parse V manifest = Some (JObject raw)"
      "ac_composeHash man = bytes_hex (v_sha256 V (utf8_text manifest))"
      "ac_publicLogs man = optionalBoolean (object_field raw ''public_logs'')"
      "ac_images man = (case optionalString (object_field raw ''docker_compose_file'') of
         None \<Rightarrow> [] | Some d \<Rightarrow> if d = [] then [] else extractComposeImages d)"
    by (rule manifest_read)
  have "object_field raw ''public_logs'' = JBool False" if "gp_requirePrivateLogs policy"
    using assms v(4) that by (simp add: manifest_checks_def man(1) optionalBoolean_Some)
  moreover have "\<exists>doc. object_field raw ''docker_compose_file'' = JString doc \<and> extractComposeImages doc \<noteq> []
      \<and> list_all i_digestPinned (extractComposeImages doc)" if "gp_requireDigestPinnedImages policy"
  proof -
    have images: "ac_images man \<noteq> []" "list_all i_digestPinned (ac_images man)"
      using assms that by (simp_all add: manifest_checks_def man(1) filter_empty_conv list_all_iff)
    then obtain d where "optionalString (object_field raw ''docker_compose_file'') = Some d" "ac_images man = extractComposeImages d"
      using v(5) by (auto split: option.split_asm if_split_asm)
    then show ?thesis using images by (simp add: optionalString_Some)
  qed
  ultimately show ?thesis using that [OF v(1,2)] man(2) v(3) by simp
qed


end
