(* ===== verification/GatewayExample.thy ===== *)
theory GatewayExample
  imports GatewaySpec
begin

section \<open>An accepted attestation\<close>

text \<open>
  A complete concrete attestation, with stand-ins for the parsers and hashes, that the verifier accepts at
  the level of a verified signature chain. It shows that the assumptions of the two statements about accepted
  documents can hold together.
\<close>

definition ex_digest :: "nat list \<Rightarrow> nat list" where
  "ex_digest xs = replicate 48 (if length xs = 96 then 100 + last xs mod 100 else length xs mod 100)"

definition ex_parse_url :: "string \<Rightarrow> url_parts option" where
  "ex_parse_url s =
     (if s = [] \<or> last s = CHR ''/'' then None
      else Some \<lparr> u_protocol = ''https:'', u_username = [], u_password = [], u_search = [], u_hash = [],
                  u_pathname = ''/'', u_origin = s \<rparr>)"

definition ex_env :: verify_env where
  "ex_env =
     \<lparr> v_parse_url = ex_parse_url,
       v_json_parse = (\<lambda>s. if s = ''m'' then Some (JObject [(''public_logs'', JBool False)]) else None),
       v_parse_bytes = (\<lambda>_. None), v_sha256 = (\<lambda>_. replicate 32 7), v_sha384 = ex_digest,
       v_sha512 = (\<lambda>_. replicate 64 9) \<rparr>"

definition ex_compose_hash :: string where
  "ex_compose_hash = bytes_hex (replicate 32 7)"

definition ex_measured :: "DstackEventLogEntry list" where
  "ex_measured = [runtime_event ''compose-hash'' ex_compose_hash, runtime_event ''app-id'' ''ab'']"

definition event_json :: "string \<Rightarrow> string \<Rightarrow> jsval" where
  "event_json name payload = JObject
     [(''imr'', JNumber (Fin 3)), (''event_type'', JNumber (Fin 134217729)), (''digest'', JString []),
      (''event'', JString name), (''event_payload'', JString payload)]"

definition ex_binding :: GatewayAttestationBinding where
  "ex_binding =
     \<lparr> b_nonce = replicate 64 (CHR ''0''), b_app_id = ''ab'', b_instance_id = ''cd'', b_compose_hash = ex_compose_hash,
       b_release_id = ''r1'', b_origin = ''https://x'', b_key_alg = X25519, b_public_key = ''ef'',
       b_transport = GatewayTls, b_tls_spki_sha256 = None \<rparr>"

definition ex_report :: td_report where
  "ex_report = sample_report
     \<lparr> td_attributes := replicate 8 0, td_rtmr0 := replicate 48 0, td_rtmr1 := replicate 48 0,
       td_rtmr2 := replicate 48 0, td_rtmr3 := replicate 48 113, td_report_data := replicate 64 9 \<rparr>"

definition ex_evidence :: GatewayAttestationEvidence where
  "ex_evidence =
     \<lparr> g_binding = binding_object ex_binding,
       g_quote = JString (bytes_hex (concat (report_fields ex_report))),
       g_event_log = JArray [event_json ''compose-hash'' ex_compose_hash, event_json ''app-id'' ''ab''],
       g_app_compose = JString ''m'', g_issued_at_ms = JNull, g_vm_config = JNull \<rparr>"

definition ex_policy :: GatewayMeasurementPolicy where
  "ex_policy =
     \<lparr> gp_source = ''s'', gp_version = ''1'', gp_origins = [''https://x''], gp_appIds = [''ab''],
       gp_composeHashes = [ex_compose_hash], gp_releaseIds = [''r1''], gp_keyProviderId = None, gp_platform = None,
       gp_requireInTeeTls = False, gp_requirePrivateLogs = True, gp_requireDigestPinnedImages = False,
       gp_requireHardwareVerified = True, gp_maxEvidenceAgeMs = 1000 \<rparr>"

definition ex_expectations :: GatewayVerificationExpectations where
  "ex_expectations =
     \<lparr> e_nonce = replicate 64 (CHR ''0''), e_origin = ''https://x'', e_policy = ex_policy, e_now = 0,
       e_observedTlsSpkiSha256 = None, e_chainVerifier = Some (\<lambda>_. (True, None)) \<rparr>"

subsection \<open>Its parts\<close>

lemma bytes_7: "list_all is_byte (replicate 32 7)"
  by (simp add: list_all_iff is_byte_def)

lemma ex_compose_hash_hex: "list_all lower_hex ex_compose_hash" "length ex_compose_hash = 64"
  using bytes_hex_lower [OF bytes_7] by (simp_all add: ex_compose_hash_def)

lemma ex_compose_bytes: "hex_bytes ex_compose_hash = replicate 32 7"
  using hex_bytes_hex [OF bytes_7, of "[]"] by (simp add: ex_compose_hash_def)

lemma ab_hex: "list_all lower_hex ''ab''" "list_all lower_hex ''cd''" "list_all lower_hex ''ef''"
  by (simp_all add: lower_hex_def)

lemma ex_url_stable: "url_stable ex_parse_url"
  by (simp add: url_stable_def ex_parse_url_def)

lemma ex_binding_ok: "binding_ok ex_parse_url ex_binding"
proof -
  have "hex_field (replicate 64 (CHR ''0'')) (Some 64)" by (simp add: hex_field_def list_all_iff lower_hex_def)
  moreover have "hex_field ex_compose_hash (Some 64)" using ex_compose_hash_hex by (auto simp: hex_field_def)
  moreover have "hex_field ''ab'' None" "hex_field ''cd'' None" "hex_field ''ef'' None"
    using ab_hex by (simp_all add: hex_field_def)
  moreover have "release_pattern ''r1''" by (simp add: release_pattern_def release_char_def)
  moreover have "canonicalGatewayOrigin ex_parse_url (JString ''https://x'') = Inr ''https://x''"
    by (simp add: canonicalGatewayOrigin_def ex_parse_url_def drop_final_slash_def)
  ultimately show ?thesis by (simp add: binding_ok_def ex_binding_def tls_ok_def del: replicate.simps)
qed

lemma parse_event_json:
  "toLowerCase payload = payload \<Longrightarrow> parse_event (event_json name payload) = Inr (runtime_event name payload)"
proof -
  assume "toLowerCase payload = payload"
  moreover have "is_whole (3 :: rat)" using is_whole_of_int [of 3] by simp
  ultimately show ?thesis
    by (simp add: parse_event_def event_json_def object_field_def register_index_def RTMR_COUNT_def any_hex_def
        event_entry_def runtime_event_def toLowerCase_def)
qed

lemma ex_events:
  "parseEventLog (v_json_parse ex_env) (g_event_log ex_evidence) = Inr ex_measured"
  using parse_event_json [OF toLowerCase_hex [OF ex_compose_hash_hex(1)], of "''compose-hash''"]
    parse_event_json [OF toLowerCase_hex [OF ab_hex(1)], of "''app-id''"]
  by (simp add: parseEventLog_def ex_evidence_def MAX_EVENTS_def ex_measured_def)

lemma ex_dstack: "list_all dstack_event ex_measured"
  using ex_compose_hash_hex ab_hex by (simp add: ex_measured_def dstack_event_def runtime_event_def)

lemma ex_rtmr3: "rtmr3_events ex_measured = ex_measured"
  by (simp add: rtmr3_events_def ex_measured_def)

lemma ex_measured_bytes: "map measured_bytes ex_measured = map v1_bytes ex_measured"
  by (simp add: ex_measured_def measured_bytes_def runtime_event_def)

lemma ex_lengths: "map length (map v1_bytes ex_measured) = [50, 13]"
  by (simp add: ex_measured_def v1_bytes_def runtime_event_def utf8_text_def utf8_char_def ex_compose_bytes hex_value_def)

lemma ex_digest_function: "digest_function ex_digest"
proof -
  have "100 + last xs mod 100 < 256" "length xs mod 100 < 256" for xs :: "nat list"
    using mod_less_divisor [of 100 "last xs"] mod_less_divisor [of 100 "length xs"] by linarith+
  then show ?thesis by (simp add: digest_function_def ex_digest_def list_all_iff is_byte_def)
qed

lemma ex_contents:
  "\<exists>c a. map v1_bytes ex_measured = [c, a] \<and> length c = 50 \<and> length a = 13"
  using ex_lengths by (simp add: ex_measured_def)

lemma ex_digest_values:
  "length c = 50 \<Longrightarrow> ex_digest c = replicate 48 50"
  "length a = 13 \<Longrightarrow> ex_digest a = replicate 48 13"
  "ex_digest (replicate 48 0 @ replicate 48 50) = replicate 48 150"
  "ex_digest (replicate 48 150 @ replicate 48 13) = replicate 48 113"
  by (simp_all add: ex_digest_def del: replicate.simps)

lemma ex_hardware: "hardware_rtmr ex_digest (map v1_bytes ex_measured) = replicate 48 113"
proof -
  obtain c a where "map v1_bytes ex_measured = [c, a]" "length c = 50" "length a = 13" using ex_contents by metis
  then show ?thesis by (simp add: hardware_rtmr_def ex_digest_values)
qed

lemma ex_hashed:
  "inj_on ex_digest (hashed ex_digest (map v1_bytes ex_measured))"
  "replicate 48 0 \<notin> ex_digest ` hashed ex_digest (map v1_bytes ex_measured)"
proof -
  obtain c a where ca: "map v1_bytes ex_measured = [c, a]" "length c = 50" "length a = 13" using ex_contents by metis
  then have set: "hashed ex_digest (map v1_bytes ex_measured)
      = {c, replicate 48 0 @ replicate 48 50, a, replicate 48 150 @ replicate 48 13}"
    by (simp add: hashed_def ex_digest_values)
  have "replicate 48 x = replicate 48 y \<longleftrightarrow> x = y" for x y :: nat by (simp add: replicate_eq_replicate)
  note facts = this ex_digest_values(1) [OF ca(2)] ex_digest_values(2) [OF ca(3)] ex_digest_values(3,4)
  show "inj_on ex_digest (hashed ex_digest (map v1_bytes ex_measured))"
    unfolding set inj_on_def by (auto simp: facts)
  show "replicate 48 0 \<notin> ex_digest ` hashed ex_digest (map v1_bytes ex_measured)"
    unfolding set by (auto simp: facts)
qed

lemma ex_report_ok: "report_ok ex_report"
  using sample_report_ok by (simp add: report_ok_def report_fields_def report_sizes_def ex_report_def list_all_iff is_byte_def)

lemma ex_quote:
  obtains q where "parseTdxQuote (g_quote ex_evidence) = Some q" "q_teeType q = TEE_TYPE_TDX" "\<not> q_debugEnabled q"
    "q_rtmr0 q = bytes_hex (replicate 48 0)" "q_rtmr1 q = bytes_hex (replicate 48 0)"
    "q_rtmr2 q = bytes_hex (replicate 48 0)" "q_rtmr3 q = bytes_hex (replicate 48 113)"
    "q_reportData q = bytes_hex (replicate 64 9)"
proof -
  define q where "q = the (parseTdxQuote (g_quote ex_evidence))"
  have q: "parseTdxQuote (g_quote ex_evidence) = Some \<lparr> q_version = le_value (take 2 (td_header ex_report)),
           q_teeType = le_value (take 4 (drop 4 (td_header ex_report))),
           q_mrTd = bytes_hex (td_mr_td ex_report), q_mrConfigId = bytes_hex (td_mr_config_id ex_report),
           q_rtmr0 = bytes_hex (td_rtmr0 ex_report), q_rtmr1 = bytes_hex (td_rtmr1 ex_report),
           q_rtmr2 = bytes_hex (td_rtmr2 ex_report), q_rtmr3 = bytes_hex (td_rtmr3 ex_report),
           q_reportData = bytes_hex (td_report_data ex_report), q_tdAttributes = bytes_hex (td_attributes ex_report),
           q_debugEnabled = odd (hd (td_attributes ex_report)) \<rparr>"
    using parsed_report [OF ex_report_ok, of "[]"] by (simp add: ex_evidence_def)
  then show ?thesis
    by (rule that) (simp_all add: ex_report_def sample_report_def TEE_TYPE_TDX_def del: replicate.simps)
qed

subsection \<open>The verdict\<close>

lemma ex_consistent: "inconsistentRtmr3Events ex_digest (\<lambda>_. None) ex_measured = []"
  using ex_compose_hash_hex ab_hex
  by (simp add: inconsistentRtmr3Events_def ex_measured_def runtime_event_consistent)

lemma ex_payload:
  "singleEventPayload ex_digest (\<lambda>_. None) ex_measured name =
     Inr (if name = ''compose-hash'' then Some ex_compose_hash else if name = ''app-id'' then Some ''ab'' else None)"
  using ex_compose_hash_hex ab_hex
  by (auto simp: singleEventPayload_def ex_measured_def runtime_event_consistent)

lemma ex_replay:
  "replayRtmrs ex_digest (\<lambda>_. None) ex_measured ! 3 = bytes_hex (replicate 48 113)"
  "i < 3 \<Longrightarrow> replayRtmrs ex_digest (\<lambda>_. None) ex_measured ! i = bytes_hex (replicate 48 0)"
  using replay_consistent [OF ex_digest_function ex_consistent]
  by (simp_all add: ex_rtmr3 ex_measured_bytes ex_hardware replayRtmrs_nth replayRegister_def hex_bytes_initial)
     (simp add: ex_measured_def)

lemma hexEqual_bytes: "list_all is_byte bs \<Longrightarrow> bs \<noteq> [] \<Longrightarrow> hexEqual (Some (bytes_hex bs)) (Some (bytes_hex bs))"
  using bytes_hex_lower [of bs] by (cases bs) (simp_all add: hexEqual_lower bytes_hex_def)

lemma ex_equal: "n < 256 \<Longrightarrow> 0 < k \<Longrightarrow> hexEqual (Some (bytes_hex (replicate k n))) (Some (bytes_hex (replicate k n)))"
  by (rule hexEqual_bytes) (simp_all add: list_all_iff is_byte_def)

lemma ex_accepted: "r_ok (verifyGatewayAttestation ex_env ex_evidence ex_expectations)"
proof -
  obtain q where q: "parseTdxQuote (g_quote ex_evidence) = Some q" "q_teeType q = TEE_TYPE_TDX" "\<not> q_debugEnabled q"
      "q_rtmr0 q = bytes_hex (replicate 48 0)" "q_rtmr1 q = bytes_hex (replicate 48 0)"
      "q_rtmr2 q = bytes_hex (replicate 48 0)" "q_rtmr3 q = bytes_hex (replicate 48 113)"
      "q_reportData q = bytes_hex (replicate 64 9)" by (rule ex_quote)
  define h where "h = bytes_hex (replicate 64 (9 :: nat))"
  have env: "v_parse_url ex_env = ex_parse_url" "v_sha384 ex_env = ex_digest" "v_parse_bytes ex_env = (\<lambda>_. None)"
      "v_sha512 ex_env = (\<lambda>_. replicate 64 9)" "v_sha256 ex_env = (\<lambda>_. replicate 32 7)"
    by (simp_all add: ex_env_def del: replicate.simps)
  have hash: "gatewayBindingHash (v_parse_url ex_env) (v_sha512 ex_env) ex_binding = Inr h"
    using binding_hash_text [OF ex_binding_ok] by (simp add: env h_def)
  have norm: "normalizeGatewayBinding (v_parse_url ex_env) (g_binding ex_evidence) = Inr ex_binding"
    using normalize_binding_object [OF ex_binding_ok] by (simp add: env ex_evidence_def)
  define er where "er = read_event_log ex_env (g_event_log ex_evidence) q"
  have er: "er_checks er = log_checks ex_env ex_measured q" "er_read er" "er_composeHash er = Some ex_compose_hash"
      "er_appId er = Some ''ab''" "er_instanceId er = None" "er_osImageHash er = None"
    by (simp_all add: er_def read_event_log_def ex_events read_payloads_def env ex_payload Let_def)
  have own: "hexEqual (Some ex_compose_hash) (Some ex_compose_hash)" "hexEqual (Some ''ab'') (Some ''ab'')"
    using ex_compose_hash_hex ab_hex by (auto simp: hexEqual_lower)
  have bnd: "b_compose_hash ex_binding = ex_compose_hash" "b_app_id ex_binding = ''ab''" "b_release_id ex_binding = ''r1''"
      "b_origin ex_binding = ''https://x''" "b_nonce ex_binding = replicate 64 (CHR ''0'')"
    by (simp_all add: ex_binding_def del: replicate.simps)
  have man: "\<exists>m. manifest_of ex_env ex_evidence = Some m \<and> ac_composeHash m = ex_compose_hash \<and> ac_publicLogs m = Some False"
    by (simp add: manifest_of_def readAttestedAppCompose_def ex_env_def ex_evidence_def MAX_MANIFEST_BYTES_def utf8_text_def
        utf8_char_def optionalBoolean_def object_field_def ex_compose_hash_def Let_def del: replicate.simps)
  have "allRequiredPassed (er_checks er)"
    unfolding er(1) log_checks_def Let_def
    using ex_equal [of 0 48] ex_equal [of 113 48]
    by (simp add: env ex_replay ex_consistent q del: replicate.simps)
  moreover have "allRequiredPassed (identity_checks ex_env ex_expectations ex_binding q h)"
  proof -
    have "toLowerCase (replicate 64 (CHR ''0'')) = replicate 64 (CHR ''0'')"
      by (rule toLowerCase_hex) (simp add: list_all_iff lower_hex_def)
    moreover have "canonicalGatewayOrigin ex_parse_url (JString ''https://x'') = Inr ''https://x''"
      by (simp add: canonicalGatewayOrigin_def ex_parse_url_def drop_final_slash_def)
    ultimately show ?thesis
      using ex_equal [of 9 64] by (simp add: identity_checks_def q h_def bnd env ex_expectations_def del: replicate.simps)
  qed
  moreover have "allRequiredPassed (measured_checks ex_env ex_evidence ex_policy ex_binding er)"
    by (simp add: measured_checks_def er bnd own ex_policy_def)
  moreover have "allRequiredPassed (manifest_checks ex_policy ex_binding (manifest_of ex_env ex_evidence))"
    using man by (auto simp: manifest_checks_def bnd own ex_policy_def)
  moreover have "allRequiredPassed (pinned_checks ex_policy ex_binding q er)"
    by (simp add: pinned_checks_def bnd own ex_policy_def some_equal_def)
  moreover have "allRequiredPassed (transport_checks ex_expectations ex_binding)"
    by (simp add: transport_checks_def ex_expectations_def ex_policy_def)
  moreover have "allRequiredPassed [age_check ex_evidence ex_expectations, chain_check ex_evidence ex_expectations]"
    by (simp add: age_check_def chain_check_def ex_expectations_def)
  moreover have "e_policy ex_expectations = ex_policy" by (simp add: ex_expectations_def)
  ultimately have "allRequiredPassed (all_checks ex_env ex_evidence ex_expectations ex_binding q h (manifest_of ex_env ex_evidence))"
    unfolding all_checks_def Let_def er_def [symmetric] by (simp add: q)
  then show ?thesis unfolding verifyGatewayAttestation_def norm q(1) hash by (simp add: norm q(1) hash verdict_checks)
qed

subsection \<open>Both statements apply to it\<close>

theorem accepted_binding_is_asserted_witness:
  "r_binding (verifyGatewayAttestation ex_env ex_evidence ex_expectations) = Some ex_binding
   \<and> r_verificationLevel (verifyGatewayAttestation ex_env ex_evidence ex_expectations) = HardwareVerified"
proof -
  obtain q where q: "parseTdxQuote (g_quote ex_evidence) = Some q" "q_reportData q = bytes_hex (replicate 64 9)"
    by (rule ex_quote)
  have env: "v_parse_url ex_env = ex_parse_url" "v_sha512 ex_env = (\<lambda>_. replicate 64 9)"
    by (simp_all add: ex_env_def del: replicate.simps)
  have norm: "normalizeGatewayBinding ex_parse_url (g_binding ex_evidence) = Inr ex_binding"
    using normalize_binding_object [OF ex_binding_ok] by (simp add: ex_evidence_def)
  have "gp_requireHardwareVerified (e_policy ex_expectations)" by (simp add: ex_expectations_def ex_policy_def)
  then show ?thesis
    using accepted_binding_is_asserted [of ex_env ex_evidence ex_expectations q ex_binding]
    by (simp add: env ex_url_stable ex_accepted q ex_binding_ok norm list_all_iff is_byte_def del: replicate.simps)
qed


definition ex_policy_document :: jsval where
  "ex_policy_document = JObject
     [(''source'', JString ''s''), (''version'', JString ''1''), (''maxEvidenceAgeMs'', JNumber (Fin 1000)),
      (''origins'', JArray [JString ''https://x'']), (''appIds'', JArray [JString ''ab'']),
      (''composeHashes'', JArray [JString ex_compose_hash]), (''releaseIds'', JArray [JString ''r1'']),
      (''requireInTeeTls'', JBool False), (''requirePrivateLogs'', JBool True),
      (''requireDigestPinnedImages'', JBool False), (''requireHardwareVerified'', JBool True)]"

lemma hex_entry_own:
  "list_all lower_hex s \<Longrightarrow> s \<noteq> [] \<Longrightarrow> (case n of Some k \<Rightarrow> length s = k | None \<Rightarrow> True) \<Longrightarrow> hex_entry n (JString s) = Inr s"
  by (simp add: hex_entry_def Let_def js_trim_hex normal_hex split: option.splits)

lemma ex_policy_loads: "loadGatewayPolicy ex_parse_url ex_policy_document = Inr ex_policy"
proof -
  have "hexList None (JArray [JString ''ab'']) = Inr [''ab'']"
    using hex_entry_own [OF ab_hex(1), of None] by (simp add: hexList_def)
  moreover have "ex_compose_hash \<noteq> []" using ex_compose_hash_hex(2) by auto
  then have "hexList (Some 64) (JArray [JString ex_compose_hash]) = Inr [ex_compose_hash]"
    using hex_entry_own [OF ex_compose_hash_hex(1), of "Some 64"] ex_compose_hash_hex(2) by (simp add: hexList_def)
  moreover have "canonicalGatewayOrigin ex_parse_url (JString ''https://x'') = Inr ''https://x''"
    by (simp add: canonicalGatewayOrigin_def ex_parse_url_def drop_final_slash_def)
  ultimately show ?thesis
    by (simp add: loadGatewayPolicy_def ex_policy_document_def object_field_def text_entry_def stringList_def js_trim_def
        is_js_space_def read_max_age_def read_platform_def requiredBoolean_def ex_policy_def)
qed

theorem loaded_policy_ok_witness:
  "loadGatewayPolicy ex_parse_url ex_policy_document = Inr ex_policy \<and> policy_ok ex_policy"
  using loaded_policy_ok [OF ex_policy_loads] ex_policy_loads by simp

end
