(* ===== verification/JsNumber.thy ===== *)
theory JsNumber
  imports Money GatewayBinding
begin

section \<open>JavaScript conversions between numbers, values and text\<close>

text \<open>
  The conversions of the language that the ticket store and the relay use: \<open>String(n)\<close>,
  \<open>Number(s)\<close> and \<open>JSON.stringify(v)\<close>. A number is written as \<open>String\<close> writes a multiple of \<open>10^-6\<close>
  below \<open>10^21\<close> in absolute value, which every amount and count of the source is; smaller, larger and
  finer numbers would be written with an exponent or with the digits of the nearest double.
  The last lemmas read back what is written.
\<close>

subsection \<open>Writing\<close>

definition strip_zeros :: "string \<Rightarrow> string" where
  "strip_zeros s = rev (dropWhile (\<lambda>c. c = CHR ''0'') (rev s))"

definition decimal_text :: "nat \<Rightarrow> string" where
  "decimal_text micros =
     (let frac = strip_zeros (padStart6 (show_nat (micros mod 1000000)))
      in show_nat (micros div 1000000) @ (if frac = [] then [] else CHR ''.'' # frac))"

fun number_text :: "jsnum \<Rightarrow> string" where
  "number_text NaN = ''NaN''"
| "number_text PosInf = ''Infinity''"
| "number_text NegInf = ''-Infinity''"
| "number_text (Fin q) =
     (if q < 0 then CHR ''-'' # decimal_text (nat \<lfloor>- q * 1000000\<rfloor>)
      else decimal_text (nat \<lfloor>q * 1000000\<rfloor>))"

definition bool_text :: "bool \<Rightarrow> string" where
  "bool_text b = (if b then ''true'' else ''false'')"

fun comma_separated :: "string list \<Rightarrow> string" where
  "comma_separated [] = []"
| "comma_separated [x] = x"
| "comma_separated (x # xs) = x @ '','' @ comma_separated xs"

text \<open>\<open>JSON.stringify\<close> of a value: an undefined element is \<open>null\<close>, an undefined member is left out.\<close>

fun json_text :: "jsval \<Rightarrow> string" where
  "json_text JUndefined = ''null''"
| "json_text JNull = ''null''"
| "json_text (JBool b) = bool_text b"
| "json_text (JNumber (Fin q)) = number_text (Fin q)"
| "json_text (JNumber _) = ''null''"
| "json_text (JString s) = json_string s"
| "json_text (JArray vs) = ''['' @ comma_separated (map json_text vs) @ '']''"
| "json_text (JObject ms) =
     ''{'' @ comma_separated
       (map (\<lambda>(k, v). json_string k @ '':'' @ json_text v) (filter (\<lambda>(k, v). v \<noteq> JUndefined) ms)) @ ''}''"

subsection \<open>Reading\<close>

text \<open>
  \<open>Number(text)\<close>: white space at the ends is dropped, the empty text is zero, an integer may be
  written in base 16, 8 or 2, and everything else must be a decimal literal.
\<close>

definition radix_digit :: "char \<Rightarrow> nat option" where
  "radix_digit c =
     (let n = (of_char c :: nat) in
      if 48 \<le> n \<and> n \<le> 57 then Some (n - 48)
      else if 97 \<le> n \<and> n \<le> 102 then Some (n - 87)
      else if 65 \<le> n \<and> n \<le> 70 then Some (n - 55)
      else None)"

fun radix_value :: "nat \<Rightarrow> nat \<Rightarrow> string \<Rightarrow> nat option" where
  "radix_value base acc [] = Some acc"
| "radix_value base acc (c # cs) =
     (case radix_digit c of
        Some d \<Rightarrow> if d < base then radix_value base (base * acc + d) cs else None
      | None \<Rightarrow> None)"

definition radix_number :: "nat \<Rightarrow> string \<Rightarrow> jsnum" where
  "radix_number base s =
     (if s = [] then NaN
      else case radix_value base 0 s of Some n \<Rightarrow> Fin (of_nat n) | None \<Rightarrow> NaN)"

definition exponent_of :: "string \<Rightarrow> int option" where
  "exponent_of s =
     (case s of
        [] \<Rightarrow> Some 0
      | e # rest \<Rightarrow>
          if e \<noteq> CHR ''e'' \<and> e \<noteq> CHR ''E'' then None
          else
            let digits = (if rest \<noteq> [] \<and> (hd rest = CHR ''+'' \<or> hd rest = CHR ''-'') then tl rest else rest)
            in if digits = [] \<or> \<not> list_all is_digit digits then None
               else Some ((if hd rest = CHR ''-'' then - 1 else 1) * int (digits_val digits)))"

definition scale10 :: "rat \<Rightarrow> int \<Rightarrow> rat" where
  "scale10 q e = (if 0 \<le> e then q * 10 ^ nat e else q / 10 ^ nat (- e))"

definition unsigned_decimal :: "string \<Rightarrow> rat option" where
  "unsigned_decimal s =
     (let whole = takeWhile is_digit s;
          rest = dropWhile is_digit s;
          point = (rest \<noteq> [] \<and> hd rest = CHR ''.'');
          frac = (if point then takeWhile is_digit (tl rest) else []);
          suffix = (if point then dropWhile is_digit (tl rest) else rest)
      in if whole = [] \<and> frac = [] then None
         else map_option
                (scale10 (of_nat (digits_val whole) + of_nat (digits_val frac) / 10 ^ length frac))
                (exponent_of suffix))"

definition unsigned_number :: "string \<Rightarrow> jsnum" where
  "unsigned_number s =
     (if s = ''Infinity'' then PosInf
      else case unsigned_decimal s of Some q \<Rightarrow> Fin q | None \<Rightarrow> NaN)"

fun negated :: "jsnum \<Rightarrow> jsnum" where
  "negated (Fin q) = Fin (- q)"
| "negated PosInf = NegInf"
| "negated NegInf = PosInf"
| "negated NaN = NaN"

definition Number_of :: "string \<Rightarrow> jsnum" where
  "Number_of text =
     (let s = js_trim text in
      if s = [] then Fin 0
      else if take 2 s = ''0x'' \<or> take 2 s = ''0X'' then radix_number 16 (drop 2 s)
      else if take 2 s = ''0o'' \<or> take 2 s = ''0O'' then radix_number 8 (drop 2 s)
      else if take 2 s = ''0b'' \<or> take 2 s = ''0B'' then radix_number 2 (drop 2 s)
      else if hd s = CHR ''-'' then negated (unsigned_number (tl s))
      else if hd s = CHR ''+'' then unsigned_number (tl s)
      else unsigned_number s)"

subsection \<open>What is written is read back\<close>

lemma strip_zeros_split: "\<exists>k. s = strip_zeros s @ replicate k (CHR ''0'')"
proof -
  have "\<exists>k. t = replicate k z @ dropWhile (\<lambda>c. c = z) t" for t and z :: char
  proof (induction t)
    case Nil
    show ?case by (rule exI [of _ 0]) simp
  next
    case (Cons a t)
    then obtain k where "t = replicate k z @ dropWhile (\<lambda>c. c = z) t" by blast
    then show ?case
      by (cases "a = z") (auto intro: exI [of _ "Suc k"] exI [of _ "0 :: nat"])
  qed
  from this [of "rev s" "CHR ''0''"] obtain k
    where "rev s = replicate k (CHR ''0'') @ dropWhile (\<lambda>c. c = CHR ''0'') (rev s)" by blast
  then have "rev (rev s) = strip_zeros s @ replicate k (CHR ''0'')"
    unfolding strip_zeros_def by (metis rev_append rev_replicate)
  then show ?thesis by auto
qed

lemma strip_zeros_value:
  "(of_nat (digits_val (strip_zeros s)) :: rat) / 10 ^ length (strip_zeros s)
     = of_nat (digits_val s) / 10 ^ length s"
proof -
  obtain k where k: "s = strip_zeros s @ replicate k (CHR ''0'')" using strip_zeros_split by blast
  have "(of_nat (digits_val s) :: rat) / 10 ^ length s
      = of_nat (digits_val (strip_zeros s @ replicate k (CHR ''0'')))
          / 10 ^ length (strip_zeros s @ replicate k (CHR ''0''))"
    using k by simp
  also have "\<dots> = of_nat (digits_val (strip_zeros s)) / 10 ^ length (strip_zeros s)"
    by (simp add: digits_val_append digits_val_replicate0 power_add)
  finally show ?thesis by simp
qed

lemma set_strip_zeros: "set (strip_zeros s) \<subseteq> set s"
  using set_dropWhileD [of _ _ "rev s"] by (fastforce simp: strip_zeros_def)

lemma digit_run:
  assumes "list_all is_digit w" and "rest = [] \<or> \<not> is_digit (hd rest)"
  shows "takeWhile is_digit (w @ rest) = w" and "dropWhile is_digit (w @ rest) = rest"
  using assms by (induction w) (auto simp: takeWhile_eq_Nil_iff dropWhile_hd_False)

lemma all_digits:
  assumes "list_all is_digit w"
  shows "takeWhile is_digit w = w" and "dropWhile is_digit w = []"
  using assms by (induction w) auto

lemma exponent_Nil [simp]: "exponent_of [] = Some 0"
  by (simp add: exponent_of_def)

lemma scale10_0 [simp]: "scale10 q 0 = q"
  by (simp add: scale10_def)

lemma unsigned_decimal_plain:
  assumes "list_all is_digit w" "w \<noteq> []" "list_all is_digit f" "f \<noteq> []"
  shows "unsigned_decimal (w @ CHR ''.'' # f)
    = Some (of_nat (digits_val w) + of_nat (digits_val f) / 10 ^ length f)"
proof -
  have "\<not> is_digit (CHR ''.'')" by (simp add: is_digit_def)
  then show ?thesis
    using assms(2) digit_run [OF assms(1), of "CHR ''.'' # f"]
    by (simp add: unsigned_decimal_def Let_def all_digits [OF assms(3)])
qed

lemma unsigned_decimal_whole:
  assumes "list_all is_digit w" "w \<noteq> []"
  shows "unsigned_decimal w = Some (of_nat (digits_val w))"
  by (simp add: unsigned_decimal_def Let_def all_digits [OF assms(1)] assms(2) digits_val_def [of "[]"])

lemma padStart6_digits: "list_all is_digit (padStart6 (show_nat n))"
proof -
  have "is_digit (CHR ''0'')" by (simp add: is_digit_def)
  then show ?thesis using show_nat_digits [of n] by (auto simp: padStart6_def list_all_iff)
qed

lemma decimal_text_value:
  "unsigned_decimal (decimal_text m) = Some (of_nat m / 1000000)"
proof -
  let ?p = "padStart6 (show_nat (m mod 1000000))"
  have p: "length ?p = 6" "list_all is_digit ?p" "digits_val ?p = m mod 1000000"
    using padStart6_props [of "m mod 1000000"] padStart6_digits by simp_all
  have frac: "(of_nat (digits_val (strip_zeros ?p)) :: rat) / 10 ^ length (strip_zeros ?p)
      = of_nat (m mod 1000000) / 1000000"
    using strip_zeros_value [of ?p] p by simp
  have digits: "list_all is_digit (strip_zeros ?p)"
    using p(2) set_strip_zeros [of ?p] by (auto simp: list_all_iff)
  have "(of_nat m :: rat) = of_nat (m div 1000000 * 1000000 + m mod 1000000)" by simp
  then have total: "(of_nat (m div 1000000) :: rat) + of_nat (m mod 1000000) / 1000000 = of_nat m / 1000000"
    unfolding of_nat_add of_nat_mult by (simp add: field_simps)
  show ?thesis
  proof (cases "strip_zeros ?p = []")
    case True
    with frac total show ?thesis
      by (simp add: decimal_text_def unsigned_decimal_whole show_nat_digits show_nat_nonempty
          digits_val_def [of "[]"])
  next
    case False
    with frac total digits show ?thesis
      by (simp add: decimal_text_def Let_def unsigned_decimal_plain show_nat_digits show_nat_nonempty)
  qed
qed

lemma decimal_text_chars: "c \<in> set (decimal_text m) \<Longrightarrow> is_digit c \<or> c = CHR ''.''"
proof -
  have "list_all is_digit (strip_zeros (padStart6 (show_nat (m mod 1000000))))"
    using padStart6_digits [of "m mod 1000000"]
      set_strip_zeros [of "padStart6 (show_nat (m mod 1000000))"] by (auto simp: list_all_iff)
  then show "c \<in> set (decimal_text m) \<Longrightarrow> is_digit c \<or> c = CHR ''.''"
    using show_nat_digits [of "m div 1000000"]
    by (auto simp: decimal_text_def Let_def list_all_iff split: if_splits)
qed

lemma decimal_text_not_Nil: "decimal_text m \<noteq> []"
  by (simp add: decimal_text_def Let_def show_nat_nonempty)

lemma decimal_text_not_space: "c \<in> set (decimal_text m) \<Longrightarrow> \<not> is_js_space c"
  using decimal_text_chars [of c m] digit_not_space [of c] by (auto simp: is_js_space_def)

lemma decimal_text_prefix:
  assumes "c \<noteq> CHR ''.''" and "\<not> is_digit c"
  shows "c \<notin> set (decimal_text m)"
  using assms decimal_text_chars [of c m] by blast

lemma not_digits: "\<not> is_digit (CHR ''x'')" "\<not> is_digit (CHR ''X'')" "\<not> is_digit (CHR ''o'')"
    "\<not> is_digit (CHR ''O'')" "\<not> is_digit (CHR ''b'')" "\<not> is_digit (CHR ''B'')" "\<not> is_digit (CHR ''-'')"
    "\<not> is_digit (CHR ''+'')" "\<not> is_digit (CHR ''I'')"
  by (simp_all add: is_digit_def)

lemma decimal_text_letters:
  "CHR ''x'' \<notin> set (decimal_text m)" "CHR ''X'' \<notin> set (decimal_text m)"
  "CHR ''o'' \<notin> set (decimal_text m)" "CHR ''O'' \<notin> set (decimal_text m)"
  "CHR ''b'' \<notin> set (decimal_text m)" "CHR ''B'' \<notin> set (decimal_text m)"
  "CHR ''-'' \<notin> set (decimal_text m)" "CHR ''+'' \<notin> set (decimal_text m)"
  "CHR ''I'' \<notin> set (decimal_text m)"
  using decimal_text_prefix not_digits by simp_all

lemma unsigned_number_decimal: "unsigned_number (decimal_text m) = Fin (of_nat m / 1000000)"
proof -
  have "decimal_text m \<noteq> ''Infinity''" using decimal_text_letters(9) [of m] by auto
  then show ?thesis by (simp add: unsigned_number_def decimal_text_value)
qed

lemma take_2_mem: "take 2 s = [a, b] \<Longrightarrow> b \<in> set s"
  by (metis in_set_takeD list.set_intros(1) list.set_intros(2))

lemma Number_of_decimal: "Number_of (decimal_text m) = Fin (of_nat m / 1000000)"
proof -
  have trim: "js_trim (decimal_text m) = decimal_text m"
    using decimal_text_not_space [of _ m] decimal_text_not_Nil [of m] by (intro js_trim_id) simp
  have "hd (decimal_text m) \<in> set (decimal_text m)" by (simp add: decimal_text_not_Nil)
  then have "hd (decimal_text m) \<noteq> CHR ''-''" "hd (decimal_text m) \<noteq> CHR ''+''"
    using decimal_text_letters(7,8) [of m] by auto
  moreover have "take 2 (decimal_text m) \<noteq> [CHR ''0'', c]"
    if "c \<in> {CHR ''x'', CHR ''X'', CHR ''o'', CHR ''O'', CHR ''b'', CHR ''B''}" for c
    using take_2_mem [of "decimal_text m" "CHR ''0''" c] that decimal_text_letters [of m] by auto
  ultimately show ?thesis
    by (simp add: Number_of_def Let_def trim decimal_text_not_Nil unsigned_number_decimal)
qed

lemma Number_of_negative: "Number_of (CHR ''-'' # decimal_text m) = Fin (- (of_nat m / 1000000))"
proof -
  have "last (CHR ''-'' # decimal_text m) \<in> set (decimal_text m)" by (simp add: decimal_text_not_Nil)
  then have "js_trim (CHR ''-'' # decimal_text m) = CHR ''-'' # decimal_text m"
    using decimal_text_not_space [of "last (CHR ''-'' # decimal_text m)" m]
    by (intro js_trim_id) (simp add: is_js_space_def)
  then show ?thesis by (simp add: Number_of_def unsigned_number_decimal)
qed

lemma Number_of_number_text:
  assumes "is_micro q"
  shows "Number_of (number_text (Fin q)) = Fin q"
proof -
  obtain i where q: "q = of_int i / 1000000" using assms by (auto simp: is_micro_iff)
  show ?thesis
  proof (cases "i < 0")
    case True
    then have "q < 0" "nat \<lfloor>- q * 1000000\<rfloor> = nat (- i)" by (simp_all add: q)
    with True show ?thesis by (simp add: Number_of_negative q)
  next
    case False
    then have "\<not> q < 0" "nat \<lfloor>q * 1000000\<rfloor> = nat i" by (simp_all add: q)
    with False show ?thesis by (simp add: Number_of_decimal q)
  qed
qed

lemma number_text_not_Nil: "number_text n \<noteq> []"
  by (cases n) (simp_all add: decimal_text_not_Nil)

end
