(* ===== verification/Tickets.thy ===== *)
theory Tickets
  imports JsNumber Valkey ProviderPolicy
begin

section \<open>Single-use inference tickets (inference/tickets.ts)\<close>

text \<open>
  Models \<open>src/src/inference/tickets.ts\<close>. A ticket is a Redis hash under \<open>tkt:<id>\<close> that moves from
  issued to redeemed by \<open>redeemTicket\<close> and is replaced by an opaque redemption state by
  \<open>consumeTicketIntoState\<close>. Hashes and plain strings live in separate maps, so a destination key that
  starts with \<open>tkt:\<close> is not modelled. The random ticket id is an argument. A field of the binding
  that may be undefined is an option; \<open>undefined\<close> and \<open>null\<close> are one value there, as every reader of
  the source treats them. Digest and JSON text of the Auto policy are computed, not assumed.
\<close>

subsection \<open>The binding\<close>

datatype account_type = Registered | PrivateAccount
datatype auth_type = SessionAuth | ApiKeyAuth | ManagementKeyAuth | ConnectedAppAuth
datatype operation = ChatOp | EmbeddingsOp | ImageOp | SpeechOp

record ticket_binding =
  accountId :: string
  accountType :: account_type
  authType :: auth_type
  apiKeyId :: "string option"
  apiKeyCreditLimitUsd :: "jsnum option"
  connectedGrantId :: "string option"
  operation_of :: "operation option"
  providerName :: "string option"
  publicModelId :: "string option"
  canonicalModelId :: "string option"
  requestedModel :: "string option"
  privacyClass :: "string option"
  contextWindow :: "jsnum option"
  providerPolicyKey :: string
  providerPolicyJson :: string
  e2ee :: bool
  maxOutputTokens :: "jsnum option"
  maxOutputTokensExplicit :: bool
  imageWidth :: "jsnum option"
  imageHeight :: "jsnum option"
  imageResponseFormat :: "string option"
  speechCharacterCount :: "jsnum option"
  speechVoice :: "string option"
  speechResponseFormat :: "string option"
  reasoningKey :: string
  planJson :: string
  routingPreferencesJson :: string
  trial :: "bool option"
  trialContractMissed :: "bool option"
  trialPool :: "bool option"
  poolContractMissed :: "bool option"
  trialPoolModel :: "string option"
  trialPoolProvider :: "string option"
  trialPoolPrivacy :: "string option"

definition account_type_text :: "account_type \<Rightarrow> string" where
  "account_type_text t = (case t of Registered \<Rightarrow> ''registered'' | PrivateAccount \<Rightarrow> ''private'')"

definition auth_type_text :: "auth_type \<Rightarrow> string" where
  "auth_type_text t = (case t of SessionAuth \<Rightarrow> ''session'' | ApiKeyAuth \<Rightarrow> ''api_key''
     | ManagementKeyAuth \<Rightarrow> ''management_key'' | ConnectedAppAuth \<Rightarrow> ''connected_app'')"

definition operation_text :: "operation \<Rightarrow> string" where
  "operation_text op = (case op of ChatOp \<Rightarrow> ''chat'' | EmbeddingsOp \<Rightarrow> ''embeddings''
     | ImageOp \<Rightarrow> ''image'' | SpeechOp \<Rightarrow> ''speech'')"

definition policy_value :: "policy \<Rightarrow> jsval" where
  "policy_value p = JObject
     [(''order'', js_strings (order p)),
      (''only'', case only p of None \<Rightarrow> JNull | Some l \<Rightarrow> js_strings l),
      (''ignore'', js_strings (ignore p)),
      (''allowFallbacks'', JBool (allowFallbacks p)),
      (''sort'', JString (sort_name (sort_by p))),
      (''minimumPrivacy'', case minimumPrivacy p of None \<Rightarrow> JNull | Some f \<Rightarrow> JString (floor_name f)),
      (''maxPrice'', case maxPrice p of None \<Rightarrow> JNull
         | Some (i, out) \<Rightarrow> JObject [(''input'', js_cap i), (''output'', js_cap out)]),
      (''requireParameters'', JBool (requireParameters p)),
      (''maxAttempts'', JNumber (Fin (maxAttempts p))),
      (''pin'', JBool (pin p))]"

definition AUTO_PROVIDER_POLICY_KEY :: string where
  "AUTO_PROVIDER_POLICY_KEY = json_text (providerPolicyDigest AUTO_PROVIDER_POLICY)"

definition AUTO_PROVIDER_POLICY_JSON :: string where
  "AUTO_PROVIDER_POLICY_JSON = json_text (policy_value AUTO_PROVIDER_POLICY)"

definition TICKET_TTL_SECONDS :: int where
  "TICKET_TTL_SECONDS = 30"

definition REDEEMED_TTL_MS :: int where
  "REDEEMED_TTL_MS = 60000"

subsection \<open>Hashes and the scripts\<close>

text \<open>
  A Redis hash is the list of its fields. \<open>HSET\<close> replaces a field in place or appends it,
  \<open>HGET\<close> is \<open>map_of\<close> and \<open>HGETALL\<close> the flat list of names and contents.
\<close>

type_synonym vk_hash = "(string \<times> string) list"

record ticket_store =
  tickets :: "vk_hash keyspace"
  states :: "string keyspace"

definition empty_tickets :: ticket_store where
  "empty_tickets = \<lparr> tickets = (\<lambda>_. None), states = (\<lambda>_. None) \<rparr>"

definition hset :: "string \<Rightarrow> string \<Rightarrow> vk_hash \<Rightarrow> vk_hash" where
  "hset f v h = (if f \<in> fst ` set h then map (\<lambda>(f', v'). (f', if f' = f then v else v')) h
                 else h @ [(f, v)])"

definition hset_all :: "vk_hash \<Rightarrow> vk_hash \<Rightarrow> vk_hash" where
  "hset_all pairs h = fold (\<lambda>(f, v). hset f v) pairs h"

definition hgetall :: "vk_hash \<Rightarrow> string list" where
  "hgetall h = concat (map (\<lambda>(f, v). [f, v]) h)"

definition ticketKey :: "string \<Rightarrow> string" where
  "ticketKey ticketId = ''tkt:'' @ ticketId"

definition issueScript :: "vk_env \<Rightarrow> string \<Rightarrow> int \<Rightarrow> vk_hash \<Rightarrow> ticket_store \<Rightarrow> ticket_store \<times> int" where
  "issueScript env key ttl_seconds pairs s =
     (if \<not> valkey_has_write_capacity env then (s, -1)
      else
        let old = (case vk_get env (tickets s) key of None \<Rightarrow> [] | Some h \<Rightarrow> h)
        in (s\<lparr> tickets := vk_put env key (hset_all pairs old) (ttl_seconds * 1000) (tickets s) \<rparr>, 1))"

definition redeemScript :: "vk_env \<Rightarrow> string \<Rightarrow> int \<Rightarrow> ticket_store \<Rightarrow> ticket_store \<times> string list" where
  "redeemScript env key grace_ttl_ms s =
     (case vk_get env (tickets s) key of
        None \<Rightarrow> (s, [])
      | Some h \<Rightarrow>
          if map_of h ''status'' \<noteq> Some ''issued'' then (s, [])
          else
            let h' = hset ''status'' ''redeemed'' h
            in (s\<lparr> tickets := vk_put env key h' grace_ttl_ms (tickets s) \<rparr>,
                if grace_ttl_ms \<le> 0 then [] else hgetall h'))"

definition consumeScript :: "vk_env \<Rightarrow> string \<Rightarrow> ticket_store \<Rightarrow> ticket_store" where
  "consumeScript env key s =
     (case vk_get env (tickets s) key of
        None \<Rightarrow> s
      | Some h \<Rightarrow>
          if map_of h ''status'' \<noteq> Some ''redeemed'' then s
          else s\<lparr> tickets := (tickets s)(key := None) \<rparr>)"

text \<open>\<open>SET .. EX ttl NX\<close>; a lifetime that is not positive is an error of the command.\<close>

definition consumeIntoStateScript ::
    "vk_env \<Rightarrow> string \<Rightarrow> string \<Rightarrow> string \<Rightarrow> int \<Rightarrow> ticket_store \<Rightarrow> ticket_store \<times> int result" where
  "consumeIntoStateScript env source destination content ttl_seconds s =
     (if \<not> valkey_has_write_capacity env then (s, Inr (-1))
      else case vk_get env (tickets s) source of
        None \<Rightarrow> (s, Inr 0)
      | Some h \<Rightarrow>
          if map_of h ''status'' \<noteq> Some ''redeemed'' then (s, Inr 0)
          else if ttl_seconds \<le> 0 then (s, Inl (Thrown ''ReplyError''))
          else if vk_get env (states s) destination \<noteq> None then (s, Inr (-1))
          else (s\<lparr> states := vk_put env destination content (ttl_seconds * 1000) (states s),
                   tickets := (tickets s)(source := None) \<rparr>, Inr 1))"

subsection \<open>Reading a hash back\<close>

text \<open>\<open>record[String(flat[i])] = String(flat[i + 1])\<close>, pair by pair.\<close>

fun parse_pairs :: "string list \<Rightarrow> (string \<Rightarrow> string option) \<Rightarrow> (string \<Rightarrow> string option)" where
  "parse_pairs (f # v # rest) m = parse_pairs rest (m(f \<mapsto> v))"
| "parse_pairs _ m = m"

definition parseHash :: "string list \<Rightarrow> (string \<Rightarrow> string option) option" where
  "parseHash flat = (if flat = [] then None else Some (parse_pairs flat Map.empty))"

definition or_else :: "string option \<Rightarrow> string option \<Rightarrow> string option" where
  "or_else a b = (case a of None \<Rightarrow> b | Some s \<Rightarrow> if s = [] then b else Some s)"

definition text_or :: "string option \<Rightarrow> string \<Rightarrow> string" where
  "text_or a b = (case a of None \<Rightarrow> b | Some s \<Rightarrow> if s = [] then b else s)"

definition text_default :: "string option \<Rightarrow> string \<Rightarrow> string" where
  "text_default a b = (case a of None \<Rightarrow> b | Some s \<Rightarrow> s)"

definition nonempty_text :: "string option \<Rightarrow> string option" where
  "nonempty_text a = (case a of None \<Rightarrow> None | Some s \<Rightarrow> if s = [] then None else Some s)"

definition nonempty_number :: "string option \<Rightarrow> jsnum option" where
  "nonempty_number a = map_option Number_of (nonempty_text a)"

definition flag_text :: "string option \<Rightarrow> bool" where
  "flag_text a \<longleftrightarrow> a = Some ''true''"

definition context_window :: "string option \<Rightarrow> jsnum" where
  "context_window a =
     (let n = (case a of None \<Rightarrow> NaN | Some s \<Rightarrow> Number_of s)
      in if js_is_safe_integer n \<and> (case n of Fin q \<Rightarrow> 0 < q | _ \<Rightarrow> False) then n else Fin 0)"

definition read_operation :: "string option \<Rightarrow> operation" where
  "read_operation a =
     (if a = Some ''embeddings'' then EmbeddingsOp
      else if a = Some ''image'' then ImageOp
      else if a = Some ''speech'' then SpeechOp
      else ChatOp)"

definition read_auth_type :: "string option \<Rightarrow> auth_type" where
  "read_auth_type a =
     (if a = Some ''api_key'' then ApiKeyAuth
      else if a = Some ''management_key'' then ManagementKeyAuth
      else if a = Some ''connected_app'' then ConnectedAppAuth
      else SessionAuth)"

definition bindingFromHash :: "(string \<Rightarrow> string option) \<Rightarrow> ticket_binding" where
  "bindingFromHash hash =
     \<lparr> accountId = text_default (hash ''accountId'') [],
       accountType = (if hash ''accountType'' = Some ''private'' then PrivateAccount else Registered),
       authType = read_auth_type (hash ''authType''),
       apiKeyId = nonempty_text (hash ''apiKeyId''),
       apiKeyCreditLimitUsd =
         (case hash ''apiKeyCreditLimitUsd'' of None \<Rightarrow> Some NaN
          | Some s \<Rightarrow> if s = [] then None else Some (Number_of s)),
       connectedGrantId = nonempty_text (hash ''connectedGrantId''),
       operation_of = Some (read_operation (hash ''operation'')),
       providerName = hash ''providerName'',
       publicModelId = hash ''publicModelId'',
       canonicalModelId = or_else (hash ''canonicalModelId'') (hash ''publicModelId''),
       requestedModel = (case hash ''requestedModel'' of None \<Rightarrow> hash ''publicModelId'' | Some s \<Rightarrow> Some s),
       privacyClass = hash ''privacyClass'',
       contextWindow = Some (context_window (hash ''contextWindow'')),
       providerPolicyKey = text_or (hash ''providerPolicyKey'') AUTO_PROVIDER_POLICY_KEY,
       providerPolicyJson = text_or (hash ''providerPolicyJson'') AUTO_PROVIDER_POLICY_JSON,
       e2ee = flag_text (hash ''e2ee''),
       maxOutputTokens = nonempty_number (hash ''maxOutputTokens''),
       maxOutputTokensExplicit =
         (flag_text (hash ''maxOutputTokensExplicit'')
          \<or> hash ''maxOutputTokensExplicit'' = None \<and> hash ''maxOutputTokens'' \<noteq> Some []),
       imageWidth = nonempty_number (hash ''imageWidth''),
       imageHeight = nonempty_number (hash ''imageHeight''),
       imageResponseFormat = nonempty_text (hash ''imageResponseFormat''),
       speechCharacterCount = nonempty_number (hash ''speechCharacterCount''),
       speechVoice = nonempty_text (hash ''speechVoice''),
       speechResponseFormat = nonempty_text (hash ''speechResponseFormat''),
       reasoningKey = text_or (hash ''reasoningKey'') ''default'',
       planJson = text_default (hash ''planJson'') ''{}'',
       routingPreferencesJson = text_default (hash ''routingPreferencesJson'') ''{}'',
       trial = Some (flag_text (hash ''trial'')),
       trialContractMissed = Some (flag_text (hash ''trialContractMissed'')),
       trialPool = Some (flag_text (hash ''trialPool'')),
       poolContractMissed = Some (flag_text (hash ''poolContractMissed'')),
       trialPoolModel = Some (text_default (hash ''trialPoolModel'') []),
       trialPoolProvider = Some (text_default (hash ''trialPoolProvider'') []),
       trialPoolPrivacy = Some (text_default (hash ''trialPoolPrivacy'') []) \<rparr>"

subsection \<open>The operations\<close>

definition option_text :: "string option \<Rightarrow> string" where
  "option_text a = text_default a []"

definition option_number :: "jsnum option \<Rightarrow> string" where
  "option_number a = (case a of None \<Rightarrow> [] | Some n \<Rightarrow> number_text n)"

definition option_flag :: "bool option \<Rightarrow> string" where
  "option_flag a = bool_text (case a of None \<Rightarrow> False | Some b \<Rightarrow> b)"

definition ticket_fields :: "ticket_binding \<Rightarrow> vk_hash" where
  "ticket_fields b =
     [(''accountId'', accountId b),
      (''accountType'', account_type_text (accountType b)),
      (''authType'', auth_type_text (authType b)),
      (''apiKeyId'', option_text (apiKeyId b)),
      (''apiKeyCreditLimitUsd'', option_number (apiKeyCreditLimitUsd b)),
      (''connectedGrantId'', option_text (connectedGrantId b)),
      (''operation'', operation_text (case operation_of b of None \<Rightarrow> ChatOp | Some op \<Rightarrow> op)),
      (''providerName'', option_text (providerName b)),
      (''publicModelId'', option_text (publicModelId b)),
      (''canonicalModelId'', option_text (canonicalModelId b)),
      (''requestedModel'', option_text (requestedModel b)),
      (''privacyClass'', option_text (privacyClass b)),
      (''contextWindow'', number_text (case contextWindow b of None \<Rightarrow> Fin 0 | Some n \<Rightarrow> n)),
      (''providerPolicyKey'', providerPolicyKey b),
      (''providerPolicyJson'', providerPolicyJson b),
      (''e2ee'', bool_text (e2ee b)),
      (''maxOutputTokens'', option_number (maxOutputTokens b)),
      (''maxOutputTokensExplicit'', bool_text (maxOutputTokensExplicit b)),
      (''imageWidth'', option_number (imageWidth b)),
      (''imageHeight'', option_number (imageHeight b)),
      (''imageResponseFormat'', option_text (imageResponseFormat b)),
      (''speechCharacterCount'', option_number (speechCharacterCount b)),
      (''speechVoice'', option_text (speechVoice b)),
      (''speechResponseFormat'', option_text (speechResponseFormat b)),
      (''reasoningKey'', reasoningKey b),
      (''planJson'', planJson b),
      (''routingPreferencesJson'', routingPreferencesJson b),
      (''trial'', option_flag (trial b)),
      (''trialPool'', option_flag (trialPool b)),
      (''poolContractMissed'', option_flag (poolContractMissed b)),
      (''trialPoolModel'', option_text (trialPoolModel b)),
      (''trialPoolProvider'', option_text (trialPoolProvider b)),
      (''trialPoolPrivacy'', option_text (trialPoolPrivacy b)),
      (''trialContractMissed'', option_flag (trialContractMissed b)),
      (''status'', ''issued'')]"

definition issueTicket ::
    "vk_env \<Rightarrow> string \<Rightarrow> ticket_binding \<Rightarrow> ticket_store \<Rightarrow> ticket_store \<times> string result" where
  "issueTicket env ticketId b s =
     (case issueScript env (ticketKey ticketId) TICKET_TTL_SECONDS (ticket_fields b) s of
        (s', issued) \<Rightarrow>
          (s', if issued \<noteq> 1 then Inl (App 503 ''protection_state_unavailable'') else Inr ticketId))"

definition redeemTicket ::
    "vk_env \<Rightarrow> string \<Rightarrow> ticket_store \<Rightarrow> ticket_store \<times> ticket_binding option" where
  "redeemTicket env ticketId s =
     (case redeemScript env (ticketKey ticketId) REDEEMED_TTL_MS s of
        (s', flat) \<Rightarrow>
          (s', case parseHash flat of
                 None \<Rightarrow> None
               | Some hash \<Rightarrow>
                   if nonempty_text (hash ''accountId'') = None then None
                   else Some (bindingFromHash hash)))"

definition consumeTicket :: "vk_env \<Rightarrow> string \<Rightarrow> ticket_store \<Rightarrow> ticket_store" where
  "consumeTicket env ticketId s = consumeScript env (ticketKey ticketId) s"

definition consumeTicketIntoState ::
    "vk_env \<Rightarrow> string \<Rightarrow> string \<Rightarrow> string \<Rightarrow> int \<Rightarrow> ticket_store \<Rightarrow> ticket_store \<times> unit result" where
  "consumeTicketIntoState env ticketId destinationKey content ttlSeconds s =
     (case consumeIntoStateScript env (ticketKey ticketId) destinationKey content ttlSeconds s of
        (s', res) \<Rightarrow>
          (s', and_then res (\<lambda>r.
             if r = -1 then Inl (App 503 ''protection_state_unavailable'')
             else if r \<noteq> 1 then Inl (App 409 ''ticket_not_redeemable'')
             else Inr ())))"

end
