(* ===== verification/TicketSpec.thy ===== *)
theory TicketSpec
  imports Tickets
begin

section \<open>Tickets: what is redeemed is what was issued, and only once\<close>

text \<open>
  First the hash: a fresh ticket holds exactly the fields \<open>issueTicket\<close> writes, and reading them back
  gives the binding, if each of its numbers is an amount \<open>String\<close> writes in full and its optional
  texts are not empty (\<open>bindable\<close>). Then the life of a ticket: \<open>ticket_run\<close> is a history of the store
  in which time passes, tickets are issued, redeemed and published, calls fail, entries expire and the
  other state changes. The invariant \<open>ticket_inv\<close> ties the entry of a ticket to the events of its
  history, and \<open>single_use\<close> is what every history shows.
\<close>

subsection \<open>The hash of a ticket\<close>

lemma hset_new: "f \<notin> fst ` set h \<Longrightarrow> hset f v h = h @ [(f, v)]"
  by (simp add: hset_def)

lemma hset_all_append:
  "distinct (map fst (h @ pairs)) \<Longrightarrow> hset_all pairs h = h @ pairs"
proof (induction pairs arbitrary: h)
  case Nil
  then show ?case by (simp add: hset_all_def)
next
  case (Cons p pairs)
  obtain f v where p: "p = (f, v)" by (cases p)
  from Cons.prems have "f \<notin> fst ` set h" by (auto simp: p)
  with Cons.IH [of "h @ [p]"] Cons.prems show ?case
    by (simp add: hset_all_def p hset_new)
qed

lemma map_of_hset: "map_of (hset f v h) g = (if g = f then Some v else map_of h g)"
proof (cases "f \<in> fst ` set h")
  case True
  have "map_of (map (\<lambda>(f', v'). (f', if f' = f then v else v')) h) g
      = (if g = f then (if f \<in> fst ` set h then Some v else None) else map_of h g)"
  proof (induction h)
    case (Cons p h)
    have "f \<in> fst ` set h" if "(f, w) \<in> set h" for w using that by (rule image_eqI [rotated]) simp
    with Cons show ?case by (cases "fst p = f") (auto simp: case_prod_beta)
  qed simp
  with True show ?thesis by (simp add: hset_def)
next
  case False
  then have "map_of h f = None" by (auto simp: map_of_eq_None_iff)
  with False show ?thesis by (auto simp: hset_def map_add_def split: option.split)
qed

lemma distinct_hset: "distinct (map fst h) \<Longrightarrow> distinct (map fst (hset f v h))"
  by (auto simp: hset_def comp_def case_prod_beta)

lemma parse_hgetall:
  "distinct (map fst h) \<Longrightarrow> parse_pairs (hgetall h) m = (\<lambda>k. case map_of h k of None \<Rightarrow> m k | Some v \<Rightarrow> Some v)"
proof (induction h arbitrary: m)
  case Nil
  then show ?case by (simp add: hgetall_def)
next
  case (Cons p h)
  obtain f v where p: "p = (f, v)" by (cases p)
  from Cons have "parse_pairs (hgetall h) (m(f \<mapsto> v))
      = (\<lambda>k. case map_of h k of None \<Rightarrow> (m(f \<mapsto> v)) k | Some v \<Rightarrow> Some v)" by simp
  moreover have "map_of h f = None" using Cons.prems by (auto simp: p map_of_eq_None_iff)
  ultimately show ?case by (auto simp: p hgetall_def fun_eq_iff split: option.split)
qed

lemma hgetall_not_Nil: "h \<noteq> [] \<Longrightarrow> hgetall h \<noteq> []"
  by (cases h) (auto simp: hgetall_def)

lemma distinct_ticket_fields: "distinct (map fst (ticket_fields b))"
  by (simp add: ticket_fields_def)

definition issued_hash :: "ticket_binding \<Rightarrow> vk_hash" where
  "issued_hash b = hset_all (ticket_fields b) []"

lemma issued_hash: "issued_hash b = ticket_fields b"
  using hset_all_append [of "[]" "ticket_fields b"] distinct_ticket_fields by (simp add: issued_hash_def)

definition redeemed_hash :: "ticket_binding \<Rightarrow> vk_hash" where
  "redeemed_hash b = hset ''status'' ''redeemed'' (ticket_fields b)"

lemma redeemed_hash_status: "map_of (redeemed_hash b) ''status'' = Some ''redeemed''"
  by (simp add: redeemed_hash_def map_of_hset)

lemma ticket_fields_status: "map_of (ticket_fields b) ''status'' = Some ''issued''"
  by (simp add: ticket_fields_def)

definition stored_binding :: "ticket_binding \<Rightarrow> ticket_binding" where
  "stored_binding b = bindingFromHash (map_of (ticket_fields b))"

lemma binding_status_irrelevant:
  "(\<And>k. k \<noteq> ''status'' \<Longrightarrow> m k = m' k) \<Longrightarrow> bindingFromHash m = bindingFromHash m'"
  by (simp add: bindingFromHash_def cong: option.case_cong)

lemma parse_redeemed:
  "parseHash (hgetall (redeemed_hash b)) = Some (map_of (redeemed_hash b))"
proof -
  have "distinct (map fst (redeemed_hash b))"
    unfolding redeemed_hash_def by (rule distinct_hset) (rule distinct_ticket_fields)
  then have "parse_pairs (hgetall (redeemed_hash b)) Map.empty = map_of (redeemed_hash b)"
    by (simp add: parse_hgetall fun_eq_iff split: option.split)
  moreover have "redeemed_hash b \<noteq> []" using redeemed_hash_status [of b] by auto
  ultimately show ?thesis by (simp add: parseHash_def hgetall_not_Nil)
qed

lemma redeemed_binding: "bindingFromHash (map_of (redeemed_hash b)) = stored_binding b"
  unfolding stored_binding_def
  by (rule binding_status_irrelevant) (simp add: redeemed_hash_def map_of_hset)

lemma ticket_field:
  "map_of (ticket_fields b) ''accountId'' = Some (accountId b)"
  "map_of (ticket_fields b) ''accountType'' = Some (account_type_text (accountType b))"
  "map_of (ticket_fields b) ''authType'' = Some (auth_type_text (authType b))"
  "map_of (ticket_fields b) ''apiKeyId'' = Some (option_text (apiKeyId b))"
  "map_of (ticket_fields b) ''apiKeyCreditLimitUsd'' = Some (option_number (apiKeyCreditLimitUsd b))"
  "map_of (ticket_fields b) ''connectedGrantId'' = Some (option_text (connectedGrantId b))"
  "map_of (ticket_fields b) ''operation'' = Some (operation_text (case operation_of b of None \<Rightarrow> ChatOp | Some op \<Rightarrow> op))"
  "map_of (ticket_fields b) ''providerName'' = Some (option_text (providerName b))"
  "map_of (ticket_fields b) ''publicModelId'' = Some (option_text (publicModelId b))"
  "map_of (ticket_fields b) ''canonicalModelId'' = Some (option_text (canonicalModelId b))"
  "map_of (ticket_fields b) ''requestedModel'' = Some (option_text (requestedModel b))"
  "map_of (ticket_fields b) ''privacyClass'' = Some (option_text (privacyClass b))"
  "map_of (ticket_fields b) ''contextWindow'' = Some (number_text (case contextWindow b of None \<Rightarrow> Fin 0 | Some n \<Rightarrow> n))"
  "map_of (ticket_fields b) ''providerPolicyKey'' = Some (providerPolicyKey b)"
  "map_of (ticket_fields b) ''providerPolicyJson'' = Some (providerPolicyJson b)"
  "map_of (ticket_fields b) ''e2ee'' = Some (bool_text (e2ee b))"
  "map_of (ticket_fields b) ''maxOutputTokens'' = Some (option_number (maxOutputTokens b))"
  "map_of (ticket_fields b) ''maxOutputTokensExplicit'' = Some (bool_text (maxOutputTokensExplicit b))"
  "map_of (ticket_fields b) ''imageWidth'' = Some (option_number (imageWidth b))"
  "map_of (ticket_fields b) ''imageHeight'' = Some (option_number (imageHeight b))"
  "map_of (ticket_fields b) ''imageResponseFormat'' = Some (option_text (imageResponseFormat b))"
  "map_of (ticket_fields b) ''speechCharacterCount'' = Some (option_number (speechCharacterCount b))"
  "map_of (ticket_fields b) ''speechVoice'' = Some (option_text (speechVoice b))"
  "map_of (ticket_fields b) ''speechResponseFormat'' = Some (option_text (speechResponseFormat b))"
  "map_of (ticket_fields b) ''reasoningKey'' = Some (reasoningKey b)"
  "map_of (ticket_fields b) ''planJson'' = Some (planJson b)"
  "map_of (ticket_fields b) ''routingPreferencesJson'' = Some (routingPreferencesJson b)"
  "map_of (ticket_fields b) ''trial'' = Some (option_flag (trial b))"
  "map_of (ticket_fields b) ''trialPool'' = Some (option_flag (trialPool b))"
  "map_of (ticket_fields b) ''poolContractMissed'' = Some (option_flag (poolContractMissed b))"
  "map_of (ticket_fields b) ''trialPoolModel'' = Some (option_text (trialPoolModel b))"
  "map_of (ticket_fields b) ''trialPoolProvider'' = Some (option_text (trialPoolProvider b))"
  "map_of (ticket_fields b) ''trialPoolPrivacy'' = Some (option_text (trialPoolPrivacy b))"
  "map_of (ticket_fields b) ''trialContractMissed'' = Some (option_flag (trialContractMissed b))"
  "map_of (ticket_fields b) ''status'' = Some (''issued'')"
  by (simp_all add: ticket_fields_def)

lemma redeemed_account: "map_of (redeemed_hash b) ''accountId'' = Some (accountId b)"
  by (simp add: redeemed_hash_def map_of_hset) (simp add: ticket_fields_def)

subsection \<open>Reading a binding back\<close>

definition written_number :: "jsnum \<Rightarrow> bool" where
  "written_number n \<longleftrightarrow> (case n of Fin q \<Rightarrow> is_micro q \<and> \<bar>q\<bar> < 10 ^ 21 | _ \<Rightarrow> True)"

definition optional_number :: "jsnum option \<Rightarrow> bool" where
  "optional_number a \<longleftrightarrow> (case a of None \<Rightarrow> True | Some n \<Rightarrow> written_number n)"

definition bindable :: "ticket_binding \<Rightarrow> bool" where
  "bindable b \<longleftrightarrow>
     accountId b \<noteq> []
     \<and> (\<forall>t \<in> {apiKeyId b, connectedGrantId b, imageResponseFormat b, speechVoice b, speechResponseFormat b}.
          t \<noteq> Some [])
     \<and> (\<forall>n \<in> {apiKeyCreditLimitUsd b, maxOutputTokens b, imageWidth b, imageHeight b, speechCharacterCount b}.
          optional_number n)
     \<and> (\<forall>t \<in> {providerName b, publicModelId b, requestedModel b, privacyClass b}. t \<noteq> None)
     \<and> (\<exists>t. canonicalModelId b = Some t \<and> t \<noteq> [])
     \<and> operation_of b \<noteq> None
     \<and> (\<exists>n. contextWindow b = Some (Fin (of_int n)) \<and> 0 \<le> n \<and> n \<le> max_safe_integer)
     \<and> (\<forall>t \<in> {providerPolicyKey b, providerPolicyJson b, reasoningKey b}. t \<noteq> [])
     \<and> (\<forall>f \<in> {trial b, trialContractMissed b, trialPool b, poolContractMissed b}. f \<noteq> None)
     \<and> (\<forall>t \<in> {trialPoolModel b, trialPoolProvider b, trialPoolPrivacy b}. t \<noteq> None)"

lemma Number_of_special:
  "Number_of ''NaN'' = NaN" "Number_of ''Infinity'' = PosInf" "Number_of ''-Infinity'' = NegInf"
  by (simp_all add: Number_of_def js_trim_def is_js_space_def unsigned_number_def unsigned_decimal_def
      is_digit_def)

lemma Number_of_written: "written_number n \<Longrightarrow> Number_of (number_text n) = n"
  by (cases n) (simp_all add: written_number_def Number_of_special Number_of_number_text
      del: number_text.simps(4))

lemma nonempty_number_written:
  "optional_number a \<Longrightarrow> nonempty_number (Some (option_number a)) = a"
  by (cases a)
     (simp_all add: optional_number_def nonempty_number_def nonempty_text_def option_number_def
       number_text_not_Nil Number_of_written)

lemma nonempty_text_written: "a \<noteq> Some [] \<Longrightarrow> nonempty_text (Some (option_text a)) = a"
  by (cases a) (simp_all add: nonempty_text_def option_text_def text_default_def)

lemma plain_texts:
  "option_text (Some t) = t" "option_flag (Some f) = bool_text f" "text_default (Some t) d = t"
  "t \<noteq> [] \<Longrightarrow> text_or (Some t) d = t" "t \<noteq> [] \<Longrightarrow> or_else (Some t) c = Some t"
  "flag_text (Some (bool_text f)) = f"
  by (simp_all add: option_text_def option_flag_def text_default_def text_or_def or_else_def flag_text_def
      bool_text_def)

lemma auth_type_written: "read_auth_type (Some (auth_type_text t)) = t"
  by (cases t) (simp_all add: read_auth_type_def auth_type_text_def)

lemma operation_written: "read_operation (Some (operation_text op)) = op"
  by (cases op) (simp_all add: read_operation_def operation_text_def)

lemma account_type_written:
  "(if account_type_text t = ''private'' then PrivateAccount else Registered) = t"
  by (cases t) (simp_all add: account_type_text_def)

lemma context_window_written:
  assumes "0 \<le> n" and "n \<le> max_safe_integer"
  shows "context_window (Some (number_text (Fin (of_int n)))) = Fin (of_int n)"
proof -
  have "Number_of (number_text (Fin (of_int n))) = Fin (of_int n)"
    by (rule Number_of_number_text) simp
  with assms show ?thesis
    by (cases "n = 0") (simp_all add: context_window_def Let_def del: number_text.simps)
qed

lemma credit_limit_written:
  assumes "optional_number a"
  shows "(if option_number a = [] then None else Some (Number_of (option_number a))) = a"
  using assms by (cases a) (simp_all add: option_number_def optional_number_def Number_of_written
      number_text_not_Nil)

lemmas written_facts = nonempty_number_written nonempty_text_written plain_texts auth_type_written
  operation_written account_type_written context_window_written credit_limit_written

lemma stored_bindable:
  assumes "bindable b"
  shows "stored_binding b = b"
proof -
  note facts = assms [unfolded bindable_def]
  obtain n c op pn pm rm pc where some: "contextWindow b = Some (Fin (of_int n))" "canonicalModelId b = Some c"
      "operation_of b = Some op" "providerName b = Some pn" "publicModelId b = Some pm"
      "requestedModel b = Some rm" "privacyClass b = Some pc"
    and bounds: "0 \<le> n" "n \<le> max_safe_integer" "c \<noteq> []"
    using facts by auto
  obtain f1 f2 f3 f4 m1 m2 m3 where flags: "trial b = Some f1" "trialContractMissed b = Some f2"
      "trialPool b = Some f3" "poolContractMissed b = Some f4" "trialPoolModel b = Some m1"
      "trialPoolProvider b = Some m2" "trialPoolPrivacy b = Some m3"
    using facts by auto
  have numbers: "optional_number (apiKeyCreditLimitUsd b)" "optional_number (maxOutputTokens b)"
    "optional_number (imageWidth b)" "optional_number (imageHeight b)"
    "optional_number (speechCharacterCount b)" using facts by simp_all
  have texts: "apiKeyId b \<noteq> Some []" "connectedGrantId b \<noteq> Some []" "imageResponseFormat b \<noteq> Some []"
    "speechVoice b \<noteq> Some []" "speechResponseFormat b \<noteq> Some []" using facts by simp_all
  have keys: "providerPolicyKey b \<noteq> []" "providerPolicyJson b \<noteq> []" "reasoningKey b \<noteq> []"
    using facts by simp_all
  show ?thesis
    unfolding stored_binding_def bindingFromHash_def ticket_field option.inject
    by (rule ticket_binding.equality)
       (simp_all add: some flags numbers texts keys bounds written_facts del: number_text.simps)
qed


subsection \<open>The scripts on one key\<close>

lemma ticketKey_inj: "ticketKey i = ticketKey j \<longleftrightarrow> i = j"
  by (simp add: ticketKey_def)

lemma issue_Inr:
  assumes "issueTicket env i b s = (s', Inr j)"
  shows "j = i" and "states s' = states s"
    and "vk_get env (tickets s) (ticketKey i) = None \<Longrightarrow>
      tickets s' = (tickets s)(ticketKey i \<mapsto> (ticket_fields b, Some (clock env + 30000)))"
    and "i' \<noteq> i \<Longrightarrow> tickets s' (ticketKey i') = tickets s (ticketKey i')"
  using assms issued_hash [of b, unfolded issued_hash_def]
  by (auto simp: issueTicket_def issueScript_def TICKET_TTL_SECONDS_def vk_put_def ticketKey_inj Let_def
      split: if_splits)

lemma issue_Inl: "issueTicket env i b s = (s', Inl e) \<Longrightarrow> s' = s"
  by (auto simp: issueTicket_def issueScript_def Let_def split: if_splits)

lemma redeem_other:
  "redeemTicket env i s = (s', out) \<Longrightarrow> i' \<noteq> i \<Longrightarrow> tickets s' (ticketKey i') = tickets s (ticketKey i')"
  by (auto simp: redeemTicket_def redeemScript_def Let_def vk_put_def ticketKey_inj REDEEMED_TTL_MS_def
      split: option.splits if_splits)

lemma redeem_nothing:
  assumes "vk_get env (tickets s) (ticketKey i) = None
    \<or> (\<exists>h. vk_get env (tickets s) (ticketKey i) = Some h \<and> map_of h ''status'' \<noteq> Some ''issued'')"
  shows "redeemTicket env i s = (s, None)"
  using assms by (auto simp: redeemTicket_def redeemScript_def parseHash_def)

lemma redeem_issued:
  assumes "vk_get env (tickets s) (ticketKey i) = Some (ticket_fields b)" and "accountId b \<noteq> []"
  shows "redeemTicket env i s =
    (s\<lparr> tickets := (tickets s)(ticketKey i \<mapsto> (redeemed_hash b, Some (clock env + 60000))) \<rparr>,
     Some (stored_binding b))"
  using assms
  by (simp add: redeemTicket_def redeemScript_def ticket_fields_status Let_def REDEEMED_TTL_MS_def vk_put_def
      redeemed_hash_def [symmetric] parse_redeemed redeemed_binding redeemed_account nonempty_text_def)

lemma consume_effect:
  "tickets (consumeTicket env i s) (ticketKey i') =
     (if i' = i \<and> (\<exists>h. vk_get env (tickets s) (ticketKey i) = Some h \<and> map_of h ''status'' = Some ''redeemed'')
      then None else tickets s (ticketKey i'))"
  by (auto simp: consumeTicket_def consumeScript_def ticketKey_inj split: option.splits)

lemma publish_Inl: "consumeTicketIntoState env i d c ttl s = (s', Inl e) \<Longrightarrow> s' = s"
  by (auto simp: consumeTicketIntoState_def consumeIntoStateScript_def split: option.splits if_splits)

lemma publish_Inr:
  assumes "consumeTicketIntoState env i d c ttl s = (s', Inr u)"
  shows "\<exists>h. vk_get env (tickets s) (ticketKey i) = Some h \<and> map_of h ''status'' = Some ''redeemed''"
    and "tickets s' = (tickets s)(ticketKey i := None)"
    and "vk_get env (states s) d = None" and "vk_get env (states s') d = Some c"
  using assms
  by (auto simp: consumeTicketIntoState_def consumeIntoStateScript_def vk_put_def vk_get_def
      split: option.splits if_splits)

subsection \<open>The life of a ticket\<close>

datatype ticket_event =
    Issued string ticket_binding int
  | Redeemed string ticket_binding int
  | Published string string string int

fun event_ticket :: "ticket_event \<Rightarrow> string" where
  "event_ticket (Issued i b t) = i"
| "event_ticket (Redeemed i b t) = i"
| "event_ticket (Published i d c t) = i"

definition events_of :: "string \<Rightarrow> ticket_event list \<Rightarrow> ticket_event list" where
  "events_of i es = filter (\<lambda>e. event_ticket e = i) es"

inductive ticket_run :: "int \<Rightarrow> ticket_store \<Rightarrow> ticket_event list \<Rightarrow> bool" where
  start: "ticket_run t empty_tickets []"
| tick: "ticket_run t s es \<Longrightarrow> t \<le> t' \<Longrightarrow> ticket_run t' s es"
| issue: "ticket_run t s es \<Longrightarrow> clock env = t \<Longrightarrow> events_of i es = [] \<Longrightarrow> accountId b \<noteq> [] \<Longrightarrow>
    issueTicket env i b s = (s', Inr j) \<Longrightarrow> ticket_run t s' (es @ [Issued i b t])"
| issue_failed: "ticket_run t s es \<Longrightarrow> clock env = t \<Longrightarrow> issueTicket env i b s = (s', Inl e) \<Longrightarrow>
    ticket_run t s' es"
| redeem: "ticket_run t s es \<Longrightarrow> clock env = t \<Longrightarrow> redeemTicket env i s = (s', Some b) \<Longrightarrow>
    ticket_run t s' (es @ [Redeemed i b t])"
| redeem_refused: "ticket_run t s es \<Longrightarrow> clock env = t \<Longrightarrow> redeemTicket env i s = (s', None) \<Longrightarrow>
    ticket_run t s' es"
| consume: "ticket_run t s es \<Longrightarrow> clock env = t \<Longrightarrow> ticket_run t (consumeTicket env i s) es"
| publish: "ticket_run t s es \<Longrightarrow> clock env = t \<Longrightarrow>
    consumeTicketIntoState env i d c ttl s = (s', Inr ()) \<Longrightarrow> ticket_run t s' (es @ [Published i d c t])"
| publish_failed: "ticket_run t s es \<Longrightarrow> clock env = t \<Longrightarrow>
    consumeTicketIntoState env i d c ttl s = (s', Inl e) \<Longrightarrow> ticket_run t s' es"
| other_state: "ticket_run t s es \<Longrightarrow> tickets s' = tickets s \<Longrightarrow> ticket_run t s' es"

fun single_use :: "ticket_event list \<Rightarrow> bool" where
  "single_use [] = True"
| "single_use [Issued i b t0] = True"
| "single_use [Issued i b t0, Redeemed j b' t1] = (b' = stored_binding b \<and> t0 \<le> t1 \<and> t1 < t0 + 30000)"
| "single_use [Issued i b t0, Redeemed j b' t1, Published k d c t2] =
     (b' = stored_binding b \<and> t0 \<le> t1 \<and> t1 < t0 + 30000 \<and> t1 \<le> t2 \<and> t2 < t1 + 60000)"
| "single_use _ = False"

text \<open>What the entry of a ticket says about its history.\<close>

definition entry_inv :: "(vk_hash \<times> int option) option \<Rightarrow> ticket_event list \<Rightarrow> int \<Rightarrow> bool" where
  "entry_inv entry es t \<longleftrightarrow>
     (case entry of
        None \<Rightarrow> True
      | Some (h, e) \<Rightarrow>
          (\<exists>i b t0. es = [Issued i b t0] \<and> t0 \<le> t \<and> h = ticket_fields b \<and> e = Some (t0 + 30000)
             \<and> accountId b \<noteq> [])
          \<or> (\<exists>i b t0 j t1. es = [Issued i b t0, Redeemed j (stored_binding b) t1] \<and> t1 \<le> t
               \<and> h = redeemed_hash b \<and> e = Some (t1 + 60000)))"

definition ticket_inv :: "int \<Rightarrow> ticket_store \<Rightarrow> ticket_event list \<Rightarrow> bool" where
  "ticket_inv t s es \<longleftrightarrow>
     (\<forall>i. single_use (events_of i es) \<and> entry_inv (tickets s (ticketKey i)) (events_of i es) t)"

lemma events_of_snoc:
  "events_of i (es @ [e]) = events_of i es @ (if event_ticket e = i then [e] else [])"
  by (simp add: events_of_def)

lemma entry_inv_later: "entry_inv entry es t \<Longrightarrow> t \<le> t' \<Longrightarrow> entry_inv entry es t'"
  by (fastforce simp: entry_inv_def split: option.splits prod.splits)

lemma entry_status:
  assumes "entry_inv (tickets s k) es (clock env)" and "vk_get env (tickets s) k = Some h"
  obtains (issued) i b t0 where "es = [Issued i b t0]" "t0 \<le> clock env" "clock env < t0 + 30000"
      "h = ticket_fields b" "accountId b \<noteq> []"
  | (redeemed) i b t0 j t1 where "es = [Issued i b t0, Redeemed j (stored_binding b) t1]"
      "t1 \<le> clock env" "clock env < t1 + 60000" "h = redeemed_hash b"
proof -
  obtain e where entry: "tickets s k = Some (h, e)" "case e of None \<Rightarrow> True | Some d \<Rightarrow> clock env < d"
    using assms(2) by (auto simp: vk_get_def split: option.splits if_splits)
  with assms(1) show thesis
    by (auto simp: entry_inv_def intro: issued redeemed)
qed


lemma ticket_inv_at:
  assumes "ticket_inv t s es"
    and "\<And>i'. event_ticket e \<noteq> i' \<Longrightarrow> tickets s' (ticketKey i') = tickets s (ticketKey i')"
    and "single_use (events_of (event_ticket e) es @ [e])"
    and "entry_inv (tickets s' (ticketKey (event_ticket e))) (events_of (event_ticket e) es @ [e]) t"
  shows "ticket_inv t s' (es @ [e])"
  using assms by (auto simp: ticket_inv_def events_of_snoc)

lemma ticket_inv_fewer:
  assumes "ticket_inv t s es"
    and "\<And>i. tickets s' (ticketKey i) = None \<or> tickets s' (ticketKey i) = tickets s (ticketKey i)"
  shows "ticket_inv t s' es"
proof -
  have "entry_inv (tickets s' (ticketKey i)) (events_of i es) t" for i
    using assms(1) assms(2) [of i] by (auto simp: ticket_inv_def entry_inv_def)
  with assms(1) show ?thesis by (simp add: ticket_inv_def)
qed

lemma ticket_inv_issue:
  assumes "ticket_inv (clock env) s es" and "events_of i es = []" and "accountId b \<noteq> []"
    and "issueTicket env i b s = (s', Inr j)"
  shows "ticket_inv (clock env) s' (es @ [Issued i b (clock env)])"
proof (rule ticket_inv_at [OF assms(1)])
  have "tickets s (ticketKey i) = None"
    using assms(1,2) spec [of "\<lambda>i. entry_inv (tickets s (ticketKey i)) (events_of i es) (clock env)" i]
    by (cases "tickets s (ticketKey i)") (auto simp: ticket_inv_def entry_inv_def)
  then have new: "tickets s' (ticketKey i) = Some (ticket_fields b, Some (clock env + 30000))"
    using issue_Inr(3) [OF assms(4)] by (simp add: vk_get_def)
  show "entry_inv (tickets s' (ticketKey (event_ticket (Issued i b (clock env)))))
      (events_of (event_ticket (Issued i b (clock env))) es @ [Issued i b (clock env)]) (clock env)"
    by (simp add: assms(2,3) new entry_inv_def)
  show "tickets s' (ticketKey i') = tickets s (ticketKey i')"
    if "event_ticket (Issued i b (clock env)) \<noteq> i'" for i'
    using issue_Inr(4) [OF assms(4), of i'] that by auto
qed (simp add: assms(2))

lemma ticket_inv_redeem:
  assumes "ticket_inv (clock env) s es" and "redeemTicket env i s = (s', Some b)"
  shows "ticket_inv (clock env) s' (es @ [Redeemed i b (clock env)])"
proof (rule ticket_inv_at [OF assms(1)])
  have entry: "entry_inv (tickets s (ticketKey i)) (events_of i es) (clock env)"
    using assms(1) by (simp add: ticket_inv_def)
  obtain h where h: "vk_get env (tickets s) (ticketKey i) = Some h" "map_of h ''status'' = Some ''issued''"
    using redeem_nothing [of env s i] assms(2) by (cases "vk_get env (tickets s) (ticketKey i)") auto
  obtain i0 b0 t0 where issued: "events_of i es = [Issued i0 b0 t0]" "t0 \<le> clock env"
      "clock env < t0 + 30000" "h = ticket_fields b0" "accountId b0 \<noteq> []"
    using entry h(1)
  proof (cases rule: entry_status)
    case redeemed
    then show ?thesis using h(2) redeemed_hash_status by simp
  qed
  have out: "b = stored_binding b0"
    "tickets s' = (tickets s)(ticketKey i \<mapsto> (redeemed_hash b0, Some (clock env + 60000)))"
    using redeem_issued [OF h(1) [unfolded issued(4)] issued(5)] assms(2) by auto
  show "single_use (events_of (event_ticket (Redeemed i b (clock env))) es @ [Redeemed i b (clock env)])"
    using issued by (simp add: out(1))
  show "entry_inv (tickets s' (ticketKey (event_ticket (Redeemed i b (clock env)))))
      (events_of (event_ticket (Redeemed i b (clock env))) es @ [Redeemed i b (clock env)]) (clock env)"
    by (simp add: issued(1) out entry_inv_def)
  show "tickets s' (ticketKey i') = tickets s (ticketKey i')"
    if "event_ticket (Redeemed i b (clock env)) \<noteq> i'" for i'
    using redeem_other [OF assms(2), of i'] that by auto
qed

lemma ticket_inv_publish:
  assumes "ticket_inv (clock env) s es" and "consumeTicketIntoState env i d c ttl s = (s', Inr ())"
  shows "ticket_inv (clock env) s' (es @ [Published i d c (clock env)])"
proof (rule ticket_inv_at [OF assms(1)])
  have entry: "entry_inv (tickets s (ticketKey i)) (events_of i es) (clock env)"
    and use: "single_use (events_of i es)"
    using assms(1) by (simp_all add: ticket_inv_def)
  obtain h where h: "vk_get env (tickets s) (ticketKey i) = Some h" "map_of h ''status'' = Some ''redeemed''"
    using publish_Inr(1) [OF assms(2)] by blast
  obtain i0 b0 t0 j t1 where life: "events_of i es = [Issued i0 b0 t0, Redeemed j (stored_binding b0) t1]"
      "t1 \<le> clock env" "clock env < t1 + 60000"
    using entry h(1)
  proof (cases rule: entry_status)
    case issued
    then show ?thesis using h(2) ticket_fields_status by simp
  qed
  show "single_use (events_of (event_ticket (Published i d c (clock env))) es @ [Published i d c (clock env)])"
    using use life by simp
  show "entry_inv (tickets s' (ticketKey (event_ticket (Published i d c (clock env)))))
      (events_of (event_ticket (Published i d c (clock env))) es @ [Published i d c (clock env)]) (clock env)"
    by (simp add: publish_Inr(2) [OF assms(2)] entry_inv_def)
  show "tickets s' (ticketKey i') = tickets s (ticketKey i')"
    if "event_ticket (Published i d c (clock env)) \<noteq> i'" for i'
    using that by (simp add: publish_Inr(2) [OF assms(2)] ticketKey_inj)
qed

lemma ticket_inv_refused:
  assumes "ticket_inv (clock env) s es" and "redeemTicket env i s = (s', None)"
  shows "ticket_inv (clock env) s' es"
proof -
  have entry: "entry_inv (tickets s (ticketKey i)) (events_of i es) (clock env)"
    using assms(1) by (simp add: ticket_inv_def)
  have "s' = s"
  proof (cases "vk_get env (tickets s) (ticketKey i)")
    case None
    then show ?thesis using redeem_nothing [of env s i] assms(2) by simp
  next
    case (Some h)
    with entry show ?thesis
    proof (cases rule: entry_status)
      case (issued i0 b0 t0)
      then show ?thesis using redeem_issued [of env s i b0] Some assms(2) by simp
    next
      case (redeemed i0 b0 t0 j t1)
      then show ?thesis using redeem_nothing [of env s i] Some assms(2) redeemed_hash_status by simp
    qed
  qed
  with assms(1) show ?thesis by simp
qed

lemma ticket_run_inv: "ticket_run t s es \<Longrightarrow> ticket_inv t s es"
proof (induction rule: ticket_run.induct)
  case (start t)
  show ?case by (simp add: ticket_inv_def events_of_def entry_inv_def empty_tickets_def)
next
  case (tick t s es t')
  then show ?case by (auto simp: ticket_inv_def intro: entry_inv_later)
next
  case (issue t s es env i b s' j)
  then show ?case using ticket_inv_issue by metis
next
  case (issue_failed t s es env i b s' e)
  then show ?case using issue_Inl by metis
next
  case (redeem t s es env i s' b)
  then show ?case using ticket_inv_redeem by metis
next
  case (redeem_refused t s es env i s')
  then show ?case using ticket_inv_refused by metis
next
  case (consume t s es env i)
  show ?case by (rule ticket_inv_fewer [OF consume.IH]) (simp add: consume_effect)
next
  case (publish t s es env i d c ttl s')
  then show ?case using ticket_inv_publish by metis
next
  case (publish_failed t s es env i d c ttl s' e)
  then show ?case using publish_Inl by metis
next
  case (other_state t s es s')
  then show ?case by (simp add: ticket_inv_def)
qed

subsection \<open>Properties\<close>

text \<open>
  C20. A ticket is used once: in every history of the ticket store the events of a ticket are its issue,
  at most one redemption within 30 seconds that hands out the stored binding, and after it at most one
  publication within 60 seconds.
\<close>

theorem ticket_used_once:
  assumes "ticket_run t s es"
  shows "single_use (events_of i es)"
  using ticket_run_inv [OF assms] by (simp add: ticket_inv_def)

text \<open>
  C21. A redeemed ticket gives back the binding it was issued for: for every binding whose numbers and
  texts are in the written form, redemption within 30 seconds of the issue returns exactly the binding
  and leaves the ticket redeemed, so that a second redemption returns nothing.
\<close>

theorem ticket_roundtrip:
  assumes "bindable b" and "valkey_has_write_capacity env"
    and "vk_get env (tickets s) (ticketKey i) = None"
    and "issueTicket env i b s = (s1, out)"
    and "tickets s2 (ticketKey i) = tickets s1 (ticketKey i)"
    and "clock env \<le> clock env2" and "clock env2 < clock env + 30000"
    and "redeemTicket env2 i s2 = (s3, r)"
  shows "out = Inr i \<and> r = Some b \<and> redeemTicket env2 i s3 = (s3, None)"
proof -
  have out: "out = Inr i"
    using assms(2,4) by (auto simp: issueTicket_def issueScript_def Let_def)
  then have "tickets s1 (ticketKey i) = Some (ticket_fields b, Some (clock env + 30000))"
    using issue_Inr(3) [of env i b s s1 i] assms(3,4) by simp
  then have issued: "vk_get env2 (tickets s2) (ticketKey i) = Some (ticket_fields b)"
    using assms(5-7) by (simp add: vk_get_def)
  have account: "accountId b \<noteq> []" using assms(1) by (simp add: bindable_def)
  have r: "r = Some b"
    and s3: "s3 = s2\<lparr> tickets := (tickets s2)(ticketKey i \<mapsto> (redeemed_hash b, Some (clock env2 + 60000))) \<rparr>"
    using redeem_issued [OF issued account] assms(8) stored_bindable [OF assms(1)] by simp_all
  have "vk_get env2 (tickets s3) (ticketKey i) = Some (redeemed_hash b)"
    by (simp add: s3 vk_get_def)
  then have "redeemTicket env2 i s3 = (s3, None)"
    using redeem_nothing [of env2 s3 i] redeemed_hash_status by simp
  with out r show ?thesis by simp
qed

subsection \<open>Witnesses\<close>

definition sample_binding :: ticket_binding where
  "sample_binding = \<lparr> accountId = ''acct'', accountType = PrivateAccount, authType = ApiKeyAuth,
     apiKeyId = Some ''key'', apiKeyCreditLimitUsd = Some (Fin (25 / 2)), connectedGrantId = None,
     operation_of = Some ChatOp, providerName = Some ''venice'', publicModelId = Some ''venice/m'',
     canonicalModelId = Some ''lab/m'', requestedModel = Some ''lab/*'', privacyClass = Some ''private'',
     contextWindow = Some (Fin (of_int 131072)), providerPolicyKey = AUTO_PROVIDER_POLICY_KEY,
     providerPolicyJson = AUTO_PROVIDER_POLICY_JSON, e2ee = False, maxOutputTokens = Some (Fin (of_int 512)),
     maxOutputTokensExplicit = True, imageWidth = None, imageHeight = None, imageResponseFormat = None,
     speechCharacterCount = None, speechVoice = None, speechResponseFormat = None,
     reasoningKey = ''effort:high'', planJson = ''{}'', routingPreferencesJson = ''{}'',
     trial = Some False, trialContractMissed = Some False, trialPool = Some True,
     poolContractMissed = Some False, trialPoolModel = Some ''lab/m'',
     trialPoolProvider = Some ''venice'', trialPoolPrivacy = Some ''private'' \<rparr>"

lemma sample_binding_ok: "bindable sample_binding"
proof -
  have "is_micro (25 / 2)" unfolding is_micro_iff by (rule exI [of _ 12500000]) simp
  moreover have "is_micro (512 :: rat)" using is_micro_of_int [of 512] by simp
  moreover have "AUTO_PROVIDER_POLICY_KEY \<noteq> []" "AUTO_PROVIDER_POLICY_JSON \<noteq> []"
    by (simp_all add: AUTO_PROVIDER_POLICY_KEY_def AUTO_PROVIDER_POLICY_JSON_def providerPolicyDigest_def
        policy_value_def)
  moreover have "\<exists>n. (131072 :: rat) = of_int n \<and> 0 \<le> n \<and> n \<le> max_safe_integer"
    by (rule exI [of _ 131072]) (simp add: max_safe_integer_def)
  ultimately show ?thesis
    by (auto simp: bindable_def sample_binding_def optional_number_def written_number_def)
qed

definition sample_vk :: "int \<Rightarrow> vk_env" where
  "sample_vk t = \<lparr> clock = t, used_memory = Some 1, max_memory = Some 1000 \<rparr>"

lemma sample_vk_writes: "valkey_has_write_capacity (sample_vk t)"
  by (simp add: valkey_has_write_capacity_def sample_vk_def)

lemma sample_vk_clock: "clock (sample_vk t) = t"
  by (simp add: sample_vk_def)

lemma ticket_roundtrip_witness:
  "snd (redeemTicket (sample_vk 29999) ''i''
     (fst (issueTicket (sample_vk 0) ''i'' sample_binding empty_tickets))) = Some sample_binding"
proof -
  obtain s1 out where issue: "issueTicket (sample_vk 0) ''i'' sample_binding empty_tickets = (s1, out)"
    by fastforce
  obtain s3 r where redeem: "redeemTicket (sample_vk 29999) ''i'' s1 = (s3, r)" by fastforce
  have "vk_get (sample_vk 0) (tickets empty_tickets) (ticketKey ''i'') = None"
    by (simp add: vk_get_def empty_tickets_def)
  from ticket_roundtrip [OF sample_binding_ok sample_vk_writes this issue refl _ _ redeem]
  show ?thesis by (simp add: issue redeem sample_vk_clock)
qed

lemma ticket_used_once_witness:
  "\<exists>s b. ticket_run 10 s [Issued ''i'' sample_binding 0, Redeemed ''i'' b 10]
     \<and> single_use (events_of ''i'' [Issued ''i'' sample_binding 0, Redeemed ''i'' b 10])"
proof -
  let ?b = sample_binding
  obtain s1 out where issue: "issueTicket (sample_vk 0) ''i'' ?b empty_tickets = (s1, out)"
    by fastforce
  obtain s3 r where redeem: "redeemTicket (sample_vk 10) ''i'' s1 = (s3, r)" by fastforce
  have account: "accountId ?b \<noteq> []" by (simp add: sample_binding_def)
  have out: "out = Inr ''i''"
    using issue sample_vk_writes by (auto simp: issueTicket_def issueScript_def Let_def)
  have s1: "tickets s1 = (tickets empty_tickets)(ticketKey ''i'' \<mapsto> (ticket_fields ?b, Some 30000))"
    using issue_Inr(3) [of "sample_vk 0" "''i''" ?b empty_tickets s1] issue out
    by (simp add: vk_get_def empty_tickets_def sample_vk_clock)
  have "vk_get (sample_vk 10) (tickets s1) (ticketKey ''i'') = Some (ticket_fields ?b)"
    by (simp add: s1 vk_get_def sample_vk_clock)
  from redeem_issued [OF this account] redeem have r: "r = Some (stored_binding ?b)" by simp
  have "ticket_run 0 s1 ([] @ [Issued ''i'' ?b 0])"
    using ticket_run.issue [OF ticket_run.start sample_vk_clock _ account, of "''i''"] issue out
    by (simp add: events_of_def)
  then have "ticket_run 10 s1 [Issued ''i'' ?b 0]" by (auto intro: ticket_run.tick)
  from ticket_run.redeem [OF this sample_vk_clock, of "''i''"] redeem r
  have run: "ticket_run 10 s3 [Issued ''i'' ?b 0, Redeemed ''i'' (stored_binding ?b) 10]" by simp
  show ?thesis
    by (rule exI [of _ s3], rule exI [of _ "stored_binding ?b"])
       (rule conjI [OF run ticket_used_once [OF run]])
qed

end
