(* ===== verification/Rejections.thy ===== *)
theory Rejections
  imports ProviderPolicy ConsumedLog
begin

section \<open>Provider rejections: metadata and categories\<close>

text \<open>
  Models \<open>src/src/providers/providerErrorMeta.ts\<close> and \<open>src/src/inference/rejectionTaxonomy.ts\<close>: the
  sanitizers of request ids and machine codes, the bounded parser of an error body (the result of
  \<open>JSON.parse\<close> is an argument) and the classification of an outcome. The allowlists are plain JavaScript
  objects, so a code that names a member of \<open>Object.prototype\<close> is found there as well; after
  sanitizing only \<open>constructor\<close> and \<open>__proto__\<close> can, and \<open>Inherited\<close> is what is found. Provider names
  are those of the configured providers, none of which is such a member.
\<close>

subsection \<open>Sanitizers\<close>

definition is_upper_alnum :: "char \<Rightarrow> bool" where
  "is_upper_alnum c = (let n = (of_char c :: nat) in 65 \<le> n \<and> n \<le> 90 \<or> is_lower_alnum c)"

definition id_punctuation :: "char \<Rightarrow> bool" where
  "id_punctuation c \<longleftrightarrow> c = CHR ''.'' \<or> c = CHR ''_'' \<or> c = CHR '':'' \<or> c = CHR ''-''"

definition REQUEST_ID_MAX_LENGTH :: nat where
  "REQUEST_ID_MAX_LENGTH = 128"

definition MACHINE_CODE_MAX_LENGTH :: nat where
  "MACHINE_CODE_MAX_LENGTH = 64"

definition BODY_SCAN_MAX_BYTES :: nat where
  "BODY_SCAN_MAX_BYTES = 2048"

definition sanitizeProviderRequestId :: "jsval \<Rightarrow> string option" where
  "sanitizeProviderRequestId raw =
     (case raw of
        JString s \<Rightarrow>
          let v = js_trim s in
          if length v = 0 \<or> length v > REQUEST_ID_MAX_LENGTH then None
          else if \<not> list_all (\<lambda>c. is_upper_alnum c \<or> id_punctuation c) v then None
          else Some v
      | _ \<Rightarrow> None)"

definition sanitizeProviderMachineCode :: "jsval \<Rightarrow> string option" where
  "sanitizeProviderMachineCode raw =
     (case raw of
        JString s \<Rightarrow>
          let v = map to_lower_char (js_trim s) in
          if length v = 0 \<or> length v > MACHINE_CODE_MAX_LENGTH then None
          else if \<not> list_all (\<lambda>c. is_lower_alnum c \<or> id_punctuation c) v then None
          else Some v
      | _ \<Rightarrow> None)"

definition PROVIDER_REQUEST_ID_HEADERS :: "string list" where
  "PROVIDER_REQUEST_ID_HEADERS = [''x-request-id'', ''x-fireworks-request-id'', ''cf-ray'',
     ''x-amzn-requestid'', ''x-amzn-request-id'']"

definition optional_text :: "string option \<Rightarrow> jsval" where
  "optional_text a = (case a of None \<Rightarrow> JNull | Some s \<Rightarrow> JString s)"

fun first_some :: "('a \<Rightarrow> 'b option) \<Rightarrow> 'a list \<Rightarrow> 'b option" where
  "first_some f [] = None"
| "first_some f (x # xs) = (case f x of Some y \<Rightarrow> Some y | None \<Rightarrow> first_some f xs)"

definition extractProviderErrorMeta :: "(string \<Rightarrow> string option) \<Rightarrow> string option" where
  "extractProviderErrorMeta header =
     first_some (\<lambda>name. sanitizeProviderRequestId (optional_text (header name))) PROVIDER_REQUEST_ID_HEADERS"

text \<open>A property of a parsed value; an array has none of the names that are read.\<close>

definition property :: "jsval \<Rightarrow> string \<Rightarrow> jsval" where
  "property v k = (case v of JObject ms \<Rightarrow> object_field ms k | _ \<Rightarrow> JUndefined)"

definition is_object :: "jsval \<Rightarrow> bool" where
  "is_object v = (case v of JObject _ \<Rightarrow> True | JArray _ \<Rightarrow> True | _ \<Rightarrow> False)"

definition parseBoundedProviderMachineCode ::
    "(string \<Rightarrow> jsval option) \<Rightarrow> string \<Rightarrow> string set \<Rightarrow> string option" where
  "parseBoundedProviderMachineCode json_parse bodyText allowlist =
     (if length bodyText = 0 then None
      else if length bodyText > BODY_SCAN_MAX_BYTES then None
      else case json_parse bodyText of
        None \<Rightarrow> None
      | Some parsed \<Rightarrow>
          if \<not> is_object parsed then None
          else
            let err = property parsed ''error'';
                candidates = [property parsed ''code'',
                  (if is_object err then property err ''code'' else JUndefined),
                  (if is_object err then property err ''type'' else JUndefined)]
            in first_some (\<lambda>c. case sanitizeProviderMachineCode c of
                 Some code \<Rightarrow> if code \<in> allowlist then Some code else None
               | None \<Rightarrow> None) candidates)"

subsection \<open>Categories\<close>

datatype rejection_category =
    LocalRateLimit | LocalConcurrencyLimit | InsufficientBalance | AccountRestricted
  | ProviderRateLimit | ProviderPolicyRejection | ProviderBadRequest | ProviderAuthenticationError
  | ProviderQuotaExhausted | ProviderModelUnavailable | ProviderTimeout | ProviderNetworkError
  | ProviderInvalidResponse | ProviderServerError | ProviderRejected
  | UnknownRejection

definition PROVIDER_OPERATIONAL_CATEGORIES :: "rejection_category list" where
  "PROVIDER_OPERATIONAL_CATEGORIES = [ProviderRateLimit, ProviderQuotaExhausted, ProviderModelUnavailable,
     ProviderTimeout, ProviderNetworkError, ProviderInvalidResponse, ProviderServerError]"

definition LOCAL_ADMISSION_CATEGORIES :: "rejection_category list" where
  "LOCAL_ADMISSION_CATEGORIES = [LocalRateLimit, LocalConcurrencyLimit, InsufficientBalance, AccountRestricted]"

definition isTerminalCategory :: "rejection_category \<Rightarrow> bool" where
  "isTerminalCategory category \<longleftrightarrow> category = ProviderPolicyRejection"

definition isUserAbuseCategory :: "rejection_category \<Rightarrow> bool" where
  "isUserAbuseCategory category \<longleftrightarrow> category = ProviderPolicyRejection"

datatype found = Category rejection_category | Inherited

definition inherited_member :: "string \<Rightarrow> bool" where
  "inherited_member k \<longleftrightarrow> k = ''constructor'' \<or> k = ''__proto__''"

type_synonym code_map = "(string \<times> rejection_category) list"

definition code_lookup :: "code_map \<Rightarrow> string \<Rightarrow> found option" where
  "code_lookup m k =
     (case map_of m k of
        Some c \<Rightarrow> Some (Category c)
      | None \<Rightarrow> if inherited_member k then Some Inherited else None)"

definition PROVIDER_MACHINE_CODE_ALLOWLIST :: "(string \<times> code_map) list" where
  "PROVIDER_MACHINE_CODE_ALLOWLIST =
     [(''venice'', [(''content_violation'', ProviderPolicyRejection)]), (''fireworks'', []),
      (''aws-bedrock'', []), (''deepinfra'', []), (''default'', [])]"

definition isTerminalProviderCode :: "string option \<Rightarrow> bool" where
  "isTerminalProviderCode code =
     (case Option.bind code (\<lambda>c. sanitizeProviderMachineCode (JString c)) of
        None \<Rightarrow> False
      | Some s \<Rightarrow> list_ex (\<lambda>m. case code_lookup (snd m) s of
            Some (Category c) \<Rightarrow> isTerminalCategory c | _ \<Rightarrow> False) PROVIDER_MACHINE_CODE_ALLOWLIST)"

definition classifyProviderMachineCode :: "string option \<Rightarrow> string option \<Rightarrow> found option" where
  "classifyProviderMachineCode providerName code =
     (case Option.bind code (\<lambda>c. sanitizeProviderMachineCode (JString c)) of
        None \<Rightarrow> None
      | Some s \<Rightarrow>
          let own = Option.bind providerName (map_of PROVIDER_MACHINE_CODE_ALLOWLIST)
          in (case Option.bind own (\<lambda>m. code_lookup m s) of
                Some f \<Rightarrow> Some f
              | None \<Rightarrow> Option.bind (map_of PROVIDER_MACHINE_CODE_ALLOWLIST ''default'') (\<lambda>m. code_lookup m s)))"

definition ends_with :: "string \<Rightarrow> string \<Rightarrow> bool" where
  "ends_with s suffix \<longleftrightarrow> length suffix \<le> length s \<and> drop (length s - length suffix) s = suffix"

definition classifyLocalAdmission :: "jsval \<Rightarrow> rejection_category option" where
  "classifyLocalAdmission error =
     (if \<not> is_object error then None
      else
        let statusCode = property error ''statusCode'';
            errorCode = (case property error ''code'' of JString s \<Rightarrow> s | _ \<Rightarrow> [])
        in if statusCode = JNumber (Fin 402) then Some InsufficientBalance
           else if errorCode = ''rate_limited'' then Some LocalRateLimit
           else if errorCode = ''concurrency_limited'' then Some LocalConcurrencyLimit
           else if statusCode = JNumber (Fin 429) then Some LocalRateLimit
           else if errorCode = ''account_restricted'' \<or> ends_with errorCode ''_restricted''
             then Some AccountRestricted
           else None)"

record provider_outcome =
  po_providerName :: "string option"
  po_providerStatus :: "int option"
  po_providerCode :: "string option"
  po_anonrouterCode :: "string option"
  po_relayOutcome :: "string option"

definition invalid_response_codes :: "string list" where
  "invalid_response_codes = [''provider_invalid_json'', ''provider_no_stream'', ''provider_invalid_response'',
     ''provider_stream_incomplete'', ''worker_stream_incomplete'']"

definition status_category :: "int \<Rightarrow> rejection_category option" where
  "status_category status =
     (if status = 429 then Some ProviderRateLimit
      else if status = 401 then Some ProviderAuthenticationError
      else if status = 402 then Some ProviderQuotaExhausted
      else if status = 404 then Some ProviderModelUnavailable
      else if status = 400 then Some ProviderBadRequest
      else if status \<ge> 500 then Some ProviderServerError
      else if status \<ge> 400 then Some ProviderRejected
      else None)"

definition relay_category :: "string option \<Rightarrow> rejection_category" where
  "relay_category relayOutcome =
     (if relayOutcome = Some ''rate_limited'' then ProviderRateLimit
      else if relayOutcome = Some ''network_error'' then ProviderNetworkError
      else if relayOutcome = Some ''invalid_response'' then ProviderInvalidResponse
      else if relayOutcome = Some ''provider_unavailable'' then ProviderServerError
      else if relayOutcome = Some ''provider_rejected'' then ProviderRejected
      else UnknownRejection)"

definition classifyProviderOutcome :: "provider_outcome \<Rightarrow> found" where
  "classifyProviderOutcome p =
     (case classifyProviderMachineCode (po_providerName p) (po_providerCode p) of
        Some f \<Rightarrow> f
      | None \<Rightarrow>
          let code = (case po_anonrouterCode p of None \<Rightarrow> [] | Some c \<Rightarrow> c) in
          if code = ''provider_timeout'' \<or> code = ''control_rpc_timeout'' then Category ProviderTimeout
          else if code \<in> set invalid_response_codes then Category ProviderInvalidResponse
          else (case Option.bind (po_providerStatus p) status_category of
                  Some c \<Rightarrow> Category c
                | None \<Rightarrow> Category (relay_category (po_relayOutcome p))))"

subsection \<open>Lemmas\<close>

lemma status_never_policy: "status_category status \<noteq> Some ProviderPolicyRejection"
  by (simp add: status_category_def)

lemma relay_never_policy: "relay_category r \<noteq> ProviderPolicyRejection"
  by (simp add: relay_category_def)

lemma allowlisted:
  assumes "map_of PROVIDER_MACHINE_CODE_ALLOWLIST n = Some m" and "code_lookup m s = Some (Category c)"
  shows "n = ''venice'' \<and> s = ''content_violation'' \<and> c = ProviderPolicyRejection"
proof -
  have "n = ''venice'' \<and> m = [(''content_violation'', ProviderPolicyRejection)] \<or> m = []"
    using assms(1) by (auto simp: PROVIDER_MACHINE_CODE_ALLOWLIST_def split: if_splits)
  with assms(2) show ?thesis by (auto simp: code_lookup_def split: if_splits)
qed

lemma machine_code_policy:
  assumes "classifyProviderMachineCode providerName code = Some (Category c)"
  shows "providerName = Some ''venice'' \<and> c = ProviderPolicyRejection
     \<and> Option.bind code (\<lambda>c. sanitizeProviderMachineCode (JString c)) = Some ''content_violation''"
proof -
  obtain s where s: "Option.bind code (\<lambda>c. sanitizeProviderMachineCode (JString c)) = Some s"
    using assms by (auto simp: classifyProviderMachineCode_def split: option.splits)
  let ?own = "Option.bind (Option.bind providerName (map_of PROVIDER_MACHINE_CODE_ALLOWLIST)) (\<lambda>m. code_lookup m s)"
  have "?own = Some (Category c)
    \<or> Option.bind (map_of PROVIDER_MACHINE_CODE_ALLOWLIST ''default'') (\<lambda>m. code_lookup m s) = Some (Category c)"
    using assms by (auto simp: classifyProviderMachineCode_def s Let_def split: option.splits)
  then obtain n m where "providerName = Some n \<or> n = ''default''"
      "map_of PROVIDER_MACHINE_CODE_ALLOWLIST n = Some m" "code_lookup m s = Some (Category c)"
    unfolding bind_eq_Some_conv by blast
  with allowlisted [of n m s c] s show ?thesis by auto
qed

lemma machine_code_found:
  "Option.bind code (\<lambda>c. sanitizeProviderMachineCode (JString c)) = Some ''content_violation'' \<Longrightarrow>
     classifyProviderMachineCode (Some ''venice'') code = Some (Category ProviderPolicyRejection)"
  by (simp add: classifyProviderMachineCode_def PROVIDER_MACHINE_CODE_ALLOWLIST_def code_lookup_def)

lemma policy_only_by_code:
  "classifyProviderOutcome p = Category ProviderPolicyRejection \<longleftrightarrow>
     po_providerName p = Some ''venice''
     \<and> Option.bind (po_providerCode p) (\<lambda>c. sanitizeProviderMachineCode (JString c)) = Some ''content_violation''"
proof (cases "classifyProviderMachineCode (po_providerName p) (po_providerCode p)")
  case None
  then have "classifyProviderOutcome p \<noteq> Category ProviderPolicyRejection"
    using status_never_policy relay_never_policy
    by (auto simp: classifyProviderOutcome_def Let_def bind_eq_Some_conv split: option.split)
  with None machine_code_found [of "po_providerCode p"] show ?thesis by auto
next
  case (Some f)
  then show ?thesis
    using machine_code_policy [of "po_providerName p" "po_providerCode p"]
      machine_code_found [of "po_providerCode p"]
    by (cases f) (auto simp: classifyProviderOutcome_def)
qed

text \<open>
  Only the documented machine code of a provider makes an outcome a policy rejection, the one
  category that counts as abuse and ends the fallback: whatever its status, error code and relay
  outcome are, an outcome is classified as one exactly when the provider is Venice and its code is
  \<open>content_violation\<close>. Yet a code that names a member of \<open>Object.prototype\<close> is classified as that
  member instead of a category.
\<close>

theorem policy_rejection_documented:
  "(classifyProviderOutcome p = Category ProviderPolicyRejection \<longleftrightarrow>
      po_providerName p = Some ''venice''
      \<and> Option.bind (po_providerCode p) (\<lambda>c. sanitizeProviderMachineCode (JString c)) = Some ''content_violation'')
   \<and> (isUserAbuseCategory c \<longleftrightarrow> c = ProviderPolicyRejection) \<and> (isTerminalCategory c \<longleftrightarrow> c = ProviderPolicyRejection)
   \<and> classifyProviderOutcome (q\<lparr> po_providerCode := Some ''constructor'' \<rparr>) = Inherited"
proof -
  have "sanitizeProviderMachineCode (JString ''constructor'') = Some ''constructor''"
    by (simp add: sanitizeProviderMachineCode_def js_trim_def is_js_space_def to_lower_char_def
        MACHINE_CODE_MAX_LENGTH_def is_lower_alnum_def Let_def)
  note sanitized = this
  then have code: "Option.bind (Some ''constructor'') (\<lambda>c. sanitizeProviderMachineCode (JString c)) = Some ''constructor''"
    by simp
  have "classifyProviderMachineCode n (Some ''constructor'') = Some Inherited" for n
  proof (cases "classifyProviderMachineCode n (Some ''constructor'')")
    case None
    then show ?thesis
      by (auto simp: classifyProviderMachineCode_def sanitized PROVIDER_MACHINE_CODE_ALLOWLIST_def code_lookup_def
          inherited_member_def Let_def split: option.splits)
  next
    case (Some f)
    have "f \<noteq> Category c" for c
      using machine_code_policy [of n "Some ''constructor''" c] code Some by auto
    with Some show ?thesis by (cases f) auto
  qed
  then show ?thesis
    using policy_only_by_code [of p]
    by (simp add: isUserAbuseCategory_def isTerminalCategory_def classifyProviderOutcome_def)
qed

end
