(* ===== verification/RelayResponse.thy ===== *)
theory RelayResponse
  imports Rejections JsNumber Metering PublicIdentity
begin

section \<open>The public form of a provider response (routes/chat.ts, inference/streamTiming.ts)\<close>

text \<open>
  The pure functions through which a provider's answer passes on its way to the caller: the JSON body
  (\<open>publicModelResponse\<close>, \<open>withUsageCost\<close>), the frames of a stream (\<open>correctStreamedFinishReason\<close>, the
  replacement of the model id, \<open>hasOutputBearingOpenAiDelta\<close>) and the fallback estimate of its output
  tokens. A JavaScript object is the list of its members in order, each key once; a string is 8-bit
  text; \<open>JSON.parse\<close> is an argument.
\<close>

subsection \<open>Objects\<close>

definition put_field :: "string \<Rightarrow> jsval \<Rightarrow> (string \<times> jsval) list \<Rightarrow> (string \<times> jsval) list" where
  "put_field k v ms =
     (if k \<in> fst ` set ms then map (\<lambda>(k', v'). (k', if k' = k then v else v')) ms else ms @ [(k, v)])"

definition delete_field :: "string \<Rightarrow> (string \<times> jsval) list \<Rightarrow> (string \<times> jsval) list" where
  "delete_field k ms = filter (\<lambda>(k', v). k' \<noteq> k) ms"

definition delete_null :: "string \<Rightarrow> (string \<times> jsval) list \<Rightarrow> (string \<times> jsval) list" where
  "delete_null k ms = (if object_field ms k = JNull then delete_field k ms else ms)"

definition spread :: "jsval \<Rightarrow> (string \<times> jsval) list" where
  "spread v = (case v of
     JObject ms \<Rightarrow> ms
   | JArray vs \<Rightarrow> zip (map show_nat [0..<length vs]) vs
   | _ \<Rightarrow> [])"

subsection \<open>The JSON body\<close>

definition has_tool_calls :: "(string \<times> jsval) list \<Rightarrow> bool" where
  "has_tool_calls message =
     (case object_field message ''tool_calls'' of JArray vs \<Rightarrow> vs \<noteq> [] | _ \<Rightarrow> False)"

definition public_message :: "(string \<times> jsval) list \<Rightarrow> (string \<times> jsval) list" where
  "public_message message0 =
     (let message = delete_null ''reasoning_content'' (delete_null ''name'' message0)
      in if object_field message ''content'' = JString [] \<and> has_tool_calls message
         then put_field ''content'' JNull message else message)"

definition public_choice :: "jsval \<Rightarrow> jsval" where
  "public_choice choice =
     (case choice of
        JObject ms \<Rightarrow>
          (case object_field ms ''message'' of
             JObject message0 \<Rightarrow>
               let message = public_message message0 in
               if has_tool_calls message \<and> object_field ms ''finish_reason'' \<noteq> JString ''tool_calls''
               then JObject (put_field ''finish_reason'' (JString ''tool_calls'')
                      (put_field ''message'' (JObject message) ms))
               else JObject (put_field ''message'' (JObject message) ms)
           | _ \<Rightarrow> choice)
      | _ \<Rightarrow> choice)"

definition publicModelResponse :: "jsval \<Rightarrow> string \<Rightarrow> jsval" where
  "publicModelResponse response requestedModel =
     (case response of
        JObject ms \<Rightarrow>
          let ms' = (case object_field ms ''choices'' of
                JArray choices \<Rightarrow> put_field ''choices'' (JArray (map public_choice choices)) ms
              | _ \<Rightarrow> ms)
          in JObject (put_field ''model'' (JString requestedModel) ms')
      | _ \<Rightarrow> response)"

definition withUsageCost :: "jsval \<Rightarrow> jsnum \<Rightarrow> jsval" where
  "withUsageCost response chargedUsd =
     (case response of
        JObject ms \<Rightarrow>
          if is_object (object_field ms ''usage'')
          then JObject (put_field ''usage''
                 (JObject (put_field ''cost'' (JNumber chargedUsd) (spread (object_field ms ''usage'')))) ms)
          else response
      | _ \<Rightarrow> response)"

subsection \<open>The estimate of the generated output\<close>

definition units :: "string \<Rightarrow> ustring" where
  "units s = map (\<lambda>c. of_nat (of_char c)) s"

definition text_units :: "jsval \<Rightarrow> ustring option" where
  "text_units v = (case v of JString s \<Rightarrow> Some (units s) | _ \<Rightarrow> None)"

definition call_output :: "jsval \<Rightarrow> ustring option \<times> ustring option" where
  "call_output call =
     (let fn = property call ''function''
      in (text_units (property fn ''name''), text_units (property fn ''arguments'')))"

definition message_output :: "jsval \<Rightarrow> choice_output option" where
  "message_output message =
     (case message of
        JObject ms \<Rightarrow> Some \<lparr> choice_content = text_units (object_field ms ''content''),
          choice_tool_calls = (case object_field ms ''tool_calls'' of
            JArray calls \<Rightarrow> Some (map call_output calls) | _ \<Rightarrow> None) \<rparr>
      | _ \<Rightarrow> None)"

text \<open>Reading \<open>message\<close> of a null choice throws; of any other value that is no object it is undefined.\<close>

definition choice_message :: "jsval \<Rightarrow> jsval option" where
  "choice_message choice =
     (case choice of JNull \<Rightarrow> None | JUndefined \<Rightarrow> None | _ \<Rightarrow> Some (property choice ''message''))"

definition estimateResponseOutputTokens :: "jsval \<Rightarrow> int result" where
  "estimateResponseOutputTokens response =
     (case property response ''choices'' of
        JArray choices \<Rightarrow>
          fold (\<lambda>choice acc. and_then acc (\<lambda>total.
            case choice_message choice of
              None \<Rightarrow> Inl (Thrown ''TypeError'')
            | Some m \<Rightarrow> Inr (total + estimateChoiceOutputTokens (message_output m)))) choices (Inr 0)
      | _ \<Rightarrow> Inr 0)"

subsection \<open>Stream frames\<close>

definition quoted :: "string \<Rightarrow> string" where
  "quoted s = [CHR 0x22] @ s @ [CHR 0x22]"

text \<open>\<open>s.split(a).join(b)\<close> for a text \<open>a\<close> that is not empty.\<close>

fun replace_all :: "char \<Rightarrow> string \<Rightarrow> string \<Rightarrow> string \<Rightarrow> string" where
  "replace_all c cs b [] = []"
| "replace_all c cs b (x # xs) =
     (if x = c \<and> take (length cs) xs = cs then b @ replace_all c cs b (drop (length cs) xs)
      else x # replace_all c cs b xs)"

definition split_join :: "string \<Rightarrow> string \<Rightarrow> string \<Rightarrow> string" where
  "split_join a b s = (case a of [] \<Rightarrow> s | c # cs \<Rightarrow> replace_all c cs b s)"

definition finish_frame :: "string \<Rightarrow> string" where
  "finish_frame reason = quoted ''finish_reason'' @ '':'' @ quoted reason"

definition correctStreamedFinishReason :: "string \<Rightarrow> bool \<Rightarrow> string" where
  "correctStreamedFinishReason chunk toolCallsSeen =
     (if \<not> toolCallsSeen then chunk
      else if \<not> contains_text chunk (finish_frame ''stop'') then chunk
      else split_join (finish_frame ''stop'') (finish_frame ''tool_calls'') chunk)"

definition frameHasToolCallDelta :: "string \<Rightarrow> bool" where
  "frameHasToolCallDelta chunk = contains_text chunk (quoted ''tool_calls'')"

definition rewrite_model :: "string \<Rightarrow> string \<Rightarrow> string \<Rightarrow> string" where
  "rewrite_model externalId publicId chunk =
     (if externalId \<noteq> publicId
      then split_join (quoted ''model'' @ '':'' @ quoted externalId)
             (quoted ''model'' @ '':'' @ quoted publicId) chunk
      else chunk)"

fun meaningful :: "jsval \<Rightarrow> bool" where
  "meaningful (JString s) = (s \<noteq> [])"
| "meaningful (JArray vs) = list_ex meaningful vs"
| "meaningful (JObject ms) = list_ex (\<lambda>(k, v). meaningful v) ms"
| "meaningful _ = False"

definition delta_fields :: "string list" where
  "delta_fields = [''content'', ''reasoning_content'', ''reasoning'', ''refusal'', ''tool_calls'',
     ''function_call'', ''audio'']"

definition output_choice :: "jsval \<Rightarrow> bool" where
  "output_choice choice =
     (let delta = property choice ''delta''
      in is_object choice \<and> is_object delta \<and> list_ex (\<lambda>f. meaningful (property delta f)) delta_fields)"

definition output_frame :: "(string \<Rightarrow> jsval option) \<Rightarrow> string \<Rightarrow> bool" where
  "output_frame json_parse data =
     (if data = [] \<or> data = ''[DONE]'' then False
      else case json_parse data of
        None \<Rightarrow> False
      | Some parsed \<Rightarrow>
          (case property parsed ''choices'' of
             JArray choices \<Rightarrow> list_ex output_choice choices
           | _ \<Rightarrow> False))"

fun text_lines :: "string \<Rightarrow> string list" where
  "text_lines [] = [[]]"
| "text_lines (c # cs) =
     (if c = CHR 10 then [] # text_lines cs
      else case text_lines cs of l # ls \<Rightarrow> (c # l) # ls | [] \<Rightarrow> [[c]])"

definition data_lines :: "string \<Rightarrow> string list" where
  "data_lines chunk =
     map (\<lambda>l. dropWhile is_js_space (drop 5 l))
       (filter (\<lambda>l. take 5 l = ''data:'') (text_lines (split_join [CHR 13, CHR 10] [CHR 10] chunk)))"

definition hasOutputBearingOpenAiDelta :: "(string \<Rightarrow> jsval option) \<Rightarrow> string \<Rightarrow> bool" where
  "hasOutputBearingOpenAiDelta json_parse chunk = list_ex (output_frame json_parse) (data_lines chunk)"

subsection \<open>Transparency headers\<close>

definition publicPrivacyTier :: "string \<Rightarrow> string" where
  "publicPrivacyTier privacyClass =
     (if privacyClass = ''e2ee'' \<or> privacyClass = ''tee'' \<or> privacyClass = ''private'' then privacyClass
      else ''anonymous'')"

definition qualifiedPublicModelId :: "string \<Rightarrow> string \<Rightarrow> string" where
  "qualifiedPublicModelId providerName publicModelId =
     (let routeId = publicRouteId publicModelId; prefix = publicProviderSlug providerName @ ''/''
      in if take (length prefix) routeId = prefix then routeId else prefix @ routeId)"

definition providerTransparencyHeaders ::
    "string \<Rightarrow> string option \<Rightarrow> string option \<Rightarrow> bool \<Rightarrow> int \<Rightarrow> bool \<Rightarrow> (string \<times> string) list" where
  "providerTransparencyHeaders providerName modelClass routingClass automatic attempts fellBack =
     (let privacyClass = (case modelClass of Some c \<Rightarrow> c | None \<Rightarrow>
            (case routingClass of Some c \<Rightarrow> c | None \<Rightarrow> []))
      in [(''x-anonrouter-provider'', publicProviderSlug providerName),
          (''x-anonrouter-routing'', if automatic then ''auto'' else ''exact''),
          (''x-anonrouter-provider-attempts'', show_int attempts),
          (''x-anonrouter-provider-fallback'', bool_text fellBack)]
         @ (if privacyClass = [] then [] else [(''x-anonrouter-privacy-class'', publicPrivacyTier privacyClass)]))"

subsection \<open>Fields after an update\<close>

lemma field_put: "object_field (put_field k v ms) k' = (if k' = k then v else object_field ms k')"
proof (cases "k \<in> fst ` set ms")
  case True
  have "map_of (map (\<lambda>(k', v'). (k', if k' = k then v else v')) ms) k'
      = (if k' = k then map_option (\<lambda>_. v) (map_of ms k) else map_of ms k')"
    by (induction ms) auto
  moreover have "map_of ms k \<noteq> None" using True by (simp add: map_of_eq_None_iff)
  ultimately show ?thesis using True by (auto simp: put_field_def object_field_def)
next
  case False
  then have "map_of ms k = None" by (simp add: map_of_eq_None_iff)
  with False show ?thesis
    by (auto simp: put_field_def object_field_def map_add_def split: option.split)
qed

lemma field_delete_null:
  "object_field (delete_null k ms) k' =
     (if k' = k \<and> object_field ms k = JNull then JUndefined else object_field ms k')"
proof -
  have "map_of (filter (\<lambda>(k', v). k' \<noteq> k) ms) j = (if j = k then None else map_of ms j)" for j
    by (induction ms) auto
  then show ?thesis by (simp add: delete_null_def delete_field_def object_field_def)
qed

lemmas field_simps_js = field_put field_delete_null

lemma public_message_tools: "has_tool_calls (public_message message) = has_tool_calls message"
  by (simp add: public_message_def has_tool_calls_def Let_def field_simps_js)

definition normalized_message :: "(string \<times> jsval) list \<Rightarrow> (string \<times> jsval) list \<Rightarrow> bool" where
  "normalized_message message message' \<longleftrightarrow>
     (\<forall>k. object_field message' k =
       (if (k = ''name'' \<or> k = ''reasoning_content'') \<and> object_field message k = JNull then JUndefined
        else if k = ''content'' \<and> object_field message k = JString [] \<and> has_tool_calls message then JNull
        else object_field message k))"

lemma public_message_normalized: "normalized_message message (public_message message)"
  unfolding normalized_message_def
proof
  fix k
  consider "k = ''name''" | "k = ''reasoning_content''" | "k = ''content''"
    | "k \<noteq> ''name''" "k \<noteq> ''reasoning_content''" "k \<noteq> ''content''" by blast
  then show "object_field (public_message message) k =
      (if (k = ''name'' \<or> k = ''reasoning_content'') \<and> object_field message k = JNull then JUndefined
       else if k = ''content'' \<and> object_field message k = JString [] \<and> has_tool_calls message then JNull
       else object_field message k)"
    by cases (simp_all add: public_message_def has_tool_calls_def Let_def field_simps_js)
qed

fun normalized_choice :: "jsval \<Rightarrow> jsval \<Rightarrow> bool" where
  "normalized_choice (JObject c) choice' =
     (case object_field c ''message'' of
        JObject message \<Rightarrow>
          (\<exists>c' message'. choice' = JObject c' \<and> object_field c' ''message'' = JObject message'
             \<and> normalized_message message message'
             \<and> object_field c' ''finish_reason'' =
                 (if has_tool_calls message then JString ''tool_calls'' else object_field c ''finish_reason''))
      | _ \<Rightarrow> choice' = JObject c)"
| "normalized_choice choice choice' = (choice' = choice)"

lemma public_choice_normalized: "normalized_choice choice (public_choice choice)"
proof (cases choice)
  case (JObject c)
  show ?thesis
  proof (cases "object_field c ''message''")
    case msg: (JObject message)
    then show ?thesis
      using public_message_normalized [of message]
      by (auto simp: JObject public_choice_def Let_def public_message_tools field_simps_js)
  qed (simp_all add: JObject public_choice_def)
qed (simp_all add: public_choice_def)

text \<open>
  A JSON answer tells the caller how its turn ended and which model it asked for: every choice
  that carries tool calls finishes with \<open>tool_calls\<close>, every other choice keeps its reason, null names
  and empty contents of tool calls are normalized, the model is the public one and every other member
  of the response is the provider's.
\<close>

theorem public_response_normalized:
  assumes "object_field ms ''choices'' = JArray choices"
  shows "\<exists>ms' choices'. publicModelResponse (JObject ms) m = JObject ms'
    \<and> object_field ms' ''model'' = JString m \<and> object_field ms' ''choices'' = JArray choices'
    \<and> list_all2 normalized_choice choices choices'
    \<and> (\<forall>k. k \<noteq> ''model'' \<longrightarrow> k \<noteq> ''choices'' \<longrightarrow> object_field ms' k = object_field ms k)"
proof -
  let ?ms' = "put_field ''model'' (JString m)
    (put_field ''choices'' (JArray (map public_choice choices)) ms)"
  have response: "publicModelResponse (JObject ms) m = JObject ?ms'"
    by (simp add: publicModelResponse_def assms)
  have "list_all2 normalized_choice choices (map public_choice choices)"
    by (simp add: list_all2_conv_all_nth public_choice_normalized)
  with response show ?thesis
    by (intro exI [of _ ?ms'] exI [of _ "map public_choice choices"]) (simp add: field_simps_js)
qed

definition sample_response :: "(string \<times> jsval) list" where
  "sample_response = [(''choices'', JArray [JObject [(''message'', JObject
     [(''content'', JString []), (''tool_calls'', JArray [JNull])]), (''finish_reason'', JString ''stop'')]])]"

lemma public_response_normalized_witness:
  "\<exists>ms'. publicModelResponse (JObject sample_response) ''lab/m'' = JObject ms'
     \<and> object_field ms' ''model'' = JString ''lab/m''"
  using public_response_normalized [of sample_response "[JObject [(''message'', JObject
     [(''content'', JString []), (''tool_calls'', JArray [JNull])]), (''finish_reason'', JString ''stop'')]]"
     "''lab/m''"]
  by (auto simp: sample_response_def object_field_def)

end
