(* ===== verification/Reasoning.thy ===== *)
theory Reasoning
  imports ConsumedLog
begin

section \<open>The canonical reasoning configuration (inference/reasoning.ts)\<close>

text \<open>
  Models \<open>src/src/inference/reasoning.ts\<close>: a request resolves to one selection, the selection has a
  digest that is bound into the ticket, a model has capabilities read from stored JSON, a selection is
  validated against them and translated into provider fields. The schema of the wire values is the
  datatype \<open>wire_effort\<close>. The lemmas at the end state the round trip of the digest, that the three
  surfaces of a request never override each other silently, and what can reach a provider.
\<close>

subsection \<open>Selections\<close>

datatype effort_level = Minimal | Low | Medium | High | XHigh | Max

datatype wire_effort = WireNone | WireLevel effort_level

definition REASONING_EFFORT_LEVELS :: "effort_level list" where
  "REASONING_EFFORT_LEVELS = [Minimal, Low, Medium, High, XHigh, Max]"

fun effort_text :: "effort_level \<Rightarrow> string" where
  "effort_text Minimal = ''minimal''"
| "effort_text Low = ''low''"
| "effort_text Medium = ''medium''"
| "effort_text High = ''high''"
| "effort_text XHigh = ''xhigh''"
| "effort_text Max = ''max''"

record reasoning_object =
  ro_enabled :: "bool option"
  ro_effort :: "wire_effort option"

record reasoning_fields =
  rf_reasoning_effort :: "wire_effort option"
  rf_reasoning :: "reasoning_object option"
  rf_disable_thinking :: "bool option"

datatype reasoning_selection = DefaultReasoning | DisabledReasoning | EffortReasoning effort_level

definition reasoning_conflict :: err where
  "reasoning_conflict = App 400 ''reasoning_conflict''"

definition resolveReasoningSelection :: "reasoning_fields \<Rightarrow> reasoning_selection result" where
  "resolveReasoningSelection fs =
     (let flat = rf_reasoning_effort fs;
          nested = Option.bind (rf_reasoning fs) ro_effort;
          enabled = Option.bind (rf_reasoning fs) ro_enabled;
          legacyDisable = (rf_disable_thinking fs = Some True)
      in if flat \<noteq> None \<and> nested \<noteq> None \<and> flat \<noteq> nested then Inl reasoning_conflict
         else
           let effort = (case flat of Some e \<Rightarrow> Some e | None \<Rightarrow> nested);
               disableSignal = (effort = Some WireNone \<or> enabled = Some False \<or> legacyDisable)
           in if disableSignal then
                if effort \<noteq> None \<and> effort \<noteq> Some WireNone then Inl reasoning_conflict
                else if enabled = Some True then Inl reasoning_conflict
                else Inr DisabledReasoning
              else (case effort of
                      Some (WireLevel l) \<Rightarrow> Inr (EffortReasoning l)
                    | _ \<Rightarrow> Inr DefaultReasoning))"

fun reasoningSelectionKey :: "reasoning_selection \<Rightarrow> string" where
  "reasoningSelectionKey (EffortReasoning l) = ''effort:'' @ effort_text l"
| "reasoningSelectionKey DisabledReasoning = ''disabled''"
| "reasoningSelectionKey DefaultReasoning = ''default''"

definition parseReasoningSelectionKey :: "string option \<Rightarrow> reasoning_selection" where
  "parseReasoningSelectionKey key =
     (case key of
        None \<Rightarrow> DefaultReasoning
      | Some k \<Rightarrow>
          if k = [] \<or> k = ''default'' then DefaultReasoning
          else if k = ''disabled'' then DisabledReasoning
          else if take 7 k = ''effort:'' then
            (case find (\<lambda>l. effort_text l = drop 7 k) REASONING_EFFORT_LEVELS of
               Some l \<Rightarrow> EffortReasoning l
             | None \<Rightarrow> DefaultReasoning)
          else DefaultReasoning)"

subsection \<open>Capabilities\<close>

record reasoning_capabilities =
  rc_supported :: bool
  rc_effortConfigurable :: bool
  rc_supportedEfforts :: "effort_level list"
  rc_canDisable :: bool
  rc_defaultEffort :: "effort_level option"
  rc_alwaysOn :: bool

definition NO_REASONING_CAPABILITIES :: reasoning_capabilities where
  "NO_REASONING_CAPABILITIES = \<lparr> rc_supported = False, rc_effortConfigurable = False,
     rc_supportedEfforts = [], rc_canDisable = False, rc_defaultEffort = None, rc_alwaysOn = False \<rparr>"

definition stored_efforts :: "jsval \<Rightarrow> effort_level list" where
  "stored_efforts v =
     (case v of
        JArray vs \<Rightarrow> filter (\<lambda>l. JString (effort_text l) \<in> set vs) REASONING_EFFORT_LEVELS
      | _ \<Rightarrow> [])"

definition stored_default :: "jsval \<Rightarrow> effort_level list \<Rightarrow> effort_level option" where
  "stored_default v efforts =
     (case v of JString s \<Rightarrow> find (\<lambda>l. effort_text l = s) efforts | _ \<Rightarrow> None)"

definition decodeReasoningCapabilities :: "jsval \<Rightarrow> reasoning_capabilities" where
  "decodeReasoningCapabilities v =
     (case v of
        JObject ms \<Rightarrow>
          if object_field ms ''supported'' \<noteq> JBool True then NO_REASONING_CAPABILITIES
          else
            let efforts = stored_efforts (object_field ms ''supportedEfforts'');
                canDisable = (object_field ms ''canDisable'' = JBool True)
            in \<lparr> rc_supported = True,
                 rc_effortConfigurable =
                   (object_field ms ''effortConfigurable'' = JBool True \<and> efforts \<noteq> []),
                 rc_supportedEfforts = efforts,
                 rc_canDisable = canDisable,
                 rc_defaultEffort = stored_default (object_field ms ''defaultEffort'') efforts,
                 rc_alwaysOn = (\<not> canDisable) \<rparr>
      | _ \<Rightarrow> NO_REASONING_CAPABILITIES)"

definition validateReasoningSelection ::
    "reasoning_selection \<Rightarrow> reasoning_capabilities \<Rightarrow> unit result" where
  "validateReasoningSelection selection caps =
     (case selection of
        DefaultReasoning \<Rightarrow> Inr ()
      | DisabledReasoning \<Rightarrow>
          if \<not> rc_supported caps then Inr ()
          else if \<not> rc_canDisable caps then Inl (App 400 ''reasoning_not_disableable'')
          else Inr ()
      | EffortReasoning l \<Rightarrow>
          if \<not> rc_supported caps then Inl (App 400 ''reasoning_not_supported'')
          else if \<not> rc_effortConfigurable caps then Inl (App 400 ''reasoning_effort_not_configurable'')
          else if l \<notin> set (rc_supportedEfforts caps) then Inl (App 400 ''reasoning_effort_unsupported'')
          else Inr ())"

definition providerReasoningFields ::
    "reasoning_selection \<Rightarrow> reasoning_capabilities \<Rightarrow> wire_effort option" where
  "providerReasoningFields selection caps =
     (case selection of
        EffortReasoning l \<Rightarrow> Some (WireLevel l)
      | DisabledReasoning \<Rightarrow> if rc_supported caps \<and> rc_canDisable caps then Some WireNone else None
      | DefaultReasoning \<Rightarrow> None)"

subsection \<open>The digest\<close>

lemma effort_level_found: "find (\<lambda>l'. effort_text l' = effort_text l) REASONING_EFFORT_LEVELS = Some l"
  by (cases l) (simp_all add: REASONING_EFFORT_LEVELS_def)

lemma parse_selection_key: "parseReasoningSelectionKey (Some (reasoningSelectionKey s)) = s"
  by (cases s) (simp_all add: parseReasoningSelectionKey_def effort_level_found)

lemma selection_key_inj: "reasoningSelectionKey s = reasoningSelectionKey s' \<longleftrightarrow> s = s'"
  using parse_selection_key by metis

subsection \<open>What a request asks for\<close>

text \<open>Every signal of the request agrees with the selection it resolves to.\<close>

definition signals_agree :: "reasoning_fields \<Rightarrow> reasoning_selection \<Rightarrow> bool" where
  "signals_agree fs s \<longleftrightarrow>
     (\<forall>e. rf_reasoning_effort fs = Some e \<or> Option.bind (rf_reasoning fs) ro_effort = Some e \<longrightarrow>
        s = (case e of WireNone \<Rightarrow> DisabledReasoning | WireLevel l \<Rightarrow> EffortReasoning l))
     \<and> (Option.bind (rf_reasoning fs) ro_enabled = Some False \<longrightarrow> s = DisabledReasoning)
     \<and> (Option.bind (rf_reasoning fs) ro_enabled = Some True \<longrightarrow> s \<noteq> DisabledReasoning)
     \<and> (rf_disable_thinking fs = Some True \<longrightarrow> s = DisabledReasoning)"

lemma resolved_signals_agree:
  "resolveReasoningSelection fs = Inr s \<Longrightarrow> signals_agree fs s"
  unfolding resolveReasoningSelection_def signals_agree_def Let_def
  by (cases "rf_reasoning_effort fs"; cases "Option.bind (rf_reasoning fs) ro_effort")
     (auto split: if_splits wire_effort.splits)

lemma conflicting_signals:
  assumes "resolveReasoningSelection fs = Inl e"
  shows "e = reasoning_conflict \<and> \<not> signals_agree fs s"
  using assms unfolding resolveReasoningSelection_def signals_agree_def Let_def
  by (cases "rf_reasoning_effort fs"; cases "Option.bind (rf_reasoning fs) ro_effort")
     (auto split: if_splits wire_effort.splits)

subsection \<open>What reaches a provider\<close>

lemma decoded_capabilities:
  "rc_effortConfigurable (decodeReasoningCapabilities v) \<Longrightarrow>
     rc_supportedEfforts (decodeReasoningCapabilities v) \<noteq> []"
  "rc_alwaysOn (decodeReasoningCapabilities v) \<longleftrightarrow>
     rc_supported (decodeReasoningCapabilities v) \<and> \<not> rc_canDisable (decodeReasoningCapabilities v)"
  "rc_defaultEffort (decodeReasoningCapabilities v) = Some l \<Longrightarrow>
     l \<in> set (rc_supportedEfforts (decodeReasoningCapabilities v))"
  "l \<in> set (rc_supportedEfforts (decodeReasoningCapabilities v)) \<Longrightarrow>
     rc_supported (decodeReasoningCapabilities v)"
  by (auto simp: decodeReasoningCapabilities_def NO_REASONING_CAPABILITIES_def stored_default_def Let_def
      find_Some_iff split: jsval.splits if_splits)

lemma validated_fields:
  assumes "validateReasoningSelection s caps = Inr ()"
  shows "providerReasoningFields s caps = Some (WireLevel l) \<Longrightarrow> l \<in> set (rc_supportedEfforts caps)"
    and "providerReasoningFields s caps = Some WireNone \<Longrightarrow> rc_canDisable caps"
    and "s = DisabledReasoning \<Longrightarrow> rc_supported caps \<Longrightarrow> providerReasoningFields s caps = Some WireNone"
  using assms
  by (auto simp: validateReasoningSelection_def providerReasoningFields_def
      split: reasoning_selection.splits if_splits)

subsection \<open>Properties\<close>

text \<open>
  C38. No reasoning signal is dropped or overridden: a request with effort, nested, enabled and legacy
  signals resolves to a selection every one of them agrees with, and is refused with
  \<open>reasoning_conflict\<close> exactly when no selection agrees with all of them; and the digest bound into
  the ticket determines the selection.
\<close>

theorem reasoning_signals_decide:
  "(case resolveReasoningSelection fs of
      Inr s \<Rightarrow> signals_agree fs s
    | Inl e \<Rightarrow> e = App 400 ''reasoning_conflict'' \<and> (\<forall>s. \<not> signals_agree fs s))
   \<and> parseReasoningSelectionKey (Some (reasoningSelectionKey s)) = s
   \<and> (reasoningSelectionKey s = reasoningSelectionKey s' \<longleftrightarrow> s = s')"
  using resolved_signals_agree [of fs] conflicting_signals [of fs] parse_selection_key [of s]
    selection_key_inj [of s s']
  by (cases "resolveReasoningSelection fs") (auto simp: reasoning_conflict_def)

end
