(* ===== verification/RelayRequest.thy ===== *)
theory RelayRequest
  imports RelayResponse Reasoning
begin

section \<open>Admission of a chat request at the relay (routes/chat.ts)\<close>

text \<open>
  What \<open>POST /v1/chat/completions\<close> checks before it asks the control plane for an authorization: the
  E2EE headers, the reasoning selection, the ticket and its binding, the trial and E2EE surfaces, and
  the ceiling of the input. The request is the body after its schema; headers are a lookup in which a
  repeated header is its first value. The answer of the redeem call, the inline issuer of the
  development monolith and the choice of the automatic router (\<open>routing/selector.ts\<close>) are arguments.
\<close>

subsection \<open>End-to-end encryption headers\<close>

datatype e2ee_provider = NearAi | Venice

fun e2ee_provider_name :: "e2ee_provider \<Rightarrow> string" where
  "e2ee_provider_name NearAi = ''near-ai''"
| "e2ee_provider_name Venice = ''venice''"

record e2ee_selection =
  es_provider :: e2ee_provider
  es_headers :: "(string \<times> string) list"

definition ANONROUTER_E2EE_PROVIDER_HEADER :: string where
  "ANONROUTER_E2EE_PROVIDER_HEADER = ''x-anonrouter-e2ee-provider''"

definition nearNames :: "string list" where
  "nearNames = [''x-client-pub-key'', ''x-model-pub-key'', ''x-signing-algo'', ''x-encryption-version'']"

definition veniceNames :: "string list" where
  "veniceNames = [''x-venice-tee-client-pub-key'', ''x-venice-tee-model-pub-key'', ''x-venice-tee-signing-algo'']"

definition hasAnyHeader :: "(string \<Rightarrow> string option) \<Rightarrow> string list \<Rightarrow> bool" where
  "hasAnyHeader headers names = list_ex (\<lambda>n. headers n \<noteq> None) names"

definition explicit_provider :: "string option \<Rightarrow> e2ee_provider option result" where
  "explicit_provider raw =
     (case raw of
        None \<Rightarrow> Inr None
      | Some p \<Rightarrow>
          if p = ''venice'' then Inr (Some Venice)
          else if isPublicProviderGroupSlug p \<and> ''near-ai'' \<in> set (internalProvidersForPublicSlug p)
          then Inr (Some NearAi)
          else Inl (App 400 ''e2ee_provider_unsupported''))"

definition missing :: "string option \<Rightarrow> bool" where
  "missing h \<longleftrightarrow> h = None \<or> h = Some []"

definition hex_char :: "char \<Rightarrow> bool" where
  "hex_char c = (let n = (of_char c :: nat) in is_digit c \<or> 97 \<le> n \<and> n \<le> 102 \<or> 65 \<le> n \<and> n \<le> 70)"

definition near_headers :: "(string \<Rightarrow> string option) \<Rightarrow> e2ee_selection result" where
  "near_headers headers =
     (let client = headers ''x-client-pub-key'';
          model = headers ''x-model-pub-key'';
          algo = headers ''x-signing-algo'';
          version = headers ''x-encryption-version''
      in if missing client \<or> missing algo \<or> missing version then Inl (App 400 ''e2ee_headers_incomplete'')
         else if model \<noteq> None then Inl (App 400 ''e2ee_model_key_not_accepted'')
         else if \<not> (length (the client) = 64 \<and> list_all hex_char (the client))
           then Inl (App 400 ''e2ee_invalid_key'')
         else if the algo \<noteq> ''ed25519'' \<or> the version \<noteq> ''2'' then Inl (App 400 ''e2ee_protocol_unsupported'')
         else Inr \<lparr> es_provider = NearAi, es_headers = [(''X-Signing-Algo'', the algo),
                (''X-Client-Pub-Key'', the client), (''X-Encryption-Version'', the version)] \<rparr>)"

definition venice_headers :: "(string \<Rightarrow> string option) \<Rightarrow> e2ee_selection result" where
  "venice_headers headers =
     (let client = headers ''x-venice-tee-client-pub-key'';
          model = headers ''x-venice-tee-model-pub-key'';
          algo = (case headers ''x-venice-tee-signing-algo'' of None \<Rightarrow> ''ecdsa'' | Some a \<Rightarrow> a)
      in if missing client \<or> missing model then Inl (App 400 ''e2ee_headers_incomplete'')
         else Inr \<lparr> es_provider = Venice, es_headers = [(''X-Venice-TEE-Client-Pub-Key'', the client),
                (''X-Venice-TEE-Model-Pub-Key'', the model), (''X-Venice-TEE-Signing-Algo'', algo)] \<rparr>)"

definition extractE2eeHeaders :: "(string \<Rightarrow> string option) \<Rightarrow> e2ee_selection option result" where
  "extractE2eeHeaders headers =
     and_then (explicit_provider (headers ANONROUTER_E2EE_PROVIDER_HEADER)) (\<lambda>explicit.
       let hasNear = hasAnyHeader headers nearNames; hasVenice = hasAnyHeader headers veniceNames in
       if explicit = None \<and> \<not> hasNear \<and> \<not> hasVenice then Inr None
       else if hasNear \<and> hasVenice then Inl (App 400 ''e2ee_header_conflict'')
       else
         let providerName = (case explicit of Some p \<Rightarrow> p | None \<Rightarrow> if hasNear then NearAi else Venice) in
         if providerName = NearAi then
           if hasVenice then Inl (App 400 ''e2ee_header_conflict'')
           else and_then (near_headers headers) (\<lambda>s. Inr (Some s))
         else
           if hasNear then Inl (App 400 ''e2ee_header_conflict'')
           else and_then (venice_headers headers) (\<lambda>s. Inr (Some s)))"

subsection \<open>The request and the ticket\<close>

record chat_request =
  cr_model :: string
  cr_models :: "string list option"
  cr_messages :: "chat_message list"
  cr_stream :: bool
  cr_tools :: "jsval list option"
  cr_tool_choice :: jsval
  cr_parallel_tool_calls :: "bool option"
  cr_provider :: policy_input
  cr_reasoning :: reasoning_fields
  cr_max_tokens :: "int option"
  cr_max_completion_tokens :: "int option"

record relay_constraints =
  c_operation :: "string option"
  c_requestedModel :: string
  c_automatic :: bool
  c_providerName :: string
  c_publicModelId :: string
  c_providerPolicyKey :: string
  c_privacyClass :: string
  c_maxOutputTokens :: "int option"
  c_reasoningKey :: "string option"
  c_trial :: bool

record redeem_result =
  rd_redemption :: string
  rd_constraints :: relay_constraints

definition isAutomaticModel :: "string \<Rightarrow> bool" where
  "isAutomaticModel model \<longleftrightarrow>
     model = ''auto'' \<or> model = ''/auto'' \<or> model = ''anonrouter/auto'' \<or> CHR ''*'' \<in> set model"

definition canonicalOutputTokenLimit :: "int option \<Rightarrow> int option \<Rightarrow> int option result" where
  "canonicalOutputTokenLimit legacy completion =
     (if legacy \<noteq> None \<and> completion \<noteq> None \<and> legacy \<noteq> completion then Inl (Thrown ''Error'')
      else Inr (case completion of Some n \<Rightarrow> Some n | None \<Rightarrow> legacy))"

definition obtain_redemption ::
    "redeem_result option \<Rightarrow> string option \<Rightarrow> (string \<Rightarrow> redeem_result option result) \<Rightarrow> bool
     \<Rightarrow> redeem_result result option \<Rightarrow> redeem_result result" where
  "obtain_redemption ingress ticketId redeem allowInline issuer =
     (case ingress of
        Some r \<Rightarrow> Inr r
      | None \<Rightarrow>
          if \<not> missing ticketId then
            and_then (redeem (the ticketId)) (\<lambda>r.
              case r of None \<Rightarrow> Inl (App 401 ''invalid_ticket'') | Some rd \<Rightarrow> Inr rd)
          else (case (allowInline, issuer) of
                  (True, Some issued) \<Rightarrow> issued
                | _ \<Rightarrow> Inl (App 401 ''ticket_required'')))"

definition requires_vision :: "chat_request \<Rightarrow> bool" where
  "requires_vision body = list_ex (\<lambda>m. countImageParts (msg_content m) > 0) (cr_messages body)"

definition requires_tools :: "chat_request \<Rightarrow> bool" where
  "requires_tools body = (case cr_tools body of None \<Rightarrow> False | Some ts \<Rightarrow> ts \<noteq> [])"

definition tool_surface :: "chat_request \<Rightarrow> bool" where
  "tool_surface body \<longleftrightarrow>
     cr_tools body \<noteq> None \<or> cr_tool_choice body \<noteq> JUndefined \<or> cr_parallel_tool_calls body \<noteq> None"

definition policy_key :: "chat_request \<Rightarrow> string result" where
  "policy_key body =
     and_then (normalizeProviderPolicy (cr_provider body)) (\<lambda>p. Inr (json_text (providerPolicyDigest p)))"

definition toolDefinitionBytes :: "jsval list option \<Rightarrow> jsval \<Rightarrow> int" where
  "toolDefinitionBytes tools toolChoice =
     (case tools of None \<Rightarrow> 0 | Some ts \<Rightarrow> (\<Sum>t \<leftarrow> ts. int (utf8_length (units (json_text t)))))
     + (if toolChoice \<noteq> JUndefined then int (utf8_length (units (json_text toolChoice))) else 0)"

definition estimateToolInputCeiling :: "jsval list option \<Rightarrow> jsval \<Rightarrow> int" where
  "estimateToolInputCeiling tools toolChoice = toolDefinitionBytes tools toolChoice"

definition RELAY_CONTEXT_CEILING :: int where
  "RELAY_CONTEXT_CEILING = 100000000"

definition e2ee_protocol_of :: "e2ee_selection \<Rightarrow> e2ee_protocol" where
  "e2ee_protocol_of s = (if es_provider s = NearAi then NearV2 else VeniceLegacy)"

subsection \<open>The checks\<close>

text \<open>Checks of the redeemed ticket against the request; \<open>limit\<close> is the requested output limit.\<close>

definition ticket_checks ::
    "bool \<Rightarrow> chat_request \<Rightarrow> e2ee_selection option \<Rightarrow> string \<Rightarrow> int option \<Rightarrow> relay_constraints
     \<Rightarrow> string result" where
  "ticket_checks test_env body e2ee_sel reasoning_key limit c =
     (if (case c_operation c of None \<Rightarrow> ''chat'' | Some op \<Rightarrow> op) \<noteq> ''chat''
        then Inl (App 409 ''ticket_operation_mismatch'')
      else if (case e2ee_sel of None \<Rightarrow> False
                | Some s \<Rightarrow> e2ee_provider_name (es_provider s) \<noteq> c_providerName c
                    \<and> \<not> (test_env \<and> c_providerName c = ''mock''))
        then Inl (App 409 ''ticket_e2ee_provider_mismatch'')
      else if \<not> c_automatic c \<and> cr_model body \<noteq> c_requestedModel c
        then Inl (App 409 ''ticket_model_mismatch'')
      else and_then (policy_key body) (\<lambda>key.
        if c_providerPolicyKey c \<noteq> [] \<and> key \<noteq> c_providerPolicyKey c
          then Inl (App 409 ''ticket_provider_policy_mismatch'')
        else if reasoning_key \<noteq> (case c_reasoningKey c of None \<Rightarrow> ''default'' | Some k \<Rightarrow> k)
          then Inl (App 409 ''ticket_reasoning_mismatch'')
        else if c_trial c \<and> tool_surface body then Inl (App 400 ''trial_tools_unsupported'')
        else if c_trial c \<and> requires_vision body then Inl (App 400 ''trial_text_only'')
        else if (case limit of None \<Rightarrow> False
                  | Some n \<Rightarrow> (case c_maxOutputTokens c of None \<Rightarrow> True | Some m \<Rightarrow> n > m))
          then Inl (App 409 ''ticket_output_limit_mismatch'')
        else Inr key))"

definition input_ceiling ::
    "chat_request \<Rightarrow> e2ee_selection option \<Rightarrow> int option \<Rightarrow> relay_constraints \<Rightarrow> int result" where
  "input_ceiling body e2ee_sel limit c =
     (case e2ee_sel of
        Some s \<Rightarrow>
          if tool_surface body then Inl (App 400 ''e2ee_tools_unsupported'')
          else if requires_vision body then Inl (App 400 ''e2ee_vision_unsupported'')
          else if c_privacyClass c \<noteq> ''e2ee'' then Inl (App 400 ''model_not_e2ee'')
          else (case limit of
                  None \<Rightarrow> Inl (App 400 ''e2ee_requires_max_tokens'')
                | Some n \<Rightarrow>
                    and_then (assertE2EESupported (cr_messages body) (cr_stream body) (Fin (of_int n))
                      (Some (e2ee_protocol_of s))) (\<lambda>_.
                    Inr (estimateE2EEInputCeiling (cr_messages body) RELAY_CONTEXT_CEILING (e2ee_protocol_of s))))
      | None \<Rightarrow>
          Inr (estimateInputTokenCeiling (cr_messages body)
               + estimateToolInputCeiling (cr_tools body) (cr_tool_choice body)))"

record relay_environment =
  re_headers :: "string \<Rightarrow> string option"
  re_ingress :: "redeem_result option"
  re_redeem :: "string \<Rightarrow> redeem_result option result"
  re_allowInline :: bool
  re_issuer :: "redeem_result result option"
  re_test_env :: bool
  re_select :: "chat_request \<Rightarrow> int \<Rightarrow> string result"

definition TICKET_HEADER :: string where
  "TICKET_HEADER = ''x-anonrouter-ticket''"

text \<open>What the relay sends to the control plane's authorize call, and what it keeps for the dispatch.\<close>

record admitted =
  ad_redemption :: string
  ad_modelPublicId :: string
  ad_automatic :: bool
  ad_stream :: bool
  ad_inputCeiling :: int
  ad_maxOutput :: "int option"
  ad_reasoningKey :: string
  ad_policyKey :: string
  ad_e2ee :: bool
  ad_e2ee_headers :: "(string \<times> string) list"
  ad_reasoning :: reasoning_selection
  ad_needs_tools :: bool
  ad_needs_vision :: bool

definition admit_chat :: "relay_environment \<Rightarrow> chat_request \<Rightarrow> admitted result" where
  "admit_chat env body =
     (if (case cr_models body of None \<Rightarrow> False | Some ms \<Rightarrow> ms \<noteq> [])
        then Inl (App 400 ''models_fallback_unsupported_here'')
      else and_then (extractE2eeHeaders (re_headers env)) (\<lambda>e2ee_sel.
        if e2ee_sel \<noteq> None \<and> isAutomaticModel (cr_model body)
          then Inl (App 400 ''e2ee_requires_explicit_model'')
        else and_then (resolveReasoningSelection (cr_reasoning body)) (\<lambda>reasoning.
        and_then (canonicalOutputTokenLimit (cr_max_tokens body) (cr_max_completion_tokens body)) (\<lambda>limit.
        and_then (obtain_redemption (re_ingress env) (re_headers env TICKET_HEADER) (re_redeem env)
          (re_allowInline env) (re_issuer env)) (\<lambda>redeemed.
        and_then (ticket_checks (re_test_env env) body e2ee_sel (reasoningSelectionKey reasoning) limit
          (rd_constraints redeemed)) (\<lambda>key.
        and_then (input_ceiling body e2ee_sel limit (rd_constraints redeemed)) (\<lambda>ceiling.
        and_then (if c_automatic (rd_constraints redeemed)
            then re_select env (body\<lparr> cr_model := c_requestedModel (rd_constraints redeemed) \<rparr>) ceiling
            else Inr (c_publicModelId (rd_constraints redeemed))) (\<lambda>model.
        Inr \<lparr> ad_redemption = rd_redemption redeemed, ad_modelPublicId = model,
              ad_automatic = c_automatic (rd_constraints redeemed), ad_stream = cr_stream body,
              ad_inputCeiling = ceiling, ad_maxOutput = limit,
              ad_reasoningKey = reasoningSelectionKey reasoning, ad_policyKey = key,
              ad_e2ee = (e2ee_sel \<noteq> None),
              ad_e2ee_headers = (case e2ee_sel of None \<Rightarrow> [] | Some s \<Rightarrow> es_headers s),
              ad_reasoning = reasoning, ad_needs_tools = requires_tools body,
              ad_needs_vision = requires_vision body \<rparr>))))))))"


subsection \<open>What an admitted request has shown\<close>

lemma near_headers_Inr:
  "near_headers headers = Inr s \<Longrightarrow> es_provider s = NearAi \<and> (\<exists>client.
     es_headers s = [(''X-Signing-Algo'', ''ed25519''), (''X-Client-Pub-Key'', client), (''X-Encryption-Version'', ''2'')]
     \<and> length client = 64 \<and> list_all hex_char client)"
  by (auto simp: near_headers_def Let_def split: if_splits)

lemma venice_headers_Inr:
  "venice_headers headers = Inr s \<Longrightarrow> es_provider s = Venice \<and>
     map fst (es_headers s) = [''X-Venice-TEE-Client-Pub-Key'', ''X-Venice-TEE-Model-Pub-Key'', ''X-Venice-TEE-Signing-Algo'']"
  by (auto simp: venice_headers_def Let_def split: if_splits)

lemma extract_Inr:
  assumes "extractE2eeHeaders headers = Inr (Some s)"
  shows "(es_provider s = NearAi \<and> \<not> hasAnyHeader headers veniceNames \<and> near_headers headers = Inr s)
    \<or> (es_provider s = Venice \<and> \<not> hasAnyHeader headers nearNames \<and> venice_headers headers = Inr s)"
proof -
  have "es_provider s = NearAi" if "near_headers headers = Inr s" using near_headers_Inr [OF that] by simp
  moreover have "es_provider s = Venice" if "venice_headers headers = Inr s" using venice_headers_Inr [OF that] by simp
  ultimately show ?thesis
    using assms
    by (auto simp: extractE2eeHeaders_def and_then_Inr_iff Let_def split: if_splits)
qed

lemma ticket_checks_Inr:
  assumes "ticket_checks test_env body e2ee_sel rkey limit c = Inr key"
  shows "(c_operation c = None \<or> c_operation c = Some ''chat'') \<and> policy_key body = Inr key
    \<and> (c_automatic c \<or> cr_model body = c_requestedModel c)
    \<and> (c_providerPolicyKey c = [] \<or> key = c_providerPolicyKey c)
    \<and> rkey = (case c_reasoningKey c of None \<Rightarrow> ''default'' | Some k \<Rightarrow> k)
    \<and> (c_trial c \<longrightarrow> \<not> tool_surface body \<and> \<not> requires_vision body)
    \<and> (\<forall>n. limit = Some n \<longrightarrow> (\<exists>m. c_maxOutputTokens c = Some m \<and> n \<le> m))
    \<and> (\<forall>s. e2ee_sel = Some s \<longrightarrow> e2ee_provider_name (es_provider s) = c_providerName c
         \<or> test_env \<and> c_providerName c = ''mock'')"
  using assms
  by (auto simp: ticket_checks_def and_then_Inr_iff not_less split: if_splits option.splits)

lemma input_ceiling_e2ee:
  assumes "input_ceiling body (Some s) limit c = Inr n_ceiling"
  shows "\<not> tool_surface body \<and> \<not> requires_vision body \<and> c_privacyClass c = ''e2ee'' \<and> limit \<noteq> None
    \<and> (\<exists>n. limit = Some n \<and> assertE2EESupported (cr_messages body) (cr_stream body) (Fin (of_int n))
         (Some (e2ee_protocol_of s)) = Inr ())"
  using assms by (auto simp: input_ceiling_def and_then_Inr_iff split: if_splits option.splits)

lemma e2ee_streams:
  "assertE2EESupported ms stream n p = Inr () \<Longrightarrow> stream"
  by (simp add: assertE2EESupported_def split: if_splits)

definition e2ee_upstream :: "admitted \<Rightarrow> bool" where
  "e2ee_upstream a \<longleftrightarrow>
     (\<exists>client. ad_e2ee_headers a = [(''X-Signing-Algo'', ''ed25519''), (''X-Client-Pub-Key'', client),
          (''X-Encryption-Version'', ''2'')] \<and> length client = 64 \<and> list_all hex_char client)
     \<or> map fst (ad_e2ee_headers a)
         = [''X-Venice-TEE-Client-Pub-Key'', ''X-Venice-TEE-Model-Pub-Key'', ''X-Venice-TEE-Signing-Algo'']"

lemma extract_upstream:
  "extractE2eeHeaders headers = Inr (Some s) \<Longrightarrow> ad_e2ee_headers a = es_headers s \<Longrightarrow> e2ee_upstream a"
  using extract_Inr [of headers s] near_headers_Inr [of headers s] venice_headers_Inr [of headers s]
  unfolding e2ee_upstream_def by fastforce

lemma admit_Inr:
  assumes "admit_chat env body = Inr a"
  obtains e2ee_sel redeemed where
    "extractE2eeHeaders (re_headers env) = Inr e2ee_sel"
    "resolveReasoningSelection (cr_reasoning body) = Inr (ad_reasoning a)"
    "canonicalOutputTokenLimit (cr_max_tokens body) (cr_max_completion_tokens body) = Inr (ad_maxOutput a)"
    "obtain_redemption (re_ingress env) (re_headers env TICKET_HEADER) (re_redeem env) (re_allowInline env)
       (re_issuer env) = Inr redeemed"
    "ticket_checks (re_test_env env) body e2ee_sel (ad_reasoningKey a) (ad_maxOutput a)
       (rd_constraints redeemed) = Inr (ad_policyKey a)"
    "input_ceiling body e2ee_sel (ad_maxOutput a) (rd_constraints redeemed) = Inr (ad_inputCeiling a)"
    "e2ee_sel \<noteq> None \<Longrightarrow> \<not> isAutomaticModel (cr_model body)"
    "ad_reasoningKey a = reasoningSelectionKey (ad_reasoning a)"
    "ad_redemption a = rd_redemption redeemed"
    "ad_automatic a = c_automatic (rd_constraints redeemed)"
    "\<not> ad_automatic a \<Longrightarrow> ad_modelPublicId a = c_publicModelId (rd_constraints redeemed)"
    "ad_e2ee a \<longleftrightarrow> e2ee_sel \<noteq> None"
    "ad_e2ee_headers a = (case e2ee_sel of None \<Rightarrow> [] | Some s \<Rightarrow> es_headers s)"
    "ad_stream a = cr_stream body"
  using assms unfolding admit_chat_def
  by (auto simp: and_then_Inr_iff split: if_splits)

text \<open>
  C19. A request the relay admits is the one its ticket was issued for: the model, the provider policy,
  the reasoning configuration and the output limit are those the ticket binds, a trial ticket carries
  neither tools nor images, and an E2EE request streams, has no tools or images, names an explicit
  model of the ticket's provider, and reaches the provider only with the fixed headers of one protocol.
\<close>

theorem admitted_matches_ticket:
  assumes "admit_chat env body = Inr a"
  shows "\<exists>redeemed c. obtain_redemption (re_ingress env) (re_headers env TICKET_HEADER) (re_redeem env)
      (re_allowInline env) (re_issuer env) = Inr redeemed \<and> c = rd_constraints redeemed
    \<and> ad_redemption a = rd_redemption redeemed
    \<and> (c_automatic c \<or> cr_model body = c_requestedModel c \<and> ad_modelPublicId a = c_publicModelId c)
    \<and> (c_providerPolicyKey c = [] \<or> policy_key body = Inr (c_providerPolicyKey c))
    \<and> reasoningSelectionKey (ad_reasoning a) = (case c_reasoningKey c of None \<Rightarrow> ''default'' | Some k \<Rightarrow> k)
    \<and> (\<forall>n. ad_maxOutput a = Some n \<longrightarrow> (\<exists>m. c_maxOutputTokens c = Some m \<and> n \<le> m))
    \<and> (c_trial c \<longrightarrow> \<not> tool_surface body \<and> \<not> requires_vision body)
    \<and> (ad_e2ee a \<longrightarrow> cr_stream body \<and> \<not> tool_surface body \<and> \<not> requires_vision body
         \<and> \<not> isAutomaticModel (cr_model body) \<and> c_privacyClass c = ''e2ee'' \<and> ad_maxOutput a \<noteq> None
         \<and> e2ee_upstream a)
    \<and> (\<not> ad_e2ee a \<longrightarrow> ad_e2ee_headers a = [])"
proof (rule admit_Inr [OF assms])
  fix e2ee_sel redeemed
  assume facts: "extractE2eeHeaders (re_headers env) = Inr e2ee_sel"
    "obtain_redemption (re_ingress env) (re_headers env TICKET_HEADER) (re_redeem env) (re_allowInline env)
       (re_issuer env) = Inr redeemed"
    "e2ee_sel \<noteq> None \<Longrightarrow> \<not> isAutomaticModel (cr_model body)"
    "ad_reasoningKey a = reasoningSelectionKey (ad_reasoning a)"
    "ad_redemption a = rd_redemption redeemed"
    "ad_automatic a = c_automatic (rd_constraints redeemed)"
    "\<not> ad_automatic a \<Longrightarrow> ad_modelPublicId a = c_publicModelId (rd_constraints redeemed)"
    "ad_e2ee a \<longleftrightarrow> e2ee_sel \<noteq> None"
    "ad_e2ee_headers a = (case e2ee_sel of None \<Rightarrow> [] | Some s \<Rightarrow> es_headers s)"
    and checks: "ticket_checks (re_test_env env) body e2ee_sel (ad_reasoningKey a) (ad_maxOutput a)
       (rd_constraints redeemed) = Inr (ad_policyKey a)"
    and ceiling: "input_ceiling body e2ee_sel (ad_maxOutput a) (rd_constraints redeemed) = Inr (ad_inputCeiling a)"
  note ticket = ticket_checks_Inr [OF checks]
  have e2ee: "cr_stream body \<and> \<not> tool_surface body \<and> \<not> requires_vision body
      \<and> \<not> isAutomaticModel (cr_model body) \<and> c_privacyClass (rd_constraints redeemed) = ''e2ee''
      \<and> ad_maxOutput a \<noteq> None \<and> e2ee_upstream a" if e: "ad_e2ee a"
  proof -
    obtain s where s: "e2ee_sel = Some s" using e facts(8) by auto
    have "e2ee_upstream a"
      using extract_upstream [OF facts(1) [unfolded s]] facts(9) s by simp
    then show ?thesis
      using input_ceiling_e2ee [OF ceiling [unfolded s]] e2ee_streams facts(3) s by auto
  qed
  have "\<not> ad_e2ee a \<Longrightarrow> ad_e2ee_headers a = []" using facts(8,9) by simp
  with e2ee ticket facts show ?thesis
    by (intro exI [of _ redeemed] exI [of _ "rd_constraints redeemed"]) auto
qed

text \<open>
  The comment of \<open>extractE2eeHeaders\<close> says that all values are validated at the public edge. For
  the direct-enclave protocol they are; the Venice values only have to be present: any texts that are
  not empty are accepted and forwarded as they are, as is any signing algorithm.
\<close>

theorem venice_values_unvalidated:
  assumes "client \<noteq> []" and "model \<noteq> []"
    and "headers = (\<lambda>h. if h = ''x-venice-tee-client-pub-key'' then Some client
      else if h = ''x-venice-tee-model-pub-key'' then Some model
      else if h = ''x-venice-tee-signing-algo'' then algo else None)"
  shows "extractE2eeHeaders headers = Inr (Some \<lparr> es_provider = Venice,
    es_headers = [(''X-Venice-TEE-Client-Pub-Key'', client), (''X-Venice-TEE-Model-Pub-Key'', model),
      (''X-Venice-TEE-Signing-Algo'', case algo of None \<Rightarrow> ''ecdsa'' | Some a \<Rightarrow> a)] \<rparr>)"
  using assms(1,2)
  by (simp add: assms(3) extractE2eeHeaders_def explicit_provider_def ANONROUTER_E2EE_PROVIDER_HEADER_def
      hasAnyHeader_def nearNames_def veniceNames_def venice_headers_def missing_def Let_def)

subsection \<open>Witnesses\<close>

definition sample_constraints :: relay_constraints where
  "sample_constraints = \<lparr> c_operation = None, c_requestedModel = ''lab/m'', c_automatic = False,
     c_providerName = ''venice'', c_publicModelId = ''venice/m'', c_providerPolicyKey = [],
     c_privacyClass = ''private'', c_maxOutputTokens = Some 100, c_reasoningKey = None, c_trial = True \<rparr>"

definition sample_relay_environment :: relay_environment where
  "sample_relay_environment = \<lparr> re_headers = (\<lambda>_. None),
     re_ingress = Some \<lparr> rd_redemption = ''r'', rd_constraints = sample_constraints \<rparr>,
     re_redeem = (\<lambda>_. Inr None), re_allowInline = False, re_issuer = None, re_test_env = False,
     re_select = (\<lambda>_ _. Inl (App 503 ''router_unavailable'')) \<rparr>"

definition sample_chat_request :: chat_request where
  "sample_chat_request = \<lparr> cr_model = ''lab/m'', cr_models = None, cr_messages = [], cr_stream = True,
     cr_tools = None, cr_tool_choice = JUndefined, cr_parallel_tool_calls = None,
     cr_provider = PolicyAbsent, cr_reasoning = \<lparr> rf_reasoning_effort = None, rf_reasoning = None,
       rf_disable_thinking = None \<rparr>, cr_max_tokens = Some 50, cr_max_completion_tokens = None \<rparr>"

lemma sample_admitted: "\<exists>a. admit_chat sample_relay_environment sample_chat_request = Inr a"
  by (simp add: admit_chat_def sample_relay_environment_def sample_chat_request_def sample_constraints_def
      extractE2eeHeaders_def explicit_provider_def hasAnyHeader_def nearNames_def veniceNames_def
      resolveReasoningSelection_def canonicalOutputTokenLimit_def obtain_redemption_def ticket_checks_def
      policy_key_def normalizeProviderPolicy_def tool_surface_def requires_vision_def input_ceiling_def
      isAutomaticModel_def Let_def)

lemma admitted_matches_ticket_witness:
  "\<exists>a. admit_chat sample_relay_environment sample_chat_request = Inr a
     \<and> ad_modelPublicId a = ''venice/m'' \<and> reasoningSelectionKey (ad_reasoning a) = ''default''"
proof -
  obtain a where a: "admit_chat sample_relay_environment sample_chat_request = Inr a"
    using sample_admitted by blast
  from admitted_matches_ticket [OF a] a show ?thesis
    by (auto simp: obtain_redemption_def sample_relay_environment_def sample_constraints_def)
qed

lemma venice_values_unvalidated_witness:
  "extractE2eeHeaders (\<lambda>h. if h = ''x-venice-tee-client-pub-key'' then Some ''not a key''
      else if h = ''x-venice-tee-model-pub-key'' then Some ''?'' else if h = ''x-venice-tee-signing-algo'' then None
      else None) \<noteq> Inr None"
  using venice_values_unvalidated [of "''not a key''" "''?''" _ None, OF _ _ refl] by simp

end
