(* ===== verification/RelayRun.thy ===== *)
theory RelayRun
  imports RelayRequest
begin

section \<open>The execution of an admitted chat request (routes/chat.ts)\<close>

text \<open>
  From the authorize call to the end of the response. The handler is a function of the admitted
  request and of \<open>relay_world\<close>, which says how every call it awaits turns out; each such function is
  given the events so far, so the control plane, the worker and the client may answer in any way that
  depends on what happened. The handler's own steps are recorded as \<open>relay_event\<close>s. The signal of a
  client disconnect can change only while the handler awaits a call, so it too is a function of the
  events. Latencies, log lines and rate-limit headers are left out. Every loop has a fuel; running out
  of it is None, and \<open>RelayEnd\<close> shows that a bounded plan and a finite stream always finish.
\<close>

subsection \<open>Errors\<close>

datatype relay_error =
    RApp int string
  | RProvider int string "int option" "string option" "string option"
  | RType string
  | RDom string
  | ROther string

text \<open>
  \<open>RProvider\<close> is a \<open>ProviderError\<close> (status, code, the provider's own status, request id and machine
  code), which is an \<open>AppError\<close> too. \<open>RDom\<close> is a \<open>DOMException\<close> by name, \<open>ROther\<close> any other error by name.
\<close>

definition app_code :: "relay_error \<Rightarrow> string option" where
  "app_code e = (case e of RApp _ c \<Rightarrow> Some c | RProvider _ c _ _ _ \<Rightarrow> Some c | _ \<Rightarrow> None)"

definition app_status :: "relay_error \<Rightarrow> int option" where
  "app_status e = (case e of RApp s _ \<Rightarrow> Some s | RProvider s _ _ _ _ \<Rightarrow> Some s | _ \<Rightarrow> None)"

definition isAbortError :: "relay_error \<Rightarrow> bool" where
  "isAbortError e \<longleftrightarrow> e = RDom ''AbortError'' \<or> e = ROther ''AbortError'' \<or> app_code e = Some ''ABORT_ERR''"

datatype attempt_outcome =
  OutUnavailable | OutRateLimited | OutRejected | OutNetworkError | OutInvalidResponse

definition transport_failure :: "relay_error \<Rightarrow> bool" where
  "transport_failure e \<longleftrightarrow>
     e = RType ''fetch failed'' \<or> e = RType ''terminated''
     \<or> e = RDom ''NetworkError'' \<or> e = RDom ''TimeoutError''"

definition providerFallbackOutcome :: "relay_error \<Rightarrow> attempt_outcome option" where
  "providerFallbackOutcome e =
     (case e of
        RProvider _ code status _ machine \<Rightarrow>
          if isTerminalProviderCode machine then None
          else if status = Some 429 then Some OutRateLimited
          else if code = ''provider_unavailable'' then Some OutUnavailable
          else if code = ''provider_timeout'' then Some OutNetworkError
          else if code = ''provider_invalid_json'' \<or> code = ''provider_no_stream'' then Some OutInvalidResponse
          else if (case status of Some n \<Rightarrow> n \<ge> 400 | None \<Rightarrow> False) then Some OutRejected
          else None
      | _ \<Rightarrow>
          if app_code e = Some ''provider_unavailable'' then Some OutUnavailable
          else if transport_failure e then Some OutNetworkError
          else None)"

datatype usage_status = UFailed | URateLimited | UInsufficientBalance

definition usageStatusForError :: "relay_error \<Rightarrow> usage_status" where
  "usageStatusForError e =
     (if app_status e = Some 402 then UInsufficientBalance
      else if app_code e = Some ''rate_limited'' \<or> app_code e = Some ''concurrency_limited'' then URateLimited
      else UFailed)"

record rejection_facts =
  rj_anonrouterCode :: "string option"
  rj_providerStatus :: "int option"
  rj_providerRequestId :: "string option"
  rj_relayOutcome :: "attempt_outcome option"

definition nonempty :: "string option \<Rightarrow> bool" where
  "nonempty a \<longleftrightarrow> a \<noteq> None \<and> a \<noteq> Some []"

definition providerRejectionFacts :: "relay_error \<Rightarrow> rejection_facts option" where
  "providerRejectionFacts e =
     (case e of
        RProvider _ code status requestId machine \<Rightarrow>
          Some \<lparr> rj_anonrouterCode = Some code, rj_providerStatus = status,
            rj_providerRequestId = (if nonempty requestId then requestId else None),
            rj_relayOutcome = (if nonempty machine then Some OutRejected else None) \<rparr>
      | _ \<Rightarrow>
          if transport_failure e then
            Some \<lparr> rj_anonrouterCode = Some ''provider_network_error'', rj_providerStatus = None,
              rj_providerRequestId = None, rj_relayOutcome = Some OutNetworkError \<rparr>
          else None)"

subsection \<open>Events and answers\<close>

record relay_model =
  rm_providerName :: string
  rm_publicModelId :: string
  rm_canonicalModelId :: "string option"
  rm_externalModelId :: string
  rm_privacyClass :: "string option"
  rm_supportsStreaming :: bool
  rm_supportsTools :: "bool option"
  rm_supportsVision :: "bool option"
  rm_modelType :: string
  rm_reasoningCapabilities :: "reasoning_capabilities option"

record attempt_grant =
  ag_dispatchToken :: string
  ag_model :: relay_model
  ag_maxOutputTokens :: int
  ag_attemptIndex :: int
  ag_effectiveClass :: "string option"
  ag_fallbackAvailable :: bool

record worker_request =
  wr_dispatchToken :: string
  wr_providerName :: string
  wr_externalModelId :: string
  wr_reasoningKey :: string
  wr_model :: string
  wr_maxTokens :: int
  wr_reasoning :: "wire_effort option"
  wr_e2eeHeaders :: "(string \<times> string) list"

record settle_request =
  sr_usage :: token_usage
  sr_receipt :: "string option"

datatype frame = ModelFrame string | ErrorFrame | DoneFrame

datatype relay_event =
    Authorized bool
  | NextAsked attempt_outcome bool
  | Dispatched worker_request bool
  | Reported int rejection_facts
  | HeadersSent "(string \<times> string) list"
  | Pulled
  | MarkedDelivery bool
  | Wrote frame bool
  | UsageRead
  | BindingRead
  | Settled settle_request bool
  | Captured bool
  | Aborted usage_status bool bool
  | Ended
  | Destroyed

type_synonym trace = "relay_event list"

record chat_result =
  ch_response :: jsval
  ch_usage :: "partial_usage option"
  ch_binding :: bool

text \<open>
  \<open>ch_binding\<close> and \<open>w_binding\<close> say whether the verifier of the provider supports signatures and the
  worker delivered a provider request id and both wire hashes in hexadecimal; \<open>w_receipt\<close> is the
  identifier the receipt store hands out when the process has one.
\<close>

datatype pulled = Chunk string | StreamEnd | StreamError relay_error

record relay_world =
  w_aborted :: "trace \<Rightarrow> bool"
  w_authorize :: "trace \<Rightarrow> relay_error + attempt_grant"
  w_can_ask_next :: bool
  w_next :: "trace \<Rightarrow> relay_error + attempt_grant option"
  w_chat :: "trace \<Rightarrow> worker_request \<Rightarrow> relay_error + chat_result"
  w_stream :: "trace \<Rightarrow> worker_request \<Rightarrow> relay_error + unit"
  w_pull :: "trace \<Rightarrow> pulled"
  w_usage :: "trace \<Rightarrow> relay_error + partial_usage option"
  w_binding :: "trace \<Rightarrow> bool"
  w_receipt :: "string option"
  w_mark :: "trace \<Rightarrow> relay_error + unit"
  w_write :: "trace \<Rightarrow> frame \<Rightarrow> relay_error + unit"
  w_settle :: "trace \<Rightarrow> settle_request \<Rightarrow> relay_error + jsnum"
  w_capture :: "trace \<Rightarrow> relay_error + unit"
  w_abort :: "trace \<Rightarrow> relay_error + unit"
  w_can_report :: bool
  w_destroyed :: "trace \<Rightarrow> bool"
  w_writableEnded :: "trace \<Rightarrow> bool"

definition succeeded :: "'e + 'a \<Rightarrow> bool" where
  "succeeded r = (case r of Inl _ \<Rightarrow> False | Inr _ \<Rightarrow> True)"

lemma succeeded_simps [simp]: "succeeded (Inl e) = False" "succeeded (Inr x) = True"
  by (simp_all add: succeeded_def)

datatype relay_outcome =
    Replied jsval "(string \<times> string) list"
  | ReplyHandedOff
  | Failed relay_error

subsection \<open>Calls\<close>

definition abort_call :: "relay_world \<Rightarrow> usage_status \<Rightarrow> bool \<Rightarrow> trace \<Rightarrow> trace \<times> bool" where
  "abort_call w status providerRejected tr =
     (let ok = succeeded (w_abort w tr) in (tr @ [Aborted status providerRejected ok], ok))"

definition settle_call :: "relay_world \<Rightarrow> settle_request \<Rightarrow> trace \<Rightarrow> trace \<times> (relay_error + jsnum)" where
  "settle_call w req tr = (let r = w_settle w tr req in (tr @ [Settled req (succeeded r)], r))"

text \<open>\<open>settleWithRetry\<close>, with the default of two attempts.\<close>

fun settle_attempts ::
    "nat \<Rightarrow> relay_world \<Rightarrow> settle_request \<Rightarrow> relay_error \<Rightarrow> trace \<Rightarrow> trace \<times> (relay_error + jsnum)" where
  "settle_attempts 0 w req lastError tr = (tr, Inl lastError)"
| "settle_attempts (Suc n) w req lastError tr =
     (case settle_call w req tr of
        (tr', Inr charged) \<Rightarrow> (tr', Inr charged)
      | (tr', Inl e) \<Rightarrow> settle_attempts n w req e tr')"

definition settleWithRetry ::
    "relay_world \<Rightarrow> settle_request \<Rightarrow> trace \<Rightarrow> trace \<times> (relay_error + jsnum)" where
  "settleWithRetry w req tr = settle_attempts 2 w req (ROther ''undefined'') tr"

definition next_call ::
    "relay_world \<Rightarrow> attempt_outcome \<Rightarrow> trace \<Rightarrow> trace \<times> (relay_error + attempt_grant option)" where
  "next_call w outcome tr =
     (let r = w_next w tr
      in (tr @ [NextAsked outcome (case r of Inr (Some g) \<Rightarrow> True | _ \<Rightarrow> False)], r))"

definition write_frame :: "relay_world \<Rightarrow> frame \<Rightarrow> trace \<Rightarrow> trace \<times> (relay_error + unit)" where
  "write_frame w f tr = (let r = w_write w tr f in (tr @ [Wrote f (succeeded r)], r))"

definition reportProviderRejection :: "relay_world \<Rightarrow> int \<Rightarrow> relay_error \<Rightarrow> trace \<Rightarrow> trace" where
  "reportProviderRejection w attemptIndex e tr =
     (if \<not> w_can_report w then tr
      else if w_aborted w tr \<or> isAbortError e then tr
      else case providerRejectionFacts e of
        None \<Rightarrow> tr
      | Some facts \<Rightarrow> tr @ [Reported attemptIndex facts])"

definition end_response :: "relay_world \<Rightarrow> trace \<Rightarrow> trace" where
  "end_response w tr =
     (if \<not> w_destroyed w tr \<and> \<not> w_writableEnded w tr then tr @ [Ended] else tr)"

subsection \<open>Attempts\<close>

definition capabilityRefusal :: "relay_model \<Rightarrow> bool \<Rightarrow> bool \<Rightarrow> relay_error option" where
  "capabilityRefusal model needs_tools needs_vision =
     (if needs_tools \<and> rm_supportsTools model = Some False then Some (RApp 400 ''tools_not_supported'')
      else if needs_vision \<and> rm_supportsVision model = Some False then Some (RApp 400 ''model_not_vision'')
      else None)"

definition routeSatisfiesCapabilities :: "admitted \<Rightarrow> relay_model \<Rightarrow> bool" where
  "routeSatisfiesCapabilities a model \<longleftrightarrow>
     (\<not> ad_needs_tools a \<or> rm_supportsTools model = Some True)
     \<and> (\<not> ad_needs_vision a \<or> rm_supportsVision model = Some True)"

record serving =
  sv_grant :: attempt_grant
  sv_attempts :: int
  sv_fellBack :: bool

definition serve_next :: "attempt_grant \<Rightarrow> serving" where
  "serve_next g = \<lparr> sv_grant = g, sv_attempts = ag_attemptIndex g + 1, sv_fellBack = True \<rparr>"

definition buildWorkerRequest :: "admitted \<Rightarrow> attempt_grant \<Rightarrow> worker_request" where
  "buildWorkerRequest a g =
     \<lparr> wr_dispatchToken = ag_dispatchToken g, wr_providerName = rm_providerName (ag_model g),
       wr_externalModelId = rm_externalModelId (ag_model g), wr_reasoningKey = ad_reasoningKey a,
       wr_model = rm_publicModelId (ag_model g), wr_maxTokens = ag_maxOutputTokens g,
       wr_reasoning = providerReasoningFields (ad_reasoning a)
         (case rm_reasoningCapabilities (ag_model g) of None \<Rightarrow> NO_REASONING_CAPABILITIES | Some c \<Rightarrow> c),
       wr_e2eeHeaders = ad_e2ee_headers a \<rparr>"

definition fallbackEnabled :: "relay_world \<Rightarrow> admitted \<Rightarrow> attempt_grant \<Rightarrow> bool" where
  "fallbackEnabled w a authorization \<longleftrightarrow>
     \<not> ad_e2ee a \<and> ag_fallbackAvailable authorization \<and> w_can_ask_next w"

text \<open>
  The loop of \<open>advanceToNextAttempt\<close>: skip the attempts that cannot serve the request. The result is
  the next attempt, None when the original error should surface, or the error that replaces it.
\<close>

fun advance_loop ::
    "nat \<Rightarrow> relay_world \<Rightarrow> admitted \<Rightarrow> attempt_outcome \<Rightarrow> bool \<Rightarrow> trace
     \<Rightarrow> (trace \<times> (relay_error + serving option)) option" where
  "advance_loop 0 w a outcome fellBack tr = None"
| "advance_loop (Suc n) w a outcome fellBack tr =
     (case next_call w outcome tr of
        (tr', Inl e) \<Rightarrow> Some (tr', Inl e)
      | (tr', Inr None) \<Rightarrow>
          Some (tr', if fellBack then Inl (RApp 503 ''provider_fallback_exhausted'') else Inr None)
      | (tr', Inr (Some g)) \<Rightarrow>
          if capabilityRefusal (ag_model g) (ad_needs_tools a) (ad_needs_vision a) \<noteq> None
          then advance_loop n w a outcome fellBack tr'
          else Some (tr', Inr (Some (serve_next g))))"

definition advanceToNextAttempt ::
    "nat \<Rightarrow> relay_world \<Rightarrow> admitted \<Rightarrow> bool \<Rightarrow> bool \<Rightarrow> relay_error \<Rightarrow> trace
     \<Rightarrow> (trace \<times> (relay_error + serving option)) option" where
  "advanceToNextAttempt n w a enabled fellBack e tr =
     (if w_aborted w tr \<or> isAbortError e then Some (tr, Inr None)
      else case providerFallbackOutcome e of
        None \<Rightarrow> Some (tr, Inr None)
      | Some outcome \<Rightarrow>
          if ad_e2ee a then Some (tr, Inl (RApp 503 ''provider_fallback_not_supported_for_e2ee''))
          else if \<not> enabled then Some (tr, Inr None)
          else advance_loop n w a outcome fellBack tr)"

text \<open>
  The catch block of both attempt loops: report the failure, ask for the next attempt, and hand back
  the serving state of the next one or the error to throw.
\<close>

definition after_failure ::
    "nat \<Rightarrow> relay_world \<Rightarrow> admitted \<Rightarrow> bool \<Rightarrow> serving \<Rightarrow> relay_error \<Rightarrow> trace
     \<Rightarrow> (trace \<times> (relay_error + serving)) option" where
  "after_failure n w a enabled s e tr =
     (case advanceToNextAttempt n w a enabled (sv_fellBack s) e
             (reportProviderRejection w (sv_attempts s - 1) e tr) of
        None \<Rightarrow> None
      | Some (tr', Inl e') \<Rightarrow> Some (tr', Inl e')
      | Some (tr', Inr None) \<Rightarrow> Some (tr', Inl e)
      | Some (tr', Inr (Some s')) \<Rightarrow> Some (tr', Inr s'))"

definition public_id :: "relay_model \<Rightarrow> string" where
  "public_id m = (case rm_canonicalModelId m of Some c \<Rightarrow> c | None \<Rightarrow> rm_publicModelId m)"

definition transparency :: "admitted \<Rightarrow> serving \<Rightarrow> (string \<times> string) list" where
  "transparency a s =
     (let m = ag_model (sv_grant s)
      in (''x-anonrouter-selected-model'', qualifiedPublicModelId (rm_providerName m) (rm_publicModelId m))
         # providerTransparencyHeaders (rm_providerName m) (rm_privacyClass m) (ag_effectiveClass (sv_grant s))
             (ad_automatic a) (sv_attempts s) (sv_fellBack s))"

definition RECEIPT_HEADER :: string where
  "RECEIPT_HEADER = ''x-anonrouter-receipt''"

subsection \<open>Without streaming\<close>

definition relay_thrown :: "err \<Rightarrow> relay_error" where
  "relay_thrown e = (case e of App s c \<Rightarrow> RApp s c | Thrown n \<Rightarrow> ROther n | _ \<Rightarrow> ROther ''Error'')"

definition settle_of_chat :: "relay_world \<Rightarrow> admitted \<Rightarrow> chat_result \<Rightarrow> relay_error + settle_request" where
  "settle_of_chat w a r =
     (case estimateResponseOutputTokens (ch_response r) of
        Inl e \<Rightarrow> Inl (relay_thrown e)
      | Inr estimate \<Rightarrow>
          Inr \<lparr> sr_usage = normalizeUsage (ch_usage r) \<lparr> inputTokens = ad_inputCeiling a,
                  outputTokens = max 1 estimate, cachedTokens = 0, cacheWriteTokens = None \<rparr>,
                sr_receipt = (if ch_binding r then w_receipt w else None) \<rparr>)"

text \<open>One attempt: the worker call, the settlement, and the public answer.\<close>

definition chat_attempt ::
    "relay_world \<Rightarrow> admitted \<Rightarrow> serving \<Rightarrow> trace \<Rightarrow> trace \<times> (relay_error + relay_outcome)" where
  "chat_attempt w a s tr =
     (let req = buildWorkerRequest a (sv_grant s);
          answer = w_chat w tr req;
          tr1 = tr @ [Dispatched req (succeeded answer)]
      in case answer of
           Inl e \<Rightarrow> (tr1, Inl e)
         | Inr r \<Rightarrow>
             (case settle_of_chat w a r of
                Inl e \<Rightarrow> (tr1, Inl e)
              | Inr sreq \<Rightarrow>
                  (case settle_call w sreq tr1 of
                     (tr2, Inl e) \<Rightarrow> (tr2, Inl e)
                   | (tr2, Inr charged) \<Rightarrow>
                       (tr2, Inr (Replied
                          (withUsageCost (publicModelResponse (ch_response r) (public_id (ag_model (sv_grant s)))) charged)
                          ((case sr_receipt sreq of None \<Rightarrow> [] | Some i \<Rightarrow> [(RECEIPT_HEADER, i)]) @ transparency a s))))))"

fun chat_loop ::
    "nat \<Rightarrow> relay_world \<Rightarrow> admitted \<Rightarrow> bool \<Rightarrow> serving \<Rightarrow> trace
     \<Rightarrow> (trace \<times> (relay_error + relay_outcome)) option" where
  "chat_loop 0 w a enabled s tr = None"
| "chat_loop (Suc n) w a enabled s tr =
     (case chat_attempt w a s tr of
        (tr1, Inr out) \<Rightarrow> Some (tr1, Inr out)
      | (tr1, Inl e) \<Rightarrow>
          (case after_failure n w a enabled s e tr1 of
             None \<Rightarrow> None
           | Some (tr2, Inl e') \<Rightarrow> Some (tr2, Inl e')
           | Some (tr2, Inr s') \<Rightarrow> chat_loop n w a enabled s' tr2))"


subsection \<open>With streaming\<close>

fun stream_open ::
    "nat \<Rightarrow> relay_world \<Rightarrow> admitted \<Rightarrow> bool \<Rightarrow> serving \<Rightarrow> trace
     \<Rightarrow> (trace \<times> (relay_error + serving)) option" where
  "stream_open 0 w a enabled s tr = None"
| "stream_open (Suc n) w a enabled s tr =
     (let req = buildWorkerRequest a (sv_grant s);
          answer = w_stream w tr req;
          tr1 = tr @ [Dispatched req (succeeded answer)]
      in case answer of
           Inr _ \<Rightarrow> Some (tr1, Inr s)
         | Inl e \<Rightarrow>
             (case after_failure n w a enabled s e tr1 of
                None \<Rightarrow> None
              | Some (tr2, Inl e') \<Rightarrow> Some (tr2, Inl e')
              | Some (tr2, Inr s') \<Rightarrow> stream_open n w a enabled s' tr2))"

definition done_chunk :: "string \<Rightarrow> bool" where
  "done_chunk chunk \<longleftrightarrow> js_trim chunk = ''data: [DONE]''"

definition public_chunk :: "relay_model \<Rightarrow> bool \<Rightarrow> string \<Rightarrow> string" where
  "public_chunk m toolCallsSeen chunk =
     correctStreamedFinishReason (rewrite_model (rm_externalModelId m) (public_id m) chunk) toolCallsSeen"

text \<open>
  The delivery loop. The durable delivery fence commits before the first frame is written. The result
  carries whether delivery started and the error that ended the loop, if any.
\<close>

fun deliver ::
    "nat \<Rightarrow> relay_world \<Rightarrow> relay_model \<Rightarrow> bool \<Rightarrow> bool \<Rightarrow> trace
     \<Rightarrow> (trace \<times> bool \<times> relay_error option) option" where
  "deliver 0 w m deliveryStarted toolCallsSeen tr = None"
| "deliver (Suc n) w m deliveryStarted toolCallsSeen tr =
     (let tr1 = tr @ [Pulled] in
      case w_pull w tr of
        StreamEnd \<Rightarrow> Some (tr1, deliveryStarted, None)
      | StreamError e \<Rightarrow> Some (tr1, deliveryStarted, Some e)
      | Chunk chunk \<Rightarrow>
          if done_chunk chunk then deliver n w m deliveryStarted toolCallsSeen tr1
          else
            let mark = (if deliveryStarted then Inr () else w_mark w tr1);
                tr2 = (if deliveryStarted then tr1 else tr1 @ [MarkedDelivery (succeeded mark)]);
                seen' = (toolCallsSeen \<or> frameHasToolCallDelta chunk)
            in case mark of
                 Inl e \<Rightarrow> Some (tr2, False, Some e)
               | Inr _ \<Rightarrow>
                   (case write_frame w (ModelFrame (public_chunk m seen' chunk)) tr2 of
                      (tr3, Inl e) \<Rightarrow> Some (tr3, True, Some e)
                    | (tr3, Inr _) \<Rightarrow> deliver n w m True seen' tr3))"

definition stream_usage :: "admitted \<Rightarrow> partial_usage option \<Rightarrow> token_usage" where
  "stream_usage a u = normalizeUsage u \<lparr> inputTokens = ad_inputCeiling a, outputTokens = 1,
     cachedTokens = 0, cacheWriteTokens = None \<rparr>"

text \<open>After the last frame: usage and binding, the settlement, and only then the completion marker.\<close>

definition finalizeThenWriteDone ::
    "relay_world \<Rightarrow> settle_request \<Rightarrow> trace \<Rightarrow> trace \<times> (relay_error + unit)" where
  "finalizeThenWriteDone w req tr =
     (case settleWithRetry w req tr of
        (tr', Inl e) \<Rightarrow> (tr', Inl e)
      | (tr', Inr _) \<Rightarrow> write_frame w DoneFrame tr')"

definition finish_stream :: "relay_world \<Rightarrow> admitted \<Rightarrow> trace \<Rightarrow> trace \<times> relay_error option" where
  "finish_stream w a tr =
     (let tr1 = tr @ [UsageRead] in
      case w_usage w tr of
        Inl e \<Rightarrow> (tr1, Some e)
      | Inr u \<Rightarrow>
          let tr2 = tr1 @ [BindingRead];
              receipt = (if w_binding w tr1 then w_receipt w else None)
          in case finalizeThenWriteDone w \<lparr> sr_usage = stream_usage a u, sr_receipt = receipt \<rparr> tr2 of
               (tr3, Inl e) \<Rightarrow> (tr3, Some e)
             | (tr3, Inr _) \<Rightarrow> (end_response w tr3, None))"

text \<open>The catch block of the stream: settle the partial output, capture, or abort, then close.\<close>

definition partial_settle :: "relay_world \<Rightarrow> admitted \<Rightarrow> trace \<Rightarrow> trace \<times> bool" where
  "partial_settle w a tr =
     (let usage = (case w_usage w tr of Inl _ \<Rightarrow> None | Inr u \<Rightarrow> u)
      in case settleWithRetry w \<lparr> sr_usage = stream_usage a usage, sr_receipt = None \<rparr> (tr @ [UsageRead]) of
           (tr', r) \<Rightarrow> (tr', succeeded r))"

definition compensate_stream :: "relay_world \<Rightarrow> admitted \<Rightarrow> bool \<Rightarrow> bool \<Rightarrow> relay_error \<Rightarrow> trace \<Rightarrow> trace \<times> bool" where
  "compensate_stream w a deliveryStarted disconnected e tr =
     (let (tr1, finalized) =
        (if deliveryStarted \<and> app_code e = Some ''provider_stream_incomplete'' \<and> \<not> disconnected
         then partial_settle w a tr else (tr, False))
      in if deliveryStarted \<and> \<not> finalized then
           let ok = succeeded (w_capture w tr1) in (tr1 @ [Captured ok], ok)
         else if \<not> deliveryStarted then abort_call w UFailed (\<not> disconnected) tr1
         else (tr1, finalized))"

definition close_failed_stream :: "relay_world \<Rightarrow> bool \<Rightarrow> bool \<Rightarrow> trace \<Rightarrow> trace" where
  "close_failed_stream w disconnected finalized tr =
     (if \<not> disconnected \<and> finalized \<and> \<not> w_destroyed w tr then
        (case write_frame w ErrorFrame tr of
           (tr1, Inl _) \<Rightarrow> tr1
         | (tr1, Inr _) \<Rightarrow>
             (case write_frame w DoneFrame tr1 of
                (tr2, Inl _) \<Rightarrow> tr2
              | (tr2, Inr _) \<Rightarrow> end_response w tr2))
      else if \<not> disconnected \<and> \<not> finalized \<and> \<not> w_destroyed w tr then tr @ [Destroyed]
      else tr)"

definition fail_stream :: "relay_world \<Rightarrow> admitted \<Rightarrow> bool \<Rightarrow> relay_error \<Rightarrow> trace \<Rightarrow> trace" where
  "fail_stream w a deliveryStarted e tr =
     (let disconnected = (w_aborted w tr \<or> isAbortError e);
          (tr1, finalized) = compensate_stream w a deliveryStarted disconnected e tr
      in close_failed_stream w disconnected finalized tr1)"

definition stream_attempts ::
    "nat \<Rightarrow> relay_world \<Rightarrow> admitted \<Rightarrow> bool \<Rightarrow> serving \<Rightarrow> trace
     \<Rightarrow> (trace \<times> (relay_error + relay_outcome)) option" where
  "stream_attempts n w a enabled s tr =
     (case stream_open n w a enabled s tr of
        None \<Rightarrow> None
      | Some (tr1, Inl e) \<Rightarrow> Some (tr1, Inl e)
      | Some (tr1, Inr s') \<Rightarrow>
          let headers = (case w_receipt w of None \<Rightarrow> [] | Some i \<Rightarrow> [(RECEIPT_HEADER, i)]) @ transparency a s';
              tr2 = tr1 @ [HeadersSent headers]
          in case deliver n w (ag_model (sv_grant s')) False False tr2 of
               None \<Rightarrow> None
             | Some (tr3, started, Some e) \<Rightarrow> Some (fail_stream w a started e tr3, Inr ReplyHandedOff)
             | Some (tr3, started, None) \<Rightarrow>
                 (case finish_stream w a tr3 of
                    (tr4, None) \<Rightarrow> Some (tr4, Inr ReplyHandedOff)
                  | (tr4, Some e) \<Rightarrow> Some (fail_stream w a started e tr4, Inr ReplyHandedOff)))"

subsection \<open>The handler\<close>

text \<open>The loop before the first dispatch that skips attempts without the required capabilities.\<close>

fun capable_loop ::
    "nat \<Rightarrow> relay_world \<Rightarrow> admitted \<Rightarrow> bool \<Rightarrow> serving \<Rightarrow> trace
     \<Rightarrow> (trace \<times> (relay_error + serving)) option" where
  "capable_loop 0 w a enabled s tr = None"
| "capable_loop (Suc n) w a enabled s tr =
     (if routeSatisfiesCapabilities a (ag_model (sv_grant s)) then Some (tr, Inr s)
      else
        case (if enabled then next_call w OutRejected tr else (tr, Inr None)) of
          (tr1, Inl e) \<Rightarrow> Some (tr1, Inl e)
        | (tr1, Inr None) \<Rightarrow>
            Some (fst (abort_call w UFailed False tr1),
              Inl (if ad_needs_tools a \<and> rm_supportsTools (ag_model (sv_grant s)) \<noteq> Some True
                   then RApp 400 ''tools_not_supported'' else RApp 400 ''model_not_vision''))
        | (tr1, Inr (Some g)) \<Rightarrow> capable_loop n w a enabled (serve_next g) tr1)"

text \<open>The outer catch block: a best-effort abort, unless the response has been produced.\<close>

definition settle_outcome ::
    "relay_world \<Rightarrow> trace \<times> (relay_error + relay_outcome) \<Rightarrow> trace \<times> relay_outcome" where
  "settle_outcome w r =
     (case r of
        (tr, Inr out) \<Rightarrow> (tr, out)
      | (tr, Inl e) \<Rightarrow>
          let clientGone = (w_aborted w tr \<or> isAbortError e);
              tr1 = fst (abort_call w (usageStatusForError e) (\<not> clientGone) tr)
          in (tr1, if clientGone then ReplyHandedOff else Failed e))"

definition refuse :: "relay_world \<Rightarrow> relay_error \<Rightarrow> trace \<Rightarrow> trace \<times> relay_outcome" where
  "refuse w e tr = (fst (abort_call w UFailed False tr), Failed e)"

definition client_disconnected :: relay_error where
  "client_disconnected = RDom ''AbortError''"

definition serve_authorized ::
    "nat \<Rightarrow> relay_world \<Rightarrow> admitted \<Rightarrow> attempt_grant \<Rightarrow> trace \<Rightarrow> (trace \<times> relay_outcome) option" where
  "serve_authorized n w a authorization tr =
     (let model = ag_model authorization;
          enabled = fallbackEnabled w a authorization;
          primary = \<lparr> sv_grant = authorization, sv_attempts = 1, sv_fellBack = False \<rparr>
      in if rm_modelType model \<noteq> ''text'' then Some (refuse w (RApp 400 ''model_not_chat'') tr)
         else if ad_stream a \<and> \<not> rm_supportsStreaming model
           then Some (refuse w (RApp 400 ''streaming_not_supported'') tr)
         else case capabilityRefusal model (ad_needs_tools a) (ad_needs_vision a) of
           Some e \<Rightarrow> Some (refuse w e tr)
         | None \<Rightarrow>
             (case capable_loop n w a enabled primary tr of
                None \<Rightarrow> None
              | Some (tr1, Inl e) \<Rightarrow> Some (tr1, Failed e)
              | Some (tr1, Inr s) \<Rightarrow>
                  map_option (settle_outcome w)
                    (if ad_stream a then stream_attempts n w a enabled s tr1
                     else chat_loop n w a enabled s tr1)))"

definition run_chat :: "nat \<Rightarrow> relay_world \<Rightarrow> admitted \<Rightarrow> (trace \<times> relay_outcome) option" where
  "run_chat n w a =
     (if w_aborted w [] then Some ([], Failed client_disconnected)
      else
        let answer = w_authorize w []; tr = [Authorized (succeeded answer)]
        in case answer of
             Inl e \<Rightarrow>
               let tr1 = fst (abort_call w (usageStatusForError e) False tr)
               in Some (tr1, if w_aborted w tr1 \<or> isAbortError e then ReplyHandedOff else Failed e)
           | Inr authorization \<Rightarrow>
               if w_aborted w tr
               then Some (fst (abort_call w UFailed False tr), Failed client_disconnected)
               else serve_authorized n w a authorization tr)"

end
