(* ===== verification/RelaySamples.thy ===== *)
theory RelaySamples
  imports RelayRun
begin

section \<open>Sample executions of the relay\<close>

text \<open>
  A request and an environment on which the properties of the relay are shown to apply: one streamed
  frame, one further attempt in the plan, every call successful. \<open>lossy_world\<close> differs in that the
  transport of the first settlement fails.
\<close>

definition sample_relay_model :: relay_model where
  "sample_relay_model = \<lparr> rm_providerName = ''venice'', rm_publicModelId = ''venice/m'',
     rm_canonicalModelId = None, rm_externalModelId = ''m'', rm_privacyClass = Some ''private'',
     rm_supportsStreaming = True, rm_supportsTools = Some True, rm_supportsVision = Some False,
     rm_modelType = ''text'', rm_reasoningCapabilities = None \<rparr>"

definition sample_grant :: "int \<Rightarrow> attempt_grant" where
  "sample_grant i = \<lparr> ag_dispatchToken = ''t'', ag_model = sample_relay_model, ag_maxOutputTokens = 50,
     ag_attemptIndex = i, ag_effectiveClass = None, ag_fallbackAvailable = True \<rparr>"

definition sample_request :: "bool \<Rightarrow> admitted" where
  "sample_request stream = \<lparr> ad_redemption = ''r'', ad_modelPublicId = ''venice/m'', ad_automatic = False,
     ad_stream = stream, ad_inputCeiling = 10, ad_maxOutput = Some 50, ad_reasoningKey = ''default'',
     ad_policyKey = ''p'', ad_e2ee = False, ad_e2ee_headers = [],
     ad_reasoning = DefaultReasoning,
     ad_needs_tools = False, ad_needs_vision = False \<rparr>"

fun granted :: "relay_event \<Rightarrow> bool" where
  "granted (NextAsked outcome ok) = ok"
| "granted _ = False"

definition sample_world :: relay_world where
  "sample_world = \<lparr> w_aborted = (\<lambda>_. False), w_authorize = (\<lambda>_. Inr (sample_grant 0)),
     w_can_ask_next = True,
     w_next = (\<lambda>tr. if list_ex granted tr then Inr None else Inr (Some (sample_grant 1))),
     w_chat = (\<lambda>_ _. Inr \<lparr> ch_response = JObject [], ch_usage = None, ch_binding = False \<rparr>),
     w_stream = (\<lambda>_ _. Inr ()),
     w_pull = (\<lambda>tr. if Pulled \<in> set tr then StreamEnd else Chunk ''data: {}''),
     w_usage = (\<lambda>_. Inr None), w_binding = (\<lambda>_. False), w_receipt = None,
     w_mark = (\<lambda>_. Inr ()), w_write = (\<lambda>_ _. Inr ()), w_settle = (\<lambda>_ _. Inr (Fin 0)),
     w_capture = (\<lambda>_. Inr ()), w_abort = (\<lambda>_. Inr ()), w_can_report = True,
     w_destroyed = (\<lambda>_. False), w_writableEnded = (\<lambda>_. False) \<rparr>"

fun settlement :: "relay_event \<Rightarrow> bool" where
  "settlement (Settled r ok) = True"
| "settlement _ = False"

definition lossy_world :: relay_world where
  "lossy_world = sample_world \<lparr> w_settle := (\<lambda>tr _. if list_ex settlement tr then Inr (Fin 0)
     else Inl (RType ''fetch failed'')) \<rparr>"

definition sample_worker_request :: worker_request where
  "sample_worker_request = \<lparr> wr_dispatchToken = ''t'', wr_providerName = ''venice'',
     wr_externalModelId = ''m'', wr_reasoningKey = ''default'', wr_model = ''venice/m'', wr_maxTokens = 50,
     wr_reasoning = None, wr_e2eeHeaders = [] \<rparr>"

definition sample_settlement :: settle_request where
  "sample_settlement = \<lparr> sr_usage = \<lparr> inputTokens = 10, outputTokens = 1, cachedTokens = 0,
     cacheWriteTokens = Some 0 \<rparr>, sr_receipt = None \<rparr>"

definition sample_headers :: "(string \<times> string) list" where
  "sample_headers = [(''x-anonrouter-selected-model'', ''venice/m''), (''x-anonrouter-provider'', ''venice''),
     (''x-anonrouter-routing'', ''exact''), (''x-anonrouter-provider-attempts'', ''1''),
     (''x-anonrouter-provider-fallback'', ''false''), (''x-anonrouter-privacy-class'', ''private'')]"

text \<open>The streamed and the JSON execution, to the end of the response.\<close>

lemma sample_stream_run:
  "run_chat 3 sample_world (sample_request True) =
     Some ([Authorized True, Dispatched sample_worker_request True, HeadersSent sample_headers,
        Pulled, MarkedDelivery True, Wrote (ModelFrame ''data: {}'') True, Pulled, UsageRead, BindingRead,
        Settled sample_settlement True, Wrote DoneFrame True, Ended], ReplyHandedOff)"
  by code_simp

lemma sample_chat_run:
  "run_chat 3 sample_world (sample_request False) =
     Some ([Authorized True, Dispatched sample_worker_request True, Settled sample_settlement True],
        Replied (JObject [(''model'', JString ''venice/m'')]) sample_headers)"
  by code_simp

end
