(* ===== verification/RelaySafety.thy ===== *)
theory RelaySafety
  imports RelaySamples
begin

section \<open>What every execution of a chat request respects\<close>

text \<open>
  A trace is disciplined when each event is allowed after the ones before it: model output only after
  a committed delivery fence, an error frame or the completion marker only after a durable
  finalization, an abort only while no fence is committed, a dispatch or a change of provider only
  before the response headers. Each function of \<open>RelayRun\<close> extends a disciplined trace to one; the
  functions that run before the headers also keep the trace without headers and fence.
\<close>

definition durable :: "trace \<Rightarrow> bool" where
  "durable tr \<longleftrightarrow> (\<exists>e \<in> set tr. (\<exists>r. e = Settled r True) \<or> e = Captured True \<or> (\<exists>s p. e = Aborted s p True))"

definition fenced_delivery :: "trace \<Rightarrow> bool" where
  "fenced_delivery tr \<longleftrightarrow> MarkedDelivery True \<in> set tr"

definition headers_sent :: "trace \<Rightarrow> bool" where
  "headers_sent tr \<longleftrightarrow> (\<exists>h. HeadersSent h \<in> set tr)"

fun allowed :: "trace \<Rightarrow> relay_event \<Rightarrow> bool" where
  "allowed tr (Wrote (ModelFrame c) ok) = fenced_delivery tr"
| "allowed tr (Wrote f ok) = durable tr"
| "allowed tr (Aborted s p ok) = (\<not> fenced_delivery tr)"
| "allowed tr (Dispatched req ok) = (\<not> headers_sent tr)"
| "allowed tr (NextAsked outcome ok) = (\<not> headers_sent tr)"
| "allowed tr e = True"

definition disciplined :: "trace \<Rightarrow> bool" where
  "disciplined tr \<longleftrightarrow> (\<forall>i < length tr. allowed (take i tr) (tr ! i))"

lemma disciplined_Nil [simp]: "disciplined []"
  by (simp add: disciplined_def)

lemma disciplined_snoc [simp]: "disciplined (tr @ [e]) \<longleftrightarrow> disciplined tr \<and> allowed tr e"
  by (auto simp: disciplined_def nth_append less_Suc_eq)

lemma disciplined_two [simp]:
  "disciplined (tr @ [e, e']) \<longleftrightarrow> disciplined tr \<and> allowed tr e \<and> allowed (tr @ [e]) e'"
  using disciplined_snoc [of "tr @ [e]" e'] by simp

lemma fenced_append [simp]:
  "fenced_delivery (tr @ es) \<longleftrightarrow> fenced_delivery tr \<or> fenced_delivery es"
  "fenced_delivery (e # es) \<longleftrightarrow> e = MarkedDelivery True \<or> fenced_delivery es"
  "\<not> fenced_delivery []"
  by (auto simp: fenced_delivery_def)

lemma headers_snoc [simp]: "headers_sent (tr @ [e]) \<longleftrightarrow> headers_sent tr \<or> (\<exists>h. e = HeadersSent h)"
  by (auto simp: headers_sent_def)

lemma durable_snoc [simp]:
  "durable (tr @ [e]) \<longleftrightarrow>
     durable tr \<or> (\<exists>r. e = Settled r True) \<or> e = Captured True \<or> (\<exists>s p. e = Aborted s p True)"
  by (auto simp: durable_def)

text \<open>Before the headers: disciplined, and nothing committed to the caller.\<close>

definition before :: "trace \<Rightarrow> bool" where
  "before tr \<longleftrightarrow> disciplined tr \<and> \<not> headers_sent tr \<and> \<not> fenced_delivery tr"

text \<open>What the calls do to the trace.\<close>

lemma abort_call_trace: "abort_call w s p tr = (tr', ok) \<Longrightarrow> tr' = tr @ [Aborted s p ok]"
  by (auto simp: abort_call_def Let_def)

lemma settle_call_trace:
  "settle_call w req tr = (tr', r) \<Longrightarrow> tr' = tr @ [Settled req (succeeded r)]"
  by (auto simp: settle_call_def Let_def)

lemma next_call_trace:
  "next_call w outcome tr = (tr', r) \<Longrightarrow>
     tr' = tr @ [NextAsked outcome (case r of Inr (Some g) \<Rightarrow> True | _ \<Rightarrow> False)]"
  by (auto simp: next_call_def Let_def)

lemma write_frame_trace: "write_frame w f tr = (tr', r) \<Longrightarrow> tr' = tr @ [Wrote f (succeeded r)]"
  by (auto simp: write_frame_def Let_def)

lemma before_abort: "before tr \<Longrightarrow> before (fst (abort_call w s p tr))"
  by (simp add: before_def abort_call_def Let_def)

lemma before_settle: "settle_call w req tr = (tr', r) \<Longrightarrow> before tr \<Longrightarrow> before tr'"
  by (drule settle_call_trace) (simp add: before_def)

lemma before_next: "next_call w outcome tr = (tr', r) \<Longrightarrow> before tr \<Longrightarrow> before tr'"
  by (drule next_call_trace) (simp add: before_def)

lemma before_dispatch: "before tr \<Longrightarrow> before (tr @ [Dispatched req ok])"
  by (simp add: before_def)

lemma before_report: "before tr \<Longrightarrow> before (reportProviderRejection w i e tr)"
  by (simp add: before_def reportProviderRejection_def split: option.split)

lemma before_advance:
  "advance_loop n w a outcome fellBack tr = Some (tr', r) \<Longrightarrow> before tr \<Longrightarrow> before tr'"
  by (induction n w a outcome fellBack tr arbitrary: tr' r rule: advance_loop.induct)
     (auto split: prod.splits sum.splits option.splits if_splits dest: before_next)

lemma before_after_failure:
  "after_failure n w a enabled s e tr = Some (tr', r) \<Longrightarrow> before tr \<Longrightarrow> before tr'"
  using before_report [of tr w "sv_attempts s - 1" e]
  by (auto simp: after_failure_def advanceToNextAttempt_def
      split: option.splits sum.splits prod.splits if_splits dest: before_advance)

lemma before_chat_attempt: "chat_attempt w a s tr = (tr', r) \<Longrightarrow> before tr \<Longrightarrow> before tr'"
  by (auto simp: chat_attempt_def Let_def before_dispatch
      split: sum.splits prod.splits dest!: before_settle)

lemma before_chat_loop: "chat_loop n w a enabled s tr = Some (tr', r) \<Longrightarrow> before tr \<Longrightarrow> before tr'"
proof (induction n w a enabled s tr arbitrary: tr' r rule: chat_loop.induct)
  case (2 n w a enabled s tr)
  obtain tr1 r1 where attempt: "chat_attempt w a s tr = (tr1, r1)" by fastforce
  note b1 = before_chat_attempt [OF attempt "2.prems"(2)]
  show ?case
  proof (cases r1)
    case (Inr out)
    with "2.prems"(1) attempt b1 show ?thesis by simp
  next
    case (Inl e)
    then show ?thesis
      using "2.prems"(1) attempt "2.IH" [OF attempt [symmetric] Inl _ refl refl]
        before_after_failure [OF _ b1]
      by (auto split: option.splits sum.splits)
  qed
qed simp

lemma before_capable: "capable_loop n w a enabled s tr = Some (tr', r) \<Longrightarrow> before tr \<Longrightarrow> before tr'"
  by (induction n w a enabled s tr arbitrary: tr' r rule: capable_loop.induct)
     (auto split: prod.splits sum.splits option.splits if_splits dest: before_next intro: before_abort)

lemma before_stream_open: "stream_open n w a enabled s tr = Some (tr', r) \<Longrightarrow> before tr \<Longrightarrow> before tr'"
proof (induction n w a enabled s tr arbitrary: tr' r rule: stream_open.induct)
  case (2 n w a enabled s tr)
  let ?req = "buildWorkerRequest a (sv_grant s)"
  let ?tr1 = "tr @ [Dispatched ?req (succeeded (w_stream w tr ?req))]"
  have b1: "before ?tr1" by (rule before_dispatch [OF "2.prems"(2)])
  show ?case
  proof (cases "w_stream w tr ?req")
    case (Inr u)
    with "2.prems"(1) b1 show ?thesis by (simp add: Let_def)
  next
    case (Inl e)
    then show ?thesis
      using "2.prems"(1) "2.IH" [OF refl refl refl Inl _ refl refl] before_after_failure [OF _ b1]
      by (auto simp: Let_def split: option.splits sum.splits)
  qed
qed simp


subsection \<open>The stream\<close>

lemma settle_attempts_trace:
  assumes "settle_attempts n w req e tr = (tr', r)" and "disciplined tr"
  shows "disciplined tr' \<and> (fenced_delivery tr' = fenced_delivery tr) \<and> (durable tr \<longrightarrow> durable tr')
    \<and> (succeeded r \<longrightarrow> durable tr')"
  using assms
proof (induction n arbitrary: e tr)
  case (Suc n)
  obtain tr1 r1 where call: "settle_call w req tr = (tr1, r1)" by fastforce
  note tr1 = settle_call_trace [OF call]
  show ?case
  proof (cases r1)
    case (Inr c)
    then have "tr' = tr1" "r = r1" using Suc.prems(1) by (simp_all add: call)
    with Inr Suc.prems(2) show ?thesis by (simp add: tr1)
  next
    case (Inl e')
    then have "settle_attempts n w req e' tr1 = (tr', r)" using Suc.prems(1) by (simp add: call)
    from Suc.IH [OF this] Suc.prems(2) show ?thesis by (simp add: tr1)
  qed
qed auto

lemma settleWithRetry_trace:
  assumes "settleWithRetry w req tr = (tr', r)" and "disciplined tr"
  shows "disciplined tr' \<and> (fenced_delivery tr' = fenced_delivery tr) \<and> (durable tr \<longrightarrow> durable tr')
    \<and> (succeeded r \<longrightarrow> durable tr')"
  using assms settle_attempts_trace unfolding settleWithRetry_def by blast

lemma end_response_trace:
  "disciplined tr \<Longrightarrow> disciplined (end_response w tr)"
  by (simp add: end_response_def)

lemma deliver_trace:
  assumes "deliver n w m started seen tr = Some (tr', started', r)"
    and "disciplined tr" and "fenced_delivery tr = started"
  shows "disciplined tr' \<and> fenced_delivery tr' = started'"
  using assms
proof (induction n w m started seen tr arbitrary: tr' started' r rule: deliver.induct)
  case (2 n w m started seen tr)
  let ?tr1 = "tr @ [Pulled]"
  have tr1: "disciplined ?tr1" "fenced_delivery ?tr1 = started" using "2.prems"(2,3) by simp_all
  show ?case
  proof (cases "w_pull w tr")
    case (Chunk chunk)
    show ?thesis
    proof (cases "done_chunk chunk")
      case True
      with "2.prems"(1) Chunk have "deliver n w m started seen ?tr1 = Some (tr', started', r)" by simp
      from "2.IH"(1) [OF refl Chunk True this tr1] show ?thesis .
    next
      case False
      let ?mark = "if started then Inr () else w_mark w ?tr1"
      let ?tr2 = "if started then ?tr1 else ?tr1 @ [MarkedDelivery (succeeded ?mark)]"
      let ?seen = "seen \<or> frameHasToolCallDelta chunk"
      show ?thesis
      proof (cases ?mark)
        case (Inl e)
        then have "\<not> started" by (auto split: if_splits)
        with Inl "2.prems"(1) Chunk False tr1 show ?thesis by auto
      next
        case (Inr u)
        have tr2: "disciplined ?tr2" "fenced_delivery ?tr2" using tr1 Inr by auto
        obtain tr3 r3 where wrote: "write_frame w (ModelFrame (public_chunk m ?seen chunk)) ?tr2 = (tr3, r3)"
          by fastforce
        have tr3: "disciplined tr3" "fenced_delivery tr3"
          using tr2 by (simp_all add: write_frame_trace [OF wrote])
        show ?thesis
        proof (cases r3)
          case (Inl e)
          with "2.prems"(1) Chunk False Inr wrote tr3 show ?thesis by (auto simp: Let_def)
        next
          case r3: (Inr v)
          with "2.prems"(1) Chunk False Inr wrote
          have run: "deliver n w m True ?seen tr3 = Some (tr', started', r)" by (auto simp: Let_def)
          from "2.IH"(2) [OF refl Chunk False refl refl refl Inr wrote [symmetric] r3 run tr3(1)] tr3(2)
          show ?thesis by simp
        qed
      qed
    qed
  qed (use "2.prems"(1) tr1 in simp_all)
qed simp

lemma finalize_trace:
  assumes "finalizeThenWriteDone w req tr = (tr', r)" and "disciplined tr"
  shows "disciplined tr' \<and> (fenced_delivery tr' = fenced_delivery tr)"
proof -
  obtain tr1 r1 where settle: "settleWithRetry w req tr = (tr1, r1)" by fastforce
  note s = settleWithRetry_trace [OF settle assms(2)]
  show ?thesis
  proof (cases r1)
    case (Inl e)
    with assms(1) settle s show ?thesis by (simp add: finalizeThenWriteDone_def)
  next
    case (Inr c)
    then have "write_frame w DoneFrame tr1 = (tr', r)"
      using assms(1) settle by (simp add: finalizeThenWriteDone_def)
    from write_frame_trace [OF this] s Inr show ?thesis by simp
  qed
qed

lemma finish_stream_trace:
  assumes "finish_stream w a tr = (tr', r)" and "disciplined tr"
  shows "disciplined tr' \<and> (fenced_delivery tr' = fenced_delivery tr)"
proof (cases "w_usage w tr")
  case (Inl e)
  with assms show ?thesis by (auto simp: finish_stream_def)
next
  case (Inr u)
  define req where "req = \<lparr> sr_usage = stream_usage a u,
    sr_receipt = (if w_binding w (tr @ [UsageRead]) then w_receipt w else None) \<rparr>"
  obtain tr3 r3 where fin: "finalizeThenWriteDone w req (tr @ [UsageRead, BindingRead]) = (tr3, r3)"
    by fastforce
  have "disciplined (tr @ [UsageRead, BindingRead])" using assms(2) by simp
  note f = finalize_trace [OF fin this]
  show ?thesis
    using assms(1) Inr fin f
    by (cases r3) (auto simp: finish_stream_def Let_def req_def end_response_def split: if_splits)
qed

lemma partial_settle_trace:
  assumes "partial_settle w a tr = (tr', ok)" and "disciplined tr"
  shows "disciplined tr' \<and> (fenced_delivery tr' = fenced_delivery tr) \<and> (ok \<longrightarrow> durable tr')"
proof -
  obtain req tr1 r1 where settle: "settleWithRetry w req (tr @ [UsageRead]) = (tr1, r1)"
      and out: "tr' = tr1" "ok = succeeded r1"
    using assms(1) by (auto simp: partial_settle_def Let_def split: prod.splits)
  have "disciplined (tr @ [UsageRead])" using assms(2) by simp
  from settleWithRetry_trace [OF settle this] show ?thesis by (simp add: out)
qed

lemma compensate_trace:
  assumes "compensate_stream w a started disc e tr = (tr', ok)" and "disciplined tr"
    and "fenced_delivery tr = started"
  shows "disciplined tr' \<and> (ok \<longrightarrow> durable tr')"
proof -
  obtain tr1 fin where first: "(if started \<and> app_code e = Some ''provider_stream_incomplete'' \<and> \<not> disc
      then partial_settle w a tr else (tr, False)) = (tr1, fin)" by fastforce
  have tr1: "disciplined tr1" "fenced_delivery tr1 = started" "fin \<Longrightarrow> durable tr1" "fin \<Longrightarrow> started"
    using first partial_settle_trace [of w a tr tr1 fin] assms(2,3) by (auto split: if_splits)
  consider "started" "\<not> fin" | "\<not> started" | "started" "fin" by blast
  then show ?thesis
  proof cases
    case 1
    with assms(1) first tr1 show ?thesis by (auto simp: compensate_stream_def Let_def)
  next
    case 2
    then have "abort_call w UFailed (\<not> disc) tr1 = (tr', ok)"
      using assms(1) first by (auto simp: compensate_stream_def Let_def)
    from abort_call_trace [OF this] tr1 2 show ?thesis by simp
  next
    case 3
    with assms(1) first tr1 show ?thesis by (auto simp: compensate_stream_def Let_def)
  qed
qed

lemma close_trace:
  assumes "disciplined tr" and "fin \<Longrightarrow> durable tr"
  shows "disciplined (close_failed_stream w disc fin tr)"
proof (cases "\<not> disc \<and> fin \<and> \<not> w_destroyed w tr")
  case True
  obtain tr1 r1 where w1: "write_frame w ErrorFrame tr = (tr1, r1)" by fastforce
  obtain tr2 r2 where w2: "write_frame w DoneFrame tr1 = (tr2, r2)" by fastforce
  have "disciplined tr1" "durable tr1" using assms True by (simp_all add: write_frame_trace [OF w1])
  moreover from this have "disciplined tr2" by (simp add: write_frame_trace [OF w2])
  ultimately show ?thesis
    using True w1 w2
    by (cases r1; cases r2) (simp_all add: close_failed_stream_def end_response_trace)
next
  case False
  with assms(1) show ?thesis by (auto simp: close_failed_stream_def)
qed

lemma fail_stream_trace:
  assumes "disciplined tr" and "fenced_delivery tr = started"
  shows "disciplined (fail_stream w a started e tr)"
proof -
  let ?disc = "w_aborted w tr \<or> isAbortError e"
  obtain tr1 fin where comp: "compensate_stream w a started ?disc e tr = (tr1, fin)" by fastforce
  from compensate_trace [OF comp assms] show ?thesis
    by (simp add: fail_stream_def comp close_trace)
qed

lemma stream_attempts_trace:
  assumes "stream_attempts n w a enabled s tr = Some (tr', r)" and "before tr"
  shows "disciplined tr' \<and> (\<forall>e. r = Inl e \<longrightarrow> before tr')"
proof (cases "stream_open n w a enabled s tr")
  case None
  with assms(1) show ?thesis by (simp add: stream_attempts_def)
next
  case (Some opened)
  obtain tr1 r1 where opened: "opened = (tr1, r1)" by (cases opened)
  have b1: "before tr1" using before_stream_open [OF Some [unfolded opened] assms(2)] .
  show ?thesis
  proof (cases r1)
    case (Inl e)
    with assms(1) Some opened b1 show ?thesis by (auto simp: stream_attempts_def before_def)
  next
    case (Inr s')
    define tr2 where "tr2 = tr1 @ [HeadersSent ((case w_receipt w of None \<Rightarrow> []
      | Some i \<Rightarrow> [(RECEIPT_HEADER, i)]) @ transparency a s')]"
    have tr2: "disciplined tr2" "fenced_delivery tr2 = False"
      using b1 by (simp_all add: tr2_def before_def)
    obtain tr3 started err where delivered: "deliver n w (ag_model (sv_grant s')) False False tr2 = Some (tr3, started, err)"
      using assms(1) Some opened Inr
      by (auto simp: stream_attempts_def Let_def tr2_def split: option.splits)
    from deliver_trace [OF delivered tr2] have tr3: "disciplined tr3" "fenced_delivery tr3 = started" by simp_all
    obtain tr4 err4 where finish: "finish_stream w a tr3 = (tr4, err4)" by fastforce
    from finish_stream_trace [OF finish tr3(1)] tr3(2)
    have tr4: "disciplined tr4" "fenced_delivery tr4 = started" by simp_all
    show ?thesis
      using assms(1) Some opened Inr delivered finish tr4 fail_stream_trace [OF tr3] fail_stream_trace [OF tr4]
      by (auto simp: stream_attempts_def Let_def tr2_def [symmetric] split: option.splits)
  qed
qed


subsection \<open>The handler\<close>

lemma before_disciplined: "before tr \<Longrightarrow> disciplined tr"
  by (simp add: before_def)

lemma settle_outcome_trace:
  assumes "settle_outcome w (tr, r) = (tr', out)" and "disciplined tr" and "\<And>e. r = Inl e \<Longrightarrow> before tr"
  shows "disciplined tr'"
proof (cases r)
  case (Inl e)
  have "before (fst (abort_call w (usageStatusForError e) (\<not> (w_aborted w tr \<or> isAbortError e)) tr))"
    by (rule before_abort [OF assms(3) [OF Inl]])
  with assms(1) Inl show ?thesis by (auto simp: settle_outcome_def Let_def before_disciplined)
next
  case (Inr x)
  with assms show ?thesis by (simp add: settle_outcome_def)
qed

lemma before_refuse: "before tr \<Longrightarrow> refuse w e tr = (tr', out) \<Longrightarrow> before tr'"
  using before_abort by (auto simp: refuse_def)

lemma served_run:
  assumes "map_option (settle_outcome w) (if ad_stream a then stream_attempts n w a enabled s tr
      else chat_loop n w a enabled s tr) = Some (tr', out)"
    and "before tr"
  shows "disciplined tr'"
proof -
  obtain tr1 r where run: "(if ad_stream a then stream_attempts n w a enabled s tr
      else chat_loop n w a enabled s tr) = Some (tr1, r)" and out: "settle_outcome w (tr1, r) = (tr', out)"
    using assms(1) by auto
  have "disciplined tr1 \<and> (\<forall>e. r = Inl e \<longrightarrow> before tr1)"
    using run stream_attempts_trace [OF _ assms(2)] before_chat_loop [OF _ assms(2)] before_disciplined
    by (cases "ad_stream a") auto
  with settle_outcome_trace [OF out] show ?thesis by simp
qed

lemma serve_cases:
  assumes "serve_authorized n w a g tr = Some (tr', out)"
  obtains (refused) e where "refuse w e tr = (tr', out)"
  | (incapable) e where "capabilityRefusal (ag_model g) (ad_needs_tools a) (ad_needs_vision a) = None"
      "capable_loop n w a (fallbackEnabled w a g)
         \<lparr> sv_grant = g, sv_attempts = 1, sv_fellBack = False \<rparr> tr = Some (tr', Inl e)" "out = Failed e"
  | (served) tr1 s where "capable_loop n w a (fallbackEnabled w a g)
        \<lparr> sv_grant = g, sv_attempts = 1, sv_fellBack = False \<rparr> tr = Some (tr1, Inr s)"
      "map_option (settle_outcome w) (if ad_stream a then stream_attempts n w a (fallbackEnabled w a g) s tr1
         else chat_loop n w a (fallbackEnabled w a g) s tr1) = Some (tr', out)"
proof (cases "rm_modelType (ag_model g) \<noteq> ''text'' \<or> (ad_stream a \<and> \<not> rm_supportsStreaming (ag_model g))
    \<or> capabilityRefusal (ag_model g) (ad_needs_tools a) (ad_needs_vision a) \<noteq> None")
  case True
  then obtain e where "refuse w e tr = (tr', out)"
    using assms by (auto simp: serve_authorized_def Let_def split: if_splits)
  then show thesis by (rule refused)
next
  case False
  let ?primary = "\<lparr> sv_grant = g, sv_attempts = 1, sv_fellBack = False \<rparr>"
  obtain tr1 r where capable: "capable_loop n w a (fallbackEnabled w a g) ?primary tr = Some (tr1, r)"
    using assms False by (cases "capable_loop n w a (fallbackEnabled w a g) ?primary tr")
      (auto simp: serve_authorized_def Let_def)
  note run = assms [unfolded serve_authorized_def Let_def]
  show thesis
  proof (cases r)
    case (Inl e)
    with run False capable have "tr' = tr1" "out = Failed e" by auto
    with capable Inl False show thesis by (intro incapable) simp_all
  next
    case (Inr s)
    with run False capable show thesis by (intro served) auto
  qed
qed

lemma serve_disciplined:
  assumes "serve_authorized n w a g tr = Some (tr', out)" and "before tr"
  shows "disciplined tr'"
  using assms(1)
proof (cases rule: serve_cases)
  case (refused e)
  then show ?thesis using before_refuse [OF assms(2)] by (simp add: before_disciplined)
next
  case (incapable e)
  then show ?thesis using before_capable [OF _ assms(2)] before_disciplined by metis
next
  case (served tr1 s)
  then show ?thesis using served_run [OF served(2) before_capable [OF served(1) assms(2)]] by simp
qed

lemma before_start: "before [Authorized ok]"
  by (simp add: before_def disciplined_def headers_sent_def)

lemma run_cases:
  assumes "run_chat n w a = Some (tr, out)"
  obtains (gone) "tr = []" "out = Failed client_disconnected"
  | (unauthorized) s ok where "tr = fst (abort_call w s False [Authorized ok])"
      "\<And>g. w_authorize w [] = Inr g \<Longrightarrow> out = Failed client_disconnected"
      "\<And>v h. out \<noteq> Replied v h"
  | (authorized) g where "w_authorize w [] = Inr g" "serve_authorized n w a g [Authorized True] = Some (tr, out)"
proof (cases "w_aborted w []")
  case True
  with assms gone show thesis by (simp add: run_chat_def)
next
  case False
  show thesis
  proof (cases "w_authorize w []")
    case (Inl e)
    with assms False show thesis
      by (intro unauthorized) (auto simp: run_chat_def Let_def split: if_splits)
  next
    case (Inr g)
    with assms False show thesis
      by (cases "w_aborted w [Authorized True]") (auto simp: run_chat_def intro: unauthorized authorized)
  qed
qed

lemma run_disciplined:
  assumes "run_chat n w a = Some (tr, out)"
  shows "disciplined tr"
  using assms
proof (cases rule: run_cases)
  case (unauthorized s ok)
  then show ?thesis using before_abort [OF before_start] by (simp add: before_disciplined)
next
  case (authorized g)
  then show ?thesis using serve_disciplined [OF _ before_start] by blast
qed simp

text \<open>
  C14. However the control plane, the provider workers and the client behave, a chat request keeps the
  billing discipline of the relay: no model output is written before the durable delivery fence has
  committed, no zero-charge abort is sent after it, the completion marker and the error frame are
  written only after a settlement, capture or abort has succeeded, and after the response headers no
  other provider is asked or dispatched.
\<close>

theorem relay_disciplined:
  assumes "run_chat n w a = Some (tr, out)"
  shows "\<forall>i < length tr. allowed (take i tr) (tr ! i)"
  using run_disciplined [OF assms] by (simp add: disciplined_def)

lemma relay_disciplined_witness:
  "\<exists>tr. run_chat 3 sample_world (sample_request True) = Some (tr, ReplyHandedOff)
     \<and> (\<forall>i < length tr. allowed (take i tr) (tr ! i))"
  using relay_disciplined [OF sample_stream_run] sample_stream_run by blast

end
