(* ===== verification/RelayEnd.thy ===== *)
theory RelayEnd
  imports RelaySafety
begin

section \<open>How an execution ends\<close>

text \<open>
  Every authorized request is closed: its reservation is settled, or a capture or an abort is sent.
  Each dispatch uses a grant of its own, an E2EE request is dispatched at most once, and a bounded plan
  with a finite stream always ends. The last section shows an execution in which a lost settlement is
  taken for a failure of the provider.
\<close>

subsection \<open>Closing the reservation\<close>

fun closing :: "relay_event \<Rightarrow> bool" where
  "closing (Settled r ok) = ok"
| "closing (Captured ok) = True"
| "closing (Aborted s p ok) = True"
| "closing e = False"

definition request_closed :: "trace \<Rightarrow> bool" where
  "request_closed tr \<longleftrightarrow> list_ex closing tr"

lemma closed_append [simp]:
  "request_closed (tr @ es) \<longleftrightarrow> request_closed tr \<or> request_closed es"
  "request_closed (e # es) \<longleftrightarrow> closing e \<or> request_closed es"
  "\<not> request_closed []"
  by (simp_all add: request_closed_def)

lemma closed_abort: "request_closed (fst (abort_call w s p tr))"
  by (simp add: abort_call_def Let_def)

lemma closed_settle_call: "settle_call w req tr = (tr', Inr c) \<Longrightarrow> request_closed tr'"
  by (drule settle_call_trace) simp

lemma closed_settle_attempts: "settle_attempts n w req e tr = (tr', Inr c) \<Longrightarrow> request_closed tr'"
proof (induction n arbitrary: e tr)
  case (Suc n)
  obtain tr1 r1 where call: "settle_call w req tr = (tr1, r1)" by fastforce
  show ?case
  proof (cases r1)
    case (Inr d)
    with Suc.prems call closed_settle_call [of w req tr tr1 d] show ?thesis by simp
  next
    case (Inl e')
    with Suc.prems call Suc.IH show ?thesis by simp
  qed
qed simp

lemma closed_settleWithRetry: "settleWithRetry w req tr = (tr', Inr c) \<Longrightarrow> request_closed tr'"
  unfolding settleWithRetry_def by (rule closed_settle_attempts)

lemma closed_finalize:
  assumes "finalizeThenWriteDone w req tr = (tr', Inr u)"
  shows "request_closed tr'"
proof -
  obtain tr1 r1 where settle: "settleWithRetry w req tr = (tr1, r1)" by fastforce
  show ?thesis
  proof (cases r1)
    case (Inr c)
    with assms settle have "write_frame w DoneFrame tr1 = (tr', Inr u)"
      by (simp add: finalizeThenWriteDone_def)
    from write_frame_trace [OF this] closed_settleWithRetry [OF settle [unfolded Inr]] show ?thesis by simp
  qed (use assms settle in \<open>simp add: finalizeThenWriteDone_def\<close>)
qed

lemma closed_finish:
  assumes "finish_stream w a tr = (tr', None)"
  shows "request_closed tr'"
proof (cases "w_usage w tr")
  case (Inr u)
  define req where "req = \<lparr> sr_usage = stream_usage a u,
    sr_receipt = (if w_binding w (tr @ [UsageRead]) then w_receipt w else None) \<rparr>"
  obtain tr3 r3 where fin: "finalizeThenWriteDone w req (tr @ [UsageRead, BindingRead]) = (tr3, r3)"
    by fastforce
  show ?thesis
  proof (cases r3)
    case (Inl e)
    with assms \<open>w_usage w tr = Inr u\<close> fin show ?thesis by (simp add: finish_stream_def Let_def req_def)
  next
    case r3: (Inr v)
    with assms \<open>w_usage w tr = Inr u\<close> fin have "tr' = end_response w tr3"
      by (simp add: finish_stream_def Let_def req_def)
    with closed_finalize [OF fin [unfolded r3]] show ?thesis by (simp add: end_response_def)
  qed
qed (use assms in \<open>simp add: finish_stream_def Let_def\<close>)

lemma closed_partial: "partial_settle w a tr = (tr', True) \<Longrightarrow> request_closed tr'"
  by (auto simp: partial_settle_def Let_def succeeded_def split: prod.splits sum.splits
      dest: closed_settleWithRetry)

lemma closed_compensate: "compensate_stream w a started disc e tr = (tr', ok) \<Longrightarrow> request_closed tr'"
  using closed_partial [of w a tr] closed_abort [of w UFailed "\<not> disc"]
  by (auto simp: compensate_stream_def Let_def abort_call_def split: prod.splits if_splits)

lemma closed_close: "request_closed tr \<Longrightarrow> request_closed (close_failed_stream w disc fin tr)"
  by (auto simp: close_failed_stream_def end_response_def split: prod.splits sum.splits
      dest!: write_frame_trace)

lemma closed_fail_stream: "request_closed (fail_stream w a started e tr)"
proof -
  let ?disc = "w_aborted w tr \<or> isAbortError e"
  obtain tr1 fin where comp: "compensate_stream w a started ?disc e tr = (tr1, fin)" by fastforce
  from closed_compensate [OF comp] show ?thesis by (simp add: fail_stream_def comp closed_close)
qed

lemma closed_stream_attempts:
  assumes "stream_attempts n w a enabled s tr = Some (tr', Inr out)"
  shows "request_closed tr' \<and> out = ReplyHandedOff"
  using assms closed_finish closed_fail_stream
  by (auto simp: stream_attempts_def Let_def split: option.splits sum.splits prod.splits)

lemma settled_chat_attempt:
  assumes "chat_attempt w a s tr = (tr', Inr out)"
  shows "\<exists>req tr1 v h. tr' = tr1 @ [Settled req True] \<and> out = Replied v h"
  using assms
  by (auto simp: chat_attempt_def Let_def split: sum.splits prod.splits dest!: settle_call_trace)

lemma settled_chat_loop:
  assumes "chat_loop n w a enabled s tr = Some (tr', Inr out)"
  shows "\<exists>req tr1 v h. tr' = tr1 @ [Settled req True] \<and> out = Replied v h"
  using assms
proof (induction n w a enabled s tr rule: chat_loop.induct)
  case (2 n w a enabled s tr)
  obtain tr1 r1 where attempt: "chat_attempt w a s tr = (tr1, r1)" by fastforce
  show ?case
  proof (cases r1)
    case (Inr out1)
    with "2.prems" attempt settled_chat_attempt [of w a s tr tr1 out1] show ?thesis by simp
  next
    case (Inl e)
    then show ?thesis
      using "2.prems" attempt "2.IH" [OF attempt [symmetric] Inl _ refl refl]
      by (auto split: option.splits sum.splits)
  qed
qed simp

lemma closed_settle_outcome:
  assumes "settle_outcome w (tr, r) = (tr', out)" and "\<And>x. r = Inr x \<Longrightarrow> request_closed tr"
  shows "request_closed tr'"
  using assms closed_abort by (cases r) (auto simp: settle_outcome_def Let_def)

text \<open>
  The loop before the first dispatch can end without an abort only by a failing call, and it makes
  none when the primary route states its capabilities.
\<close>

definition states_capabilities :: "relay_model \<Rightarrow> bool" where
  "states_capabilities m \<longleftrightarrow> rm_supportsTools m \<noteq> None \<and> rm_supportsVision m \<noteq> None"

lemma stated_capabilities:
  assumes "states_capabilities (ag_model g)"
    and "capabilityRefusal (ag_model g) (ad_needs_tools a) (ad_needs_vision a) = None"
  shows "routeSatisfiesCapabilities a (ag_model g)"
  using assms
  by (auto simp: states_capabilities_def capabilityRefusal_def routeSatisfiesCapabilities_def split: if_splits)

lemma capable_primary:
  assumes "routeSatisfiesCapabilities a (ag_model (sv_grant s))"
    and "capable_loop n w a enabled s tr = Some (tr', r)"
  shows "tr' = tr \<and> r = Inr s"
  using assms by (cases n) simp_all

lemma run_closed:
  assumes "run_chat n w a = Some (tr, out)" and "w_authorize w [] = Inr g"
    and "states_capabilities (ag_model g)"
  shows "(tr = [] \<or> request_closed tr) \<and> (\<forall>v h. out = Replied v h \<longrightarrow> (\<exists>req tr1. tr = tr1 @ [Settled req True]))"
  using assms(1)
proof (cases rule: run_cases)
  case gone
  then show ?thesis by simp
next
  case (unauthorized s ok)
  then show ?thesis using closed_abort by auto
next
  case (authorized g')
  with assms(2) have "serve_authorized n w a g [Authorized True] = Some (tr, out)" by simp
  then show ?thesis
  proof (cases rule: serve_cases)
    case (refused e)
    then show ?thesis using closed_abort by (auto simp: refuse_def)
  next
    case (incapable e)
    then have "routeSatisfiesCapabilities a (ag_model g)" using stated_capabilities [OF assms(3)] by simp
    with incapable(2) show ?thesis
      using capable_primary [of a "\<lparr> sv_grant = g, sv_attempts = 1, sv_fellBack = False \<rparr>"] by fastforce
  next
    case (served tr1 s)
    then obtain tr2 r where run: "(if ad_stream a then stream_attempts n w a (fallbackEnabled w a g) s tr1
        else chat_loop n w a (fallbackEnabled w a g) s tr1) = Some (tr2, r)"
      and out: "settle_outcome w (tr2, r) = (tr, out)" by auto
    show ?thesis
    proof (cases r)
      case (Inl e)
      then show ?thesis
        using out closed_settle_outcome [OF out] by (auto simp: settle_outcome_def Let_def split: if_splits)
    next
      case (Inr x)
      then have "tr = tr2" "out = x" using out by (simp_all add: settle_outcome_def)
      then show ?thesis
        using run Inr closed_stream_attempts [of n w a "fallbackEnabled w a g" s tr1 tr2 x]
          settled_chat_loop [of n w a "fallbackEnabled w a g" s tr1 tr2 x]
        by (cases "ad_stream a") auto
    qed
  qed
qed


text \<open>
  C15. No reservation is left open by the relay: whenever the control plane has authorized a chat
  request and stated the capabilities of the primary route, the execution settles it, or sends a
  capture or an abort, unless the client was gone before the call; and a JSON answer is returned only
  after a successful settlement, which is the last thing the handler did.
\<close>

theorem every_request_closed:
  assumes "run_chat n w a = Some (tr, out)" and "w_authorize w [] = Inr g"
    and "states_capabilities (ag_model g)"
  shows "(tr = [] \<or> request_closed tr) \<and> (\<forall>v h. out = Replied v h \<longrightarrow> (\<exists>req tr1. tr = tr1 @ [Settled req True]))"
  using assms by (rule run_closed)

subsection \<open>Dispatches and grants\<close>

fun dispatch_count :: "trace \<Rightarrow> nat" where
  "dispatch_count [] = 0"
| "dispatch_count (Dispatched req ok # es) = Suc (dispatch_count es)"
| "dispatch_count (_ # es) = dispatch_count es"

fun grant_count :: "trace \<Rightarrow> nat" where
  "grant_count [] = 0"
| "grant_count (NextAsked outcome ok # es) = (if ok then Suc (grant_count es) else grant_count es)"
| "grant_count (_ # es) = grant_count es"

fun ask_count :: "trace \<Rightarrow> nat" where
  "ask_count [] = 0"
| "ask_count (NextAsked outcome ok # es) = Suc (ask_count es)"
| "ask_count (_ # es) = ask_count es"

lemma counts_append [simp]:
  "dispatch_count (xs @ ys) = dispatch_count xs + dispatch_count ys"
  "grant_count (xs @ ys) = grant_count xs + grant_count ys"
  "ask_count (xs @ ys) = ask_count xs + ask_count ys"
  by (induction xs rule: dispatch_count.induct) simp_all

text \<open>The three numbers of a trace, and the steps that leave them alone.\<close>

definition counts :: "trace \<Rightarrow> nat \<times> nat \<times> nat" where
  "counts tr = (dispatch_count tr, grant_count tr, ask_count tr)"

lemma counts_report [simp]: "counts (reportProviderRejection w i e tr) = counts tr"
  by (simp add: counts_def reportProviderRejection_def split: option.split)

lemma counts_settle: "settle_call w req tr = (tr', r) \<Longrightarrow> counts tr' = counts tr"
  by (drule settle_call_trace) (simp add: counts_def)

lemma counts_write: "write_frame w f tr = (tr', r) \<Longrightarrow> counts tr' = counts tr"
  by (drule write_frame_trace) (simp add: counts_def)

lemma counts_abort: "counts (fst (abort_call w s p tr)) = counts tr"
  by (simp add: counts_def abort_call_def Let_def)

lemma counts_abort_call: "abort_call w s p tr = (tr', ok) \<Longrightarrow> counts tr' = counts tr"
  by (drule abort_call_trace) (simp add: counts_def)

fun attempt_event :: "relay_event \<Rightarrow> bool" where
  "attempt_event (Dispatched req ok) = True"
| "attempt_event (NextAsked outcome ok) = True"
| "attempt_event e = False"

lemma counts_event: "\<not> attempt_event e \<Longrightarrow> counts (tr @ [e]) = counts tr"
  by (cases e) (simp_all add: counts_def)

lemma counts_settle_attempts: "settle_attempts n w req e tr = (tr', r) \<Longrightarrow> counts tr' = counts tr"
proof (induction n arbitrary: e tr)
  case (Suc n)
  obtain tr1 r1 where call: "settle_call w req tr = (tr1, r1)" by fastforce
  show ?case
    using Suc.prems Suc.IH [of _ tr1] call counts_settle [OF call] by (cases r1) auto
qed simp

lemma counts_settleWithRetry: "settleWithRetry w req tr = (tr', r) \<Longrightarrow> counts tr' = counts tr"
  unfolding settleWithRetry_def by (rule counts_settle_attempts)

lemma counts_end [simp]: "counts (end_response w tr) = counts tr"
  by (simp add: end_response_def counts_event)

lemma counts_deliver: "deliver n w m started seen tr = Some (tr', r) \<Longrightarrow> counts tr' = counts tr"
proof (induction n w m started seen tr arbitrary: tr' r rule: deliver.induct)
  case (2 n w m started seen tr)
  show ?case
  proof (cases "w_pull w tr")
    case (Chunk chunk)
    show ?thesis
    proof (cases "done_chunk chunk")
      case True
      with "2.prems" "2.IH"(1) [OF refl Chunk True] Chunk show ?thesis by (simp add: counts_event)
    next
      case False
      let ?tr1 = "tr @ [Pulled]"
      let ?mark = "if started then Inr () else w_mark w ?tr1"
      let ?tr2 = "if started then ?tr1 else ?tr1 @ [MarkedDelivery (succeeded ?mark)]"
      let ?seen = "seen \<or> frameHasToolCallDelta chunk"
      have tr2: "counts ?tr2 = counts tr" by (simp add: counts_def)
      show ?thesis
      proof (cases ?mark)
        case (Inl e)
        with "2.prems" Chunk False show ?thesis by (auto simp: counts_def split: if_splits)
      next
        case (Inr u)
        obtain tr3 r3 where wrote: "write_frame w (ModelFrame (public_chunk m ?seen chunk)) ?tr2 = (tr3, r3)"
          by fastforce
        show ?thesis
        proof (cases r3)
          case (Inl e)
          with "2.prems" Chunk False Inr wrote tr2 counts_write [OF wrote] show ?thesis
            by (auto simp: Let_def)
        next
          case r3: (Inr v)
          with "2.prems" Chunk False Inr wrote
          have run: "deliver n w m True ?seen tr3 = Some (tr', r)" by (auto simp: Let_def)
          from "2.IH"(2) [OF refl Chunk False refl refl refl Inr wrote [symmetric] r3 run]
          show ?thesis by (simp only: counts_write [OF wrote] tr2)
        qed
      qed
    qed
  qed (use "2.prems" in \<open>auto simp: counts_event\<close>)
qed simp


lemma counts_finish: "finish_stream w a tr = (tr', r) \<Longrightarrow> counts tr' = counts tr"
  by (auto simp: finish_stream_def finalizeThenWriteDone_def Let_def counts_def
      split: sum.splits prod.splits
      dest!: counts_settleWithRetry [unfolded counts_def] counts_write [unfolded counts_def])
     (metis Pair_inject counts_def counts_end)+

lemma counts_partial: "partial_settle w a tr = (tr', r) \<Longrightarrow> counts tr' = counts tr"
  by (auto simp: partial_settle_def Let_def counts_event split: prod.splits dest!: counts_settleWithRetry)

lemma counts_compensate: "compensate_stream w a started disc e tr = (tr', ok) \<Longrightarrow> counts tr' = counts tr"
  by (auto simp: compensate_stream_def Let_def counts_event split: prod.splits if_splits
      dest: counts_partial counts_abort_call)

lemma counts_close: "counts (close_failed_stream w disc fin tr) = counts tr"
  by (auto simp: close_failed_stream_def counts_event split: prod.splits sum.splits dest!: counts_write)

lemma counts_fail: "counts (fail_stream w a started e tr) = counts tr"
proof -
  let ?disc = "w_aborted w tr \<or> isAbortError e"
  obtain tr1 fin where comp: "compensate_stream w a started ?disc e tr = (tr1, fin)" by fastforce
  from counts_compensate [OF comp] show ?thesis by (simp add: fail_stream_def comp counts_close)
qed

lemma advance_counts:
  assumes "advance_loop n w a outcome fellBack tr = Some (tr', r)"
  shows "dispatch_count tr' = dispatch_count tr \<and> grant_count tr \<le> grant_count tr'
    \<and> (\<forall>s. r = Inr (Some s) \<longrightarrow> grant_count tr < grant_count tr')"
  using assms
proof (induction n w a outcome fellBack tr arbitrary: tr' r rule: advance_loop.induct)
  case (2 n w a outcome fellBack tr)
  obtain tr1 r1 where call: "next_call w outcome tr = (tr1, r1)" by fastforce
  note tr1 = next_call_trace [OF call]
  consider e where "r1 = Inl e" | "r1 = Inr None" | g where "r1 = Inr (Some g)"
    by (metis not_None_eq old.sum.exhaust)
  then show ?case
  proof cases
    case (3 g)
    show ?thesis
    proof (cases "capabilityRefusal (ag_model g) (ad_needs_tools a) (ad_needs_vision a)")
      case None
      with "2.prems" call 3 tr1 show ?thesis by auto
    next
      case (Some e)
      with "2.prems" call 3 have run: "advance_loop n w a outcome fellBack tr1 = Some (tr', r)" by simp
      have "capabilityRefusal (ag_model g) (ad_needs_tools a) (ad_needs_vision a) \<noteq> None" using Some by simp
      from "2.IH" [OF call [symmetric] 3 refl this run] 3 tr1 show ?thesis by auto
    qed
  qed (use "2.prems" call tr1 in \<open>auto split: if_splits\<close>)
qed simp

lemma after_failure_counts:
  assumes "after_failure n w a enabled s e tr = Some (tr', r)"
  shows "dispatch_count tr' = dispatch_count tr \<and> grant_count tr \<le> grant_count tr'
    \<and> (\<forall>s'. r = Inr s' \<longrightarrow> grant_count tr < grant_count tr')"
proof -
  let ?tr = "reportProviderRejection w (sv_attempts s - 1) e tr"
  have same: "dispatch_count ?tr = dispatch_count tr" "grant_count ?tr = grant_count tr"
    using counts_report [of w "sv_attempts s - 1" e tr] by (simp_all add: counts_def)
  show ?thesis
    using assms same
    by (auto simp: after_failure_def advanceToNextAttempt_def
        split: option.splits sum.splits prod.splits if_splits dest: advance_counts)
qed

lemma after_failure_e2ee:
  assumes "after_failure n w a enabled s e tr = Some (tr', r)" and "ad_e2ee a"
  shows "counts tr' = counts tr \<and> (\<exists>e'. r = Inl e')"
  using assms counts_report [of w "sv_attempts s - 1" e tr]
  by (auto simp: after_failure_def advanceToNextAttempt_def
      split: option.splits sum.splits prod.splits if_splits)


lemma chat_attempt_counts:
  "chat_attempt w a s tr = (tr', r) \<Longrightarrow> dispatch_count tr' = Suc (dispatch_count tr)
     \<and> grant_count tr' = grant_count tr \<and> ask_count tr' = ask_count tr"
  by (auto simp: chat_attempt_def Let_def split: sum.splits prod.splits dest!: settle_call_trace)

text \<open>Both attempt loops spend at most one dispatch more than they are given grants.\<close>

lemma chat_loop_counts:
  assumes "chat_loop n w a enabled s tr = Some (tr', r)" and "dispatch_count tr \<le> grant_count tr"
  shows "dispatch_count tr' \<le> Suc (grant_count tr')"
  using assms
proof (induction n w a enabled s tr rule: chat_loop.induct)
  case (2 n w a enabled s tr)
  obtain tr1 r1 where attempt: "chat_attempt w a s tr = (tr1, r1)" by fastforce
  note c1 = chat_attempt_counts [OF attempt]
  show ?case
  proof (cases r1)
    case (Inr out)
    with "2.prems" attempt c1 show ?thesis by simp
  next
    case (Inl e)
    show ?thesis
    proof (cases "after_failure n w a enabled s e tr1")
      case None
      with "2.prems"(1) attempt Inl show ?thesis by simp
    next
      case (Some res)
      obtain tr2 r2 where res: "res = (tr2, r2)" by (cases res)
      note c2 = after_failure_counts [OF Some [unfolded res]]
      show ?thesis
      proof (cases r2)
        case (Inl e')
        with "2.prems" attempt \<open>r1 = Inl e\<close> Some res c1 c2 show ?thesis by simp
      next
        case (Inr s')
        with "2.prems"(1) attempt \<open>r1 = Inl e\<close> Some res
        have run: "chat_loop n w a enabled s' tr2 = Some (tr', r)" by simp
        have "dispatch_count tr2 \<le> grant_count tr2" using c1 c2 Inr "2.prems"(2) by auto
        from "2.IH" [OF attempt [symmetric] \<open>r1 = Inl e\<close> Some res [symmetric] Inr run this] show ?thesis .
      qed
    qed
  qed
qed simp

lemma stream_open_counts:
  assumes "stream_open n w a enabled s tr = Some (tr', r)" and "dispatch_count tr \<le> grant_count tr"
  shows "dispatch_count tr' \<le> Suc (grant_count tr')"
  using assms
proof (induction n w a enabled s tr rule: stream_open.induct)
  case (2 n w a enabled s tr)
  let ?req = "buildWorkerRequest a (sv_grant s)"
  let ?tr1 = "tr @ [Dispatched ?req (succeeded (w_stream w tr ?req))]"
  show ?case
  proof (cases "w_stream w tr ?req")
    case (Inr u)
    with "2.prems" show ?thesis by (auto simp: Let_def)
  next
    case (Inl e)
    show ?thesis
    proof (cases "after_failure n w a enabled s e ?tr1")
      case None
      with "2.prems"(1) Inl show ?thesis by (simp add: Let_def)
    next
      case (Some res)
      obtain tr2 r2 where res: "res = (tr2, r2)" by (cases res)
      note c2 = after_failure_counts [OF Some [unfolded res]]
      show ?thesis
      proof (cases r2)
        case (Inl e')
        with "2.prems" \<open>w_stream w tr ?req = Inl e\<close> Some res c2 show ?thesis by (simp add: Let_def)
      next
        case (Inr s')
        with "2.prems"(1) \<open>w_stream w tr ?req = Inl e\<close> Some res
        have run: "stream_open n w a enabled s' tr2 = Some (tr', r)" by (simp add: Let_def)
        have "dispatch_count tr2 \<le> grant_count tr2" using c2 Inr "2.prems"(2) by auto
        from "2.IH" [OF refl refl refl \<open>w_stream w tr ?req = Inl e\<close> Some res [symmetric] Inr run this] show ?thesis .
      qed
    qed
  qed
qed simp

lemma capable_counts:
  "capable_loop n w a enabled s tr = Some (tr', r) \<Longrightarrow>
     dispatch_count tr' = dispatch_count tr \<and> grant_count tr \<le> grant_count tr'"
proof (induction n w a enabled s tr arbitrary: tr' r rule: capable_loop.induct)
  case (2 n w a enabled s tr)
  show ?case
  proof (cases "routeSatisfiesCapabilities a (ag_model (sv_grant s))")
    case True
    with "2.prems" show ?thesis by simp
  next
    case False
    obtain tr1 r1 where call: "(if enabled then next_call w OutRejected tr else (tr, Inr None)) = (tr1, r1)"
      by fastforce
    have c1: "dispatch_count tr1 = dispatch_count tr" "grant_count tr \<le> grant_count tr1"
      using call by (auto split: if_splits dest!: next_call_trace)
    consider e where "r1 = Inl e" | "r1 = Inr None" | g where "r1 = Inr (Some g)"
      by (metis not_None_eq old.sum.exhaust)
    then show ?thesis
    proof cases
      case (3 g)
      with "2.prems" False call have run: "capable_loop n w a enabled (serve_next g) tr1 = Some (tr', r)" by simp
      from "2.IH" [OF False call [symmetric] 3 refl run] c1 show ?thesis by simp
    next
      case 2
      with "2.prems" False call c1 counts_abort [of w UFailed False tr1] show ?thesis
        by (auto simp: counts_def)
    qed (use "2.prems" False call c1 in auto)
  qed
qed simp

lemma stream_attempts_counts:
  assumes "stream_attempts n w a enabled s tr = Some (tr', r)"
  obtains tr1 r1 where "stream_open n w a enabled s tr = Some (tr1, r1)" "counts tr' = counts tr1"
proof (cases "stream_open n w a enabled s tr")
  case None
  with assms show thesis by (simp add: stream_attempts_def)
next
  case (Some res)
  obtain tr1 r1 where res: "res = (tr1, r1)" by (cases res)
  have "counts tr' = counts tr1"
  proof (cases r1)
    case (Inl e)
    with assms Some res show ?thesis by (simp add: stream_attempts_def)
  next
    case (Inr s')
    define tr2 where "tr2 = tr1 @ [HeadersSent ((case w_receipt w of None \<Rightarrow> []
      | Some i \<Rightarrow> [(RECEIPT_HEADER, i)]) @ transparency a s')]"
    have c2: "counts tr2 = counts tr1" by (simp add: tr2_def counts_event)
    obtain tr3 started err where delivered: "deliver n w (ag_model (sv_grant s')) False False tr2 = Some (tr3, started, err)"
      using assms Some res Inr by (auto simp: stream_attempts_def Let_def tr2_def split: option.splits)
    obtain tr4 err4 where finish: "finish_stream w a tr3 = (tr4, err4)" by fastforce
    show ?thesis
      using assms Some res Inr delivered finish counts_deliver [OF delivered] counts_finish [OF finish] c2
      by (auto simp: stream_attempts_def Let_def tr2_def [symmetric] counts_fail split: option.splits)
  qed
  with Some res that show thesis by blast
qed

lemma settle_outcome_counts: "settle_outcome w (tr, r) = (tr', out) \<Longrightarrow> counts tr' = counts tr"
  by (cases r) (auto simp: settle_outcome_def Let_def counts_abort)

lemma run_dispatches:
  assumes "run_chat n w a = Some (tr, out)"
  shows "dispatch_count tr \<le> Suc (grant_count tr)"
  using assms
proof (cases rule: run_cases)
  case (unauthorized s ok)
  then show ?thesis using counts_abort [of w s False "[Authorized ok]"] by (simp add: counts_def)
next
  case (authorized g)
  from authorized(2) show ?thesis
  proof (cases rule: serve_cases)
    case (refused e)
    then show ?thesis
      using counts_abort [of w UFailed False "[Authorized True]"] by (auto simp: counts_def refuse_def)
  next
    case (incapable e)
    then show ?thesis using capable_counts by fastforce
  next
    case (served tr1 s)
    have "dispatch_count tr1 \<le> grant_count tr1" using capable_counts [OF served(1)] by simp
    obtain tr2 r where run: "(if ad_stream a then stream_attempts n w a (fallbackEnabled w a g) s tr1
        else chat_loop n w a (fallbackEnabled w a g) s tr1) = Some (tr2, r)"
      and out: "settle_outcome w (tr2, r) = (tr, out)" using served(2) by auto
    have "dispatch_count tr2 \<le> Suc (grant_count tr2)"
    proof (cases "ad_stream a")
      case True
      with run obtain tr3 r3 where "stream_open n w a (fallbackEnabled w a g) s tr1 = Some (tr3, r3)"
          "counts tr2 = counts tr3"
        by (auto elim: stream_attempts_counts)
      with stream_open_counts \<open>dispatch_count tr1 \<le> grant_count tr1\<close> show ?thesis by (auto simp: counts_def)
    next
      case False
      with run chat_loop_counts \<open>dispatch_count tr1 \<le> grant_count tr1\<close> show ?thesis by auto
    qed
    with settle_outcome_counts [OF out] show ?thesis by (simp add: counts_def)
  qed
qed simp


text \<open>An E2EE request never asks for another attempt.\<close>

lemma chat_loop_e2ee:
  assumes "chat_loop n w a enabled s tr = Some (tr', r)" and "ad_e2ee a"
  shows "dispatch_count tr' = Suc (dispatch_count tr) \<and> ask_count tr' = ask_count tr"
proof (cases n)
  case (Suc n')
  obtain tr1 r1 where attempt: "chat_attempt w a s tr = (tr1, r1)" by fastforce
  note c1 = chat_attempt_counts [OF attempt]
  show ?thesis
  proof (cases r1)
    case (Inl e)
    with assms(1) Suc attempt obtain tr2 r2 where fail: "after_failure n' w a enabled s e tr1 = Some (tr2, r2)"
      by (cases "after_failure n' w a enabled s e tr1") auto
    from after_failure_e2ee [OF fail assms(2)] show ?thesis
      using assms(1) Suc attempt Inl fail c1 by (auto simp: counts_def)
  qed (use assms Suc attempt c1 in simp)
qed (use assms in simp)

lemma stream_open_e2ee:
  assumes "stream_open n w a enabled s tr = Some (tr', r)" and "ad_e2ee a"
  shows "dispatch_count tr' = Suc (dispatch_count tr) \<and> ask_count tr' = ask_count tr"
proof (cases n)
  case (Suc n')
  let ?req = "buildWorkerRequest a (sv_grant s)"
  let ?tr1 = "tr @ [Dispatched ?req (succeeded (w_stream w tr ?req))]"
  show ?thesis
  proof (cases "w_stream w tr ?req")
    case (Inl e)
    with assms(1) Suc obtain tr2 r2 where fail: "after_failure n' w a enabled s e ?tr1 = Some (tr2, r2)"
      by (cases "after_failure n' w a enabled s e ?tr1") (auto simp: Let_def)
    from after_failure_e2ee [OF fail assms(2)] show ?thesis
      using assms(1) Suc Inl fail by (auto simp: Let_def counts_def)
  qed (use assms Suc in \<open>auto simp: Let_def\<close>)
qed (use assms in simp)

lemma capable_e2ee:
  "capable_loop n w a False s tr = Some (tr', r) \<Longrightarrow> counts tr' = counts tr"
  by (cases n) (auto simp: counts_abort split: if_splits)

lemma run_e2ee:
  assumes "run_chat n w a = Some (tr, out)" and "ad_e2ee a"
  shows "dispatch_count tr \<le> 1 \<and> ask_count tr = 0"
  using assms(1)
proof (cases rule: run_cases)
  case (unauthorized s ok)
  then show ?thesis using counts_abort [of w s False "[Authorized ok]"] by (simp add: counts_def)
next
  case (authorized g)
  have off: "fallbackEnabled w a g = False" by (simp add: fallbackEnabled_def assms(2))
  from authorized(2) show ?thesis
  proof (cases rule: serve_cases)
    case (refused e)
    then show ?thesis
      using counts_abort [of w UFailed False "[Authorized True]"] by (auto simp: counts_def refuse_def)
  next
    case (incapable e)
    then show ?thesis using capable_e2ee unfolding off by (fastforce simp: counts_def)
  next
    case (served tr1 s)
    have c1: "dispatch_count tr1 = 0" "ask_count tr1 = 0"
      using capable_e2ee [OF served(1) [unfolded off]] by (simp_all add: counts_def)
    obtain tr2 r where run: "(if ad_stream a then stream_attempts n w a (fallbackEnabled w a g) s tr1
        else chat_loop n w a (fallbackEnabled w a g) s tr1) = Some (tr2, r)"
      and out: "settle_outcome w (tr2, r) = (tr, out)" using served(2) by auto
    have "dispatch_count tr2 = 1 \<and> ask_count tr2 = 0"
    proof (cases "ad_stream a")
      case True
      with run obtain tr3 r3 where opened: "stream_open n w a (fallbackEnabled w a g) s tr1 = Some (tr3, r3)"
          and "counts tr2 = counts tr3"
        by (auto elim: stream_attempts_counts)
      with stream_open_e2ee [OF opened assms(2)] c1 show ?thesis by (simp add: counts_def)
    next
      case False
      with run have "chat_loop n w a (fallbackEnabled w a g) s tr1 = Some (tr2, r)" by simp
      from chat_loop_e2ee [OF this assms(2)] c1 show ?thesis by simp
    qed
    with settle_outcome_counts [OF out] show ?thesis by (simp add: counts_def)
  qed
qed simp

text \<open>
  C16. The relay never dispatches a request without a grant of its own for it: the number of dispatches
  is at most one more than the number of further attempts the control plane granted, and an E2EE
  request, which is bound to its enclave, is dispatched at most once and never asks for another.
\<close>

theorem dispatch_needs_grant:
  assumes "run_chat n w a = Some (tr, out)"
  shows "dispatch_count tr \<le> 1 + grant_count tr \<and> (ad_e2ee a \<longrightarrow> dispatch_count tr \<le> 1 \<and> ask_count tr = 0)"
  using run_dispatches [OF assms] run_e2ee [OF assms] by simp

subsection \<open>A lost settlement\<close>

definition lost_facts :: rejection_facts where
  "lost_facts = \<lparr> rj_anonrouterCode = Some ''provider_network_error'', rj_providerStatus = None,
     rj_providerRequestId = None, rj_relayOutcome = Some OutNetworkError \<rparr>"

text \<open>
  C18. Without streaming the settlement stands in the try block of the attempt, so when its call to the
  control plane fails in the transport, the failure is taken for one of the provider: it is reported as
  a rejection by the provider that has just answered, the answer is dropped, and the request, served
  once already, goes to the next provider of the plan.
\<close>

theorem lost_settlement_dispatches_again:
  assumes "req = buildWorkerRequest a (sv_grant s)" and "w_chat w tr req = Inr r"
    and "settle_of_chat w a r = Inr sreq"
    and "w_settle w (tr @ [Dispatched req True]) sreq = Inl (RType ''fetch failed'')"
    and "\<forall>t. \<not> w_aborted w t" and "w_can_report w" and "\<not> ad_e2ee a"
    and "w_next w (tr @ [Dispatched req True, Settled sreq False, Reported (sv_attempts s - 1) lost_facts])
      = Inr (Some g)"
    and "capabilityRefusal (ag_model g) (ad_needs_tools a) (ad_needs_vision a) = None"
  shows "chat_loop (Suc (Suc n)) w a True s tr =
    chat_loop (Suc n) w a True (serve_next g)
      (tr @ [Dispatched req True, Settled sreq False, Reported (sv_attempts s - 1) lost_facts,
         NextAsked OutNetworkError True])"
proof -
  have attempt: "chat_attempt w a s tr =
      (tr @ [Dispatched req True, Settled sreq False], Inl (RType ''fetch failed''))"
    using assms(2-4) by (simp add: chat_attempt_def assms(1) settle_call_def Let_def)
  have report: "reportProviderRejection w (sv_attempts s - 1) (RType ''fetch failed'')
      (tr @ [Dispatched req True, Settled sreq False]) =
    tr @ [Dispatched req True, Settled sreq False, Reported (sv_attempts s - 1) lost_facts]"
    using assms(5,6)
    by (simp add: reportProviderRejection_def isAbortError_def app_code_def providerRejectionFacts_def
        transport_failure_def lost_facts_def)
  have "after_failure (Suc n) w a True s (RType ''fetch failed'')
      (tr @ [Dispatched req True, Settled sreq False]) =
    Some (tr @ [Dispatched req True, Settled sreq False, Reported (sv_attempts s - 1) lost_facts,
       NextAsked OutNetworkError True], Inr (serve_next g))"
    using assms(5,7-9)
    by (simp add: after_failure_def report advanceToNextAttempt_def isAbortError_def app_code_def
        providerFallbackOutcome_def transport_failure_def next_call_def Let_def)
  with attempt show ?thesis by simp
qed

subsection \<open>Witnesses\<close>

lemma every_request_closed_witness:
  "\<exists>tr v h. run_chat 3 sample_world (sample_request False) = Some (tr, Replied v h)
     \<and> (\<exists>req tr1. tr = tr1 @ [Settled req True])"
proof -
  have "w_authorize sample_world [] = Inr (sample_grant 0)"
    and "states_capabilities (ag_model (sample_grant 0))"
    by (simp_all add: sample_world_def states_capabilities_def sample_grant_def sample_relay_model_def)
  from every_request_closed [OF sample_chat_run this] sample_chat_run show ?thesis by blast
qed

lemma dispatch_needs_grant_witness:
  "\<exists>tr out. run_chat 3 sample_world (sample_request True) = Some (tr, out)
     \<and> dispatch_count tr \<le> 1 + grant_count tr"
  using dispatch_needs_grant [OF sample_stream_run] sample_stream_run by blast

lemma lost_settlement_dispatches_again_witness:
  "chat_loop 3 lossy_world (sample_request False) True
     \<lparr> sv_grant = sample_grant 0, sv_attempts = 1, sv_fellBack = False \<rparr> [Authorized True] =
   chat_loop 2 lossy_world (sample_request False) True (serve_next (sample_grant 1))
     [Authorized True, Dispatched sample_worker_request True, Settled sample_settlement False,
      Reported 0 lost_facts, NextAsked OutNetworkError True]"
proof -
  have "sample_worker_request = buildWorkerRequest (sample_request False) (sample_grant 0)"
    and "w_chat lossy_world [Authorized True] sample_worker_request =
      Inr \<lparr> ch_response = JObject [], ch_usage = None, ch_binding = False \<rparr>"
    and "settle_of_chat lossy_world (sample_request False)
      \<lparr> ch_response = JObject [], ch_usage = None, ch_binding = False \<rparr> = Inr sample_settlement"
    and "w_settle lossy_world [Authorized True, Dispatched sample_worker_request True] sample_settlement
      = Inl (RType ''fetch failed'')"
    and "w_next lossy_world [Authorized True, Dispatched sample_worker_request True,
      Settled sample_settlement False, Reported 0 lost_facts] = Inr (Some (sample_grant 1))"
    and "capabilityRefusal (ag_model (sample_grant 1)) (ad_needs_tools (sample_request False))
      (ad_needs_vision (sample_request False)) = None"
    by code_simp+
  moreover have "\<forall>t. \<not> w_aborted lossy_world t" "w_can_report lossy_world" "\<not> ad_e2ee (sample_request False)"
    by (simp_all add: lossy_world_def sample_world_def sample_request_def)
  ultimately show ?thesis
    using lost_settlement_dispatches_again [of sample_worker_request "sample_request False"
        "\<lparr> sv_grant = sample_grant 0, sv_attempts = 1, sv_fellBack = False \<rparr>" lossy_world
        "[Authorized True]" "\<lparr> ch_response = JObject [], ch_usage = None, ch_binding = False \<rparr>"
        sample_settlement "sample_grant 1" 1]
    by (simp add: numeral_3_eq_3 numeral_2_eq_2 del: chat_loop.simps)
qed

end
