(* ===== verification/RelayTotal.thy ===== *)
theory RelayTotal
  imports RelayEnd
begin

section \<open>Every chat request ends\<close>

text \<open>
  A plan of \<open>k\<close> further attempts: once the control plane has granted \<open>k\<close>, it grants no more. A finite
  stream: after \<open>m\<close> frames have been pulled it ends or fails. With both, the handler returns: each pass
  of an attempt loop uses a grant, and each pass of the delivery loop pulls a frame.
\<close>

definition bounded_plan :: "relay_world \<Rightarrow> nat \<Rightarrow> bool" where
  "bounded_plan w k \<longleftrightarrow> (\<forall>tr g. k \<le> grant_count tr \<longrightarrow> w_next w tr \<noteq> Inr (Some g))"

fun pull_count :: "trace \<Rightarrow> nat" where
  "pull_count [] = 0"
| "pull_count (Pulled # es) = Suc (pull_count es)"
| "pull_count (_ # es) = pull_count es"

lemma pull_append [simp]: "pull_count (xs @ ys) = pull_count xs + pull_count ys"
  by (induction xs rule: pull_count.induct) simp_all

definition finite_stream :: "relay_world \<Rightarrow> nat \<Rightarrow> bool" where
  "finite_stream w m \<longleftrightarrow> (\<forall>tr c. m \<le> pull_count tr \<longrightarrow> w_pull w tr \<noteq> Chunk c)"

lemma next_granted:
  assumes "bounded_plan w k" and "next_call w outcome tr = (tr1, Inr (Some g))"
  shows "grant_count tr < k \<and> grant_count tr1 = Suc (grant_count tr)"
proof
  from assms(2) have "w_next w tr = Inr (Some g)" by (simp add: next_call_def Let_def)
  with assms(1) show "grant_count tr < k" by (meson bounded_plan_def not_le_imp_less)
  from next_call_trace [OF assms(2)] show "grant_count tr1 = Suc (grant_count tr)" by simp
qed

lemma advance_ends:
  assumes "bounded_plan w k" and "k - grant_count tr < n"
  shows "advance_loop n w a outcome fellBack tr \<noteq> None"
  using assms(2)
proof (induction n arbitrary: tr)
  case (Suc n)
  obtain tr1 r1 where call: "next_call w outcome tr = (tr1, r1)" by fastforce
  consider e where "r1 = Inl e" | "r1 = Inr None" | g where "r1 = Inr (Some g)"
    by (metis not_None_eq old.sum.exhaust)
  then show ?case
  proof cases
    case (3 g)
    from next_granted [OF assms(1) call [unfolded 3]] Suc.prems
    have "k - grant_count tr1 < n" by linarith
    from Suc.IH [OF this] 3 call show ?thesis by simp
  qed (use call in simp_all)
qed simp

lemma advance_below:
  assumes "bounded_plan w k" and "advance_loop n w a outcome fellBack tr = Some (tr', Inr (Some s))"
  shows "grant_count tr' \<le> k"
  using assms(2)
proof (induction n arbitrary: tr)
  case (Suc n)
  obtain tr1 r1 where call: "next_call w outcome tr = (tr1, r1)" by fastforce
  consider e where "r1 = Inl e" | "r1 = Inr None" | g where "r1 = Inr (Some g)"
    by (metis not_None_eq old.sum.exhaust)
  then show ?case
  proof cases
    case (3 g)
    from next_granted [OF assms(1) call [unfolded 3]] Suc 3 call show ?thesis
      by (auto split: if_splits)
  qed (use Suc.prems call in \<open>auto split: if_splits\<close>)
qed simp

lemma after_failure_ends:
  assumes "bounded_plan w k" and "k - grant_count tr < n"
  shows "after_failure n w a enabled s e tr \<noteq> None"
proof -
  let ?tr = "reportProviderRejection w (sv_attempts s - 1) e tr"
  have "grant_count ?tr = grant_count tr"
    using counts_report [of w "sv_attempts s - 1" e tr] by (simp add: counts_def)
  with assms have "k - grant_count ?tr < n" by simp
  then have "advanceToNextAttempt n w a enabled (sv_fellBack s) e ?tr \<noteq> None"
    using advance_ends [OF assms(1)] by (simp add: advanceToNextAttempt_def split: option.split)
  then show ?thesis by (auto simp: after_failure_def split: option.split sum.split)
qed

lemma after_failure_below:
  assumes "bounded_plan w k" and "after_failure n w a enabled s e tr = Some (tr', Inr s')"
  shows "grant_count tr < grant_count tr' \<and> grant_count tr' \<le> k"
  using assms(2) after_failure_counts [OF assms(2)]
  by (auto simp: after_failure_def advanceToNextAttempt_def
      split: option.splits sum.splits prod.splits if_splits dest: advance_below [OF assms(1)])

lemma chat_loop_ends:
  assumes "bounded_plan w k" and "Suc (k - grant_count tr) < n"
  shows "chat_loop n w a enabled s tr \<noteq> None"
  using assms(2)
proof (induction n arbitrary: s tr)
  case (Suc n)
  obtain tr1 r1 where attempt: "chat_attempt w a s tr = (tr1, r1)" by fastforce
  note c1 = chat_attempt_counts [OF attempt]
  show ?case
  proof (cases r1)
    case (Inl e)
    from Suc.prems c1 have "after_failure n w a enabled s e tr1 \<noteq> None"
      by (intro after_failure_ends [OF assms(1)]) simp
    then obtain tr2 r2 where fail: "after_failure n w a enabled s e tr1 = Some (tr2, r2)" by auto
    show ?thesis
    proof (cases r2)
      case r2: (Inr s')
      from after_failure_below [OF assms(1) fail [unfolded r2]] c1 Suc.prems
      have "Suc (k - grant_count tr2) < n" by linarith
      from Suc.IH [OF this] attempt Inl fail r2 show ?thesis by simp
    qed (use attempt Inl fail in simp)
  qed (use attempt in simp)
qed simp

lemma stream_open_ends:
  assumes "bounded_plan w k" and "Suc (k - grant_count tr) < n"
  shows "stream_open n w a enabled s tr \<noteq> None"
  using assms(2)
proof (induction n arbitrary: s tr)
  case (Suc n)
  let ?req = "buildWorkerRequest a (sv_grant s)"
  let ?tr1 = "tr @ [Dispatched ?req (succeeded (w_stream w tr ?req))]"
  show ?case
  proof (cases "w_stream w tr ?req")
    case (Inl e)
    from Suc.prems have "after_failure n w a enabled s e ?tr1 \<noteq> None"
      by (intro after_failure_ends [OF assms(1)]) simp
    then obtain tr2 r2 where fail: "after_failure n w a enabled s e ?tr1 = Some (tr2, r2)" by auto
    show ?thesis
    proof (cases r2)
      case r2: (Inr s')
      from after_failure_below [OF assms(1) fail [unfolded r2]] Suc.prems
      have "Suc (k - grant_count tr2) < n" by (simp, linarith)
      from Suc.IH [OF this] Inl fail r2 show ?thesis by (simp add: Let_def)
    qed (use Inl fail in \<open>simp add: Let_def\<close>)
  qed (simp add: Let_def)
qed simp

lemma capable_ends:
  assumes "bounded_plan w k" and "k - grant_count tr < n"
  shows "capable_loop n w a enabled s tr \<noteq> None"
  using assms(2)
proof (induction n arbitrary: s tr)
  case (Suc n)
  obtain tr1 r1 where call: "(if enabled then next_call w OutRejected tr else (tr, Inr None)) = (tr1, r1)"
    by fastforce
  consider e where "r1 = Inl e" | "r1 = Inr None" | g where "r1 = Inr (Some g)"
    by (metis not_None_eq old.sum.exhaust)
  then show ?case
  proof cases
    case (3 g)
    with call have "next_call w OutRejected tr = (tr1, Inr (Some g))" by (simp split: if_splits)
    from next_granted [OF assms(1) this] Suc.prems have "k - grant_count tr1 < n" by linarith
    from Suc.IH [OF this] 3 call show ?thesis by (simp del: if_split)
  qed (use call in \<open>simp_all del: if_split\<close>)
qed simp

lemma deliver_ends:
  assumes "finite_stream w m" and "m - pull_count tr < n"
  shows "deliver n w mdl started seen tr \<noteq> None"
  using assms(2)
proof (induction n arbitrary: started seen tr)
  case (Suc n)
  show ?case
  proof (cases "w_pull w tr")
    case (Chunk c)
    with assms(1) have "pull_count tr < m" by (meson finite_stream_def not_le_imp_less)
    with Suc.prems have small: "m - Suc (pull_count tr) < n" by linarith
    have "deliver n w mdl started' seen' (tr @ Pulled # es) \<noteq> None" if "pull_count es = 0" for started' seen' es
      using that small by (intro Suc.IH) simp
    then show ?thesis
      using Chunk Suc.IH [of "tr @ [Pulled]" started seen] small
      by (auto simp: Let_def write_frame_def split: sum.split)
  qed simp_all
qed simp

lemma stream_attempts_ends:
  assumes "bounded_plan w k" and "finite_stream w m" and "Suc k < n" and "m < n"
  shows "stream_attempts n w a enabled s tr \<noteq> None"
proof -
  have "Suc (k - grant_count tr) < n" using assms(3) by linarith
  from stream_open_ends [OF assms(1) this] obtain tr1 r1
    where opened: "stream_open n w a enabled s tr = Some (tr1, r1)" by fastforce
  have "deliver n w mdl started seen tr' \<noteq> None" for mdl started seen tr'
    using assms(4) by (intro deliver_ends [OF assms(2)]) simp
  note delivers = this
  show ?thesis
    unfolding stream_attempts_def opened Let_def
    by (simp add: delivers del: not_None_eq split: option.split sum.split prod.split)
qed

lemma run_ends:
  assumes "bounded_plan w k" and "finite_stream w m" and "Suc k < n" and "m < n"
  shows "run_chat n w a \<noteq> None"
proof -
  have "serve_authorized n w a g tr \<noteq> None" for g tr
  proof -
    let ?s = "\<lparr> sv_grant = g, sv_attempts = 1, sv_fellBack = False \<rparr>"
    have fuel: "Suc (k - grant_count tr') < n" for tr' using assms(3) by linarith
    then have "k - grant_count tr < n" by (meson Suc_lessD)
    from capable_ends [OF assms(1) this]
    obtain tr1 r1 where capable: "capable_loop n w a (fallbackEnabled w a g) ?s tr = Some (tr1, r1)"
      by fastforce
    have "chat_loop n w a enabled s tr' \<noteq> None" for enabled s tr'
      using fuel by (intro chat_loop_ends [OF assms(1)])
    note loops = this stream_attempts_ends [OF assms]
    show ?thesis
      unfolding serve_authorized_def Let_def capable
      by (simp add: loops del: not_None_eq split: option.split sum.split)
  qed
  note serves = this
  show ?thesis
    unfolding run_chat_def Let_def
    by (simp add: serves del: not_None_eq split: sum.split)
qed

text \<open>
  C17. The relay returns: with a plan of at most \<open>k\<close> further attempts and a provider stream of at most
  \<open>m\<close> frames, whatever fails on the way, the handler finishes after at most \<open>k + m + 2\<close> passes of any of
  its loops, so no request can make it retry or read for ever.
\<close>

theorem relay_terminates:
  assumes "bounded_plan w k" and "finite_stream w m"
  shows "\<exists>tr out. run_chat (k + m + 2) w a = Some (tr, out)"
  using run_ends [OF assms, of "k + m + 2" a] by auto

lemma granted_count: "list_ex granted tr \<longleftrightarrow> 0 < grant_count tr"
  by (induction tr rule: grant_count.induct) simp_all

lemma pulled_none: "Pulled \<notin> set tr \<Longrightarrow> pull_count tr = 0"
  by (induction tr rule: pull_count.induct) simp_all

lemma relay_terminates_witness:
  "\<exists>tr out. run_chat 4 sample_world (sample_request True) = Some (tr, out)"
proof -
  have "bounded_plan sample_world 1"
    by (simp add: bounded_plan_def sample_world_def granted_count)
  moreover have "finite_stream sample_world 1"
    by (auto simp: finite_stream_def sample_world_def Suc_le_eq dest: pulled_none)
  ultimately show ?thesis
    using relay_terminates [of sample_world 1 1 "sample_request True"] by (simp add: eval_nat_numeral)
qed

end
