(* ===== verification/Glob.thy ===== *)
theory Glob
  imports Prelude ProviderPolicy
begin

section \<open>Model patterns (routing/selector.ts)\<close>

text \<open>
  The glob matcher of automatic routing: a greedy scan with two positions that remembers the last star
  and how much of the value it has absorbed. The position and mark of that star, \<open>-1\<close> in the code
  before the first one, are an option here. The scan is shown to decide the declarative meaning of a
  pattern, \<open>glob_spec\<close>, and the measure of its termination is the bound on its steps.
\<close>

definition MAX_GLOB_WILDCARDS :: nat where
  "MAX_GLOB_WILDCARDS = 8"

definition star_gap :: "string \<Rightarrow> (nat \<times> nat) option \<Rightarrow> nat \<Rightarrow> nat \<Rightarrow> nat" where
  "star_gap p star i j =
     (case star of None \<Rightarrow> 0 | Some (s, mark) \<Rightarrow> if s < i \<and> mark \<le> j then 0 else 1)"

text \<open>The while loop: the position in the pattern when the value is consumed, None when it gives up.\<close>

function glob_loop :: "string \<Rightarrow> string \<Rightarrow> nat \<Rightarrow> nat \<Rightarrow> (nat \<times> nat) option \<Rightarrow> nat option" where
  "glob_loop p v i j star =
     (if j < length v then
        if i < length p \<and> p ! i = CHR ''*'' then glob_loop p v (i + 1) j (Some (i, j))
        else if i < length p \<and> p ! i = v ! j then glob_loop p v (i + 1) (j + 1) star
        else (case star of
                Some (s, mark) \<Rightarrow> glob_loop p v (s + 1) (mark + 1) (Some (s, mark + 1))
              | None \<Rightarrow> None)
      else Some i)"
  by pat_completeness auto

termination
  by (relation "measures [\<lambda>(p, v, i, j, star). star_gap p star i j,
       \<lambda>(p, v, i, j, star). (case star of None \<Rightarrow> Suc (length p) | Some (s, mark) \<Rightarrow> length p - s),
       \<lambda>(p, v, i, j, star). (case star of None \<Rightarrow> 0 | Some (s, mark) \<Rightarrow> length v - mark),
       \<lambda>(p, v, i, j, star). length v - j]")
     (auto simp: star_gap_def split: option.splits)

definition globMatches :: "string \<Rightarrow> string \<Rightarrow> bool" where
  "globMatches pattern value =
     (if length (filter (\<lambda>c. c = CHR ''*'') pattern) > MAX_GLOB_WILDCARDS then False
      else
        let p = map to_lower_char pattern; v = map to_lower_char value
        in case glob_loop p v 0 0 None of
             None \<Rightarrow> False
           | Some i \<Rightarrow> list_all (\<lambda>c. c = CHR ''*'') (drop i p))"

declare glob_loop.simps [simp del]

subsection \<open>The meaning of a pattern\<close>

text \<open>A star stands for any text, every other character for itself.\<close>

fun glob_spec :: "string \<Rightarrow> string \<Rightarrow> bool" where
  "glob_spec [] v \<longleftrightarrow> v = []"
| "glob_spec (c # p) v \<longleftrightarrow>
     (if c = CHR ''*'' then list_ex (\<lambda>k. glob_spec p (drop k v)) [0..<Suc (length v)]
      else v \<noteq> [] \<and> hd v = c \<and> glob_spec p (tl v))"

lemma glob_star: "glob_spec (CHR ''*'' # p) v \<longleftrightarrow> (\<exists>k \<le> length v. glob_spec p (drop k v))"
  by (auto simp: list_ex_iff less_Suc_eq_le simp del: upt_Suc)

lemma glob_literal: "c \<noteq> CHR ''*'' \<Longrightarrow> glob_spec (c # p) v \<longleftrightarrow> (\<exists>v'. v = c # v' \<and> glob_spec p v')"
  by (cases v) auto

lemma glob_only_stars: "glob_spec p [] \<longleftrightarrow> list_all (\<lambda>c. c = CHR ''*'') p"
  by (induction p) auto

lemma glob_star_absorbs:
  assumes "glob_spec (CHR ''*'' # p) (drop k v)" and "j \<le> k" and "k \<le> length v"
  shows "glob_spec (CHR ''*'' # p) (drop j v)"
proof -
  from assms(1) obtain n where n: "n \<le> length (drop k v)" "glob_spec p (drop n (drop k v))"
    unfolding glob_star by blast
  then have "glob_spec p (drop ((k - j) + n) (drop j v))" using assms(2) by (simp add: add.commute)
  moreover have "(k - j) + n \<le> length (drop j v)" using n(1) assms(2,3) by simp
  ultimately show ?thesis unfolding glob_star by blast
qed

text \<open>A text without stars matches itself only.\<close>

lemma glob_segment:
  assumes "CHR ''*'' \<notin> set seg"
  shows "glob_spec (seg @ p) v \<longleftrightarrow> (\<exists>v'. v = seg @ v' \<and> glob_spec p v')"
  using assms by (induction seg arbitrary: v) (auto simp: glob_literal simp del: glob_spec.simps)

subsection \<open>The scan decides it\<close>

text \<open>
  Between the last star and the position in the pattern lies a segment without stars, which the value has
  just after what the star has absorbed.
\<close>

definition scan_inv :: "string \<Rightarrow> string \<Rightarrow> nat \<Rightarrow> nat \<Rightarrow> (nat \<times> nat) option \<Rightarrow> bool" where
  "scan_inv p v i j star \<longleftrightarrow>
     (case star of
        None \<Rightarrow> True
      | Some (s, mark) \<Rightarrow>
          \<exists>seg. drop s p = CHR ''*'' # seg @ drop i p \<and> CHR ''*'' \<notin> set seg
            \<and> drop mark v = seg @ drop j v \<and> mark \<le> length v)"

definition scan_goal :: "string \<Rightarrow> string \<Rightarrow> nat \<Rightarrow> nat \<Rightarrow> (nat \<times> nat) option \<Rightarrow> bool" where
  "scan_goal p v i j star \<longleftrightarrow>
     (case star of
        None \<Rightarrow> glob_spec (drop i p) (drop j v)
      | Some (s, mark) \<Rightarrow> glob_spec (drop s p) (drop mark v))"

lemma drop_at: "i < length xs \<Longrightarrow> drop i xs = xs ! i # drop (Suc i) xs"
  by (simp add: Cons_nth_drop_Suc)

lemma goal_new_star:
  assumes "scan_inv p v i j star" and "j < length v" and "i < length p" and "p ! i = CHR ''*''"
  shows "scan_goal p v i j star \<longleftrightarrow> glob_spec (drop i p) (drop j v)"
proof (cases star)
  case (Some sm)
  obtain s mark where sm: "sm = (s, mark)" by (cases sm)
  from assms(1) Some sm obtain seg where seg: "drop s p = CHR ''*'' # seg @ drop i p" "CHR ''*'' \<notin> set seg"
    "drop mark v = seg @ drop j v" "mark \<le> length v" by (auto simp: scan_inv_def)
  have star: "drop i p = CHR ''*'' # drop (Suc i) p" using assms(3,4) drop_at by metis
  have j: "j = mark + length seg"
    using arg_cong [OF seg(3), of length] assms(2) seg(4) by simp
  show ?thesis
  proof
    assume "scan_goal p v i j star"
    then obtain k where k: "k \<le> length (drop mark v)" "glob_spec (seg @ drop i p) (drop k (drop mark v))"
      unfolding scan_goal_def Some sm by (simp add: seg(1) glob_star del: glob_spec.simps) blast
    from k(2) obtain v' where v': "drop k (drop mark v) = seg @ v'" "glob_spec (drop i p) v'"
      unfolding glob_segment [OF seg(2)] by blast
    have "v' = drop (j + k) v"
      using arg_cong [OF v'(1), of "drop (length seg)"] by (simp add: j add.commute add.left_commute)
    moreover have "j + k \<le> length v"
      using arg_cong [OF v'(1), of length] k(1) assms(2) seg(4) j by simp
    ultimately show "glob_spec (drop i p) (drop j v)"
      using v'(2) glob_star_absorbs [of "drop (Suc i) p" "j + k" v j] unfolding star by simp
  next
    assume "glob_spec (drop i p) (drop j v)"
    then have "glob_spec (seg @ drop i p) (drop mark v)"
      unfolding glob_segment [OF seg(2)] seg(3) by blast
    then have "glob_spec (drop s p) (drop mark v)"
      unfolding seg(1) glob_star by (metis drop0 le0)
    then show "scan_goal p v i j star" by (simp add: scan_goal_def Some sm)
  qed
qed (simp add: scan_goal_def)

lemma inv_new_star:
  assumes "i < length p" and "p ! i = CHR ''*''" and "j \<le> length v"
  shows "scan_inv p v (Suc i) j (Some (i, j))"
  using assms drop_at [OF assms(1)] by (simp add: scan_inv_def)

lemma inv_match:
  assumes "scan_inv p v i j star" and "j < length v" and "i < length p" and "p ! i = v ! j"
    and "p ! i \<noteq> CHR ''*''"
  shows "scan_inv p v (Suc i) (Suc j) star"
proof (cases star)
  case (Some sm)
  obtain s mark where sm: "sm = (s, mark)" by (cases sm)
  from assms(1) Some sm obtain seg where seg: "drop s p = CHR ''*'' # seg @ drop i p" "CHR ''*'' \<notin> set seg"
    "drop mark v = seg @ drop j v" "mark \<le> length v" by (auto simp: scan_inv_def)
  have "drop s p = CHR ''*'' # (seg @ [p ! i]) @ drop (Suc i) p \<and> CHR ''*'' \<notin> set (seg @ [p ! i])
      \<and> drop mark v = (seg @ [p ! i]) @ drop (Suc j) v \<and> mark \<le> length v"
    unfolding seg(1,3) drop_at [OF assms(3)] drop_at [OF assms(2)] using assms(4,5) seg(2,4) by simp
  then show ?thesis unfolding scan_inv_def Some sm option.case prod.case by (rule exI)
qed (simp add: scan_inv_def)

text \<open>A mismatch makes the star absorb one more character.\<close>

lemma goal_mismatch:
  assumes "scan_inv p v i j (Some (s, mark))" and "j < length v" and "\<not> glob_spec (drop i p) (drop j v)"
  shows "scan_goal p v i j (Some (s, mark)) \<longleftrightarrow> scan_goal p v (Suc s) (Suc mark) (Some (s, Suc mark))"
    and "scan_inv p v (Suc s) (Suc mark) (Some (s, Suc mark))" and "Suc mark \<le> length v"
proof -
  from assms(1) obtain seg where seg: "drop s p = CHR ''*'' # seg @ drop i p" "CHR ''*'' \<notin> set seg"
    "drop mark v = seg @ drop j v" "mark \<le> length v" by (auto simp: scan_inv_def)
  have "mark < length v" using arg_cong [OF seg(3), of length] assms(2) seg(4) by (cases "mark = length v") auto
  then show "Suc mark \<le> length v" by simp
  have rest: "drop (Suc s) p = seg @ drop i p"
    using arg_cong [OF seg(1), of tl] by (simp add: drop_Suc tl_drop)
  then show "scan_inv p v (Suc s) (Suc mark) (Some (s, Suc mark))"
    using seg(1) \<open>mark < length v\<close> by (simp add: scan_inv_def)
  have no: "\<not> glob_spec (seg @ drop i p) (drop mark v)"
    unfolding glob_segment [OF seg(2)] seg(3) using assms(3) by simp
  have "glob_spec (CHR ''*'' # seg @ drop i p) (drop mark v) \<longleftrightarrow>
      glob_spec (CHR ''*'' # seg @ drop i p) (drop (Suc mark) v)"
  proof
    assume "glob_spec (CHR ''*'' # seg @ drop i p) (drop mark v)"
    then obtain k where k: "k \<le> length (drop mark v)" "glob_spec (seg @ drop i p) (drop k (drop mark v))"
      unfolding glob_star by blast
    with no obtain k' where "k = Suc k'" by (cases k) auto
    with k show "glob_spec (CHR ''*'' # seg @ drop i p) (drop (Suc mark) v)"
      unfolding glob_star by (intro exI [of _ k']) (simp add: add.commute)
  next
    assume "glob_spec (CHR ''*'' # seg @ drop i p) (drop (Suc mark) v)"
    from glob_star_absorbs [OF this, of mark] \<open>mark < length v\<close>
    show "glob_spec (CHR ''*'' # seg @ drop i p) (drop mark v)" by simp
  qed
  then show "scan_goal p v i j (Some (s, mark)) \<longleftrightarrow> scan_goal p v (Suc s) (Suc mark) (Some (s, Suc mark))"
    by (simp add: scan_goal_def seg(1) del: glob_spec.simps)
qed

text \<open>At the end of the value the star cannot absorb more, because the segment would not fit.\<close>

lemma goal_end:
  assumes "scan_inv p v i j star" and "j = length v"
  shows "scan_goal p v i j star \<longleftrightarrow> glob_spec (drop i p) []"
proof (cases star)
  case (Some sm)
  obtain s mark where sm: "sm = (s, mark)" by (cases sm)
  from assms Some sm obtain seg where seg: "drop s p = CHR ''*'' # seg @ drop i p" "CHR ''*'' \<notin> set seg"
    "drop mark v = seg" "mark \<le> length v" by (auto simp: scan_inv_def)
  have "(\<exists>k \<le> length seg. glob_spec (seg @ drop i p) (drop k seg)) \<longleftrightarrow> glob_spec (drop i p) []"
  proof
    assume "\<exists>k \<le> length seg. glob_spec (seg @ drop i p) (drop k seg)"
    then obtain k v' where k: "k \<le> length seg" "drop k seg = seg @ v'" "glob_spec (drop i p) v'"
      unfolding glob_segment [OF seg(2)] by blast
    have "length v' = 0" using arg_cong [OF k(2), of length] k(1) unfolding length_drop length_append by linarith
    with k(3) show "glob_spec (drop i p) []" by simp
  next
    assume "glob_spec (drop i p) []"
    then show "\<exists>k \<le> length seg. glob_spec (seg @ drop i p) (drop k seg)"
      unfolding glob_segment [OF seg(2)] by (intro exI [of _ 0]) simp
  qed
  then show ?thesis unfolding scan_goal_def Some sm option.case prod.case seg(1,3) glob_star .
qed (use assms in \<open>simp add: scan_goal_def\<close>)

lemma glob_scan:
  assumes "scan_inv p v i j star" and "j \<le> length v"
  shows "(case glob_loop p v i j star of None \<Rightarrow> False | Some i' \<Rightarrow> list_all (\<lambda>c. c = CHR ''*'') (drop i' p))
    \<longleftrightarrow> scan_goal p v i j star"
  using assms
proof (induction p v i j star rule: glob_loop.induct)
  case (1 p v i j star)
  show ?case
  proof (cases "j < length v")
    case False
    then have "glob_loop p v i j star = Some i" by (simp add: glob_loop.simps [of p v i j star])
    with False "1.prems" show ?thesis by (simp add: goal_end glob_only_stars)
  next
    case inside: True
    show ?thesis
    proof (cases "i < length p \<and> p ! i = CHR ''*''")
      case True
      then have "glob_loop p v i j star = glob_loop p v (i + 1) j (Some (i, j))"
        using inside by (simp add: glob_loop.simps [of p v i j star])
      moreover have "scan_goal p v (i + 1) j (Some (i, j)) \<longleftrightarrow> scan_goal p v i j star"
        using goal_new_star [OF "1.prems"(1) inside] True by (simp add: scan_goal_def)
      ultimately show ?thesis
        using "1.IH"(1) [OF inside True] inv_new_star [of i p j v] True inside by simp
    next
      case no_star: False
      show ?thesis
      proof (cases "i < length p \<and> p ! i = v ! j")
        case True
        then have "glob_loop p v i j star = glob_loop p v (i + 1) (j + 1) star"
          using inside no_star by (simp add: glob_loop.simps [of p v i j star])
        moreover have "scan_goal p v (i + 1) (j + 1) star \<longleftrightarrow> scan_goal p v i j star"
          using True inside no_star drop_at [of i p] drop_at [of j v]
          by (auto simp: scan_goal_def split: option.split)
        ultimately show ?thesis
          using "1.IH"(2) [OF inside no_star True] inv_match [OF "1.prems"(1) inside] True no_star inside by simp
      next
        case mismatch: False
        have no: "\<not> glob_spec (drop i p) (drop j v)"
          using inside no_star mismatch drop_at [of i p] drop_at [of j v] by (cases "i < length p") auto
        show ?thesis
        proof (cases star)
          case None
          with inside no_star mismatch have "glob_loop p v i j star = None"
            by (auto simp: glob_loop.simps [of p v i j None])
          with None no show ?thesis by (simp add: scan_goal_def)
        next
          case (Some sm)
          obtain s mark where sm: "sm = (s, mark)" by (cases sm)
          have "glob_loop p v i j star = glob_loop p v (s + 1) (mark + 1) (Some (s, mark + 1))"
            using inside no_star mismatch Some sm by (subst glob_loop.simps) auto
          then show ?thesis
            using "1.IH"(3) [OF inside no_star mismatch Some sm [symmetric]]
              goal_mismatch [OF "1.prems"(1) [unfolded Some sm] inside no] Some sm by simp
        qed
      qed
    qed
  qed
qed

text \<open>
  C27. A pattern means what it says: with at most eight stars the greedy scan with backtracking accepts
  exactly the values obtained from the pattern by replacing each star by some text, upper and lower case
  alike, and a pattern with more stars matches nothing.
\<close>

theorem glob_decides:
  "globMatches pattern value \<longleftrightarrow>
     length (filter (\<lambda>c. c = CHR ''*'') pattern) \<le> 8
     \<and> glob_spec (map to_lower_char pattern) (map to_lower_char value)"
proof -
  let ?p = "map to_lower_char pattern" and ?v = "map to_lower_char value"
  have "(case glob_loop ?p ?v 0 0 None of None \<Rightarrow> False
      | Some i \<Rightarrow> list_all (\<lambda>c. c = CHR ''*'') (drop i ?p)) \<longleftrightarrow> glob_spec ?p ?v"
    using glob_scan [of ?p ?v 0 0 None] by (simp add: scan_inv_def scan_goal_def)
  then show ?thesis by (simp add: globMatches_def MAX_GLOB_WILDCARDS_def Let_def not_less)
qed

end
