(* ===== verification/ModelSelector.thy ===== *)
theory ModelSelector
  imports Glob PublicIdentity Ledger
begin

section \<open>Automatic model selection (routing/selector.ts, routing/preferences.ts)\<close>

text \<open>
  Which models an automatic request may use, their rank, and the saved preferences that are merged under
  the request. Token counts are integers, prices exact rationals. A comparison by difference is
  represented by its sign. The classification of the prompt is an argument: it comes from a trained
  artifact.
\<close>

subsection \<open>Data\<close>

datatype routing_task =
  General | Coding | Math | ResearchTask | Writing | Translation | Summarization | Analysis

record classification =
  cl_effectiveTask :: routing_task
  cl_highComplexity :: bool
  cl_needsWeb :: bool
  cl_maybeSensitive :: bool
  cl_abstained :: bool

record model_route =
  mr_providerName :: string
  mr_providerPrivacyClass :: string
  mr_publicModelId :: string
  mr_contextWindow :: int
  mr_maxOutputTokens :: "int option"
  mr_inputPrice :: rat
  mr_outputPrice :: rat
  mr_privacyClass :: string
  mr_supportsStreaming :: bool
  mr_supportsTools :: bool
  mr_supportsVision :: bool
  mr_routingEnabled :: bool
  mr_qualityTier :: int
  mr_routingTasks :: "routing_task list"
  mr_uncensored :: bool
  mr_supportsWeb :: bool
  mr_expectedLatencyMs :: "rat option"

datatype strategy = CostStrategy | BalancedStrategy | QualityStrategy

record routing_config =
  rt_allow :: "string list option"
  rt_exclude :: "string list option"
  rt_strategy :: "strategy option"
  rt_max_cost_usd :: "rat option"
  rt_privacy_classes :: "string list option"

definition NO_ROUTING :: routing_config where
  "NO_ROUTING = \<lparr> rt_allow = None, rt_exclude = None, rt_strategy = None, rt_max_cost_usd = None,
     rt_privacy_classes = None \<rparr>"

record selection_request =
  sq_model :: string
  sq_routing :: "routing_config option"
  sq_stream :: bool

subsection \<open>The allowed models\<close>

definition modelMatches :: "string \<Rightarrow> model_route \<Rightarrow> bool" where
  "modelMatches pattern model =
     (let publicId = publicRouteId (mr_publicModelId model);
          canonical = publicProviderSlug (mr_providerName model) @ ''/'' @ publicId
      in globMatches pattern canonical \<or> globMatches pattern publicId)"

definition privacyPolicyAllows :: "model_route \<Rightarrow> string list \<Rightarrow> bool" where
  "privacyPolicyAllows model privacyClasses \<longleftrightarrow>
     mr_privacyClass model \<in> set privacyClasses
     \<and> (mr_providerPrivacyClass model \<in> set privacyClasses
        \<or> mr_providerPrivacyClass model \<in> {''private'', ''tee'', ''e2ee''})"

definition PROVIDERS_HELD_FROM_AUTO :: "string list" where
  "PROVIDERS_HELD_FROM_AUTO = [''near-ai'', ''phala-ai'']"

definition or_default :: "'a \<Rightarrow> 'a option \<Rightarrow> 'a" where
  "or_default d a = (case a of None \<Rightarrow> d | Some x \<Rightarrow> x)"

lemma or_default_simps [simp]: "or_default d None = d" "or_default d (Some x) = x"
  by (simp_all add: or_default_def)

definition routing_of :: "selection_request \<Rightarrow> routing_config" where
  "routing_of body = or_default NO_ROUTING (sq_routing body)"

definition routing_allowed :: "selection_request \<Rightarrow> model_route \<Rightarrow> bool" where
  "routing_allowed body model =
     (let routing = routing_of body in
      mr_routingEnabled model \<and> mr_providerName model \<notin> set PROVIDERS_HELD_FROM_AUTO
      \<and> (CHR ''*'' \<in> set (sq_model body) \<longrightarrow> modelMatches (sq_model body) model)
      \<and> list_ex (\<lambda>pattern. modelMatches pattern model) (or_default [''*''] (rt_allow routing))
      \<and> \<not> list_ex (\<lambda>pattern. modelMatches pattern model) (or_default [] (rt_exclude routing))
      \<and> privacyPolicyAllows model (or_default [''private'', ''tee'', ''e2ee''] (rt_privacy_classes routing)))"

definition filterRoutingPolicyModels :: "model_route list \<Rightarrow> selection_request \<Rightarrow> model_route list" where
  "filterRoutingPolicyModels models body = filter (routing_allowed body) models"

subsection \<open>Rank\<close>

definition specialized_tasks :: "routing_task list" where
  "specialized_tasks = [Coding, Math, ResearchTask]"

definition requiredQualityTier :: "classification \<Rightarrow> strategy \<Rightarrow> int" where
  "requiredQualityTier cl strat =
     (case strat of
        CostStrategy \<Rightarrow>
          let tier = (if cl_highComplexity cl then 3
                      else if cl_effectiveTask cl \<in> set specialized_tasks then 2 else 1)
          in if cl_abstained cl then max tier 2 else tier
      | QualityStrategy \<Rightarrow> 5
      | BalancedStrategy \<Rightarrow> if cl_highComplexity cl then 5 else 4)"

definition isTaskCapable :: "model_route \<Rightarrow> routing_task \<Rightarrow> bool" where
  "isTaskCapable model task \<longleftrightarrow> task \<in> set (mr_routingTasks model)"

definition isSpecialist :: "model_route \<Rightarrow> routing_task \<Rightarrow> bool" where
  "isSpecialist model task \<longleftrightarrow> task \<in> set (mr_routingTasks model) \<and> length (mr_routingTasks model) \<le> 2"

record candidate =
  cd_model :: model_route
  cd_effectiveMaxOutputTokens :: int
  cd_estimatedCostUsd :: rat

record rank_params =
  rp_models :: "model_route list"
  rp_body :: selection_request
  rp_classification :: classification
  rp_inputTokens :: int
  rp_requestedMax :: "int option"
  rp_requiresTools :: bool
  rp_requiresVision :: bool

definition MAX_SAFE :: int where
  "MAX_SAFE = 2 ^ 53 - 1"

definition output_budget :: "rank_params \<Rightarrow> model_route \<Rightarrow> int option" where
  "output_budget p model =
     (let remainingContext = mr_contextWindow model - rp_inputTokens p in
      case mr_maxOutputTokens model of
        None \<Rightarrow> None
      | Some advertised \<Rightarrow>
          if \<bar>advertised\<bar> > MAX_SAFE \<or> advertised \<le> 0 \<or> remainingContext \<le> 0 then None
          else if (case rp_requestedMax p of None \<Rightarrow> False | Some n \<Rightarrow> n > advertised) then None
          else
            let effective = (case rp_requestedMax p of Some n \<Rightarrow> n | None \<Rightarrow> min advertised remainingContext)
            in if effective > remainingContext then None else Some effective)"

definition candidate_of :: "rank_params \<Rightarrow> model_route \<Rightarrow> candidate option" where
  "candidate_of p model =
     (case output_budget p model of
        None \<Rightarrow> None
      | Some effective \<Rightarrow>
          Some \<lparr> cd_model = model, cd_effectiveMaxOutputTokens = effective,
            cd_estimatedCostUsd = calculateCostUsd
              \<lparr> inputTokens = rp_inputTokens p, outputTokens = effective, cachedTokens = 0, cacheWriteTokens = None \<rparr>
              \<lparr> inputPricePerMillion = mr_inputPrice model, outputPricePerMillion = mr_outputPrice model,
                cacheReadPricePerMillion = None, cacheWritePricePerMillion = None \<rparr> \<rparr>)"

definition model_feasible :: "rank_params \<Rightarrow> model_route \<Rightarrow> bool" where
  "model_feasible p model \<longleftrightarrow>
     (sq_stream (rp_body p) \<longrightarrow> mr_supportsStreaming model)
     \<and> (cl_needsWeb (rp_classification p) \<longrightarrow> mr_supportsWeb model)
     \<and> (rp_requiresTools p \<longrightarrow> mr_supportsTools model)
     \<and> (rp_requiresVision p \<longrightarrow> mr_supportsVision model)
     \<and> isTaskCapable model (cl_effectiveTask (rp_classification p))"

definition within_cost :: "rank_params \<Rightarrow> candidate \<Rightarrow> bool" where
  "within_cost p c =
     (case rt_max_cost_usd (routing_of (rp_body p)) of None \<Rightarrow> True | Some m \<Rightarrow> cd_estimatedCostUsd c \<le> m)"

definition feasible :: "rank_params \<Rightarrow> candidate list" where
  "feasible p =
     filter (within_cost p)
       (List.map_filter (candidate_of p)
         (filter (model_feasible p) (filterRoutingPolicyModels (rp_models p) (rp_body p))))"

definition real_pool :: "rank_params \<Rightarrow> candidate list" where
  "real_pool p =
     (let realFeasible = filter (\<lambda>c. mr_providerName (cd_model c) \<noteq> ''mock'') (feasible p)
      in if realFeasible \<noteq> [] then realFeasible else feasible p)"

definition above_floor :: "bool \<Rightarrow> int \<Rightarrow> candidate \<Rightarrow> bool" where
  "above_floor maybeSensitive floor_tier c \<longleftrightarrow>
     mr_qualityTier (cd_model c) \<ge> floor_tier \<or> (maybeSensitive \<and> mr_uncensored (cd_model c))"

text \<open>The loop that relaxes the floor tier by tier down to 1.\<close>

fun relax_floor :: "nat \<Rightarrow> bool \<Rightarrow> candidate list \<Rightarrow> candidate list" where
  "relax_floor 0 sensitive pool = []"
| "relax_floor (Suc n) sensitive pool =
     (let candidates = filter (above_floor sensitive (int (Suc n))) pool
      in if candidates \<noteq> [] then candidates else relax_floor n sensitive pool)"

definition sign :: "rat \<Rightarrow> rat \<Rightarrow> int" where
  "sign a b = (if a < b then - 1 else if a > b then 1 else 0)"

definition latency_key :: "model_route \<Rightarrow> rat" where
  "latency_key m = (case mr_expectedLatencyMs m of None \<Rightarrow> of_int MAX_SAFE | Some l \<Rightarrow> l)"

definition compareCandidates :: "strategy \<Rightarrow> bool \<Rightarrow> routing_task \<Rightarrow> candidate \<Rightarrow> candidate \<Rightarrow> int" where
  "compareCandidates strat sensitiveMode task a b =
     (let ma = cd_model a; mb = cd_model b;
          special = (strat \<noteq> CostStrategy \<and> task \<in> set specialized_tasks)
      in if (sensitiveMode \<or> strat \<noteq> CostStrategy) \<and> mr_qualityTier ma \<noteq> mr_qualityTier mb
           then mr_qualityTier mb - mr_qualityTier ma
         else if special \<and> isSpecialist ma task \<noteq> isSpecialist mb task
           then (if isSpecialist ma task then - 1 else 1)
         else if cd_estimatedCostUsd a \<noteq> cd_estimatedCostUsd b
           then sign (cd_estimatedCostUsd a) (cd_estimatedCostUsd b)
         else if mr_qualityTier ma \<noteq> mr_qualityTier mb
           then mr_qualityTier ma - mr_qualityTier mb
         else sign (latency_key ma) (latency_key mb))"

definition rank_strategy :: "rank_params \<Rightarrow> strategy" where
  "rank_strategy p = or_default BalancedStrategy (rt_strategy (routing_of (rp_body p)))"

definition rankRoutingCandidates :: "rank_params \<Rightarrow> candidate list" where
  "rankRoutingCandidates p =
     (let cl = rp_classification p; strat = rank_strategy p;
          preferredTier = requiredQualityTier cl strat;
          candidates = relax_floor (nat preferredTier) (cl_maybeSensitive cl) (real_pool p)
      in if candidates = [] then []
         else
           let sensitiveMode = (cl_maybeSensitive cl \<and> list_ex (\<lambda>c. mr_uncensored (cd_model c)) candidates);
               remaining = (if sensitiveMode then filter (\<lambda>c. mr_uncensored (cd_model c)) candidates else candidates)
           in js_sort (compareCandidates strat sensitiveMode (cl_effectiveTask cl)) remaining)"

definition selectRoutingModel :: "rank_params \<Rightarrow> candidate result" where
  "selectRoutingModel p =
     (case rankRoutingCandidates p of
        c # cs \<Rightarrow> Inr c
      | [] \<Rightarrow>
          if rp_requiresTools p \<and> rankRoutingCandidates (p\<lparr> rp_requiresTools := False \<rparr>) \<noteq> []
            then Inl (App 400 ''no_tools_capable_model'')
          else if rp_requiresVision p \<and> rankRoutingCandidates (p\<lparr> rp_requiresVision := False \<rparr>) \<noteq> []
            then Inl (App 400 ''no_vision_capable_model'')
          else Inl (App 400 ''no_routing_candidate''))"

end
