(* ===== verification/SelectorSpec.thy ===== *)
theory SelectorSpec
  imports ModelSelector
begin

section \<open>What automatic selection guarantees\<close>

text \<open>
  Every ranked candidate is an allowed model that can serve the request (\<open>ranked_ok\<close>), the rank is a
  sort by a total preorder (interpretation \<open>rank_order\<close> of \<open>comparator\<close>), and the floor is relaxed no
  further than the pool requires (\<open>relaxed_minimal\<close>).
\<close>

subsection \<open>The comparator\<close>

definition rank_key :: "strategy \<Rightarrow> bool \<Rightarrow> routing_task \<Rightarrow> candidate \<Rightarrow> rat list" where
  "rank_key strat sensitiveMode task c =
     (let m = cd_model c
      in [if sensitiveMode \<or> strat \<noteq> CostStrategy then - of_int (mr_qualityTier m) else 0,
          if strat \<noteq> CostStrategy \<and> task \<in> set specialized_tasks \<and> \<not> isSpecialist m task then 1 else 0,
          cd_estimatedCostUsd c, of_int (mr_qualityTier m), latency_key m])"

lemma compareCandidates_le:
  "compareCandidates strat sens task a b \<le> 0 \<longleftrightarrow> rank_key strat sens task a \<le> rank_key strat sens task b"
  by (auto simp: compareCandidates_def rank_key_def Let_def sign_def)

interpretation rank_order: comparator "compareCandidates strat sens task" for strat sens task
  by unfold_locales (auto simp: compareCandidates_le)

subsection \<open>Feasible candidates\<close>

lemma budget_Some:
  assumes "output_budget p m = Some n"
  shows "\<exists>advertised. mr_maxOutputTokens m = Some advertised \<and> 0 < advertised \<and> n \<le> advertised
    \<and> rp_inputTokens p + n \<le> mr_contextWindow m \<and> (\<forall>r. rp_requestedMax p = Some r \<longrightarrow> n = r)"
  using assms by (auto simp: output_budget_def Let_def split: option.splits if_splits)

definition serves :: "rank_params \<Rightarrow> candidate \<Rightarrow> bool" where
  "serves p c \<longleftrightarrow>
     cd_model c \<in> set (rp_models p) \<and> routing_allowed (rp_body p) (cd_model c)
     \<and> model_feasible p (cd_model c) \<and> candidate_of p (cd_model c) = Some c \<and> within_cost p c"

lemma candidate_model: "candidate_of p m = Some c \<Longrightarrow> cd_model c = m"
  by (auto simp: candidate_of_def split: option.splits)

lemma candidate_budget:
  "candidate_of p m = Some c \<Longrightarrow> output_budget p m = Some (cd_effectiveMaxOutputTokens c)"
  by (auto simp: candidate_of_def split: option.splits)

lemma set_mapped: "y \<in> set (List.map_filter f xs) \<longleftrightarrow> (\<exists>x \<in> set xs. f x = Some y)"
  by (force simp: List.map_filter_def)

lemma in_feasible: "c \<in> set (feasible p) \<longleftrightarrow> serves p c"
  by (auto simp: feasible_def serves_def filterRoutingPolicyModels_def set_mapped dest: candidate_model)

lemma real_pool_subset: "set (real_pool p) \<subseteq> set (feasible p)"
  by (auto simp: real_pool_def Let_def)

lemma real_pool_Nil: "real_pool p = [] \<longleftrightarrow> feasible p = []"
  by (auto simp: real_pool_def Let_def)

lemma real_pool_real:
  assumes "c \<in> set (feasible p)" and "mr_providerName (cd_model c) \<noteq> ''mock''"
  shows "c \<in> set (real_pool p) \<and> (\<forall>c' \<in> set (real_pool p). mr_providerName (cd_model c') \<noteq> ''mock'')"
proof -
  have "filter (\<lambda>c. mr_providerName (cd_model c) \<noteq> ''mock'') (feasible p) \<noteq> []"
    using assms by (auto simp: filter_empty_conv)
  then show ?thesis using assms by (simp add: real_pool_def Let_def)
qed

lemma relax_subset: "set (relax_floor n sens pool) \<subseteq> set pool"
  by (induction n) (auto simp: Let_def)

lemma relax_Nil: "relax_floor n sens pool = [] \<longleftrightarrow> (\<forall>c \<in> set pool. \<forall>k \<in> {1..n}. \<not> above_floor sens (int k) c)"
proof (induction n)
  case (Suc n)
  have "{1..Suc n} = insert (Suc n) {1..n}" by auto
  with Suc show ?case by (auto simp: Let_def filter_empty_conv simp del: of_nat_Suc)
qed simp

text \<open>The floor in force is the highest one, up to the preferred one, that leaves a candidate.\<close>

lemma relaxed_minimal:
  assumes "relax_floor n sens pool \<noteq> []"
  shows "\<exists>k \<in> {1..n}. relax_floor n sens pool = filter (above_floor sens (int k)) pool
    \<and> (\<forall>c \<in> set pool. \<forall>j \<in> {k<..n}. \<not> above_floor sens (int j) c)"
  using assms
proof (induction n)
  case (Suc n)
  show ?case
  proof (cases "filter (above_floor sens (int (Suc n))) pool = []")
    case True
    with Suc obtain k where k: "k \<in> {1..n}" "relax_floor n sens pool = filter (above_floor sens (int k)) pool"
        "\<forall>c \<in> set pool. \<forall>j \<in> {k<..n}. \<not> above_floor sens (int j) c"
      by (auto simp: Let_def simp del: of_nat_Suc)
    have "{k<..Suc n} = insert (Suc n) {k<..n}" using k(1) by auto
    with k True show ?thesis
      by (intro bexI [of _ k]) (auto simp: Let_def filter_empty_conv simp del: of_nat_Suc)
  next
    case False
    then show ?thesis by (intro bexI [of _ "Suc n"]) (simp_all add: Let_def del: of_nat_Suc)
  qed
qed simp

subsection \<open>Ranked candidates\<close>

definition floor_pool :: "rank_params \<Rightarrow> candidate list" where
  "floor_pool p = relax_floor (nat (requiredQualityTier (rp_classification p) (rank_strategy p)))
     (cl_maybeSensitive (rp_classification p)) (real_pool p)"

definition sensitive_mode :: "rank_params \<Rightarrow> bool" where
  "sensitive_mode p \<longleftrightarrow> cl_maybeSensitive (rp_classification p)
     \<and> (\<exists>c \<in> set (floor_pool p). mr_uncensored (cd_model c))"

lemma ranked_eq:
  "rankRoutingCandidates p =
     js_sort (compareCandidates (rank_strategy p) (sensitive_mode p) (cl_effectiveTask (rp_classification p)))
       (if sensitive_mode p then filter (\<lambda>c. mr_uncensored (cd_model c)) (floor_pool p) else floor_pool p)"
  unfolding rankRoutingCandidates_def Let_def floor_pool_def [symmetric]
  by (auto simp: sensitive_mode_def list_ex_iff js_sort_def)

lemma ranked_set:
  "set (rankRoutingCandidates p) = {c \<in> set (floor_pool p). sensitive_mode p \<longrightarrow> mr_uncensored (cd_model c)}"
  by (auto simp: ranked_eq)

lemma ranked_Nil: "rankRoutingCandidates p = [] \<longleftrightarrow> floor_pool p = []"
proof
  assume "rankRoutingCandidates p = []"
  then have none: "\<not> (c \<in> set (floor_pool p) \<and> (sensitive_mode p \<longrightarrow> mr_uncensored (cd_model c)))" for c
    using ranked_set [of p] by auto
  have "set (floor_pool p) = {}"
  proof (cases "sensitive_mode p")
    case True
    then obtain c where "c \<in> set (floor_pool p)" "mr_uncensored (cd_model c)"
      by (auto simp: sensitive_mode_def)
    with none [of c] show ?thesis by simp
  next
    case False
    with none have "c \<notin> set (floor_pool p)" for c by blast
    then show ?thesis by (intro equals0I) simp
  qed
  then show "floor_pool p = []" by simp
next
  assume "floor_pool p = []"
  then have "set (rankRoutingCandidates p) = {}" by (simp add: ranked_set)
  then show "rankRoutingCandidates p = []" by simp
qed

lemma ranked_serves: "c \<in> set (rankRoutingCandidates p) \<Longrightarrow> serves p c"
  using relax_subset real_pool_subset in_feasible unfolding ranked_set floor_pool_def by blast

lemma ranked_best: "rankRoutingCandidates p = c # cs \<Longrightarrow> c' \<in> set (rankRoutingCandidates p) \<Longrightarrow>
    compareCandidates (rank_strategy p) (sensitive_mode p) (cl_effectiveTask (rp_classification p)) c c' \<le> 0"
  unfolding ranked_eq by (metis rank_order.hd_js_sort_le set_js_sort)

lemma select_Inr: "selectRoutingModel p = Inr c \<longleftrightarrow> (\<exists>cs. rankRoutingCandidates p = c # cs)"
  by (auto simp: selectRoutingModel_def split: list.splits if_splits)

lemma preferred_positive: "1 \<le> requiredQualityTier cl strat"
  by (auto simp: requiredQualityTier_def Let_def split: strategy.split)

lemma floor_pool_Nil:
  "floor_pool p = [] \<longleftrightarrow> (\<forall>c \<in> set (real_pool p). mr_qualityTier (cd_model c) < 1
     \<and> \<not> (cl_maybeSensitive (rp_classification p) \<and> mr_uncensored (cd_model c)))"
proof -
  let ?n = "nat (requiredQualityTier (rp_classification p) (rank_strategy p))"
  let ?s = "cl_maybeSensitive (rp_classification p)"
  have n: "1 \<le> ?n" using preferred_positive [of "rp_classification p" "rank_strategy p"] by linarith
  have "(\<forall>k \<in> {1..?n}. \<not> above_floor ?s (int k) c) \<longleftrightarrow> \<not> above_floor ?s 1 c" for c
  proof
    assume "\<forall>k \<in> {1..?n}. \<not> above_floor ?s (int k) c"
    then show "\<not> above_floor ?s 1 c" using n by (metis atLeastAtMost_iff of_nat_1 order_refl)
  next
    assume low: "\<not> above_floor ?s 1 c"
    show "\<forall>k \<in> {1..?n}. \<not> above_floor ?s (int k) c"
    proof
      fix k assume "k \<in> {1..?n}"
      then have "1 \<le> int k" by simp
      with low show "\<not> above_floor ?s (int k) c" by (auto simp: above_floor_def)
    qed
  qed
  then show ?thesis unfolding floor_pool_def relax_Nil by (auto simp: above_floor_def not_le)
qed

subsection \<open>The selected model\<close>

text \<open>
  C24. Automatic selection stays inside what the request and its preferences allow: the selected model is
  one of the given ones, enabled for routing, of no provider on the hold list, matched by the model
  pattern and the allow list and by no exclude pattern, of an allowed privacy class, able to stream, browse, call tools
  and read images where the request needs it, and its output budget fits the context window, the model's maximum and
  the cost limit.
\<close>

theorem selected_model_allowed:
  assumes "selectRoutingModel p = Inr c"
  shows "cd_model c \<in> set (rp_models p) \<and> routing_allowed (rp_body p) (cd_model c)
    \<and> mr_providerName (cd_model c) \<notin> {''near-ai'', ''phala-ai''}
    \<and> model_feasible p (cd_model c) \<and> within_cost p c
    \<and> (\<exists>advertised. mr_maxOutputTokens (cd_model c) = Some advertised
         \<and> cd_effectiveMaxOutputTokens c \<le> advertised)
    \<and> rp_inputTokens p + cd_effectiveMaxOutputTokens c \<le> mr_contextWindow (cd_model c)
    \<and> (\<forall>n. rp_requestedMax p = Some n \<longrightarrow> cd_effectiveMaxOutputTokens c = n)"
proof -
  from assms obtain cs where "rankRoutingCandidates p = c # cs" by (auto simp: select_Inr)
  then have s: "serves p c" using ranked_serves [of c p] by simp
  then have "output_budget p (cd_model c) = Some (cd_effectiveMaxOutputTokens c)"
    by (auto simp: serves_def intro: candidate_budget)
  note budget = budget_Some [OF this]
  have "mr_providerName (cd_model c) \<notin> {''near-ai'', ''phala-ai''}"
    using s by (simp add: serves_def routing_allowed_def PROVIDERS_HELD_FROM_AUTO_def Let_def)
  with s budget show ?thesis by (auto simp: serves_def)
qed

lemma selected_in_pool:
  assumes "selectRoutingModel p = Inr c"
  shows "c \<in> set (real_pool p)"
proof -
  from assms obtain cs where "rankRoutingCandidates p = c # cs" by (auto simp: select_Inr)
  then have "c \<in> set (floor_pool p)" using ranked_set [of p] by auto
  then show ?thesis using relax_subset unfolding floor_pool_def by blast
qed

text \<open>A candidate of the pool that is not below the selected one's floor is ranked with it.\<close>

lemma floor_of_selected:
  assumes "selectRoutingModel p = Inr c"
  obtains k where "floor_pool p = filter (above_floor (cl_maybeSensitive (rp_classification p)) (int k)) (real_pool p)"
    and "int k \<le> requiredQualityTier (rp_classification p) (rank_strategy p)"
    and "\<forall>c' \<in> set (real_pool p). \<forall>j \<in> {k<..nat (requiredQualityTier (rp_classification p) (rank_strategy p))}.
      \<not> above_floor (cl_maybeSensitive (rp_classification p)) (int j) c'"
    and "c \<in> set (floor_pool p)"
proof -
  from assms obtain cs where ranked: "rankRoutingCandidates p = c # cs" by (auto simp: select_Inr)
  then have c: "c \<in> set (floor_pool p)" using ranked_set [of p] by auto
  then have "floor_pool p \<noteq> []" by auto
  from relaxed_minimal [OF this [unfolded floor_pool_def], folded floor_pool_def]
  obtain k where k: "k \<in> {1..nat (requiredQualityTier (rp_classification p) (rank_strategy p))}"
    "floor_pool p = filter (above_floor (cl_maybeSensitive (rp_classification p)) (int k)) (real_pool p)"
    "\<forall>c' \<in> set (real_pool p). \<forall>j \<in> {k<..nat (requiredQualityTier (rp_classification p) (rank_strategy p))}.
      \<not> above_floor (cl_maybeSensitive (rp_classification p)) (int j) c'" by blast
  from k(1) have "int k \<le> requiredQualityTier (rp_classification p) (rank_strategy p)" by auto
  from that [OF k(2) this k(3) c] show thesis .
qed


subsection \<open>Refusals\<close>

lemma serves_pool:
  assumes "serves p c" and "mr_providerName (cd_model c) \<noteq> ''mock'' \<or> (\<forall>x. serves p x \<longrightarrow> mr_providerName (cd_model x) = ''mock'')"
  shows "c \<in> set (real_pool p)"
proof (cases "mr_providerName (cd_model c) = ''mock''")
  case True
  with assms(2) have "filter (\<lambda>c. mr_providerName (cd_model c) \<noteq> ''mock'') (feasible p) = []"
    by (auto simp: filter_empty_conv in_feasible)
  with assms(1) show ?thesis by (simp add: real_pool_def Let_def in_feasible)
next
  case False
  with real_pool_real [of c p] assms(1) show ?thesis by (simp add: in_feasible)
qed

lemma mock_only:
  assumes "c \<in> set (real_pool p)" and "mr_providerName (cd_model c) = ''mock''" and "serves p x"
  shows "mr_providerName (cd_model x) = ''mock''"
  using assms real_pool_real [of x p] by (auto simp: in_feasible)

lemma same_candidates:
  assumes "rp_inputTokens q = rp_inputTokens p" and "rp_requestedMax q = rp_requestedMax p"
  shows "candidate_of q = candidate_of p"
  unfolding fun_eq_iff candidate_of_def output_budget_def assms by simp

lemma same_costs:
  assumes "rp_body q = rp_body p"
  shows "within_cost q = within_cost p"
  unfolding fun_eq_iff within_cost_def assms by simp

text \<open>Dropping a requirement leaves the candidates as they are, and the pool larger.\<close>

lemma ranked_relaxed:
  assumes "rankRoutingCandidates p = []" and "c \<in> set (rankRoutingCandidates q)"
    and "\<And>x. serves p x \<Longrightarrow> serves q x" and "rp_classification q = rp_classification p"
  shows "\<not> serves p c"
proof
  assume serves: "serves p c"
  have c: "c \<in> set (floor_pool q)" using assms(2) by (simp add: ranked_set)
  then have pool: "c \<in> set (real_pool q)" using relax_subset unfolding floor_pool_def by blast
  have "c \<in> set (real_pool p)"
    using serves_pool [OF serves] mock_only [OF pool] assms(3) by blast
  moreover from assms(1) have "floor_pool p = []" by (simp add: ranked_Nil)
  ultimately have low: "mr_qualityTier (cd_model c) < 1"
      "\<not> (cl_maybeSensitive (rp_classification p) \<and> mr_uncensored (cd_model c))"
    unfolding floor_pool_Nil by blast+
  from c have "floor_pool q \<noteq> []" by auto
  from relaxed_minimal [OF this [unfolded floor_pool_def], folded floor_pool_def] c
  obtain k where "1 \<le> k" "above_floor (cl_maybeSensitive (rp_classification q)) (int k) c" by auto
  with low assms(4) show False by (auto simp: above_floor_def)
qed

text \<open>
  C26. A refusal names the right reason. A selection fails only when every candidate of the pool is below the lowest
  tier; the answers \<open>no_tools_capable_model\<close> and \<open>no_vision_capable_model\<close> are given only to a request that
  has the requirement, when models that serve it but for the requirement exist and each model ranked
  without it lacks the capability; every other failure is \<open>no_routing_candidate\<close>.
\<close>

theorem selection_refusals:
  assumes "selectRoutingModel p = Inl e"
  shows "(\<forall>c \<in> set (real_pool p). mr_qualityTier (cd_model c) < 1)
    \<and> (e = App 400 ''no_routing_candidate''
     \<or> e = App 400 ''no_tools_capable_model'' \<and> rp_requiresTools p
       \<and> (let ranked = rankRoutingCandidates (p\<lparr> rp_requiresTools := False \<rparr>)
          in ranked \<noteq> [] \<and> (\<forall>c \<in> set ranked. \<not> mr_supportsTools (cd_model c)))
     \<or> e = App 400 ''no_vision_capable_model'' \<and> rp_requiresVision p
       \<and> (let ranked = rankRoutingCandidates (p\<lparr> rp_requiresVision := False \<rparr>)
          in ranked \<noteq> [] \<and> (\<forall>c \<in> set ranked. \<not> mr_supportsVision (cd_model c))))"
proof -
  have none: "rankRoutingCandidates p = []"
    using assms by (auto simp: selectRoutingModel_def split: list.splits)
  then have low: "\<forall>c \<in> set (real_pool p). mr_qualityTier (cd_model c) < 1"
    unfolding ranked_Nil floor_pool_Nil by blast
  let ?t = "p\<lparr> rp_requiresTools := False \<rparr>" and ?v = "p\<lparr> rp_requiresVision := False \<rparr>"
  have same: "candidate_of ?t = candidate_of p" "candidate_of ?v = candidate_of p"
    "within_cost ?t = within_cost p" "within_cost ?v = within_cost p"
    by (intro same_candidates same_costs; simp)+
  have tools: "\<not> mr_supportsTools (cd_model c)" if "c \<in> set (rankRoutingCandidates ?t)" for c
    using ranked_relaxed [OF none that] ranked_serves [OF that]
    by (auto simp: serves_def same model_feasible_def)
  have vision: "\<not> mr_supportsVision (cd_model c)" if "c \<in> set (rankRoutingCandidates ?v)" for c
    using ranked_relaxed [OF none that] ranked_serves [OF that]
    by (auto simp: serves_def same model_feasible_def)
  from assms none low tools vision show ?thesis
    by (auto simp: selectRoutingModel_def Let_def split: if_splits)
qed

subsection \<open>Witnesses\<close>

definition sample_route :: "string \<Rightarrow> int \<Rightarrow> rat \<Rightarrow> model_route" where
  "sample_route i tier price = \<lparr> mr_providerName = ''venice'', mr_providerPrivacyClass = ''private'',
     mr_publicModelId = i, mr_contextWindow = 1000, mr_maxOutputTokens = Some 100, mr_inputPrice = price,
     mr_outputPrice = price, mr_privacyClass = ''private'', mr_supportsStreaming = True,
     mr_supportsTools = False, mr_supportsVision = False, mr_routingEnabled = True, mr_qualityTier = tier,
     mr_routingTasks = [General], mr_uncensored = False, mr_supportsWeb = False, mr_expectedLatencyMs = None \<rparr>"

definition sample_params :: "bool \<Rightarrow> rank_params" where
  "sample_params tools = \<lparr> rp_models = [sample_route ''venice/a'' 3 1, sample_route ''venice/b'' 4 2],
     rp_body = \<lparr> sq_model = ''auto'', sq_routing = None, sq_stream = True \<rparr>,
     rp_classification = \<lparr> cl_effectiveTask = General, cl_highComplexity = False, cl_needsWeb = False,
       cl_maybeSensitive = False, cl_abstained = False \<rparr>,
     rp_inputTokens = 10, rp_requestedMax = None, rp_requiresTools = tools, rp_requiresVision = False \<rparr>"

definition sample_candidate :: "string \<Rightarrow> int \<Rightarrow> rat \<Rightarrow> candidate" where
  "sample_candidate i tier price = the (candidate_of (sample_params False) (sample_route i tier price))"

lemma sample_selected:
  "selectRoutingModel (sample_params False) = Inr (sample_candidate ''venice/b'' 4 2)"
  by code_simp

lemma selected_model_allowed_witness:
  "\<exists>c. selectRoutingModel (sample_params False) = Inr c \<and> routing_allowed (rp_body (sample_params False)) (cd_model c)"
  using selected_model_allowed [OF sample_selected] sample_selected by blast


lemma selection_refusals_witness:
  "rankRoutingCandidates (sample_params True\<lparr> rp_requiresTools := False \<rparr>) \<noteq> []
   \<and> filter (mr_supportsTools \<circ> cd_model)
        (rankRoutingCandidates (sample_params True\<lparr> rp_requiresTools := False \<rparr>)) = []"
proof -
  have "selectRoutingModel (sample_params True) = Inl (App 400 ''no_tools_capable_model'')" by code_simp
  from selection_refusals [OF this] show ?thesis by (simp add: Let_def filter_empty_conv)
qed

end
