(* ===== verification/Preferences.thy ===== *)
theory Preferences
  imports SelectorSpec
begin

section \<open>Saved routing preferences (routing/preferences.ts)\<close>

text \<open>
  The preferences of a workspace as the ticket carries them, the provider defaults derived from them, and
  their merge under the routing fields of a request. Loading and saving a row of the database are left out.
\<close>

datatype pool_mode = PoolAll | PoolInclude | PoolExclude
datatype privacy_level = OpenLevel | BalancedLevel | MaximumLevel

record routing_preferences =
  pf_pool_mode :: pool_mode
  pf_model_patterns :: "string list"
  pf_strategy :: strategy
  pf_privacy_level :: privacy_level
  pf_sort :: "provider_sort option"
  pf_only :: "string list option"
  pf_ignore :: "string list option"
  pf_allow_fallbacks :: "bool option"
  pf_max_attempts :: "rat option"
  pf_minimum_privacy :: "privacy_floor option"
  pf_max_price_input :: "rat option"
  pf_max_price_output :: "rat option"
  pf_require_parameters :: "bool option"

definition defaultRoutingPreferences :: routing_preferences where
  "defaultRoutingPreferences = \<lparr> pf_pool_mode = PoolAll, pf_model_patterns = [], pf_strategy = BalancedStrategy,
     pf_privacy_level = BalancedLevel, pf_sort = None, pf_only = None, pf_ignore = None,
     pf_allow_fallbacks = None, pf_max_attempts = None, pf_minimum_privacy = None, pf_max_price_input = None,
     pf_max_price_output = None, pf_require_parameters = None \<rparr>"

definition providerDefaultsFromRoutingPreferences :: "routing_preferences \<Rightarrow> workspace_defaults" where
  "providerDefaultsFromRoutingPreferences p =
     (let d = DEFAULT_WORKSPACE_PROVIDER_DEFAULTS;
          maxPrice = (if pf_max_price_input p \<noteq> None \<or> pf_max_price_output p \<noteq> None
            then Some (pf_max_price_input p, pf_max_price_output p) else None)
      in \<lparr> ws_sort = or_default (ws_sort d) (pf_sort p),
           ws_only = (case pf_only p of None \<Rightarrow> ws_only d | Some l \<Rightarrow> Some l),
           ws_ignore = or_default (ws_ignore d) (pf_ignore p),
           ws_allowFallbacks = or_default (ws_allowFallbacks d) (pf_allow_fallbacks p),
           ws_maxAttempts = or_default (ws_maxAttempts d) (pf_max_attempts p),
           ws_minimumPrivacy = (case pf_minimum_privacy p of None \<Rightarrow> ws_minimumPrivacy d | Some f \<Rightarrow> Some f),
           ws_maxPrice = maxPrice,
           ws_requireParameters = or_default (ws_requireParameters d) (pf_require_parameters p) \<rparr>)"

fun privacyClassesByLevel :: "privacy_level \<Rightarrow> string list" where
  "privacyClassesByLevel OpenLevel = [''anonymous'', ''private'', ''tee'', ''e2ee'']"
| "privacyClassesByLevel BalancedLevel = [''private'', ''tee'', ''e2ee'']"
| "privacyClassesByLevel MaximumLevel = [''tee'', ''e2ee'']"

definition routingConfigFromPreferences :: "routing_preferences \<Rightarrow> routing_config" where
  "routingConfigFromPreferences p =
     \<lparr> rt_allow = (if pf_pool_mode p = PoolInclude then Some (pf_model_patterns p) else None),
       rt_exclude = (if pf_pool_mode p = PoolExclude \<and> pf_model_patterns p \<noteq> []
         then Some (pf_model_patterns p) else None),
       rt_strategy = Some (pf_strategy p), rt_max_cost_usd = None,
       rt_privacy_classes = Some (privacyClassesByLevel (pf_privacy_level p)) \<rparr>"

text \<open>An object spread: a field of the request overrides the saved one. A parsed body has no field set to undefined.\<close>

definition override :: "'a option \<Rightarrow> 'a option \<Rightarrow> 'a option" where
  "override saved requested = (case requested of None \<Rightarrow> saved | Some x \<Rightarrow> Some x)"

lemma override_simps [simp]: "override s None = s" "override s (Some x) = Some x"
  by (simp_all add: override_def)

definition applyRoutingPreferences :: "selection_request \<Rightarrow> routing_preferences \<Rightarrow> selection_request" where
  "applyRoutingPreferences body preferences =
     (let saved = routingConfigFromPreferences preferences;
          requested = routing_of body;
          requestDefinesModelPool = (CHR ''*'' \<in> set (sq_model body)
            \<or> rt_allow requested \<noteq> None \<or> rt_exclude requested \<noteq> None);
          spread_of = \<lparr> rt_allow = override (rt_allow saved) (rt_allow requested),
             rt_exclude = override (rt_exclude saved) (rt_exclude requested),
             rt_strategy = override (rt_strategy saved) (rt_strategy requested),
             rt_max_cost_usd = override (rt_max_cost_usd saved) (rt_max_cost_usd requested),
             rt_privacy_classes = override (rt_privacy_classes saved) (rt_privacy_classes requested) \<rparr>
      in body\<lparr> sq_routing := Some
           (if requestDefinesModelPool
            then spread_of\<lparr> rt_allow := rt_allow requested, rt_exclude := rt_exclude requested \<rparr>
            else spread_of) \<rparr>)"

subsection \<open>What the preferences still decide\<close>

definition in_pool :: "routing_preferences \<Rightarrow> model_route \<Rightarrow> bool" where
  "in_pool p m =
     (case pf_pool_mode p of
        PoolAll \<Rightarrow> True
      | PoolInclude \<Rightarrow> list_ex (\<lambda>pattern. modelMatches pattern m) (pf_model_patterns p)
      | PoolExclude \<Rightarrow> \<not> list_ex (\<lambda>pattern. modelMatches pattern m) (pf_model_patterns p))"

lemma saved_pool:
  assumes "routing_allowed (applyRoutingPreferences body p) m" and "CHR ''*'' \<notin> set (sq_model body)"
    and "rt_allow (routing_of body) = None" and "rt_exclude (routing_of body) = None"
  shows "in_pool p m"
  using assms
  by (cases "pf_pool_mode p")
     (auto simp: applyRoutingPreferences_def routing_allowed_def routing_of_def in_pool_def
        routingConfigFromPreferences_def Let_def split: if_splits)

lemma saved_privacy:
  assumes "routing_allowed (applyRoutingPreferences body p) m" and "rt_privacy_classes (routing_of body) = None"
  shows "mr_privacyClass m \<in> set (privacyClassesByLevel (pf_privacy_level p))"
  using assms
  by (auto simp: applyRoutingPreferences_def routing_allowed_def routing_of_def privacyPolicyAllows_def
      routingConfigFromPreferences_def Let_def split: if_splits)

text \<open>
  Saved preferences hold until the request speaks: without pool fields and without a star in the model name
  the request's candidates stay within the saved include or exclude list, and without privacy classes of its own within the
  saved privacy level; the request's pool, when it has one, replaces the saved pool as a whole.
\<close>

theorem preferences_respected:
  assumes "routing_allowed (applyRoutingPreferences body p) m"
  shows "(CHR ''*'' \<notin> set (sq_model body) \<longrightarrow> rt_allow (routing_of body) = None
      \<longrightarrow> rt_exclude (routing_of body) = None \<longrightarrow> in_pool p m)
    \<and> (rt_privacy_classes (routing_of body) = None
      \<longrightarrow> mr_privacyClass m \<in> set (privacyClassesByLevel (pf_privacy_level p)))
    \<and> (\<forall>allow. rt_allow (routing_of body) = Some allow
      \<longrightarrow> list_ex (\<lambda>pattern. modelMatches pattern m) allow)"
  using saved_pool [OF assms] saved_privacy [OF assms] assms
  by (auto simp: applyRoutingPreferences_def routing_allowed_def routing_of_def Let_def)

definition sample_body :: selection_request where
  "sample_body = \<lparr> sq_model = ''auto'', sq_routing = None, sq_stream = True \<rparr>"

definition sample_preferences :: routing_preferences where
  "sample_preferences = defaultRoutingPreferences
     \<lparr> pf_pool_mode := PoolInclude, pf_model_patterns := [''venice/*''] \<rparr>"

lemma preferences_respected_witness:
  "in_pool sample_preferences (sample_route ''venice/a'' 3 1)"
proof -
  have "routing_allowed (applyRoutingPreferences sample_body sample_preferences) (sample_route ''venice/a'' 3 1)"
    by code_simp
  from preferences_respected [OF this] show ?thesis
    by (simp add: sample_body_def routing_of_def NO_ROUTING_def)
qed

end
