(* ===== verification/ContentReceipts.thy ===== *)
theory ContentReceipts
  imports OpaqueReceipt
begin

section \<open>The receipt store of the relay (inference/contentReceipts.ts)\<close>

text \<open>
  The bounded store of exact wire hashes. The \<open>Map\<close> is its entries in insertion order. The clock is read three
  times by a write (for the two stamps and for the sweep) and once by a read; the readings are arguments, as
  are the random bytes of a new identifier.
\<close>

subsection \<open>State and operations\<close>

record receipt_binding =
  rb_providerName :: string
  rb_externalModelId :: string
  rb_routeId :: string
  rb_canonicalModelId :: "string option"
  rb_providerRequestId :: string
  rb_requestHash :: string
  rb_responseHash :: string

record content_receipt =
  ct_opaqueReceiptId :: string
  ct_binding :: receipt_binding
  ct_recordedAtMs :: int
  ct_expiresAtMs :: int

record receipt_store =
  rs_entries :: "(string \<times> content_receipt) list"
  rs_maxEntries :: int
  rs_ttlMs :: int

definition DEFAULT_MAX_ENTRIES :: int where
  "DEFAULT_MAX_ENTRIES = 20000"

definition DEFAULT_TTL_MS :: int where
  "DEFAULT_TTL_MS = 60 * 60 * 1000"

definition new_receipt_store :: "int option \<Rightarrow> int option \<Rightarrow> receipt_store" where
  "new_receipt_store maxEntries ttlMs =
     \<lparr> rs_entries = [], rs_maxEntries = (case maxEntries of None \<Rightarrow> DEFAULT_MAX_ENTRIES | Some n \<Rightarrow> n),
       rs_ttlMs = (case ttlMs of None \<Rightarrow> DEFAULT_TTL_MS | Some n \<Rightarrow> n) \<rparr>"

record clock_readings =
  at_recorded :: int
  at_expiry :: int
  at_sweep :: int

definition sweep :: "int \<Rightarrow> (string \<times> content_receipt) list \<Rightarrow> (string \<times> content_receipt) list" where
  "sweep now entries = dropWhile (\<lambda>(i, r). ct_expiresAtMs r \<le> now) entries"

definition evict :: "int \<Rightarrow> (string \<times> content_receipt) list \<Rightarrow> (string \<times> content_receipt) list" where
  "evict maxEntries entries = drop (length entries - nat maxEntries) entries"

definition delete_receipt ::
    "string \<Rightarrow> (string \<times> content_receipt) list \<Rightarrow> (string \<times> content_receipt) list" where
  "delete_receipt i entries = filter (\<lambda>(j, r). j \<noteq> i) entries"

definition put_receipt :: "content_receipt \<Rightarrow> int \<Rightarrow> receipt_store \<Rightarrow> receipt_store result" where
  "put_receipt receipt now s =
     (let b = ct_binding receipt in
      if \<not> looksLikeExactContentHash (rb_requestHash b) \<or> \<not> looksLikeExactContentHash (rb_responseHash b)
      then Inl (Thrown ''Error'')
      else
        let i = ct_opaqueReceiptId receipt;
            swept = sweep now (rs_entries s);
            appended = delete_receipt i swept @ [(i, receipt)]
        in Inr (s\<lparr> rs_entries := evict (rs_maxEntries s) appended \<rparr>))"

definition receipt_of :: "string \<Rightarrow> receipt_binding \<Rightarrow> clock_readings \<Rightarrow> receipt_store \<Rightarrow> content_receipt" where
  "receipt_of i b t s =
     \<lparr> ct_opaqueReceiptId = i, ct_binding = b, ct_recordedAtMs = at_recorded t,
       ct_expiresAtMs = at_expiry t + rs_ttlMs s \<rparr>"

definition record_receipt ::
    "nat list \<Rightarrow> receipt_binding \<Rightarrow> clock_readings \<Rightarrow> receipt_store \<Rightarrow> (receipt_store \<times> string) result" where
  "record_receipt raw b t s =
     (let i = mintOpaqueReceiptId raw
      in and_then (put_receipt (receipt_of i b t s) (at_sweep t) s) (\<lambda>s'. Inr (s', i)))"

definition recordUnder ::
    "string \<Rightarrow> receipt_binding \<Rightarrow> clock_readings \<Rightarrow> receipt_store \<Rightarrow> receipt_store result" where
  "recordUnder i b t s =
     (if \<not> isOpaqueReceiptId i then Inl (Thrown ''Error'')
      else put_receipt (receipt_of i b t s) (at_sweep t) s)"

definition get_receipt :: "string \<Rightarrow> int \<Rightarrow> receipt_store \<Rightarrow> receipt_store \<times> content_receipt option" where
  "get_receipt i now s =
     (case map_of (rs_entries s) i of
        None \<Rightarrow> (s, None)
      | Some r \<Rightarrow>
          if ct_expiresAtMs r \<le> now
          then (s\<lparr> rs_entries := delete_receipt i (rs_entries s) \<rparr>, None)
          else (s, Some r))"

definition store_size :: "receipt_store \<Rightarrow> nat" where
  "store_size s = length (rs_entries s)"

subsection \<open>Histories\<close>

datatype receipt_op =
    PutOp string receipt_binding clock_readings
  | GetOp string int

text \<open>A write under a minted or given identifier; one that is refused leaves the store as it is.\<close>

definition receipt_step :: "receipt_op \<Rightarrow> receipt_store \<Rightarrow> receipt_store" where
  "receipt_step op s =
     (case op of
        PutOp i b t \<Rightarrow> (case put_receipt (receipt_of i b t s) (at_sweep t) s of Inl e \<Rightarrow> s | Inr s' \<Rightarrow> s')
      | GetOp i now \<Rightarrow> fst (get_receipt i now s))"

subsection \<open>The store is bounded and binds something\<close>

definition store_ok :: "receipt_store \<Rightarrow> bool" where
  "store_ok s \<longleftrightarrow> distinct (map fst (rs_entries s)) \<and> length (rs_entries s) \<le> nat (rs_maxEntries s)
     \<and> (\<forall>(i, r) \<in> set (rs_entries s). ct_opaqueReceiptId r = i
          \<and> looksLikeExactContentHash (rb_requestHash (ct_binding r))
          \<and> looksLikeExactContentHash (rb_responseHash (ct_binding r)))"

lemma distinct_fst_filter: "distinct (map fst xs) \<Longrightarrow> distinct (map fst (filter P xs))"
  by (induction xs) auto

lemma sweep_suffix: "\<exists>pre. xs = pre @ sweep now xs"
  unfolding sweep_def by (metis takeWhile_dropWhile_id)

lemma put_cases:
  assumes "put_receipt r now s = Inr s'"
  obtains kept where "rs_entries s' = evict (rs_maxEntries s) (delete_receipt (ct_opaqueReceiptId r) kept @ [(ct_opaqueReceiptId r, r)])"
    and "\<exists>pre. rs_entries s = pre @ kept" and "kept = sweep now (rs_entries s)"
    and "rs_maxEntries s' = rs_maxEntries s" and "rs_ttlMs s' = rs_ttlMs s"
    and "looksLikeExactContentHash (rb_requestHash (ct_binding r))"
    and "looksLikeExactContentHash (rb_responseHash (ct_binding r))"
  using assms sweep_suffix [of "rs_entries s" now]
  by (auto simp: put_receipt_def Let_def split: if_splits)

lemma put_ok:
  assumes "put_receipt r now s = Inr s'" and "store_ok s"
  shows "store_ok s'"
proof (rule put_cases [OF assms(1)])
  fix kept
  assume e: "rs_entries s' = evict (rs_maxEntries s)
        (delete_receipt (ct_opaqueReceiptId r) kept @ [(ct_opaqueReceiptId r, r)])"
    and suf: "\<exists>pre. rs_entries s = pre @ kept" and m: "rs_maxEntries s' = rs_maxEntries s"
    and h: "looksLikeExactContentHash (rb_requestHash (ct_binding r))"
      "looksLikeExactContentHash (rb_responseHash (ct_binding r))"
  let ?all = "delete_receipt (ct_opaqueReceiptId r) kept @ [(ct_opaqueReceiptId r, r)]"
  from suf obtain pre where pre: "rs_entries s = pre @ kept" by blast
  have "distinct (map fst kept)" using assms(2) pre by (simp add: store_ok_def)
  then have d: "distinct (map fst ?all)"
    by (auto simp: delete_receipt_def distinct_fst_filter)
  then have "distinct (map fst (rs_entries s'))"
    unfolding e evict_def drop_map [symmetric] by (rule distinct_drop)
  moreover have "length (rs_entries s') \<le> nat (rs_maxEntries s')"
    unfolding e m evict_def by simp
  moreover have "set (rs_entries s') \<subseteq> insert (ct_opaqueReceiptId r, r) (set (rs_entries s))"
  proof -
    have "set (rs_entries s') \<subseteq> set ?all" unfolding e evict_def by (rule set_drop_subset)
    also have "\<dots> \<subseteq> insert (ct_opaqueReceiptId r, r) (set kept)" by (auto simp: delete_receipt_def)
    finally show ?thesis using pre by auto
  qed
  ultimately show "store_ok s'" using assms(2) h unfolding store_ok_def by blast
qed

lemma get_ok: "store_ok s \<Longrightarrow> store_ok (fst (get_receipt i now s))"
  by (auto simp: get_receipt_def store_ok_def delete_receipt_def distinct_fst_filter
      intro: le_trans [OF length_filter_le] split: option.split)

interpretation receipts: invariant_run receipt_step "\<lambda>op. True" store_ok
  by unfold_locales (auto simp: receipt_step_def get_ok split: receipt_op.split sum.split dest: put_ok)

text \<open>
  Over any history of writes and reads, at any clock readings, the store never holds more than its bound, holds
  each identifier once, and every receipt it returns is one recorded under that very identifier, with two
  exact SHA-256 digests, before its expiry.
\<close>

theorem receipt_store_bounded:
  assumes "0 \<le> maxEntries"
  shows "let s = fold receipt_step ops (new_receipt_store (Some maxEntries) ttl) in
    int (store_size s) \<le> maxEntries
    \<and> (\<forall>i now r. snd (get_receipt i now s) = Some r \<longrightarrow> ct_opaqueReceiptId r = i \<and> now < ct_expiresAtMs r
         \<and> looksLikeExactContentHash (rb_requestHash (ct_binding r))
         \<and> looksLikeExactContentHash (rb_responseHash (ct_binding r)))"
proof -
  let ?s = "fold receipt_step ops (new_receipt_store (Some maxEntries) ttl)"
  have ok: "store_ok ?s"
    by (rule receipts.run_inv) (simp_all add: store_ok_def new_receipt_store_def list_all_iff)
  have "rs_maxEntries (fold receipt_step ops s) = rs_maxEntries s" for s
  proof (induction ops arbitrary: s)
    case (Cons op ops)
    have "rs_maxEntries (receipt_step op s) = rs_maxEntries s"
      by (auto simp: receipt_step_def get_receipt_def put_receipt_def Let_def
          split: receipt_op.split sum.split option.split if_splits)
    with Cons show ?case by simp
  qed simp
  then have "rs_maxEntries ?s = maxEntries" by (simp add: new_receipt_store_def)
  with ok assms show ?thesis
    by (fastforce simp: Let_def store_size_def store_ok_def get_receipt_def not_le
        split: option.splits if_splits dest: map_of_SomeD)
qed

subsection \<open>A receipt stays until its time or its turn\<close>

definition held :: "string \<Rightarrow> content_receipt \<Rightarrow> nat \<Rightarrow> receipt_store \<Rightarrow> bool" where
  "held i r k s \<longleftrightarrow> (\<exists>pre post. rs_entries s = pre @ (i, r) # post
     \<and> i \<notin> fst ` set pre \<and> i \<notin> fst ` set post \<and> length post \<le> k)"

lemma held_lookup: "held i r k s \<Longrightarrow> map_of (rs_entries s) i = Some r"
proof -
  assume "held i r k s"
  then obtain pre post where "rs_entries s = pre @ (i, r) # post" "i \<notin> fst ` set pre" by (auto simp: held_def)
  then show ?thesis by (simp add: map_add_def map_of_eq_None_iff [THEN iffD2])
qed

lemma sweep_stops:
  assumes "now < ct_expiresAtMs r"
  shows "\<exists>pre'. sweep now (pre @ (i, r) # post) = pre' @ (i, r) # post \<and> set pre' \<subseteq> set pre"
  using assms by (induction pre) (auto simp: sweep_def)

lemma evict_keeps:
  assumes "Suc (length post) \<le> nat m"
  shows "\<exists>pre'. evict m (pre @ x # post) = pre' @ x # post \<and> set pre' \<subseteq> set pre"
proof -
  have "length (pre @ x # post) - nat m \<le> length pre" using assms by simp
  then have "evict m (pre @ x # post) = drop (length (pre @ x # post) - nat m) pre @ x # post"
    by (simp add: evict_def)
  then show ?thesis by (intro exI conjI) (assumption, rule set_drop_subset)
qed

lemma held_put:
  assumes "put_receipt x now s = Inr s'" and "held i r k s" and "ct_opaqueReceiptId x \<noteq> i"
    and "now < ct_expiresAtMs r" and "Suc (Suc k) \<le> nat (rs_maxEntries s)"
  shows "held i r (Suc k) s' \<and> rs_maxEntries s' = rs_maxEntries s"
proof (rule put_cases [OF assms(1)])
  fix kept
  let ?j = "ct_opaqueReceiptId x"
  assume e: "rs_entries s' = evict (rs_maxEntries s) (delete_receipt ?j kept @ [(?j, x)])"
    and kept: "kept = sweep now (rs_entries s)" and m: "rs_maxEntries s' = rs_maxEntries s"
  from assms(2) obtain pre post where split: "rs_entries s = pre @ (i, r) # post"
      "i \<notin> fst ` set pre" "i \<notin> fst ` set post" "length post \<le> k" by (auto simp: held_def)
  from sweep_stops [OF assms(4), of pre i post] obtain pre1
    where pre1: "kept = pre1 @ (i, r) # post" "set pre1 \<subseteq> set pre" unfolding kept split(1) by blast
  let ?post = "delete_receipt ?j post @ [(?j, x)]"
  have all: "delete_receipt ?j kept @ [(?j, x)] = delete_receipt ?j pre1 @ (i, r) # ?post"
    using assms(3) by (simp add: pre1(1) delete_receipt_def)
  have short: "length ?post \<le> Suc k"
    using le_trans [OF length_filter_le split(4)] by (simp add: delete_receipt_def)
  with assms(5) have "Suc (length ?post) \<le> nat (rs_maxEntries s)" by linarith
  from evict_keeps [OF this, of "delete_receipt ?j pre1" "(i, r)"] obtain pre2
    where pre2: "rs_entries s' = pre2 @ (i, r) # ?post" "set pre2 \<subseteq> set (delete_receipt ?j pre1)"
    unfolding e all by blast
  have "i \<notin> fst ` set pre2"
  proof
    assume "i \<in> fst ` set pre2"
    with pre2(2) pre1(2) have "i \<in> fst ` set pre" by (auto simp: delete_receipt_def)
    with split(2) show False by simp
  qed
  moreover have "i \<notin> fst ` set ?post" using split(3) assms(3) by (auto simp: delete_receipt_def)
  ultimately show ?thesis using pre2(1) short m unfolding held_def by blast
qed

lemma held_get:
  assumes "held i r k s" and "now < ct_expiresAtMs r"
  shows "held i r k (fst (get_receipt j now s))"
proof (cases "j = i")
  case True
  with held_lookup [OF assms(1)] assms show ?thesis by (simp add: get_receipt_def)
next
  case False
  from assms(1) obtain pre post where split: "rs_entries s = pre @ (i, r) # post"
      "i \<notin> fst ` set pre" "i \<notin> fst ` set post" "length post \<le> k" by (auto simp: held_def)
  have "delete_receipt j (rs_entries s) = delete_receipt j pre @ (i, r) # delete_receipt j post"
    using False by (simp add: split(1) delete_receipt_def)
  moreover have "i \<notin> fst ` set (delete_receipt j pre)" "i \<notin> fst ` set (delete_receipt j post)"
      "length (delete_receipt j post) \<le> k"
    using split le_trans [OF length_filter_le] by (auto simp: delete_receipt_def)
  ultimately have "held i r k (s\<lparr> rs_entries := delete_receipt j (rs_entries s) \<rparr>)"
    unfolding held_def by (metis receipt_store.select_convs(1) receipt_store.update_convs(1) receipt_store.surjective)
  then show ?thesis using assms(1) by (auto simp: get_receipt_def split: option.split)
qed

fun write_op :: "receipt_op \<Rightarrow> bool" where
  "write_op (PutOp i b t) = True"
| "write_op (GetOp i now) = False"

fun before_expiry :: "string \<Rightarrow> int \<Rightarrow> receipt_op \<Rightarrow> bool" where
  "before_expiry i expiry (PutOp j b t) \<longleftrightarrow> j \<noteq> i \<and> at_sweep t < expiry"
| "before_expiry i expiry (GetOp j now) \<longleftrightarrow> now < expiry"

lemma held_run:
  assumes "held i r k s" and "list_all (before_expiry i (ct_expiresAtMs r)) ops"
    and "k + length (filter write_op ops) < nat (rs_maxEntries s)"
  shows "\<exists>k'. held i r k' (fold receipt_step ops s)"
  using assms
proof (induction ops arbitrary: k s)
  case (Cons op ops)
  show ?case
  proof (cases op)
    case (GetOp j now)
    have "rs_maxEntries (receipt_step op s) = rs_maxEntries s"
      by (auto simp: receipt_step_def get_receipt_def GetOp split: option.split)
    with Cons.prems Cons.IH [of k "receipt_step op s"] held_get [of i r k s now j] GetOp show ?thesis
      by (simp add: receipt_step_def)
  next
    case (PutOp j b t)
    let ?x = "receipt_of j b t s"
    show ?thesis
    proof (cases "put_receipt ?x (at_sweep t) s")
      case (Inl e)
      with Cons.prems Cons.IH [of k s] PutOp show ?thesis by (simp add: receipt_step_def)
    next
      case (Inr s')
      have "held i r (Suc k) s' \<and> rs_maxEntries s' = rs_maxEntries s"
        using Cons.prems PutOp by (intro held_put [OF Inr]) (simp_all add: receipt_of_def)
      with Cons.prems Cons.IH [of "Suc k" s'] PutOp Inr show ?thesis by (simp add: receipt_step_def)
    qed
  qed
qed auto

text \<open>
  C37. A recorded receipt is found: once a write has succeeded, and until the receipt's expiry, any history of
  reads, which cannot extend or shorten its life, and of fewer writes under other identifiers than the store has
  room for leaves it retrievable, with the binding that was recorded.
\<close>

theorem receipt_survives:
  assumes "put_receipt (receipt_of i b t s) (at_sweep t) s = Inr s0"
    and "list_all (before_expiry i (at_expiry t + rs_ttlMs s)) ops"
    and "int (length (filter write_op ops)) < rs_maxEntries s"
    and "now < at_expiry t + rs_ttlMs s"
  shows "snd (get_receipt i now (fold receipt_step ops s0)) = Some (receipt_of i b t s)"
proof -
  let ?r = "receipt_of i b t s"
  have id: "ct_opaqueReceiptId ?r = i" and expiry: "ct_expiresAtMs ?r = at_expiry t + rs_ttlMs s"
    by (simp_all add: receipt_of_def)
  have m: "rs_maxEntries s0 = rs_maxEntries s" and "held i ?r 0 s0"
  proof -
    show "rs_maxEntries s0 = rs_maxEntries s" using put_cases [OF assms(1)] by metis
    from put_cases [OF assms(1)] obtain kept
      where e: "rs_entries s0 = evict (rs_maxEntries s) (delete_receipt i kept @ [(i, ?r)])" unfolding id by metis
    have "Suc (length ([] :: (string \<times> content_receipt) list)) \<le> nat (rs_maxEntries s)" using assms(3) by simp
    from evict_keeps [OF this, of "delete_receipt i kept" "(i, ?r)"] obtain pre
      where "rs_entries s0 = pre @ [(i, ?r)]" "set pre \<subseteq> set (delete_receipt i kept)" unfolding e by blast
    then show "held i ?r 0 s0" by (fastforce simp: held_def delete_receipt_def)
  qed
  moreover have "0 + length (filter write_op ops) < nat (rs_maxEntries s0)" using assms(3) m by linarith
  ultimately obtain k where "held i ?r k (fold receipt_step ops s0)"
    using held_run [of i ?r 0 s0 ops] assms(2) expiry by auto
  from held_lookup [OF this] show ?thesis using assms(4) expiry by (simp add: get_receipt_def)
qed

subsection \<open>Witnesses\<close>

definition sample_hash :: string where
  "sample_hash = replicate 64 (CHR ''a'')"

lemma sample_hash_exact: "looksLikeExactContentHash sample_hash"
  by (simp add: looksLikeExactContentHash_def sample_hash_def list_all_iff is_hex_char_def)

definition sample_binding :: receipt_binding where
  "sample_binding = \<lparr> rb_providerName = ''p'', rb_externalModelId = ''m'', rb_routeId = ''p/m'',
     rb_canonicalModelId = None, rb_providerRequestId = ''r'', rb_requestHash = sample_hash,
     rb_responseHash = sample_hash \<rparr>"

definition sample_clock :: "int \<Rightarrow> clock_readings" where
  "sample_clock n = \<lparr> at_recorded = n, at_expiry = n, at_sweep = n \<rparr>"

lemma receipt_store_bounded_witness:
  "store_size (fold receipt_step [PutOp ''i'' sample_binding (sample_clock 1)] (new_receipt_store (Some 1) None)) \<le> 1"
  using receipt_store_bounded [of 1 "[PutOp ''i'' sample_binding (sample_clock 1)]" None] by (simp add: Let_def)

lemma receipt_survives_witness:
  "\<exists>s0. put_receipt (receipt_of ''i'' sample_binding (sample_clock 1) (new_receipt_store (Some 2) None)) 1
       (new_receipt_store (Some 2) None) = Inr s0
     \<and> snd (get_receipt ''i'' 5 (fold receipt_step [PutOp ''j'' sample_binding (sample_clock 2), GetOp ''i'' 3] s0))
       = Some (receipt_of ''i'' sample_binding (sample_clock 1) (new_receipt_store (Some 2) None))"
proof -
  let ?s = "new_receipt_store (Some 2) None"
  obtain s0 where s0: "put_receipt (receipt_of ''i'' sample_binding (sample_clock 1) ?s) (at_sweep (sample_clock 1)) ?s = Inr s0"
    by (simp add: put_receipt_def receipt_of_def sample_binding_def sample_hash_exact Let_def)
  have "list_all (before_expiry ''i'' (at_expiry (sample_clock 1) + rs_ttlMs ?s))
      [PutOp ''j'' sample_binding (sample_clock 2), GetOp ''i'' 3]"
    and "int (length (filter write_op [PutOp ''j'' sample_binding (sample_clock 2), GetOp ''i'' 3])) < rs_maxEntries ?s"
    and "5 < at_expiry (sample_clock 1) + rs_ttlMs ?s"
    by (simp_all add: sample_clock_def new_receipt_store_def DEFAULT_TTL_MS_def)
  from receipt_survives [OF s0 this] s0 show ?thesis by (simp add: sample_clock_def)
qed

end
