(* ===== verification/Spec2Isabelle.thy ===== *)
theory Spec2Isabelle
  imports Money Metering OpaqueReceipt Plans WalletRun Fences KeyCap BucketSpec LeaseSpec CapacitySpec
    Circuit ProviderPolicy RoutingSpec CborSpec CapabilitySpec KeyStoreSpec AdminRefusals
    GatewayExample TicketSpec Rejections RelayResponse RelayTotal
    SelectorSpec Preferences ContentReceipts
begin

section \<open>The confidential content plane\<close>

text \<open>
  The program (TypeScript, under \<open>src/src\<close>) is the plane of an inference router that holds request
  content. A client buys a single-use ticket, sends its request to a relay inside an attested virtual
  machine, and the relay asks a control plane, which knows the account but never the content, to
  reserve, settle or release the cost. A worker that holds the provider credentials forwards the
  request. The parts and how they interact:

  \<^item> the client checks the machine it talks to (\<open>gateway/\<close>, \<open>providers/attestation/checks.ts\<close>,
    \<open>providers/attestation/tdxQuote.ts\<close>) before it sends anything;
  \<^item> a ticket (\<open>inference/tickets.ts\<close>) binds model, policy, reasoning and limits; the relay
    (\<open>routes/chat.ts\<close>) redeems it, compares the request with it, and chooses a model for an automatic
    request (\<open>routing/\<close>);
  \<^item> the control plane checks rate limits and concurrency (\<open>rate-limit/limiter.ts\<close> over the scripts of
    \<open>observability/valkey.ts\<close>), the plan and daily budget (\<open>rate-limit/plans.ts\<close>), plans the bounded list of
    provider attempts (\<open>providers/routing/\<close>), holds the worst cost and settles it (\<open>metering/\<close>);
  \<^item> the worker guards each provider by a breaker (\<open>providers/circuitBreaker.ts\<close>), reads its stream
    (\<open>providers/sse.ts\<close>) and holds its keys (\<open>providers/veniceKeyStore.ts\<close>), which an operator changes
    with signed single-use capabilities (\<open>providers/credentials/capability.ts\<close>,
    \<open>credentials/consumedCapabilities.ts\<close>, \<open>routes/internal/credentialAdmin.ts\<close>).
\<close>

subsection \<open>Theories and sources\<close>

text \<open>
  \<^item> \<open>Prelude\<close>: JavaScript values (\<open>jsval\<close>, numbers as exact rationals with the two infinities and not-a-number),
    errors (\<open>err\<close>, an \<open>AppError\<close> by status and code), the result sum and its sequencing, and the shared lemmas on lists
    and maps. \<open>JsNumber\<close>, \<open>TextCodec\<close>, \<open>Base64Url\<close>: conversions of the language, with read-back lemmas.
  \<^item> \<open>Money\<close> (\<open>metering/money.ts\<close>), \<open>Metering\<close> (\<open>metering/tokens.ts\<close>, \<open>metering/usage.ts\<close>, \<open>metering/e2ee.ts\<close> and what they call),
    \<open>OpaqueReceipt\<close> (\<open>inference/opaqueReceipt.ts\<close>), \<open>Plans\<close> (\<open>rate-limit/plans.ts\<close>).
  \<^item> \<open>Ledger\<close> (rows and tables), \<open>Billing\<close>, \<open>Settlement\<close> (\<open>metering/billing.ts\<close>, one definition per function, a
    transaction is one step). \<open>Wallet\<close>, \<open>WalletRun\<close>: money is conserved over every run. \<open>Fences\<close>: a delivered
    request is never free, a finalization happens once, the sweep settles each row. \<open>KeyCap\<close>: a key never exceeds its cap.
  \<^item> \<open>Valkey\<close> (the Lua scripts), \<open>Limiter\<close>, \<open>LimitPolicies\<close> (\<open>rate-limit/limiter.ts\<close>); \<open>BucketSpec\<close>, \<open>LeaseSpec\<close>,
    \<open>CapacitySpec\<close>: all-or-nothing buckets, the rate bound over a run, the lease limit, the advertised capacity.
  \<^item> \<open>Circuit\<close> (\<open>providers/circuitBreaker.ts\<close>): the breaker as a state record; invariants of its permits.
  \<^item> \<open>ProviderPolicy\<close>, \<open>PublicIdentity\<close>, \<open>RoutingEngine\<close> (\<open>providers/routing/policy.ts\<close>, \<open>providers/publicIdentity.ts\<close>,
    \<open>providers/routing/engine.ts\<close>); \<open>RoutingSpec\<close>: what a plan may contain and why there is none.
  \<^item> \<open>Cbor\<close>, \<open>CborSpec\<close> (\<open>gcp/control/cbor.ts\<close>), \<open>Capability\<close>, \<open>CapabilitySpec\<close>, \<open>ConsumedLog\<close>, \<open>KeyStore\<close>,
    \<open>KeyStoreSpec\<close>, \<open>CredentialAdmin\<close>: encoding, signed capabilities, the log of used ones, the keyset and the endpoint.
    \<open>CredentialAdminSpec\<close>, \<open>KeysetInv\<close>, \<open>AdminRefusals\<close>: single use over restarts and failing writes, the refinement to a map,
    and the decision check by check.
  \<^item> \<open>Checks\<close>, \<open>TdxQuote\<close>, \<open>EventLog\<close>, \<open>GatewayBinding\<close>, \<open>GatewayPolicy\<close>, \<open>AppCompose\<close>, \<open>GatewayVerify\<close> (the files of
    \<open>gateway/\<close> with those names); \<open>EventLogSpec\<close>, \<open>GatewayBindingSpec\<close>, \<open>AppComposeSpec\<close>, \<open>GatewaySpec\<close>: what an accepted
    attestation says. \<open>GatewayExample\<close>: a complete accepted document.
  \<^item> \<open>Tickets\<close>, \<open>TicketSpec\<close> (\<open>inference/tickets.ts\<close>): single use, life times and the round trip of the binding.
  \<^item> \<open>Reasoning\<close> (\<open>inference/reasoning.ts\<close>), \<open>Rejections\<close> (\<open>inference/rejectionTaxonomy.ts\<close>, \<open>providers/providerErrorMeta.ts\<close>),
    \<open>RelayResponse\<close>, \<open>RelayRequest\<close>, \<open>RelayRun\<close> (\<open>routes/chat.ts\<close> and the helpers it calls): the answer, the admission and
    the execution. \<open>RelaySafety\<close>, \<open>RelayEnd\<close>, \<open>RelayTotal\<close>: the billing discipline of every execution, that each ends with a closed
    reservation, and that it ends. \<open>RelaySamples\<close>: two complete executions.
  \<^item> \<open>ContentReceipts\<close> (\<open>inference/contentReceipts.ts\<close>): the bounded store of exact hashes; a recorded receipt survives until
    its expiry or the writes that push it out.
\<close>

subsection \<open>Interfaces\<close>

text \<open>
  Two contracts are shared by the components and stated as locales of \<open>Prelude\<close>, interpreted on the model's own
  definitions: \<open>invariant_run\<close> (steps that keep an invariant under a condition keep it over every run), for the
  wallet, the delivery fence and the key cap over all billing operations, and \<open>comparator\<close> (the laws a comparison function
  owes to \<open>Array.sort\<close>), for the order of routes, of candidate models and of encoded map keys.
\<close>

subsection \<open>Modelling decisions and bounds\<close>

text \<open>
  \<^item> Numbers are exact rationals where the code uses doubles (no rounding, no negative zero); money is integer
    nano-dollars or a multiple of \<open>10^-6\<close> as the code keeps it. Bytes are numbers below 256; strings are 8-bit text except
    where UTF-16 matters (\<open>ustring\<close>).
  \<^item> An error is a value with its status and code; message and detail texts are dropped, except the messages the
    credential endpoint branches on. Log lines, metrics and latencies are dropped.
  \<^item> A database transaction and a Lua script are one step. The schema's defaults, the SQL functions and the clock are
    fields of the environment; the bounds on Valkey take one clock for all callers, which the scripts' use of \<open>TIME\<close> gives.
  \<^item> What is not in the repository is a parameter: SHA-256, SHA-384, SHA-512, Ed25519, \<open>JSON.parse\<close>, \<open>new URL\<close>, the verifier of a
    signature chain, random bytes, the outcome of a file write. Assumptions on them (no collision on two given inputs, the
    read-back of a canonical origin) are hypotheses of the theorems that use them, each with a concrete instance.
  \<^item> The relay runs against \<open>relay_world\<close>: every awaited call is a function of the events so far, so the other parties
    may answer in any way. What the relay does is the list of its events.
  \<^item> Fuel. The CBOR decoder gets the number of its bytes, since each item takes one (\<open>CborSpec.decode_value_fuel\<close>). The loops of
    the relay get one more than the attempts of the plan and the frames of the stream (\<open>RelayTotal.relay_terminates\<close>). All other
    recursion is structural or has a measure.
\<close>

subsection \<open>Not modelled\<close>

text \<open>
  \<^item> Configuration and start-up (\<open>config.ts\<close>, \<open>roles.ts\<close>, \<open>httpBase.ts\<close>, \<open>contentPlane.ts\<close>, \<open>logger.ts\<close>): reading of environment
    variables and wiring; the values they produce are arguments here.
  \<^item> Provider adapters (\<open>providers/venice.ts\<close> and its siblings, \<open>providers/transport.ts\<close>, \<open>inference/workerClient.ts\<close>): HTTP traffic; the
    relay sees them as the answers of the worker.
  \<^item> Catalog import (\<open>providers/catalog\<close>) and the prompt classifier (\<open>routing/classifier.ts\<close>): vendor formats and a trained artifact.
  \<^item> The attestation verifiers of single providers and their evidence sources (\<open>providers/attestation\<close> beyond the files above).
  \<^item> The other routes (embeddings, image, speech, opaque E2EE, compatibility broker, release collateral), which share
    the billing, limiter and ticket operations modelled here.
  \<^item> Deployment files, scripts and tests.
\<close>

end
